(* ===== verification/Prelude.thy ===== *)
theory Prelude
  imports Main "HOL-Library.Char_ord" "HOL-Library.List_Lexorder" "HOL-Library.Multiset"
begin

text \<open>
  Shared vocabulary of the development: the error values of the Go code, the Go library functions
  the sources call on strings and numbers, the table operations every SQL statement is read as,
  and the generic lemmas about them. A Go \<open>string\<close> is a list of bytes (\<^typ>\<open>char\<close> is a byte);
  letters outside ASCII have no case here. A Go \<open>error\<close> result is the left
  summand of a sum type: \<^term>\<open>Inl e\<close> is \<open>return ..., e\<close> and \<^term>\<open>Inr x\<close> is \<open>return x, nil\<close>.
\<close>

named_theorems tbl_simps \<open>rewriting of table operations\<close>
named_theorems go_simps \<open>rewriting of Go library functions\<close>

section \<open>Errors and results\<close>

text \<open>The sentinel errors of the store, the user manager and the control plane. \<open>SqlUnique\<close> is the
  driver's error of a UNIQUE or PRIMARY KEY violation and \<open>SqlNoRows\<close> is \<open>sql.ErrNoRows\<close>; both are
  what the code sees where it does not translate them. \<open>ErrText\<close> stands for an error
  built at the spot with \<open>errors.New\<close> or \<open>fmt.Errorf\<close> without a sentinel.\<close>

datatype err =
    SqlUnique | SqlNoRows
  | ErrAppNotFound | ErrAppNameTaken | ErrUserNotFound | ErrTokenNotFound | ErrKeyNotFound
  | ErrAppDomainNotFound | ErrAppDomainExists | ErrDomainNotFound | ErrSnapshotNotFound
  | ErrConnectionNotFound | ErrConnectionSlugExists | ErrProviderNotFound | ErrProviderExists
  | ErrNodeNotFound | ErrProxyNotFound
  | ErrNotActive | ErrInvalid | ErrForbidden | ErrArchived | ErrAppExists | ErrLimitReached
  | ErrInvalidDomain | ErrPoweredOff | ErrNotExist
  | ErrNoPortsAvailable | ErrInvalidSession | ErrInvalidGrant | NodeNotConnected
  | ErrText string

type_synonym 'a res = "err + 'a"

definition is_ok :: "'a res \<Rightarrow> bool" where
  "is_ok r = (case r of Inl _ \<Rightarrow> False | Inr _ \<Rightarrow> True)"

lemma is_ok_simps [simp]: "is_ok (Inr x)" "\<not> is_ok (Inl e)"
  by (simp_all add: is_ok_def)

lemma is_ok_iff: "is_ok r \<longleftrightarrow> (\<exists>x. r = Inr x)"
  by (cases r) auto

section \<open>Time\<close>

text \<open>A Go \<open>time.Time\<close> at the resolution the registry keeps (whole Unix seconds); \<^term>\<open>None\<close> is the
  zero time, year 1, whose \<open>Unix()\<close> is a large negative number.\<close>

type_synonym gotime = "int option"

definition unix_of :: "gotime \<Rightarrow> int" where
  "unix_of t = (case t of None \<Rightarrow> -62135596800 | Some s \<Rightarrow> s)"

lemma unix_of_Some [simp]: "unix_of (Some s) = s"
  by (simp add: unix_of_def)

section \<open>Strings\<close>

definition is_space :: "char \<Rightarrow> bool" where
  "is_space c = (c \<in> {CHR 0x09, CHR 0x0A, CHR 0x0B, CHR 0x0C, CHR 0x0D, CHR '' ''})"

definition TrimSpace :: "string \<Rightarrow> string" where
  "TrimSpace s = rev (dropWhile is_space (rev (dropWhile is_space s)))"

definition lower_char :: "char \<Rightarrow> char" where
  "lower_char c = (let n = of_char c :: nat in if 65 \<le> n \<and> n \<le> 90 then char_of (n + 32) else c)"

definition ToLower :: "string \<Rightarrow> string" where
  "ToLower s = map lower_char s"

definition HasPrefix :: "string \<Rightarrow> string \<Rightarrow> bool" where
  "HasPrefix s p = (take (length p) s = p)"

definition HasSuffix :: "string \<Rightarrow> string \<Rightarrow> bool" where
  "HasSuffix s p = (length p \<le> length s \<and> drop (length s - length p) s = p)"

definition TrimPrefix :: "string \<Rightarrow> string \<Rightarrow> string" where
  "TrimPrefix s p = (if HasPrefix s p then drop (length p) s else s)"

definition TrimSuffix :: "string \<Rightarrow> string \<Rightarrow> string" where
  "TrimSuffix s p = (if HasSuffix s p then take (length s - length p) s else s)"

text \<open>\<open>strings.Split(s, sep)\<close> and \<open>strings.Join(parts, sep)\<close> for a one-byte separator.\<close>

fun split_on :: "char \<Rightarrow> string \<Rightarrow> string list" where
  "split_on c [] = [[]]"
| "split_on c (x # xs) =
     (if x = c then [] # split_on c xs
      else (case split_on c xs of [] \<Rightarrow> [[x]] | p # ps \<Rightarrow> (x # p) # ps))"

fun join_with :: "char \<Rightarrow> string list \<Rightarrow> string" where
  "join_with c [] = []"
| "join_with c [p] = p"
| "join_with c (p # q # ps) = p @ c # join_with c (q # ps)"

text \<open>\<open>strings.Fields\<close>, with the word read so far.\<close>

fun Fields_aux :: "string \<Rightarrow> string \<Rightarrow> string list" where
  "Fields_aux cur [] = (if cur = [] then [] else [cur])"
| "Fields_aux cur (c # s) = (if is_space c then (if cur = [] then Fields_aux [] s else cur # Fields_aux [] s) else Fields_aux (cur @ [c]) s)"

lemma split_on_neq_Nil [simp]: "split_on c s \<noteq> []"
  by (induction s) (auto split: list.splits)

lemma join_with_Cons: "ps \<noteq> [] \<Longrightarrow> join_with c (p # ps) = p @ c # join_with c ps"
  by (cases ps) auto

lemma join_split [simp]: "join_with c (split_on c s) = s"
proof (induction s)
  case Nil
  then show ?case by simp
next
  case (Cons x xs)
  then show ?case
    by (cases "split_on c xs"; cases "tl (split_on c xs)") (auto simp: join_with_Cons)
qed

lemma split_on_no_sep: "c \<notin> set s \<Longrightarrow> split_on c s = [s]"
  by (induction s) auto

lemma split_on_append: "c \<notin> set p \<Longrightarrow> split_on c (p @ c # s) = p # split_on c s"
  by (induction p) (auto split: list.splits)

lemma split_on_parts: "p \<in> set (split_on c s) \<Longrightarrow> c \<notin> set p"
  by (induction s arbitrary: p) (auto split: list.splits if_splits)

lemma split_join:
  assumes "ps \<noteq> []" and "\<forall>p \<in> set ps. c \<notin> set p"
  shows "split_on c (join_with c ps) = ps"
  using assms
proof (induction ps)
  case Nil
  then show ?case by simp
next
  case (Cons p ps)
  then show ?case
    by (cases ps) (auto simp: split_on_no_sep split_on_append)
qed

lemma HasPrefix_append [simp]: "HasPrefix (p @ s) p"
  by (simp add: HasPrefix_def)

lemma HasPrefix_iff: "HasPrefix s p \<longleftrightarrow> (\<exists>t. s = p @ t)"
  by (metis HasPrefix_append HasPrefix_def append_take_drop_id)

lemma TrimPrefix_append [simp]: "TrimPrefix (p @ s) p = s"
  by (simp add: TrimPrefix_def)

lemma HasSuffix_append [simp]: "HasSuffix (s @ p) p"
  by (simp add: HasSuffix_def)

lemma HasSuffix_iff: "HasSuffix s p \<longleftrightarrow> (\<exists>t. s = t @ p)"
  by (metis HasSuffix_append HasSuffix_def append_take_drop_id)

lemma TrimSuffix_append [simp]: "TrimSuffix (s @ p) p = s"
  by (simp add: TrimSuffix_def)

lemma lower_char_idem [simp]: "lower_char (lower_char c) = lower_char c"
  by (auto simp: lower_char_def Let_def)

lemma ToLower_idem [simp]: "ToLower (ToLower s) = ToLower s"
  by (simp add: ToLower_def)

lemma is_space_code: "is_space c \<longleftrightarrow> (of_char c :: nat) \<in> {9, 10, 11, 12, 13, 32}"
proof -
  have "c = d \<longleftrightarrow> (of_char c :: nat) = of_char d" for d :: char
    by simp
  then show ?thesis
    by (simp only: is_space_def insert_iff empty_iff) simp
qed

lemma of_char_lower:
  "(of_char (lower_char c) :: nat) =
     (if 65 \<le> (of_char c :: nat) \<and> (of_char c :: nat) \<le> 90 then of_char c + 32 else of_char c)"
  by (auto simp: lower_char_def Let_def)

lemma is_space_lower [simp]: "is_space (lower_char c) = is_space c"
  by (auto simp: is_space_code of_char_lower)

lemma dropWhile_space_lower:
  "dropWhile is_space (map lower_char s) = map lower_char (dropWhile is_space s)"
  by (induction s) auto

lemma TrimSpace_ToLower: "TrimSpace (ToLower s) = ToLower (TrimSpace s)"
  by (simp add: TrimSpace_def ToLower_def dropWhile_space_lower rev_map)

lemma dropWhile_idem: "dropWhile P (dropWhile P xs) = dropWhile P xs"
  by (induction xs) auto

lemma hd_dropWhile_not: "dropWhile P xs \<noteq> [] \<Longrightarrow> \<not> P (hd (dropWhile P xs))"
  by (induction xs) auto

lemma TrimSpace_idem [simp]: "TrimSpace (TrimSpace s) = TrimSpace s"
proof -
  let ?a = "dropWhile is_space s"
  let ?b = "dropWhile is_space (rev ?a)"
  have "dropWhile is_space (rev ?b) = rev ?b"
  proof (cases "?b = []")
    case True
    show ?thesis unfolding True by simp
  next
    case False
    obtain pre where pre: "rev ?a = pre @ ?b"
      by (metis takeWhile_dropWhile_id)
    then have "?a = rev ?b @ rev pre" by (metis rev_append rev_rev_ident)
    then have "hd (rev ?b) = hd ?a" and "?a \<noteq> []"
      using False by (metis hd_append2 rev_is_Nil_conv, metis append_is_Nil_conv rev_is_Nil_conv)
    then have "\<not> is_space (hd (rev ?b))" by (metis hd_dropWhile_not)
    with False show ?thesis by (cases "rev ?b") auto
  qed
  then show ?thesis by (simp add: TrimSpace_def dropWhile_idem)
qed

section \<open>Decimal numbers\<close>

text \<open>\<open>strconv.Itoa\<close>/\<open>%d\<close> and \<open>strconv.Atoi\<close>/\<open>ParseInt(s, 10, 64)\<close>: an optional sign, at least one
  digit, and a value that fits in 64 bits.\<close>

fun show_nat :: "nat \<Rightarrow> string" where
  "show_nat n = (if n < 10 then [char_of (48 + n)] else show_nat (n div 10) @ [char_of (48 + n mod 10)])"

declare show_nat.simps [simp del]

definition itoa :: "int \<Rightarrow> string" where
  "itoa i = (if i < 0 then CHR ''-'' # show_nat (nat (- i)) else show_nat (nat i))"

definition is_digit :: "char \<Rightarrow> bool" where
  "is_digit c = (let n = of_char c :: nat in 48 \<le> n \<and> n \<le> 57)"

definition digits_val :: "string \<Rightarrow> nat" where
  "digits_val s = foldl (\<lambda>v c. v * 10 + (of_char c - 48)) 0 s"

definition fits64 :: "int \<Rightarrow> bool" where
  "fits64 i = (- (2 ^ 63) \<le> i \<and> i < 2 ^ 63)"

definition parse_int :: "string \<Rightarrow> int option" where
  "parse_int s =
     (let neg = (s \<noteq> [] \<and> hd s = CHR ''-'');
          ds = (if s \<noteq> [] \<and> (hd s = CHR ''-'' \<or> hd s = CHR ''+'') then tl s else s);
          v = (if neg then - int (digits_val ds) else int (digits_val ds))
      in if ds \<noteq> [] \<and> list_all is_digit ds \<and> fits64 v then Some v else None)"

lemma show_nat_digits: "list_all is_digit (show_nat n) \<and> show_nat n \<noteq> []"
proof (induction n rule: show_nat.induct)
  case (1 n)
  have d: "is_digit (char_of (48 + k))" if "k < 10" for k :: nat
    using that by (simp add: is_digit_def Let_def)
  show ?case
    using 1 d by (cases "n < 10") (simp_all add: show_nat.simps[of n])
qed

lemma digits_val_show_nat: "digits_val (show_nat n) = n"
proof (induction n rule: show_nat.induct)
  case (1 n)
  have c: "(of_char (char_of (48 + k) :: char) :: nat) = 48 + k" if "k < 10" for k :: nat
    using that by simp
  show ?case
  proof (cases "n < 10")
    case True
    then show ?thesis by (simp add: show_nat.simps[of n] digits_val_def)
  next
    case False
    with 1 have "digits_val (show_nat (n div 10)) = n div 10" by simp
    with False show ?thesis
      using c[of "n mod 10"] by (simp add: show_nat.simps[of n] digits_val_def)
  qed
qed

lemma is_digit_not_sign: "is_digit c \<Longrightarrow> c \<noteq> CHR ''-'' \<and> c \<noteq> CHR ''+'' \<and> c \<noteq> CHR ''|'' \<and> c \<noteq> CHR '':''"
  by (auto simp: is_digit_def Let_def)

lemma hd_show_nat: "is_digit (hd (show_nat n))"
  using show_nat_digits[of n] by (cases "show_nat n") auto

lemma parse_itoa [simp]: "fits64 i \<Longrightarrow> parse_int (itoa i) = Some i"
  using show_nat_digits[of "nat i"] show_nat_digits[of "nat (- i)"]
    is_digit_not_sign[OF hd_show_nat[of "nat i"]]
  by (auto simp: parse_int_def itoa_def Let_def digits_val_show_nat)

lemma itoa_no_bar: "CHR ''|'' \<notin> set (itoa i)" "CHR '':'' \<notin> set (itoa i)"
  using show_nat_digits[of "nat i"] show_nat_digits[of "nat (- i)"]
  by (auto simp: itoa_def list_all_iff dest: is_digit_not_sign)

section \<open>Tables\<close>

text \<open>A SQL table is the list of its rows in insertion order. \<open>UPDATE\<close> and \<open>DELETE\<close> touch the rows a
  predicate selects; \<open>affected\<close> is the statement's row count.\<close>

definition tbl_update :: "('r \<Rightarrow> bool) \<Rightarrow> ('r \<Rightarrow> 'r) \<Rightarrow> 'r list \<Rightarrow> 'r list" where
  "tbl_update P f t = map (\<lambda>r. if P r then f r else r) t"

definition tbl_delete :: "('r \<Rightarrow> bool) \<Rightarrow> 'r list \<Rightarrow> 'r list" where
  "tbl_delete P t = filter (\<lambda>r. \<not> P r) t"

definition affected :: "('r \<Rightarrow> bool) \<Rightarrow> 'r list \<Rightarrow> nat" where
  "affected P t = length (filter P t)"

definition tbl_find :: "('r \<Rightarrow> bool) \<Rightarrow> 'r list \<Rightarrow> 'r option" where
  "tbl_find P t = List.find P t"

lemma tbl_find_simps [simp]:
  "tbl_find P [] = None"
  "tbl_find P (r # t) = (if P r then Some r else tbl_find P t)"
  by (simp_all add: tbl_find_def)

lemma set_tbl_delete [simp, tbl_simps]: "set (tbl_delete P t) = {r \<in> set t. \<not> P r}"
  by (auto simp: tbl_delete_def)

lemma set_tbl_update [tbl_simps]: "set (tbl_update P f t) = (\<lambda>r. if P r then f r else r) ` set t"
  by (simp add: tbl_update_def)

lemma affected_0 [simp, tbl_simps]: "affected P t = 0 \<longleftrightarrow> (\<forall>r \<in> set t. \<not> P r)"
  by (simp add: affected_def filter_empty_conv)

lemma tbl_find_Some: "tbl_find P t = Some r \<Longrightarrow> r \<in> set t \<and> P r"
  by (induction t) (auto split: if_splits)

lemma tbl_find_None [tbl_simps]: "tbl_find P t = None \<longleftrightarrow> (\<forall>r \<in> set t. \<not> P r)"
  by (induction t) auto

lemma tbl_find_exists: "r \<in> set t \<Longrightarrow> P r \<Longrightarrow> \<exists>r'. tbl_find P t = Some r'"
  by (metis option.exhaust tbl_find_None)

text \<open>A row found through a unique key is the row.\<close>

lemma tbl_find_unique:
  assumes "distinct (map k t)" and "r \<in> set t"
  shows "tbl_find (\<lambda>x. k x = k r) t = Some r"
  using assms by (induction t) auto

lemma tbl_find_key_iff:
  assumes "distinct (map k t)"
  shows "tbl_find (\<lambda>x. k x = v) t = Some r \<longleftrightarrow> r \<in> set t \<and> k r = v"
  using assms tbl_find_Some[of "\<lambda>x. k x = v" t r] tbl_find_unique[of k t r] by auto

lemma distinct_key_eq:
  "distinct (map k t) \<Longrightarrow> r \<in> set t \<Longrightarrow> s \<in> set t \<Longrightarrow> k r = k s \<Longrightarrow> r = s"
  by (metis (mono_tags, lifting) distinct_map inj_onD)

lemma map_tbl_update [tbl_simps]:
  "(\<And>r. P r \<Longrightarrow> k (f r) = k r) \<Longrightarrow> map k (tbl_update P f t) = map k t"
  by (simp add: tbl_update_def)

lemma distinct_tbl_delete [intro]: "distinct (map k t) \<Longrightarrow> distinct (map k (tbl_delete P t))"
  by (simp add: tbl_delete_def distinct_map_filter)

lemma filter_tbl_delete_disjoint:
  "(\<And>r. Q r \<Longrightarrow> \<not> P r) \<Longrightarrow> filter Q (tbl_delete P t) = filter Q t"
  by (induction t) (auto simp: tbl_delete_def)

lemma filter_tbl_update_disjoint:
  "(\<And>r. Q r \<Longrightarrow> \<not> P r) \<Longrightarrow> (\<And>r. P r \<Longrightarrow> \<not> Q (f r)) \<Longrightarrow> filter Q (tbl_update P f t) = filter Q t"
  by (induction t) (auto simp: tbl_update_def)

lemma tbl_find_tbl_delete:
  "(\<And>r. Q r \<Longrightarrow> \<not> P r) \<Longrightarrow> tbl_find Q (tbl_delete P t) = tbl_find Q t"
  by (induction t) (auto simp: tbl_delete_def)

lemma tbl_find_tbl_update:
  "(\<And>r. P r \<Longrightarrow> Q (f r) = Q r) \<Longrightarrow>
   tbl_find Q (tbl_update P f t) = map_option (\<lambda>r. if P r then f r else r) (tbl_find Q t)"
  by (induction t) (auto simp: tbl_update_def)

lemma tbl_find_append:
  "tbl_find Q (t @ u) = (case tbl_find Q t of None \<Rightarrow> tbl_find Q u | Some r \<Rightarrow> Some r)"
  by (induction t) auto

text \<open>\<open>ORDER BY k\<close> keeps the rows and sorts them.\<close>

lemma set_sort_key_rows [simp]: "set (sort_key k t) = set t"
  by simp

end
