(* ===== verification/Calendar.thy ===== *)
theory Calendar
  imports Prelude
begin

text \<open>
  What the retention code uses of Go's \<open>time\<close> and \<open>fmt\<close> packages: the proleptic Gregorian calendar in UTC,
  the ISO week, and zero-padded decimal output. Days are counted from 1 January 1970.
  \<open>year_of\<close> estimates the year from the mean length of a year and corrects it by at most one;
  \<open>year_of_bounds\<close> shows that the day lies in the year it returns.
\<close>

section \<open>Years\<close>

text \<open>The number of days from 1 January of year 1 to 1 January of year \<open>m + 1\<close>.\<close>

definition days_before :: "int \<Rightarrow> int" where
  "days_before m = 365 * m + m div 4 - m div 100 + m div 400"

text \<open>The first day of year \<open>y\<close>.\<close>

definition jan1 :: "int \<Rightarrow> int" where
  "jan1 y = days_before (y - 1) - 719162"

definition year_of :: "int \<Rightarrow> int" where
  "year_of n =
     (let e = (400 * (n + 719162)) div 146097
      in if days_before (e + 1) \<le> n + 719162 then e + 2 else e + 1)"

definition is_leap :: "int \<Rightarrow> bool" where
  "is_leap y = (y mod 4 = 0 \<and> (y mod 100 \<noteq> 0 \<or> y mod 400 = 0))"

lemma div_bounds: "0 < k \<Longrightarrow> k * (m div k) \<le> m \<and> m < k * (m div k) + k" for k :: int
  by (metis mult.commute div_mod_decomp_int add_le_cancel_left pos_mod_bound pos_mod_sign
      add.right_neutral add_strict_left_mono)

lemma days_before_bounds:
  "400 * days_before m \<le> 146097 * m + 396" "146097 * m - 699 \<le> 400 * days_before m"
proof -
  define a b c where "a = m div 4" and "b = m div 100" and "c = m div 400"
  have "4 * a \<le> m" "m < 4 * a + 4" "100 * b \<le> m" "m < 100 * b + 100" "400 * c \<le> m" "m < 400 * c + 400"
    unfolding a_def b_def c_def using div_bounds[of 4 m] div_bounds[of 100 m] div_bounds[of 400 m] by simp_all
  moreover have "days_before m = 365 * m + a - b + c"
    by (simp add: days_before_def a_def b_def c_def)
  ultimately show "400 * days_before m \<le> 146097 * m + 396" "146097 * m - 699 \<le> 400 * days_before m"
    by linarith+
qed

lemma year_of_bounds: "jan1 (year_of n) \<le> n \<and> n < jan1 (year_of n + 1)"
proof -
  define x where "x = n + 719162"
  define e where "e = (400 * x) div 146097"
  have e: "146097 * e \<le> 400 * x" "400 * x < 146097 * e + 146097"
    using div_bounds[of 146097 "400 * x"] by (simp_all add: e_def)
  have lo: "days_before e \<le> x"
    using days_before_bounds(1)[of e] e(1) by linarith
  define z where "z = e + 2"
  have "146097 * z - 699 \<le> 400 * days_before z" "z = e + 2"
    by (rule days_before_bounds(2)) (rule z_def)
  then have hi: "x < days_before z"
    using e(2) by linarith
  have "year_of n = (if days_before (e + 1) \<le> x then e + 2 else e + 1)"
    by (simp add: year_of_def Let_def e_def x_def)
  with lo hi show ?thesis
    by (auto simp: jan1_def x_def z_def add.commute)
qed

lemma days_before_Suc: "days_before m < days_before (m + 1)"
proof -
  define b where "b = m div 100"
  define b' where "b' = (m + 1) div 100"
  define a a' c c' where "a = m div 4" and "a' = (m + 1) div 4" and "c = m div 400" and "c' = (m + 1) div 400"
  have "a \<le> a'" "c \<le> c'"
    by (simp_all add: a_def a'_def c_def c'_def zdiv_mono1)
  moreover have "100 * b' \<le> m + 1" "m < 100 * b + 100"
    unfolding b_def b'_def using div_bounds[of 100 "m + 1"] div_bounds[of 100 m] by simp_all
  ultimately have "365 * m + a - b + c < 365 * m + 365 + a' - b' + c'" by linarith
  then show ?thesis by (simp add: algebra_simps days_before_def a_def a'_def b_def b'_def c_def c'_def)
qed

lemma days_before_mono: "m \<le> k \<Longrightarrow> days_before m \<le> days_before k"
  by (induction k rule: int_ge_induct) (use days_before_Suc order.strict_implies_order order.trans in blast)+

lemma jan1_mono: "y \<le> z \<Longrightarrow> jan1 y \<le> jan1 z"
  using days_before_mono[of "y - 1" "z - 1"] by (simp add: jan1_def)

lemma year_of_mono: "n \<le> m \<Longrightarrow> year_of n \<le> year_of m"
  by (rule ccontr) (use jan1_mono[of "year_of m + 1" "year_of n"] year_of_bounds[of n] year_of_bounds[of m] in linarith)

lemma year_of_pos: "0 \<le> n \<Longrightarrow> 0 < year_of n"
  using year_of_mono[of 0 n] by (simp add: year_of_def days_before_def)

text \<open>Years have 365 or 366 days.\<close>

lemma div_pred: "0 < k \<Longrightarrow> y div k = (y - 1) div k + (if y mod k = 0 then 1 else 0)" for k :: int
proof -
  assume k: "0 < k"
  have y: "y = k * (y div k) + y mod k" by simp
  have r: "0 \<le> y mod k" "y mod k < k" using k by simp_all
  show ?thesis
  proof (cases "y mod k = 0")
    case True
    then have "y - 1 = k * (y div k - 1) + (k - 1)" using y by (simp add: algebra_simps)
    then have "(y - 1) div k = y div k - 1" using k by (metis int_div_pos_eq less_add_one zle_diff1_eq diff_add_cancel zero_less_diff zle_add1_eq_le)
    then show ?thesis using True by simp
  next
    case False
    then have "y - 1 = k * (y div k) + (y mod k - 1)" "0 \<le> y mod k - 1" "y mod k - 1 < k"
      using y r by simp_all
    then have "(y - 1) div k = y div k" by (rule int_div_pos_eq)
    then show ?thesis using False by simp
  qed
qed

lemma mod_dvd_chain: "y mod 100 = 0 \<Longrightarrow> y mod 4 = 0" "y mod 400 = 0 \<Longrightarrow> y mod 100 = 0" for y :: int
  by (auto simp flip: dvd_eq_mod_eq_0 elim: dvd_trans[rotated])

lemma jan1_Suc: "jan1 (y + 1) = jan1 y + (if is_leap y then 366 else 365)"
proof -
  have "y div 4 = (y - 1) div 4 + (if y mod 4 = 0 then 1 else 0)"
    "y div 100 = (y - 1) div 100 + (if y mod 100 = 0 then 1 else 0)"
    "y div 400 = (y - 1) div 400 + (if y mod 400 = 0 then 1 else 0)"
    by (rule div_pred; simp)+
  then have "days_before y = 365 * y + ((y - 1) div 4 + (if y mod 4 = 0 then 1 else 0))
      - ((y - 1) div 100 + (if y mod 100 = 0 then 1 else 0)) + ((y - 1) div 400 + (if y mod 400 = 0 then 1 else 0))"
    by (simp only: days_before_def)
  also have "\<dots> = days_before (y - 1) + (if is_leap y then 366 else 365)"
    unfolding days_before_def is_leap_def
    by (cases "y mod 4 = 0"; cases "y mod 100 = 0"; cases "y mod 400 = 0")
      (use mod_dvd_chain[of y] in simp_all)
  finally show ?thesis by (simp add: jan1_def)
qed

section \<open>Months\<close>

text \<open>\<open>yday\<close> is the day of the year from 0; \<open>month_starts\<close> are the first days of the twelve months.\<close>

definition yday :: "int \<Rightarrow> int" where
  "yday n = n - jan1 (year_of n)"

definition month_starts :: "bool \<Rightarrow> int list" where
  "month_starts leap =
     (if leap then [0, 31, 60, 91, 121, 152, 182, 213, 244, 274, 305, 335]
      else [0, 31, 59, 90, 120, 151, 181, 212, 243, 273, 304, 334])"

definition month_of :: "int \<Rightarrow> int" where
  "month_of n = int (length (filter (\<lambda>s. s \<le> yday n) (month_starts (is_leap (year_of n)))))"

definition mday_of :: "int \<Rightarrow> int" where
  "mday_of n = yday n - month_starts (is_leap (year_of n)) ! (nat (month_of n) - 1) + 1"

lemma yday_bounds: "0 \<le> yday n \<and> yday n < 366"
  using year_of_bounds[of n] jan1_Suc[of "year_of n"] by (auto simp: yday_def split: if_splits)

lemma filter_le_length_mono:
  "x \<le> (y :: int) \<Longrightarrow> length (filter (\<lambda>s. s \<le> x) ss) \<le> length (filter (\<lambda>s. s \<le> y) ss)"
  by (induction ss) auto

lemma month_of_mono_year:
  "n \<le> m \<Longrightarrow> year_of n = year_of m \<Longrightarrow> month_of n \<le> month_of m"
  unfolding month_of_def by (auto simp: yday_def intro: filter_le_length_mono)

lemma month_of_bounds: "1 \<le> month_of n \<and> month_of n \<le> 12"
proof -
  have "0 \<in> set (filter (\<lambda>s. s \<le> yday n) (month_starts (is_leap (year_of n))))"
    using yday_bounds[of n] by (simp add: month_starts_def)
  then have "0 < length (filter (\<lambda>s. s \<le> yday n) (month_starts (is_leap (year_of n))))"
    by (rule length_pos_if_in_set)
  moreover have "length (filter (\<lambda>s. s \<le> yday n) (month_starts (is_leap (year_of n)))) \<le> 12"
    using length_filter_le[of "\<lambda>s. s \<le> yday n" "month_starts (is_leap (year_of n))"]
    by (simp add: month_starts_def split: if_splits)
  ultimately show ?thesis unfolding month_of_def by linarith
qed

text \<open>A month never starts after the day it holds, and a day of the month is at least 1.\<close>

lemma sorted_filter_le_nth:
  assumes "sorted ss" and "k < length (filter (\<lambda>s. s \<le> x) ss)"
  shows "ss ! k \<le> (x :: int)"
  using assms
proof (induction ss arbitrary: k)
  case Nil
  then show ?case by simp
next
  case (Cons a ss)
  show ?case
  proof (cases "a \<le> x")
    case True
    then show ?thesis using Cons by (cases k) auto
  next
    case False
    then have "filter (\<lambda>s. s \<le> x) ss = []"
      using Cons.prems(1) by (auto simp: filter_empty_conv)
    then show ?thesis using Cons.prems(2) False by simp
  qed
qed

lemma sorted_month_starts: "sorted (month_starts b)"
  by (simp add: month_starts_def)

lemma mday_of_pos: "1 \<le> mday_of n"
proof -
  have "nat (month_of n) - 1 < length (filter (\<lambda>s. s \<le> yday n) (month_starts (is_leap (year_of n))))"
    using month_of_bounds[of n] unfolding month_of_def by linarith
  from sorted_filter_le_nth[OF sorted_month_starts this] show ?thesis
    by (simp add: mday_of_def)
qed

section \<open>Zero-padded numbers\<close>

text \<open>\<open>%0wd\<close> of a number that is not negative.\<close>

definition pad :: "nat \<Rightarrow> int \<Rightarrow> string" where
  "pad w i = replicate (w - length (show_nat (nat i))) CHR ''0'' @ show_nat (nat i)"

lemma digits_val_zeros: "digits_val (replicate k CHR ''0'' @ s) = digits_val s"
  by (induction k) (simp_all add: digits_val_def)

lemma digits_val_pad [simp]: "0 \<le> i \<Longrightarrow> int (digits_val (pad w i)) = i"
  by (simp add: pad_def digits_val_zeros digits_val_show_nat)

lemma pad_eq_iff: "0 \<le> i \<Longrightarrow> 0 \<le> j \<Longrightarrow> pad w i = pad w j \<longleftrightarrow> i = j"
  by (metis digits_val_pad)

lemma pad_no_dash: "CHR ''-'' \<notin> set (pad w i)"
  using show_nat_digits[of "nat i"] by (auto simp: pad_def list_all_iff dest: is_digit_not_sign)

lemma pad_neq_Nil [simp]: "pad w i \<noteq> []"
  using show_nat_digits[of "nat i"] by (simp add: pad_def)

text \<open>Fields joined by dashes determine the fields.\<close>

lemma dashed_eq_iff:
  assumes "ps \<noteq> []" "qs \<noteq> []" "\<forall>p \<in> set ps. CHR ''-'' \<notin> set p" "\<forall>p \<in> set qs. CHR ''-'' \<notin> set p"
  shows "join_with (CHR ''-'') ps = join_with (CHR ''-'') qs \<longleftrightarrow> ps = qs"
  by (metis assms split_join)

end
