(* ===== verification/Retention.thy ===== *)
theory Retention
  imports Calendar "HOL-Library.Product_Lexorder"
begin

text \<open>
  \<open>control/retention\<close>: which snapshots of an app are kept. \<open>Apply\<close> sorts the snapshots newest first, marks
  the newest \<open>Last\<close> ones and the newest one of each of the last \<open>Daily\<close> days, \<open>Weekly\<close> ISO
  weeks and \<open>Monthly\<close> months, and splits the list by the marks. The abstract specification \<open>retained\<close>
  says the same without the list: it counts newer snapshots and newer buckets. The locale \<open>bucketing\<close> is what the
  marking loop needs of a bucket function (buckets are contiguous in time and their names are not empty); it is
  interpreted on the three bucket functions of the package.

  Times are Unix seconds, the resolution of the registry's \<open>created_at\<close> column.
\<close>

section \<open>Snapshots, policies and buckets\<close>

record rsnap =
  r_ID :: string
  r_App :: string
  r_Label :: string
  r_CreatedAt :: int
  r_Auto :: bool

record Policy =
  p_Last :: int
  p_Daily :: int
  p_Weekly :: int
  p_Monthly :: int

definition Default :: Policy where
  "Default = \<lparr>p_Last = 50, p_Daily = 7, p_Weekly = 4, p_Monthly = 3\<rparr>"

definition Archived :: Policy where
  "Archived = \<lparr>p_Last = 1, p_Daily = 0, p_Weekly = 0, p_Monthly = 12\<rparr>"

definition unix_day :: "int \<Rightarrow> int" where
  "unix_day t = t div 86400"

definition dayBucket :: "int \<Rightarrow> string" where
  "dayBucket t = (let n = unix_day t
                  in join_with (CHR ''-'') [pad 4 (year_of n), pad 2 (month_of n), pad 2 (mday_of n)])"

text \<open>\<open>ISOWeek\<close> is the year and the week of the Thursday of the week, which starts on a Monday.\<close>

definition week_index :: "int \<Rightarrow> int" where
  "week_index t = (unix_day t + 3) div 7"

definition weekBucket :: "int \<Rightarrow> string" where
  "weekBucket t = (let thursday = 7 * week_index t
                   in join_with (CHR ''-'') [pad 4 (year_of thursday), CHR ''W'' # pad 2 (yday thursday div 7 + 1)])"

definition monthBucket :: "int \<Rightarrow> string" where
  "monthBucket t = (let n = unix_day t in join_with (CHR ''-'') [pad 4 (year_of n), pad 2 (month_of n)])"

section \<open>Apply\<close>

text \<open>\<open>kept\<close> is the set of the IDs that the map \<open>kept\<close> holds.\<close>

fun mark_loop :: "int \<Rightarrow> (int \<Rightarrow> string) \<Rightarrow> string \<Rightarrow> int \<Rightarrow> rsnap list \<Rightarrow> string set \<Rightarrow> string set" where
  "mark_loop n bucket prev seen [] kept = kept"
| "mark_loop n bucket prev seen (s # ss) kept =
     (let b = bucket (r_CreatedAt s)
      in if b = prev then mark_loop n bucket prev seen ss kept
         else if n \<le> seen then kept
         else mark_loop n bucket b (seen + 1) ss (insert (r_ID s) kept))"

definition markBuckets :: "rsnap list \<Rightarrow> int \<Rightarrow> (int \<Rightarrow> string) \<Rightarrow> string set \<Rightarrow> string set" where
  "markBuckets sortedNewestFirst n bucket kept =
     (if n \<le> 0 then kept else mark_loop n bucket '''' 0 sortedNewestFirst kept)"

definition snap_key :: "rsnap \<Rightarrow> int \<times> string" where
  "snap_key s = (r_CreatedAt s, r_ID s)"

definition sort_newest :: "rsnap list \<Rightarrow> rsnap list" where
  "sort_newest snaps = rev (sort_key snap_key snaps)"

definition Apply :: "rsnap list \<Rightarrow> Policy \<Rightarrow> rsnap list \<times> rsnap list" where
  "Apply snaps p =
     (let all = sort_newest snaps;
          kept0 = r_ID ` set (take (nat (p_Last p)) all);
          kept1 = markBuckets all (p_Daily p) dayBucket kept0;
          kept2 = markBuckets all (p_Weekly p) weekBucket kept1;
          kept = markBuckets all (p_Monthly p) monthBucket kept2
      in (filter (\<lambda>s. r_ID s \<in> kept) all, filter (\<lambda>s. r_ID s \<notin> kept) all))"

section \<open>Specification\<close>

definition newer :: "rsnap \<Rightarrow> rsnap \<Rightarrow> bool" where
  "newer r s = (snap_key s < snap_key r)"

definition newer_than :: "rsnap set \<Rightarrow> rsnap \<Rightarrow> rsnap set" where
  "newer_than S s = {r \<in> S. newer r s}"

definition tier_keeps :: "int \<Rightarrow> (int \<Rightarrow> string) \<Rightarrow> rsnap set \<Rightarrow> rsnap \<Rightarrow> bool" where
  "tier_keeps n bucket S s =
     (let B = (\<lambda>r. bucket (r_CreatedAt r)) ` newer_than S s
      in bucket (r_CreatedAt s) \<notin> B \<and> int (card B) < n)"

definition retained :: "Policy \<Rightarrow> rsnap set \<Rightarrow> rsnap \<Rightarrow> bool" where
  "retained p S s =
     (int (card (newer_than S s)) < p_Last p \<or> tier_keeps (p_Daily p) dayBucket S s
      \<or> tier_keeps (p_Weekly p) weekBucket S s \<or> tier_keeps (p_Monthly p) monthBucket S s)"

section \<open>The marking loop\<close>

locale bucketing =
  fixes key :: "int \<Rightarrow> int" and bucket :: "int \<Rightarrow> string"
  assumes key_mono: "0 \<le> s \<Longrightarrow> s \<le> t \<Longrightarrow> key s \<le> key t"
    and bucket_eq: "0 \<le> s \<Longrightarrow> 0 \<le> t \<Longrightarrow> bucket s = bucket t \<longleftrightarrow> key s = key t"
    and bucket_named: "bucket t \<noteq> ''''"
begin

lemma contiguous:
  assumes "0 \<le> r" "r \<le> s" "s \<le> p" "bucket r = bucket p"
  shows "bucket s = bucket p"
proof -
  have "key r = key p" using assms bucket_eq[of r p] by simp
  moreover have "key r \<le> key s" "key s \<le> key p" using assms key_mono by simp_all
  ultimately show ?thesis using assms bucket_eq[of s p] by simp
qed

definition marked_at :: "int \<Rightarrow> string \<Rightarrow> int \<Rightarrow> rsnap list \<Rightarrow> nat \<Rightarrow> bool" where
  "marked_at n prev seen ss i =
     (let B = (\<lambda>r. bucket (r_CreatedAt r)) ` set (take i ss)
      in bucket (r_CreatedAt (ss ! i)) \<notin> insert prev B \<and> seen + int (card (B - {prev})) < n)"

lemma mark_loop_iff:
  assumes "sorted_wrt (\<lambda>r s. r_CreatedAt s \<le> r_CreatedAt r) ss"
    and "\<forall>s \<in> set ss. 0 \<le> r_CreatedAt s"
    and "prev \<noteq> '''' \<Longrightarrow> \<exists>p. bucket p = prev \<and> (\<forall>s \<in> set ss. r_CreatedAt s \<le> p)"
  shows "x \<in> mark_loop n bucket prev seen ss kept \<longleftrightarrow>
           x \<in> kept \<or> (\<exists>i < length ss. r_ID (ss ! i) = x \<and> marked_at n prev seen ss i)"
  using assms
proof (induction ss arbitrary: prev seen kept)
  case Nil
  then show ?case by simp
next
  case (Cons s ss)
  let ?b = "bucket (r_CreatedAt s)"
  have ex: "(\<exists>i < length (s # ss). P i) \<longleftrightarrow> P 0 \<or> (\<exists>i < length ss. P (Suc i))" for P
    by (auto simp: less_Suc_eq_0_disj)
  have srt: "sorted_wrt (\<lambda>r s. r_CreatedAt s \<le> r_CreatedAt r) ss" "\<forall>s \<in> set ss. 0 \<le> r_CreatedAt s"
    using Cons.prems by simp_all
  consider (same) "?b = prev" | (full) "?b \<noteq> prev" "n \<le> seen" | (mark) "?b \<noteq> prev" "seen < n"
    by linarith
  then show ?case
  proof cases
    case same
    have "\<exists>p. bucket p = prev \<and> (\<forall>s \<in> set ss. r_CreatedAt s \<le> p)" if "prev \<noteq> ''''"
      using Cons.prems(3) that by auto
    from Cons.IH[OF srt this, of seen kept]
    show ?thesis unfolding ex using same by (auto simp: marked_at_def Let_def)
  next
    case full
    then show ?thesis by (auto simp: marked_at_def Let_def)
  next
    case mark
    have p: "\<exists>p. bucket p = ?b \<and> (\<forall>s \<in> set ss. r_CreatedAt s \<le> p)"
      using Cons.prems(1) by auto
    have gone: "bucket (r_CreatedAt r) \<noteq> prev" if r: "r \<in> set ss" for r
    proof (cases "prev = ''''")
      case True
      then show ?thesis using bucket_named by simp
    next
      case False
      with Cons.prems(3) obtain q where "bucket q = prev" "r_CreatedAt s \<le> q" by auto
      with contiguous[of "r_CreatedAt r" "r_CreatedAt s" q] Cons.prems mark(1) r
      show ?thesis by auto
    qed
    have step: "marked_at n prev seen (s # ss) (Suc i) \<longleftrightarrow> marked_at n ?b (seen + 1) ss i"
      if i: "i < length ss" for i
    proof -
      let ?B = "(\<lambda>r. bucket (r_CreatedAt r)) ` set (take i ss)"
      have "prev \<notin> ?B" using gone by (auto dest: in_set_takeD)
      then have "insert ?b ?B - {prev} = insert ?b (?B - {?b})" using mark(1) by auto
      then have "card (insert ?b ?B - {prev}) = Suc (card (?B - {?b}))" by (simp add: card.insert_remove)
      then show ?thesis using gone[of "ss ! i"] i mark(1) by (simp add: marked_at_def Let_def) auto
    qed
    have first: "marked_at n prev seen (s # ss) 0" using mark by (simp add: marked_at_def)
    from Cons.IH[OF srt p, of "seen + 1" "insert (r_ID s) kept"]
    show ?thesis unfolding ex using mark first step by (auto simp: Let_def)
  qed
qed

end

section \<open>The three bucket functions\<close>

lemma unix_day_mono: "s \<le> t \<Longrightarrow> unix_day s \<le> unix_day t"
  by (simp add: unix_day_def zdiv_mono1)

lemma unix_day_nonneg: "0 \<le> t \<Longrightarrow> 0 \<le> unix_day t"
  by (simp add: unix_day_def)

lemma date_eq_iff:
  "year_of n = year_of m \<and> month_of n = month_of m \<and> mday_of n = mday_of m \<longleftrightarrow> n = m"
  by (auto simp: mday_of_def yday_def)

definition month_index :: "int \<Rightarrow> int" where
  "month_index t = 12 * year_of (unix_day t) + month_of (unix_day t)"

lemma month_index_mono: "s \<le> t \<Longrightarrow> month_index s \<le> month_index t"
proof -
  let ?n = "unix_day s" and ?m = "unix_day t"
  assume "s \<le> t"
  then have le: "?n \<le> ?m" by (rule unix_day_mono)
  show ?thesis
  proof (cases "year_of ?n = year_of ?m")
    case True
    then show ?thesis using month_of_mono_year[OF le] by (simp add: month_index_def)
  next
    case False
    then have "year_of ?n + 1 \<le> year_of ?m" using year_of_mono[OF le] by simp
    then show ?thesis using month_of_bounds[of ?n] month_of_bounds[of ?m]
      unfolding month_index_def by linarith
  qed
qed

lemma month_index_eq:
  "month_index s = month_index t \<longleftrightarrow>
     year_of (unix_day s) = year_of (unix_day t) \<and> month_of (unix_day s) = month_of (unix_day t)"
  using month_of_bounds[of "unix_day s"] month_of_bounds[of "unix_day t"]
  unfolding month_index_def by presburger

text \<open>Two Thursdays of one year with the same week number are the same day.\<close>

lemma thursday_eq_iff:
  "year_of (7 * v) = year_of (7 * w) \<and> yday (7 * v) div 7 = yday (7 * w) div 7 \<longleftrightarrow> v = w"
proof -
  have "v = w" if y: "year_of (7 * v) = year_of (7 * w)" and d: "yday (7 * v) div 7 = yday (7 * w) div 7"
  proof -
    define a where "a = yday (7 * v)"
    define b where "b = yday (7 * w)"
    have "a - b = 7 * v - 7 * w" using y by (simp add: a_def b_def yday_def)
    moreover have "7 * (a div 7) \<le> a \<and> a < 7 * (a div 7) + 7" "7 * (b div 7) \<le> b \<and> b < 7 * (b div 7) + 7"
      by (rule div_bounds; simp)+
    moreover have "a div 7 = b div 7" using d by (simp add: a_def b_def)
    ultimately show "v = w" by linarith
  qed
  then show ?thesis by auto
qed

interpretation day: bucketing unix_day dayBucket
proof
  fix s t :: int
  assume "0 \<le> s" "0 \<le> t"
  have "dayBucket s = dayBucket t \<longleftrightarrow>
      year_of (unix_day s) = year_of (unix_day t) \<and> month_of (unix_day s) = month_of (unix_day t)
      \<and> mday_of (unix_day s) = mday_of (unix_day t)"
    using year_of_pos[OF unix_day_nonneg[OF \<open>0 \<le> s\<close>]] year_of_pos[OF unix_day_nonneg[OF \<open>0 \<le> t\<close>]]
      month_of_bounds[of "unix_day s"] month_of_bounds[of "unix_day t"]
      mday_of_pos[of "unix_day s"] mday_of_pos[of "unix_day t"]
    unfolding dayBucket_def Let_def by (subst dashed_eq_iff) (simp_all add: pad_no_dash pad_eq_iff)
  then show "dayBucket s = dayBucket t \<longleftrightarrow> unix_day s = unix_day t" by (simp add: date_eq_iff)
qed (simp_all add: unix_day_mono dayBucket_def Let_def)

interpretation month: bucketing month_index monthBucket
proof
  fix s t :: int
  assume "0 \<le> s" "0 \<le> t"
  then show "monthBucket s = monthBucket t \<longleftrightarrow> month_index s = month_index t"
    using year_of_pos[OF unix_day_nonneg[OF \<open>0 \<le> s\<close>]] year_of_pos[OF unix_day_nonneg[OF \<open>0 \<le> t\<close>]]
      month_of_bounds[of "unix_day s"] month_of_bounds[of "unix_day t"]
    unfolding monthBucket_def Let_def month_index_eq
    by (subst dashed_eq_iff) (simp_all add: pad_no_dash pad_eq_iff)
qed (simp_all add: month_index_mono monthBucket_def Let_def)

interpretation week: bucketing week_index weekBucket
proof
  fix s t :: int
  assume "0 \<le> s" "0 \<le> t"
  then have "0 \<le> 7 * week_index s" "0 \<le> 7 * week_index t"
    using unix_day_nonneg[of s] unix_day_nonneg[of t] by (simp_all add: week_index_def)
  moreover have "0 \<le> yday n div 7 + 1" for n
    using pos_imp_zdiv_nonneg_iff[of 7 "yday n"] yday_bounds[of n] by linarith
  ultimately show "weekBucket s = weekBucket t \<longleftrightarrow> week_index s = week_index t"
    using year_of_pos[of "7 * week_index s"] year_of_pos[of "7 * week_index t"]
      thursday_eq_iff[of "week_index s" "week_index t"]
    unfolding weekBucket_def Let_def
    by (subst dashed_eq_iff) (simp_all add: pad_no_dash pad_eq_iff)
qed (auto simp: weekBucket_def Let_def week_index_def unix_day_mono zdiv_mono1)

section \<open>Apply implements the specification\<close>

lemma sort_newest_perm [simp]: "mset (sort_newest snaps) = mset snaps" "set (sort_newest snaps) = set snaps"
  "length (sort_newest snaps) = length snaps"
  by (simp_all add: sort_newest_def)

lemma distinct_ids:
  assumes "distinct (map r_ID snaps)"
  shows "distinct (map r_ID (sort_newest snaps))"
proof -
  have "mset (map r_ID (sort_newest snaps)) = mset (map r_ID snaps)" by simp
  then show ?thesis using assms mset_eq_imp_distinct_iff by blast
qed

lemma sort_newest_sorted: "sorted_wrt (\<lambda>r s. snap_key s \<le> snap_key r) (sort_newest snaps)"
  by (simp add: sort_newest_def sorted_wrt_rev) (metis sorted_sort_key sorted_map)

lemma sort_newest_strict:
  assumes "distinct (map r_ID snaps)"
  shows "sorted_wrt newer (sort_newest snaps)"
proof -
  let ?xs = "sort_newest snaps"
  have "newer (?xs ! i) (?xs ! j)" if ij: "i < j" "j < length ?xs" for i j
  proof -
    have "snap_key (?xs ! j) \<le> snap_key (?xs ! i)"
      using sort_newest_sorted ij by (rule sorted_wrt_nth_less)
    moreover have "r_ID (?xs ! i) \<noteq> r_ID (?xs ! j)"
      using distinct_ids[OF assms] ij by (auto simp: distinct_conv_nth)
    ultimately show ?thesis by (auto simp: newer_def snap_key_def)
  qed
  then show ?thesis by (simp add: sorted_wrt_iff_nth_less)
qed

lemma newer_time: "newer r s \<Longrightarrow> r_CreatedAt s \<le> r_CreatedAt r"
  by (auto simp: newer_def snap_key_def)

text \<open>What precedes a snapshot in the sorted list is what is newer than it.\<close>

lemma sorted_prefix:
  assumes "sorted_wrt newer xs" and "i < length xs"
  shows "set (take i xs) = newer_than (set xs) (xs ! i)"
proof (intro set_eqI iffI)
  fix r
  assume "r \<in> set (take i xs)"
  then obtain j where "j < i" "r = xs ! j" using assms(2) by (auto simp: in_set_conv_nth)
  with assms show "r \<in> newer_than (set xs) (xs ! i)"
    by (auto simp: newer_than_def dest: sorted_wrt_nth_less)
next
  fix r
  assume "r \<in> newer_than (set xs) (xs ! i)"
  then obtain j where j: "j < length xs" "r = xs ! j" "newer (xs ! j) (xs ! i)"
    by (auto simp: newer_than_def in_set_conv_nth)
  have "\<not> i \<le> j"
  proof
    assume "i \<le> j"
    then have "i = j \<or> newer (xs ! i) (xs ! j)"
      using assms(1) j(1) sorted_wrt_nth_less[of newer xs i j] by (cases "i = j") auto
    with j(3) show False by (auto simp: newer_def)
  qed
  with j assms(2) show "r \<in> set (take i xs)"
    by (auto simp: in_set_conv_nth intro!: exI[of _ j])
qed

context bucketing
begin

text \<open>The marks of one tier, on a list sorted newest first.\<close>

lemma markBuckets_iff:
  assumes "sorted_wrt newer xs" and "\<forall>s \<in> set xs. 0 \<le> r_CreatedAt s"
  shows "x \<in> markBuckets xs n bucket kept \<longleftrightarrow>
           x \<in> kept \<or> (\<exists>s \<in> set xs. r_ID s = x \<and> tier_keeps n bucket (set xs) s)"
proof (cases "n \<le> 0")
  case True
  then show ?thesis by (auto simp: markBuckets_def tier_keeps_def Let_def)
next
  case False
  have srt: "sorted_wrt (\<lambda>r s. r_CreatedAt s \<le> r_CreatedAt r) xs"
    using assms(1) newer_time by (rule sorted_wrt_mono_rel[rotated])
  have at: "marked_at n '''' 0 xs i \<longleftrightarrow> tier_keeps n bucket (set xs) (xs ! i)" if "i < length xs" for i
  proof -
    have "'''' \<notin> (\<lambda>r. bucket (r_CreatedAt r)) ` newer_than (set xs) (xs ! i)" using bucket_named by (metis imageE)
    then show ?thesis
      using bucket_named by (simp add: marked_at_def tier_keeps_def Let_def sorted_prefix[OF assms(1) that])
  qed
  have "x \<in> markBuckets xs n bucket kept \<longleftrightarrow>
      x \<in> kept \<or> (\<exists>i < length xs. r_ID (xs ! i) = x \<and> marked_at n '''' 0 xs i)"
    using False mark_loop_iff[OF srt assms(2), of "''''" x n 0 kept] by (simp add: markBuckets_def)
  then show ?thesis using at by (metis in_set_conv_nth)
qed

end

lemma take_ids_iff:
  assumes "sorted_wrt newer xs"
  shows "x \<in> r_ID ` set (take (nat n) xs) \<longleftrightarrow>
           (\<exists>s \<in> set xs. r_ID s = x \<and> int (card (newer_than (set xs) s)) < n)"
proof -
  have dist: "distinct xs"
    using assms by (induction xs) (auto simp: newer_def)
  have pos: "int (card (newer_than (set xs) (xs ! i))) < n \<longleftrightarrow> i < nat n" if "i < length xs" for i
    using sorted_prefix[OF assms that] dist that by (metis distinct_card distinct_take length_take min_absorb2 less_imp_le_nat zless_nat_eq_int_zless)
  have "x \<in> r_ID ` set (take (nat n) xs) \<longleftrightarrow> (\<exists>i < length xs. i < nat n \<and> r_ID (xs ! i) = x)"
    by (force simp: in_set_conv_nth image_iff)
  then show ?thesis using pos by (metis in_set_conv_nth)
qed

lemma Apply_kept:
  assumes "distinct (map r_ID snaps)" and "\<forall>s \<in> set snaps. 0 \<le> r_CreatedAt s"
  shows "Apply snaps p = (filter (retained p (set snaps)) (sort_newest snaps),
                          filter (\<lambda>s. \<not> retained p (set snaps) s) (sort_newest snaps))"
proof -
  let ?xs = "sort_newest snaps"
  note srt = sort_newest_strict[OF assms(1)]
  have nn: "\<forall>s \<in> set ?xs. 0 \<le> r_CreatedAt s" using assms(2) by simp
  define kept where "kept = markBuckets ?xs (p_Monthly p) monthBucket (markBuckets ?xs (p_Weekly p) weekBucket
      (markBuckets ?xs (p_Daily p) dayBucket (r_ID ` set (take (nat (p_Last p)) ?xs))))"
  have ids: "r = s" if "r \<in> set snaps" "s \<in> set snaps" "r_ID r = r_ID s" for r s
    using distinct_key_eq[OF assms(1) that] .
  have "x \<in> kept \<longleftrightarrow> (\<exists>s \<in> set snaps. r_ID s = x \<and> retained p (set snaps) s)" for x
    unfolding kept_def month.markBuckets_iff[OF srt nn] week.markBuckets_iff[OF srt nn]
      day.markBuckets_iff[OF srt nn] take_ids_iff[OF srt]
    by (simp only: sort_newest_perm) (auto simp: retained_def)
  then have "r_ID s \<in> kept \<longleftrightarrow> retained p (set snaps) s" if "s \<in> set ?xs" for s
    using ids that by auto
  then have "filter (\<lambda>s. r_ID s \<in> kept) ?xs = filter (retained p (set snaps)) ?xs"
    "filter (\<lambda>s. r_ID s \<notin> kept) ?xs = filter (\<lambda>s. \<not> retained p (set snaps) s) ?xs"
    by (auto intro!: filter_cong)
  then show ?thesis by (simp add: Apply_def Let_def kept_def)
qed

lemma Apply_partition: "mset (fst (Apply snaps p)) + mset (snd (Apply snaps p)) = mset snaps"
proof -
  have "mset (fst (Apply snaps p)) + mset (snd (Apply snaps p)) = mset (sort_newest snaps)"
    unfolding Apply_def Let_def by (simp add: multiset_partition[symmetric])
  then show ?thesis by simp
qed

lemma retained_newest: "1 \<le> p_Last p \<Longrightarrow> newer_than S s = {} \<Longrightarrow> retained p S s"
  by (simp add: retained_def)

text \<open>A retained snapshot stays retained when others go: fewer snapshots are newer.\<close>

lemma tier_keeps_subset:
  assumes "finite S" "T \<subseteq> S" "tier_keeps n bucket S s"
  shows "tier_keeps n bucket T s"
proof -
  let ?f = "\<lambda>r. bucket (r_CreatedAt r)"
  have sub: "?f ` newer_than T s \<subseteq> ?f ` newer_than S s" using assms(2) by (auto simp: newer_than_def)
  have "finite (?f ` newer_than S s)" using assms(1) by (simp add: newer_than_def)
  from card_mono[OF this sub] sub assms(3) show ?thesis
    unfolding tier_keeps_def Let_def by (meson of_nat_mono order.strict_trans1 subsetD)
qed

lemma retained_subset:
  assumes "finite S" "T \<subseteq> S" "retained p S s"
  shows "retained p T s"
proof -
  have "card (newer_than T s) \<le> card (newer_than S s)"
    using assms(1,2) by (intro card_mono) (auto simp: newer_than_def)
  then show ?thesis using assms(3) tier_keeps_subset[OF assms(1,2)]
    by (force simp: retained_def)
qed

lemma sort_newest_cong:
  assumes "distinct (map r_ID xs)" "mset xs = mset ys"
  shows "sort_newest xs = sort_newest ys"
proof -
  have "inj_on snap_key (set xs)"
    using assms(1) by (auto simp: inj_on_def snap_key_def dest: distinct_key_eq)
  then show ?thesis
    using assms(2) by (auto simp: sort_newest_def intro: properties_for_sort_key[symmetric] sort_key_inj_key_eq)
qed

lemma sort_newest_filter:
  assumes "distinct (map r_ID snaps)"
  shows "sort_newest (filter P (sort_newest snaps)) = filter P (sort_newest snaps)"
proof -
  have "distinct (map r_ID (filter P (sort_newest snaps)))"
    using distinct_ids[OF assms] by (rule distinct_map_filter)
  then have "sort_newest (filter P (sort_newest snaps)) = sort_newest (filter P snaps)"
    by (rule sort_newest_cong) simp
  also have "\<dots> = filter P (sort_newest snaps)"
    by (simp add: sort_newest_def filter_sort flip: rev_filter)
  finally show ?thesis .
qed

section \<open>Properties\<close>

text \<open>C5: \<open>Apply\<close> keeps exactly what the policy promises. A snapshot is kept when fewer than \<open>Last\<close> snapshots
  are newer, or when it is the newest of its day (week, month) and fewer than \<open>Daily\<close> (\<open>Weekly\<close>, \<open>Monthly\<close>)
  distinct days (weeks, months) have a newer snapshot; every other snapshot is pruned. Both lists come out
  newest first and together they are the input: nothing is lost or doubled.\<close>

theorem Apply_implements_policy:
  assumes "distinct (map r_ID snaps)" and "\<forall>s \<in> set snaps. 0 \<le> r_CreatedAt s"
  shows "set (fst (Apply snaps p)) = {s \<in> set snaps. retained p (set snaps) s}
    \<and> set (snd (Apply snaps p)) = {s \<in> set snaps. \<not> retained p (set snaps) s}
    \<and> mset (fst (Apply snaps p)) + mset (snd (Apply snaps p)) = mset snaps
    \<and> sorted_wrt newer (fst (Apply snaps p)) \<and> sorted_wrt newer (snd (Apply snaps p))"
proof -
  note k = Apply_kept[OF assms, of p]
  have "sorted_wrt newer (filter P (sort_newest snaps))" for P
    using sort_newest_strict[OF assms(1)] by (rule sorted_wrt_filter)
  then show ?thesis using Apply_partition[of snaps p] by (simp add: k)
qed

definition snap_at :: "string \<Rightarrow> int \<Rightarrow> rsnap" where
  "snap_at i t = \<lparr>r_ID = i, r_App = ''blog'', r_Label = '''', r_CreatedAt = t, r_Auto = True\<rparr>"

lemma Apply_implements_policy_witness:
  "set (fst (Apply [snap_at ''a'' 1767225600, snap_at ''b'' 1767229200, snap_at ''c'' 1769904000] Archived))
     \<union> set (snd (Apply [snap_at ''a'' 1767225600, snap_at ''b'' 1767229200, snap_at ''c'' 1769904000] Archived))
   = {snap_at ''a'' 1767225600, snap_at ''b'' 1767229200, snap_at ''c'' 1769904000}"
  using Apply_implements_policy[of "[snap_at ''a'' 1767225600, snap_at ''b'' 1767229200, snap_at ''c'' 1769904000]" Archived]
  by (auto simp: snap_at_def)

lemma Apply_newest:
  assumes "distinct (map r_ID snaps)" and "\<forall>s \<in> set snaps. 0 \<le> r_CreatedAt s" and "snaps \<noteq> []" and "1 \<le> p_Last p"
  shows "fst (Apply snaps p) \<noteq> [] \<and> hd (fst (Apply snaps p)) = hd (sort_newest snaps)
    \<and> (\<forall>s \<in> set snaps. r_CreatedAt s \<le> r_CreatedAt (hd (fst (Apply snaps p))))"
proof -
  obtain x xs where x: "sort_newest snaps = x # xs"
    using assms(3) by (metis list.exhaust length_0_conv sort_newest_perm(3))
  have srt: "sorted_wrt newer (x # xs)" using sort_newest_strict[OF assms(1)] x by simp
  have S: "set snaps = insert x (set xs)" using sort_newest_perm(2)[of snaps] x by simp
  have "newer_than (set snaps) x = {}" using srt unfolding S by (auto simp: newer_than_def newer_def)
  then have "retained p (set snaps) x" using assms(4) by (rule retained_newest[rotated])
  then have "fst (Apply snaps p) = x # filter (retained p (set snaps)) xs"
    by (simp add: Apply_kept[OF assms(1,2)] x)
  moreover have "\<forall>s \<in> set snaps. r_CreatedAt s \<le> r_CreatedAt x"
    using srt unfolding S by (auto dest: newer_time)
  ultimately show ?thesis by (simp add: x)
qed

lemma Apply_again:
  assumes "distinct (map r_ID snaps)" and "\<forall>s \<in> set snaps. 0 \<le> r_CreatedAt s"
  shows "Apply (fst (Apply snaps p)) p = (fst (Apply snaps p), [])"
proof -
  let ?K = "fst (Apply snaps p)"
  have K: "?K = filter (retained p (set snaps)) (sort_newest snaps)"
    by (simp add: Apply_kept[OF assms])
  have "distinct (map r_ID ?K)"
    unfolding K using distinct_ids[OF assms(1)] by (rule distinct_map_filter)
  moreover have "\<forall>s \<in> set ?K. 0 \<le> r_CreatedAt s" using assms(2) by (simp add: K)
  moreover have "retained p (set ?K) s" if "s \<in> set ?K" for s
    using retained_subset[of "set snaps" "set ?K" p s] that by (auto simp: K)
  ultimately have "Apply ?K p = (sort_newest ?K, [])"
    by (simp add: Apply_kept)
  moreover have "sort_newest ?K = ?K" unfolding K by (rule sort_newest_filter[OF assms(1)])
  ultimately show ?thesis by simp
qed

text \<open>Pruning is safe to repeat. The outcome does not depend on the order of the input; what one run kept, the next run of the same policy keeps again and
  prunes nothing; and an archive is never pruned to nothing: under every policy with \<open>Last\<close> at least 1, which the default policy
  and the policy of archived apps both have, the newest snapshot is kept, and only an app without snapshots keeps none.\<close>

lemma Apply_stable:
  assumes "distinct (map r_ID snaps)" and "\<forall>s \<in> set snaps. 0 \<le> r_CreatedAt s"
  shows "(mset snaps' = mset snaps \<longrightarrow> Apply snaps' p = Apply snaps p)
    \<and> Apply (fst (Apply snaps p)) p = (fst (Apply snaps p), [])
    \<and> (snaps \<noteq> [] \<and> (p \<in> {Default, Archived} \<or> 1 \<le> p_Last p) \<longrightarrow>
        fst (Apply snaps p) \<noteq> [] \<and> hd (fst (Apply snaps p)) = hd (sort_newest snaps)
        \<and> (\<forall>s \<in> set snaps. r_CreatedAt s \<le> r_CreatedAt (hd (fst (Apply snaps p)))))"
proof (intro conjI)
  show "mset snaps' = mset snaps \<longrightarrow> Apply snaps' p = Apply snaps p"
    using sort_newest_cong[OF assms(1), of snaps'] by (simp add: Apply_def)
  have "p \<in> {Default, Archived} \<or> 1 \<le> p_Last p \<Longrightarrow> 1 \<le> p_Last p" by (auto simp: Default_def Archived_def)
  then show "snaps \<noteq> [] \<and> (p \<in> {Default, Archived} \<or> 1 \<le> p_Last p) \<longrightarrow>
        fst (Apply snaps p) \<noteq> [] \<and> hd (fst (Apply snaps p)) = hd (sort_newest snaps)
        \<and> (\<forall>s \<in> set snaps. r_CreatedAt s \<le> r_CreatedAt (hd (fst (Apply snaps p))))"
    using Apply_newest[OF assms] by blast
qed (rule Apply_again[OF assms])

lemma Apply_stable_witness:
  "Apply [snap_at ''b'' 1767229200, snap_at ''a'' 1767225600] Archived =
   Apply [snap_at ''a'' 1767225600, snap_at ''b'' 1767229200] Archived
   \<and> fst (Apply [snap_at ''a'' 1767225600, snap_at ''b'' 1767229200] Archived) \<noteq> []"
  using Apply_stable[of "[snap_at ''a'' 1767225600, snap_at ''b'' 1767229200]"
      "[snap_at ''b'' 1767229200, snap_at ''a'' 1767225600]" Archived]
  by (simp add: snap_at_def)

end
