(* ===== verification/Store_Schema.thy ===== *)
theory Store_Schema
  imports Prelude
begin

text \<open>
  The registry's data model: the structs of \<open>store/types.go\<close> and of the other files of \<open>store/\<close> as
  records, the tables the migrations of \<open>store/migrate.go\<close> create as lists of rows in insertion order,
  and the uniqueness constraints of the schema.

  A row is kept as the struct that scanning it returns, extended (\<open>_row\<close>) by the columns the struct has
  no field for. A \<open>NULL\<close> integer is \<^term>\<open>None\<close>; a time column that the scan turns into the zero time
  when it holds 0 is \<^term>\<open>None\<close> then. A constraint is the binary relation that says which two rows may
  not stand in a table together; a table is \<^emph>\<open>unique\<close> when no two of its rows conflict.
\<close>

section \<open>Structs\<close>

abbreviation HostLocal :: string where "HostLocal \<equiv> ''local''"
abbreviation ProxyLocal :: string where "ProxyLocal \<equiv> ''local''"
abbreviation RoleAdmin :: string where "RoleAdmin \<equiv> ''admin''"
abbreviation RoleUser :: string where "RoleUser \<equiv> ''user''"
abbreviation RoleViewer :: string where "RoleViewer \<equiv> ''viewer''"
abbreviation StatusPending :: string where "StatusPending \<equiv> ''pending''"
abbreviation StatusActive :: string where "StatusActive \<equiv> ''active''"
abbreviation StatusDenied :: string where "StatusDenied \<equiv> ''denied''"
abbreviation DomainPending :: string where "DomainPending \<equiv> ''pending''"
abbreviation DomainActive :: string where "DomainActive \<equiv> ''active''"
abbreviation DomainError :: string where "DomainError \<equiv> ''error''"
abbreviation ConnectionStatusOK :: string where "ConnectionStatusOK \<equiv> ''ok''"

record Proxy =
  px_Name :: string
  px_Stats :: string
  px_Version :: string
  px_Routes :: int
  px_RegisteredAt :: gotime
  px_LastSeen :: gotime

record Node =
  n_Name :: string
  n_Address :: string
  n_Stats :: string
  n_JoinedAt :: gotime
  n_LastSeen :: gotime
  n_SSHHost :: string
  n_HostKey :: string
  n_Version :: string

record App =
  a_ID :: string
  a_Name :: string
  a_Port :: int
  a_Host :: string
  a_OwnerID :: string
  a_DiskMB :: int
  a_CreatedAt :: gotime
  a_ImageTag :: string
  a_UID :: int
  a_PoweredOff :: bool
  a_Archived :: bool
  a_SoftDeletedAt :: gotime
  a_Listed :: bool
  a_Private :: bool
  a_MemoryLimitMB :: int
  a_DiskLimitMB :: int
  a_CPUMilli :: int
  a_Tabs :: string

record Snapshot =
  s_ID :: string
  s_AppName :: string
  s_Label :: string
  s_CreatedAt :: gotime
  s_Auto :: bool

record snapshot_row = Snapshot +
  s_app_id :: string

record User =
  u_ID :: string
  u_Email :: string
  u_Name :: string
  u_Role :: string
  u_Status :: string
  u_AppLimit :: "int option"
  u_MemoryMB :: "int option"
  u_DiskMB :: "int option"
  u_MemoryPoolMB :: "int option"
  u_DiskPoolMB :: "int option"
  u_CreatedAt :: gotime
  u_TechLevel :: string
  u_AssistantPrompt :: string
  u_DefaultTabs :: string
  u_Onboarded :: bool

record Token =
  tk_ID :: string
  tk_UserID :: string
  tk_Hash :: string
  tk_Prefix :: string
  tk_Label :: string
  tk_AppName :: string
  tk_Secret :: string
  tk_CreatedAt :: gotime
  tk_LastUsed :: "int option"

record token_row = Token +
  tk_app_id :: string

record AllowedDomain =
  ad_Domain :: string
  ad_CreatedAt :: gotime

record DomainRec =
  d_Domain :: string
  d_AppName :: string
  d_Status :: string
  d_LastError :: string
  d_CreatedAt :: gotime
  d_ActiveAt :: "int option"

record domain_row = DomainRec +
  d_app_id :: string

record UserKey =
  k_ID :: string
  k_UserID :: string
  k_Label :: string
  k_Key :: string
  k_CreatedAt :: gotime

record app_key_row =
  ak_app_name :: string
  ak_app_id :: string
  ak_key :: string

record Event =
  e_ID :: int
  e_AppName :: string
  e_CreatedAt :: gotime
  e_Actor :: string
  e_Level :: string
  e_Action :: string
  e_Detail :: string

record event_row = Event +
  e_app_id :: string

record AssistantUsage =
  us_InputTokens :: int
  us_OutputTokens :: int
  us_CacheWriteTokens :: int
  us_CacheReadTokens :: int

record usage_row = AssistantUsage +
  us_app_id :: string
  us_updated_at :: int

record session_row =
  as_app_name :: string
  as_app_id :: string
  as_transcript :: string
  as_updated_at :: int

record mode_row =
  am_app_id :: string
  am_mode :: string

text \<open>One row type serves the three grant tables whose key is an app id and a second id:
  \<open>app_collaborator\<close> and \<open>app_viewer\<close> (a user id) and \<open>app_connection\<close> (a connection id); and
  \<open>pending_viewer\<close>, where the second component is an email address.\<close>

record grant_row =
  g_app_id :: string
  g_who :: string
  g_created_at :: int

record Connection =
  c_ID :: string
  c_UserID :: string
  c_Slug :: string
  c_Provider :: string
  c_Kind :: string
  c_Label :: string
  c_Secret :: string
  c_Scopes :: string
  c_Meta :: string
  c_CreatedAt :: gotime
  c_Status :: string

record Provider =
  pv_ID :: string
  pv_OwnerID :: string
  pv_Name :: string
  pv_Label :: string
  pv_Kind :: string
  pv_Scopes :: string
  pv_Issuer :: string
  pv_AuthURL :: string
  pv_TokenURL :: string
  pv_ClientID :: string
  pv_ClientSecret :: string
  pv_AuthParams :: string
  pv_LongLived :: bool
  pv_URL :: string
  pv_Help :: string
  pv_NameHint :: string
  pv_ScopeOptions :: string
  pv_UserToken :: bool
  pv_ShortDescription :: string
  pv_LongDescription :: string
  pv_AllowMultiple :: bool
  pv_CreatedAt :: gotime

section \<open>The database\<close>

record db =
  app_tbl :: "App list"
  user_tbl :: "User list"
  token_tbl :: "token_row list"
  user_key_tbl :: "UserKey list"
  app_key_tbl :: "app_key_row list"
  setting_tbl :: "string \<rightharpoonup> string"
  allowed_domain_tbl :: "AllowedDomain list"
  assistant_session_tbl :: "session_row list"
  snapshot_tbl :: "snapshot_row list"
  app_domain_tbl :: "domain_row list"
  app_event_tbl :: "event_row list"
  app_event_seq :: int
  app_usage_tbl :: "usage_row list"
  app_assistant_tbl :: "mode_row list"
  app_collaborator_tbl :: "grant_row list"
  app_viewer_tbl :: "grant_row list"
  pending_viewer_tbl :: "grant_row list"
  connection_tbl :: "Connection list"
  app_connection_tbl :: "grant_row list"
  provider_tbl :: "Provider list"
  node_tbl :: "Node list"
  proxy_tbl :: "Proxy list"

definition empty_db :: db where
  "empty_db = \<lparr>app_tbl = [], user_tbl = [], token_tbl = [], user_key_tbl = [], app_key_tbl = [],
     setting_tbl = Map.empty, allowed_domain_tbl = [], assistant_session_tbl = [], snapshot_tbl = [],
     app_domain_tbl = [], app_event_tbl = [], app_event_seq = 0, app_usage_tbl = [],
     app_assistant_tbl = [], app_collaborator_tbl = [], app_viewer_tbl = [], pending_viewer_tbl = [],
     connection_tbl = [], app_connection_tbl = [], provider_tbl = [], node_tbl = [], proxy_tbl = []\<rparr>"

text \<open>\<open>(SELECT id FROM app WHERE name = ? AND id != '')\<close>: no row gives \<open>NULL\<close>, which equals nothing,
  so a comparison with it selects no row.\<close>

definition app_id_of :: "db \<Rightarrow> string \<Rightarrow> string option" where
  "app_id_of d name = map_option a_ID (tbl_find (\<lambda>a. a_Name a = name \<and> a_ID a \<noteq> '''') (app_tbl d))"

text \<open>\<open>COALESCE((SELECT id FROM app WHERE name = ? AND id != ''), '')\<close>\<close>

definition app_id_or_empty :: "db \<Rightarrow> string \<Rightarrow> string" where
  "app_id_or_empty d name = (case app_id_of d name of None \<Rightarrow> '''' | Some i \<Rightarrow> i)"

text \<open>\<open>COALESCE((SELECT name FROM app a WHERE a.id = t.app_id), t.app_name)\<close>, without an id guard.\<close>

definition app_name_of_id :: "db \<Rightarrow> string \<Rightarrow> string \<Rightarrow> string" where
  "app_name_of_id d i mirror = (case tbl_find (\<lambda>a. a_ID a = i) (app_tbl d) of None \<Rightarrow> mirror | Some a \<Rightarrow> a_Name a)"

text \<open>\<open>checkAffected\<close>: no row touched is the given not-found error.\<close>

definition checkAffected :: "nat \<Rightarrow> err \<Rightarrow> db \<Rightarrow> db res" where
  "checkAffected n notFound d = (if n = 0 then Inl notFound else Inr d)"

section \<open>Constraints\<close>

definition app_conflict :: "App \<Rightarrow> App \<Rightarrow> bool" where
  "app_conflict a b \<longleftrightarrow> a_Name a = a_Name b \<or> a_Port a = a_Port b \<or> (a_ID a \<noteq> '''' \<and> a_ID a = a_ID b)"

definition user_conflict :: "User \<Rightarrow> User \<Rightarrow> bool" where
  "user_conflict a b \<longleftrightarrow> u_ID a = u_ID b \<or> u_Email a = u_Email b"

definition token_conflict :: "token_row \<Rightarrow> token_row \<Rightarrow> bool" where
  "token_conflict a b \<longleftrightarrow> tk_ID a = tk_ID b \<or> tk_Hash a = tk_Hash b"

definition user_key_conflict :: "UserKey \<Rightarrow> UserKey \<Rightarrow> bool" where
  "user_key_conflict a b \<longleftrightarrow> k_ID a = k_ID b"

definition allowed_domain_conflict :: "AllowedDomain \<Rightarrow> AllowedDomain \<Rightarrow> bool" where
  "allowed_domain_conflict a b \<longleftrightarrow> ad_Domain a = ad_Domain b"

definition session_conflict :: "session_row \<Rightarrow> session_row \<Rightarrow> bool" where
  "session_conflict a b \<longleftrightarrow> as_app_name a = as_app_name b \<or> (as_app_id a \<noteq> '''' \<and> as_app_id a = as_app_id b)"

definition snapshot_conflict :: "snapshot_row \<Rightarrow> snapshot_row \<Rightarrow> bool" where
  "snapshot_conflict a b \<longleftrightarrow> s_ID a = s_ID b"

definition domain_conflict :: "domain_row \<Rightarrow> domain_row \<Rightarrow> bool" where
  "domain_conflict a b \<longleftrightarrow> d_Domain a = d_Domain b"

definition event_conflict :: "event_row \<Rightarrow> event_row \<Rightarrow> bool" where
  "event_conflict a b \<longleftrightarrow> e_ID a = e_ID b"

definition usage_conflict :: "usage_row \<Rightarrow> usage_row \<Rightarrow> bool" where
  "usage_conflict a b \<longleftrightarrow> us_app_id a = us_app_id b"

definition mode_conflict :: "mode_row \<Rightarrow> mode_row \<Rightarrow> bool" where
  "mode_conflict a b \<longleftrightarrow> am_app_id a = am_app_id b"

definition grant_conflict :: "grant_row \<Rightarrow> grant_row \<Rightarrow> bool" where
  "grant_conflict a b \<longleftrightarrow> g_app_id a = g_app_id b \<and> g_who a = g_who b"

definition connection_conflict :: "Connection \<Rightarrow> Connection \<Rightarrow> bool" where
  "connection_conflict a b \<longleftrightarrow> c_ID a = c_ID b \<or> (c_UserID a = c_UserID b \<and> c_Slug a = c_Slug b)"

definition provider_conflict :: "Provider \<Rightarrow> Provider \<Rightarrow> bool" where
  "provider_conflict a b \<longleftrightarrow> pv_ID a = pv_ID b \<or> (pv_OwnerID a = pv_OwnerID b \<and> pv_Name a = pv_Name b)"

definition node_conflict :: "Node \<Rightarrow> Node \<Rightarrow> bool" where
  "node_conflict a b \<longleftrightarrow> n_Name a = n_Name b"

definition proxy_conflict :: "Proxy \<Rightarrow> Proxy \<Rightarrow> bool" where
  "proxy_conflict a b \<longleftrightarrow> px_Name a = px_Name b"

lemmas conflict_defs = app_conflict_def user_conflict_def token_conflict_def user_key_conflict_def
  allowed_domain_conflict_def session_conflict_def snapshot_conflict_def domain_conflict_def
  event_conflict_def usage_conflict_def mode_conflict_def grant_conflict_def
  connection_conflict_def provider_conflict_def node_conflict_def proxy_conflict_def

definition conflicts_with :: "('r \<Rightarrow> 'r \<Rightarrow> bool) \<Rightarrow> 'r \<Rightarrow> 'r list \<Rightarrow> bool" where
  "conflicts_with c r t = list_ex (\<lambda>x. c x r) t"

definition tbl_unique :: "('r \<Rightarrow> 'r \<Rightarrow> bool) \<Rightarrow> 'r list \<Rightarrow> bool" where
  "tbl_unique c t = sorted_wrt (\<lambda>a b. \<not> c a b) t"

text \<open>A plain \<open>INSERT\<close> fails with the driver's UNIQUE error when the row conflicts; \<open>INSERT OR IGNORE\<close>
  leaves the table as it is; \<open>INSERT OR REPLACE\<close> first deletes the rows in the way.\<close>

definition tbl_insert :: "('r \<Rightarrow> 'r \<Rightarrow> bool) \<Rightarrow> 'r \<Rightarrow> 'r list \<Rightarrow> 'r list res" where
  "tbl_insert c r t = (if conflicts_with c r t then Inl SqlUnique else Inr (t @ [r]))"

definition tbl_insert_or_ignore :: "('r \<Rightarrow> 'r \<Rightarrow> bool) \<Rightarrow> 'r \<Rightarrow> 'r list \<Rightarrow> 'r list" where
  "tbl_insert_or_ignore c r t = (if conflicts_with c r t then t else t @ [r])"

definition tbl_insert_or_replace :: "('r \<Rightarrow> 'r \<Rightarrow> bool) \<Rightarrow> 'r \<Rightarrow> 'r list \<Rightarrow> 'r list" where
  "tbl_insert_or_replace c r t = tbl_delete (\<lambda>x. c x r) t @ [r]"

text \<open>An \<open>UPDATE\<close> of key columns fails with the UNIQUE error when the rewritten table is not unique.\<close>

definition tbl_update_checked ::
  "('r \<Rightarrow> 'r \<Rightarrow> bool) \<Rightarrow> ('r \<Rightarrow> bool) \<Rightarrow> ('r \<Rightarrow> 'r) \<Rightarrow> 'r list \<Rightarrow> 'r list res" where
  "tbl_update_checked c P f t =
     (let t' = tbl_update P f t in if tbl_unique c t' then Inr t' else Inl SqlUnique)"

text \<open>The schema's invariant: every table is unique, and the event counter is ahead of every event id.\<close>

definition db_unique :: "db \<Rightarrow> bool" where
  "db_unique d \<longleftrightarrow>
     tbl_unique app_conflict (app_tbl d) \<and>
     tbl_unique user_conflict (user_tbl d) \<and>
     tbl_unique token_conflict (token_tbl d) \<and>
     tbl_unique user_key_conflict (user_key_tbl d) \<and>
     tbl_unique allowed_domain_conflict (allowed_domain_tbl d) \<and>
     tbl_unique session_conflict (assistant_session_tbl d) \<and>
     tbl_unique snapshot_conflict (snapshot_tbl d) \<and>
     tbl_unique domain_conflict (app_domain_tbl d) \<and>
     tbl_unique event_conflict (app_event_tbl d) \<and>
     (\<forall>e \<in> set (app_event_tbl d). e_ID e \<le> app_event_seq d) \<and>
     tbl_unique usage_conflict (app_usage_tbl d) \<and>
     tbl_unique mode_conflict (app_assistant_tbl d) \<and>
     tbl_unique grant_conflict (app_collaborator_tbl d) \<and>
     tbl_unique grant_conflict (app_viewer_tbl d) \<and>
     tbl_unique grant_conflict (pending_viewer_tbl d) \<and>
     tbl_unique connection_conflict (connection_tbl d) \<and>
     tbl_unique grant_conflict (app_connection_tbl d) \<and>
     tbl_unique provider_conflict (provider_tbl d) \<and>
     tbl_unique node_conflict (node_tbl d) \<and>
     tbl_unique proxy_conflict (proxy_tbl d)"

section \<open>Lemmas on unique tables\<close>

lemma conflicts_with_iff [tbl_simps]: "conflicts_with c r t \<longleftrightarrow> (\<exists>x \<in> set t. c x r)"
  by (simp add: conflicts_with_def list_ex_iff)

lemma tbl_unique_Nil [simp]: "tbl_unique c []"
  by (simp add: tbl_unique_def)

lemma tbl_unique_append1 [simp]:
  "tbl_unique c (t @ [r]) \<longleftrightarrow> tbl_unique c t \<and> \<not> conflicts_with c r t"
  by (auto simp: tbl_unique_def sorted_wrt_append conflicts_with_iff)

lemma tbl_unique_delete [simp, intro]: "tbl_unique c t \<Longrightarrow> tbl_unique c (tbl_delete P t)"
  by (simp add: tbl_unique_def tbl_delete_def sorted_wrt_filter)

lemma tbl_unique_filter [simp, intro]: "tbl_unique c t \<Longrightarrow> tbl_unique c (filter P t)"
  by (simp add: tbl_unique_def sorted_wrt_filter)

lemma tbl_unique_update:
  assumes "tbl_unique c t"
    and "\<And>a b. a \<in> set t \<Longrightarrow> b \<in> set t \<Longrightarrow> \<not> c a b \<Longrightarrow>
           \<not> c (if P a then f a else a) (if P b then f b else b)"
  shows "tbl_unique c (tbl_update P f t)"
  using assms
proof (induction t)
  case Nil
  then show ?case by (simp add: tbl_update_def)
next
  case (Cons x xs)
  have "tbl_unique c (tbl_update P f xs)"
    using Cons.IH Cons.prems by (simp add: tbl_unique_def)
  moreover have "\<forall>y \<in> set xs. \<not> c (if P x then f x else x) (if P y then f y else y)"
    using Cons.prems by (simp add: tbl_unique_def)
  ultimately show ?case by (auto simp: tbl_unique_def tbl_update_def split: if_splits)
qed

text \<open>An update that leaves the key columns alone keeps uniqueness.\<close>

lemma tbl_unique_update_key:
  assumes "tbl_unique c t" and "\<And>a b. c (f a) b = c a b" and "\<And>a b. c a (f b) = c a b"
  shows "tbl_unique c (tbl_update P f t)"
  using assms by (intro tbl_unique_update) auto

lemma tbl_unique_insert:
  "tbl_insert c r t = Inr t' \<Longrightarrow> tbl_unique c t \<Longrightarrow> tbl_unique c t'"
  by (auto simp: tbl_insert_def split: if_splits)

lemma tbl_unique_insert_or_ignore [simp, intro]:
  "tbl_unique c t \<Longrightarrow> tbl_unique c (tbl_insert_or_ignore c r t)"
  by (simp add: tbl_insert_or_ignore_def)

lemma tbl_unique_insert_or_replace [simp, intro]:
  "tbl_unique c t \<Longrightarrow> tbl_unique c (tbl_insert_or_replace c r t)"
  by (auto simp: tbl_insert_or_replace_def conflicts_with_iff)

lemma tbl_insert_Inr [tbl_simps]:
  "tbl_insert c r t = Inr t' \<longleftrightarrow> \<not> conflicts_with c r t \<and> t' = t @ [r]"
  by (auto simp: tbl_insert_def)

lemma tbl_insert_Inl [tbl_simps]:
  "tbl_insert c r t = Inl e \<longleftrightarrow> conflicts_with c r t \<and> e = SqlUnique"
  by (auto simp: tbl_insert_def)

lemma tbl_update_checked_Inr [tbl_simps]:
  "tbl_update_checked c P f t = Inr t' \<longleftrightarrow> t' = tbl_update P f t \<and> tbl_unique c t'"
  by (auto simp: tbl_update_checked_def Let_def)

lemma tbl_update_checked_Inl [tbl_simps]:
  "tbl_update_checked c P f t = Inl e \<longleftrightarrow> \<not> tbl_unique c (tbl_update P f t) \<and> e = SqlUnique"
  by (auto simp: tbl_update_checked_def Let_def)

text \<open>Two rows of a unique table whose keys agree are the same row, so a lookup by a key finds it.\<close>

lemma tbl_unique_distinct:
  assumes "tbl_unique c t" and "\<And>a b. k a = k b \<Longrightarrow> c a b"
  shows "distinct (map k t)"
  using assms(1)
proof (induction t)
  case Nil
  then show ?case by simp
next
  case (Cons x xs)
  then have "tbl_unique c xs" and "\<forall>y \<in> set xs. \<not> c x y"
    by (simp_all add: tbl_unique_def)
  then show ?case using Cons.IH assms(2) by (metis (mono_tags, lifting) distinct.simps(2) image_iff list.set_map list.simps(9))
qed

lemma tbl_unique_find:
  assumes "tbl_unique c t" and "\<And>a b. k a = k b \<Longrightarrow> c a b"
  shows "tbl_find (\<lambda>x. k x = v) t = Some r \<longleftrightarrow> r \<in> set t \<and> k r = v"
  by (rule tbl_find_key_iff[OF tbl_unique_distinct[OF assms]])

lemma tbl_unique_same:
  assumes "tbl_unique c t" and "\<And>a b. k a = k b \<Longrightarrow> c a b"
    and "a \<in> set t" and "b \<in> set t" and "k a = k b"
  shows "a = b"
  using distinct_key_eq[OF tbl_unique_distinct[OF assms(1,2)]] assms(3-5) by blast

text \<open>The name and id lookups read the app table only, so writes to the other tables pass through them.\<close>

lemma app_id_of_cong: "app_tbl d' = app_tbl d \<Longrightarrow> app_id_of d' = app_id_of d"
  by (rule ext) (simp add: app_id_of_def)

lemma app_id_or_empty_cong: "app_tbl d' = app_tbl d \<Longrightarrow> app_id_or_empty d' = app_id_or_empty d"
  by (rule ext) (simp add: app_id_or_empty_def app_id_of_def)

lemma app_name_of_id_cong: "app_tbl d' = app_tbl d \<Longrightarrow> app_name_of_id d' = app_name_of_id d"
  by (intro ext) (simp add: app_name_of_id_def)

lemma app_id_of_upd [simp]:
  "app_id_of (d\<lparr>user_tbl := v0\<rparr>) = app_id_of d"
  "app_id_of (d\<lparr>token_tbl := v1\<rparr>) = app_id_of d"
  "app_id_of (d\<lparr>user_key_tbl := v2\<rparr>) = app_id_of d"
  "app_id_of (d\<lparr>app_key_tbl := v3\<rparr>) = app_id_of d"
  "app_id_of (d\<lparr>setting_tbl := v4\<rparr>) = app_id_of d"
  "app_id_of (d\<lparr>allowed_domain_tbl := v5\<rparr>) = app_id_of d"
  "app_id_of (d\<lparr>assistant_session_tbl := v6\<rparr>) = app_id_of d"
  "app_id_of (d\<lparr>snapshot_tbl := v7\<rparr>) = app_id_of d"
  "app_id_of (d\<lparr>app_domain_tbl := v8\<rparr>) = app_id_of d"
  "app_id_of (d\<lparr>app_event_tbl := v9\<rparr>) = app_id_of d"
  "app_id_of (d\<lparr>app_event_seq := v10\<rparr>) = app_id_of d"
  "app_id_of (d\<lparr>app_usage_tbl := v11\<rparr>) = app_id_of d"
  "app_id_of (d\<lparr>app_assistant_tbl := v12\<rparr>) = app_id_of d"
  "app_id_of (d\<lparr>app_collaborator_tbl := v13\<rparr>) = app_id_of d"
  "app_id_of (d\<lparr>app_viewer_tbl := v14\<rparr>) = app_id_of d"
  "app_id_of (d\<lparr>pending_viewer_tbl := v15\<rparr>) = app_id_of d"
  "app_id_of (d\<lparr>connection_tbl := v16\<rparr>) = app_id_of d"
  "app_id_of (d\<lparr>app_connection_tbl := v17\<rparr>) = app_id_of d"
  "app_id_of (d\<lparr>provider_tbl := v18\<rparr>) = app_id_of d"
  "app_id_of (d\<lparr>node_tbl := v19\<rparr>) = app_id_of d"
  "app_id_of (d\<lparr>proxy_tbl := v20\<rparr>) = app_id_of d"
  by (rule app_id_of_cong, simp)+

lemma app_id_or_empty_upd [simp]:
  "app_id_or_empty (d\<lparr>user_tbl := v0\<rparr>) = app_id_or_empty d"
  "app_id_or_empty (d\<lparr>token_tbl := v1\<rparr>) = app_id_or_empty d"
  "app_id_or_empty (d\<lparr>user_key_tbl := v2\<rparr>) = app_id_or_empty d"
  "app_id_or_empty (d\<lparr>app_key_tbl := v3\<rparr>) = app_id_or_empty d"
  "app_id_or_empty (d\<lparr>setting_tbl := v4\<rparr>) = app_id_or_empty d"
  "app_id_or_empty (d\<lparr>allowed_domain_tbl := v5\<rparr>) = app_id_or_empty d"
  "app_id_or_empty (d\<lparr>assistant_session_tbl := v6\<rparr>) = app_id_or_empty d"
  "app_id_or_empty (d\<lparr>snapshot_tbl := v7\<rparr>) = app_id_or_empty d"
  "app_id_or_empty (d\<lparr>app_domain_tbl := v8\<rparr>) = app_id_or_empty d"
  "app_id_or_empty (d\<lparr>app_event_tbl := v9\<rparr>) = app_id_or_empty d"
  "app_id_or_empty (d\<lparr>app_event_seq := v10\<rparr>) = app_id_or_empty d"
  "app_id_or_empty (d\<lparr>app_usage_tbl := v11\<rparr>) = app_id_or_empty d"
  "app_id_or_empty (d\<lparr>app_assistant_tbl := v12\<rparr>) = app_id_or_empty d"
  "app_id_or_empty (d\<lparr>app_collaborator_tbl := v13\<rparr>) = app_id_or_empty d"
  "app_id_or_empty (d\<lparr>app_viewer_tbl := v14\<rparr>) = app_id_or_empty d"
  "app_id_or_empty (d\<lparr>pending_viewer_tbl := v15\<rparr>) = app_id_or_empty d"
  "app_id_or_empty (d\<lparr>connection_tbl := v16\<rparr>) = app_id_or_empty d"
  "app_id_or_empty (d\<lparr>app_connection_tbl := v17\<rparr>) = app_id_or_empty d"
  "app_id_or_empty (d\<lparr>provider_tbl := v18\<rparr>) = app_id_or_empty d"
  "app_id_or_empty (d\<lparr>node_tbl := v19\<rparr>) = app_id_or_empty d"
  "app_id_or_empty (d\<lparr>proxy_tbl := v20\<rparr>) = app_id_or_empty d"
  by (rule app_id_or_empty_cong, simp)+

lemma app_name_of_id_upd [simp]:
  "app_name_of_id (d\<lparr>user_tbl := v0\<rparr>) = app_name_of_id d"
  "app_name_of_id (d\<lparr>token_tbl := v1\<rparr>) = app_name_of_id d"
  "app_name_of_id (d\<lparr>user_key_tbl := v2\<rparr>) = app_name_of_id d"
  "app_name_of_id (d\<lparr>app_key_tbl := v3\<rparr>) = app_name_of_id d"
  "app_name_of_id (d\<lparr>setting_tbl := v4\<rparr>) = app_name_of_id d"
  "app_name_of_id (d\<lparr>allowed_domain_tbl := v5\<rparr>) = app_name_of_id d"
  "app_name_of_id (d\<lparr>assistant_session_tbl := v6\<rparr>) = app_name_of_id d"
  "app_name_of_id (d\<lparr>snapshot_tbl := v7\<rparr>) = app_name_of_id d"
  "app_name_of_id (d\<lparr>app_domain_tbl := v8\<rparr>) = app_name_of_id d"
  "app_name_of_id (d\<lparr>app_event_tbl := v9\<rparr>) = app_name_of_id d"
  "app_name_of_id (d\<lparr>app_event_seq := v10\<rparr>) = app_name_of_id d"
  "app_name_of_id (d\<lparr>app_usage_tbl := v11\<rparr>) = app_name_of_id d"
  "app_name_of_id (d\<lparr>app_assistant_tbl := v12\<rparr>) = app_name_of_id d"
  "app_name_of_id (d\<lparr>app_collaborator_tbl := v13\<rparr>) = app_name_of_id d"
  "app_name_of_id (d\<lparr>app_viewer_tbl := v14\<rparr>) = app_name_of_id d"
  "app_name_of_id (d\<lparr>pending_viewer_tbl := v15\<rparr>) = app_name_of_id d"
  "app_name_of_id (d\<lparr>connection_tbl := v16\<rparr>) = app_name_of_id d"
  "app_name_of_id (d\<lparr>app_connection_tbl := v17\<rparr>) = app_name_of_id d"
  "app_name_of_id (d\<lparr>provider_tbl := v18\<rparr>) = app_name_of_id d"
  "app_name_of_id (d\<lparr>node_tbl := v19\<rparr>) = app_name_of_id d"
  "app_name_of_id (d\<lparr>proxy_tbl := v20\<rparr>) = app_name_of_id d"
  by (rule app_name_of_id_cong, simp)+

lemma app_id_of_neq [simp]: "app_id_of d name \<noteq> Some []"
  by (auto simp: app_id_of_def dest: tbl_find_Some)

lemma app_id_or_empty_iff: "app_id_or_empty d name \<noteq> [] \<longleftrightarrow> app_id_of d name = Some (app_id_or_empty d name)"
  using app_id_of_neq[of d name] by (auto simp: app_id_or_empty_def split: option.splits)

lemma app_id_or_empty_Some [simp]: "app_id_of d name = Some i \<Longrightarrow> app_id_or_empty d name = i"
  by (simp add: app_id_or_empty_def)

lemma db_unique_empty: "db_unique empty_db"
  by (simp add: db_unique_def empty_db_def)

end
