(* ===== verification/Store_Tokens.thy ===== *)
theory Store_Tokens
  imports Store_Schema
begin

text \<open>
  API tokens (\<open>store/token.go\<close>), SSH keys (\<open>store/userkey.go\<close>), the settings table
  (\<open>store/setting.go\<close>) and the self-approved email domains (\<open>store/allowed_domain.go\<close>). An app-scoped token
  carries the app's id, so it stays attached across a rename; the name a token reports is resolved
  from that id when it is read.
\<close>

section \<open>Tokens\<close>

definition scanToken :: "db \<Rightarrow> token_row \<Rightarrow> Token" where
  "scanToken d r =
     \<lparr>tk_ID = tk_ID r, tk_UserID = tk_UserID r, tk_Hash = tk_Hash r, tk_Prefix = tk_Prefix r,
      tk_Label = tk_Label r, tk_AppName = app_name_of_id d (tk_app_id r) (tk_AppName r),
      tk_Secret = tk_Secret r, tk_CreatedAt = tk_CreatedAt r,
      tk_LastUsed = (case tk_LastUsed r of Some u \<Rightarrow> if 0 < u then Some u else None | None \<Rightarrow> None)\<rparr>"

definition AddToken :: "int \<Rightarrow> string \<Rightarrow> db \<Rightarrow> Token \<Rightarrow> (db \<times> Token) res" where
  "AddToken now rid d t0 =
     (let t = t0\<lparr>tk_ID := if tk_ID t0 = '''' then ''tk_'' @ rid else tk_ID t0,
                 tk_CreatedAt := if tk_CreatedAt t0 = None then Some now else tk_CreatedAt t0\<rparr>;
          r = \<lparr>tk_ID = tk_ID t, tk_UserID = tk_UserID t, tk_Hash = tk_Hash t, tk_Prefix = tk_Prefix t,
               tk_Label = tk_Label t, tk_AppName = tk_AppName t, tk_Secret = tk_Secret t,
               tk_CreatedAt = tk_CreatedAt t, tk_LastUsed = None,
               tk_app_id = app_id_or_empty d (tk_AppName t)\<rparr>
      in case tbl_insert token_conflict r (token_tbl d) of
           Inl e \<Rightarrow> Inl e
         | Inr tbl \<Rightarrow> Inr (d\<lparr>token_tbl := tbl\<rparr>, t))"

definition TokenByHash :: "db \<Rightarrow> string \<Rightarrow> Token res" where
  "TokenByHash d hash =
     (case tbl_find (\<lambda>r. tk_Hash r = hash) (token_tbl d) of
        None \<Rightarrow> Inl ErrTokenNotFound
      | Some r \<Rightarrow> Inr (scanToken d r))"

definition TokensByUser :: "db \<Rightarrow> string \<Rightarrow> Token list" where
  "TokensByUser d userID =
     map (scanToken d) (sort_key (\<lambda>r. unix_of (tk_CreatedAt r)) (filter (\<lambda>r. tk_UserID r = userID) (token_tbl d)))"

definition TokensByApp :: "db \<Rightarrow> string \<Rightarrow> Token list" where
  "TokensByApp d appName =
     map (scanToken d) (sort_key (\<lambda>r. unix_of (tk_CreatedAt r))
       (filter (\<lambda>r. Some (tk_app_id r) = app_id_of d appName) (token_tbl d)))"

text \<open>\<open>WHERE app_id = ? OR (app_id = '' AND app_name = ?)\<close>, the predicate all the per-app deletions use.\<close>

definition app_row_sel :: "string \<Rightarrow> string \<Rightarrow> string \<Rightarrow> string \<Rightarrow> bool" where
  "app_row_sel appID appName rowID rowName \<longleftrightarrow> rowID = appID \<or> (rowID = '''' \<and> rowName = appName)"

definition RemoveTokensByApp :: "db \<Rightarrow> string \<Rightarrow> string \<Rightarrow> db" where
  "RemoveTokensByApp d appID appName =
     d\<lparr>token_tbl := tbl_delete (\<lambda>r. app_row_sel appID appName (tk_app_id r) (tk_AppName r)) (token_tbl d)\<rparr>"

definition TouchToken :: "int \<Rightarrow> db \<Rightarrow> string \<Rightarrow> db" where
  "TouchToken now d i = d\<lparr>token_tbl := tbl_update (\<lambda>r. tk_ID r = i) (\<lambda>r. r\<lparr>tk_LastUsed := Some now\<rparr>) (token_tbl d)\<rparr>"

definition RemoveToken :: "db \<Rightarrow> string \<Rightarrow> string \<Rightarrow> db res" where
  "RemoveToken d userID i =
     (let P = \<lambda>r. tk_UserID r = userID \<and> tk_ID r = i
      in checkAffected (affected P (token_tbl d)) ErrTokenNotFound (d\<lparr>token_tbl := tbl_delete P (token_tbl d)\<rparr>))"

section \<open>Keys\<close>

definition AddUserKey :: "int \<Rightarrow> string \<Rightarrow> db \<Rightarrow> UserKey \<Rightarrow> (db \<times> UserKey) res" where
  "AddUserKey now rid d k0 =
     (let k = k0\<lparr>k_ID := if k_ID k0 = '''' then ''k_'' @ rid else k_ID k0,
                 k_CreatedAt := if k_CreatedAt k0 = None then Some now else k_CreatedAt k0\<rparr>
      in case tbl_insert user_key_conflict k (user_key_tbl d) of
           Inl e \<Rightarrow> Inl e
         | Inr tbl \<Rightarrow> Inr (d\<lparr>user_key_tbl := tbl\<rparr>, k))"

definition UserKeys :: "db \<Rightarrow> string \<Rightarrow> UserKey list" where
  "UserKeys d userID = sort_key (\<lambda>k. unix_of (k_CreatedAt k)) (filter (\<lambda>k. k_UserID k = userID) (user_key_tbl d))"

definition RenameUserKey :: "db \<Rightarrow> string \<Rightarrow> string \<Rightarrow> string \<Rightarrow> db res" where
  "RenameUserKey d userID i label =
     (let P = \<lambda>k. k_UserID k = userID \<and> k_ID k = i
      in checkAffected (affected P (user_key_tbl d)) ErrKeyNotFound
           (d\<lparr>user_key_tbl := tbl_update P (\<lambda>k. k\<lparr>k_Label := label\<rparr>) (user_key_tbl d)\<rparr>))"

definition RemoveUserKey :: "db \<Rightarrow> string \<Rightarrow> string \<Rightarrow> db res" where
  "RemoveUserKey d userID i =
     (let P = \<lambda>k. k_UserID k = userID \<and> k_ID k = i
      in checkAffected (affected P (user_key_tbl d)) ErrKeyNotFound
           (d\<lparr>user_key_tbl := tbl_delete P (user_key_tbl d)\<rparr>))"

definition SetAppKeys :: "db \<Rightarrow> string \<Rightarrow> string list \<Rightarrow> db" where
  "SetAppKeys d appName keys =
     (let d1 = d\<lparr>app_key_tbl := tbl_delete (\<lambda>r. Some (ak_app_id r) = app_id_of d appName) (app_key_tbl d)\<rparr>
      in fold (\<lambda>key d'. d'\<lparr>app_key_tbl := app_key_tbl d' @
             [\<lparr>ak_app_name = appName, ak_app_id = app_id_or_empty d' appName, ak_key = key\<rparr>]\<rparr>) keys d1)"

definition AppKeys :: "db \<Rightarrow> string \<Rightarrow> string list" where
  "AppKeys d appName = map ak_key (filter (\<lambda>r. Some (ak_app_id r) = app_id_of d appName) (app_key_tbl d))"

section \<open>Settings and allowed domains\<close>

definition SetSetting :: "db \<Rightarrow> string \<Rightarrow> string \<Rightarrow> db" where
  "SetSetting d key value = d\<lparr>setting_tbl := (setting_tbl d)(key \<mapsto> value)\<rparr>"

definition Settings :: "db \<Rightarrow> string \<rightharpoonup> string" where
  "Settings d = setting_tbl d"

definition Setting :: "db \<Rightarrow> string \<Rightarrow> string" where
  "Setting d key = (case setting_tbl d key of None \<Rightarrow> '''' | Some v \<Rightarrow> v)"

text \<open>The upsert's \<open>DO UPDATE SET created_at = created_at\<close> leaves the stored row alone; \<open>RETURNING\<close> reports
  its time.\<close>

definition AddAllowedDomain :: "int \<Rightarrow> db \<Rightarrow> AllowedDomain \<Rightarrow> db \<times> AllowedDomain" where
  "AddAllowedDomain now d ad =
     (case tbl_find (\<lambda>r. ad_Domain r = ad_Domain ad) (allowed_domain_tbl d) of
        Some r \<Rightarrow> (d, ad\<lparr>ad_CreatedAt := ad_CreatedAt r\<rparr>)
      | None \<Rightarrow> (let ad' = ad\<lparr>ad_CreatedAt := Some now\<rparr>
                 in (d\<lparr>allowed_domain_tbl := allowed_domain_tbl d @ [ad']\<rparr>, ad')))"

definition AllowedDomains :: "db \<Rightarrow> AllowedDomain list" where
  "AllowedDomains d = sort_key ad_Domain (allowed_domain_tbl d)"

definition DomainAllowed :: "db \<Rightarrow> string \<Rightarrow> bool" where
  "DomainAllowed d name = (affected (\<lambda>r. ad_Domain r = name) (allowed_domain_tbl d) > 0)"

definition RemoveAllowedDomain :: "db \<Rightarrow> string \<Rightarrow> db res" where
  "RemoveAllowedDomain d name =
     (let P = \<lambda>r. ad_Domain r = name
      in checkAffected (affected P (allowed_domain_tbl d)) ErrDomainNotFound
           (d\<lparr>allowed_domain_tbl := tbl_delete P (allowed_domain_tbl d)\<rparr>))"

section \<open>Lemmas\<close>

lemma checkAffected_Inr [tbl_simps]: "checkAffected n e d = Inr d' \<longleftrightarrow> n \<noteq> 0 \<and> d' = d"
  by (auto simp: checkAffected_def)

lemma checkAffected_Inl [tbl_simps]: "checkAffected n e d = Inl e' \<longleftrightarrow> n = 0 \<and> e' = e"
  by (auto simp: checkAffected_def)

lemma token_row_upd_conflict [simp]:
  "token_conflict (r\<lparr>tk_LastUsed := x\<rparr>) s = token_conflict r s"
  "token_conflict s (r\<lparr>tk_LastUsed := x\<rparr>) = token_conflict s r"
  "token_conflict (r\<lparr>tk_UserID := y\<rparr>) s = token_conflict r s"
  "token_conflict s (r\<lparr>tk_UserID := y\<rparr>) = token_conflict s r"
  by (simp_all add: token_conflict_def)

lemma scanToken_cong: "app_tbl d' = app_tbl d \<Longrightarrow> scanToken d' = scanToken d"
  by (rule ext) (simp add: scanToken_def app_name_of_id_def)

lemma SetAppKeys_fold:
  "fold (\<lambda>key d'. d'\<lparr>app_key_tbl := app_key_tbl d' @
     [\<lparr>ak_app_name = n, ak_app_id = app_id_or_empty d' n, ak_key = key\<rparr>]\<rparr>) keys d =
   d\<lparr>app_key_tbl := app_key_tbl d @
     map (\<lambda>key. \<lparr>ak_app_name = n, ak_app_id = app_id_or_empty d n, ak_key = key\<rparr>) keys\<rparr>"
  by (induction keys arbitrary: d) simp_all

text \<open>The keys set for an app are the keys read back, and nobody else's keys change.\<close>

lemma SetAppKeys_eq:
  "SetAppKeys d n keys = d\<lparr>app_key_tbl :=
     tbl_delete (\<lambda>r. Some (ak_app_id r) = app_id_of d n) (app_key_tbl d) @
     map (\<lambda>key. \<lparr>ak_app_name = n, ak_app_id = app_id_or_empty d n, ak_key = key\<rparr>) keys\<rparr>"
  by (simp add: SetAppKeys_def Let_def SetAppKeys_fold)

lemma AppKeys_SetAppKeys:
  assumes "app_id_of d n = Some i"
  shows "AppKeys (SetAppKeys d n keys) n = keys"
  using assms by (simp add: AppKeys_def SetAppKeys_eq tbl_delete_def comp_def)

lemma AppKeys_SetAppKeys_other:
  assumes "app_id_of d n = Some i" "app_id_of d m \<noteq> Some i"
  shows "AppKeys (SetAppKeys d n keys) m = AppKeys d m"
proof -
  have "filter (\<lambda>r. Some (ak_app_id r) = app_id_of d m) (tbl_delete (\<lambda>r. ak_app_id r = i) t)
      = filter (\<lambda>r. Some (ak_app_id r) = app_id_of d m) t" for t :: "app_key_row list"
    using assms by (intro filter_tbl_delete_disjoint) auto
  then show ?thesis
    using assms by (auto simp: AppKeys_def SetAppKeys_eq)
qed

end
