(* ===== verification/Store_Apps.thy ===== *)
theory Store_Apps
  imports Store_Tokens
begin

text \<open>
  The app registry (\<open>store/app.go\<close>). An app is addressed by its name, but everything attached to it is
  keyed on its id, so a rename touches the app row and one mirror column only. Deleting an app cascades
  over every per-app table; changing its owner drops the connections the previous owner lent it.
\<close>

section \<open>Operations\<close>

definition AddApp :: "int \<Rightarrow> string \<Rightarrow> db \<Rightarrow> App \<Rightarrow> (db \<times> App) res" where
  "AddApp now rid d app0 =
     (let app = app0\<lparr>a_CreatedAt := if a_CreatedAt app0 = None then Some now else a_CreatedAt app0,
                     a_ID := if a_ID app0 = '''' then rid else a_ID app0\<rparr>;
          r = \<lparr>a_ID = a_ID app, a_Name = a_Name app, a_Port = a_Port app, a_Host = a_Host app,
               a_OwnerID = a_OwnerID app, a_DiskMB = 0, a_CreatedAt = a_CreatedAt app,
               a_ImageTag = a_ImageTag app, a_UID = a_UID app, a_PoweredOff = False, a_Archived = False,
               a_SoftDeletedAt = None, a_Listed = False, a_Private = a_Private app,
               a_MemoryLimitMB = 0, a_DiskLimitMB = 0, a_CPUMilli = 0, a_Tabs = ''''\<rparr>
      in case tbl_insert app_conflict r (app_tbl d) of
           Inl e \<Rightarrow> Inl e
         | Inr tbl \<Rightarrow> Inr (d\<lparr>app_tbl := tbl\<rparr>, app))"

definition AppByUID :: "db \<Rightarrow> int \<Rightarrow> App res" where
  "AppByUID d uid =
     (case tbl_find (\<lambda>a. a_UID a = uid) (app_tbl d) of None \<Rightarrow> Inl ErrAppNotFound | Some a \<Rightarrow> Inr a)"

definition upd_app :: "db \<Rightarrow> string \<Rightarrow> (App \<Rightarrow> App) \<Rightarrow> db" where
  "upd_app d name f = d\<lparr>app_tbl := tbl_update (\<lambda>a. a_Name a = name) f (app_tbl d)\<rparr>"

definition upd_app_checked :: "db \<Rightarrow> string \<Rightarrow> (App \<Rightarrow> App) \<Rightarrow> db res" where
  "upd_app_checked d name f =
     checkAffected (affected (\<lambda>a. a_Name a = name) (app_tbl d)) ErrAppNotFound (upd_app d name f)"

definition SetAppUID :: "db \<Rightarrow> string \<Rightarrow> int \<Rightarrow> db" where
  "SetAppUID d name uid = upd_app d name (\<lambda>a. a\<lparr>a_UID := uid\<rparr>)"

definition SetAppOwner :: "db \<Rightarrow> string \<Rightarrow> string \<Rightarrow> db" where
  "SetAppOwner d name ownerID =
     (let d1 = d\<lparr>app_connection_tbl := tbl_delete (\<lambda>g. Some (g_app_id g) = app_id_of d name) (app_connection_tbl d)\<rparr>
      in upd_app d1 name (\<lambda>a. a\<lparr>a_OwnerID := ownerID\<rparr>))"

definition SetAppArchived :: "db \<Rightarrow> string \<Rightarrow> bool \<Rightarrow> db" where
  "SetAppArchived d name archived = upd_app d name (\<lambda>a. a\<lparr>a_Archived := archived\<rparr>)"

text \<open>The stamp is stored as its Unix seconds and read back as the zero time when that is 0.\<close>

definition SetAppSoftDeleted :: "db \<Rightarrow> string \<Rightarrow> gotime \<Rightarrow> db res" where
  "SetAppSoftDeleted d name at =
     (let v = (case at of None \<Rightarrow> 0 | Some s \<Rightarrow> s)
      in upd_app_checked d name (\<lambda>a. a\<lparr>a_SoftDeletedAt := if v = 0 then None else Some v\<rparr>))"

definition SetAppTabs :: "db \<Rightarrow> string \<Rightarrow> string \<Rightarrow> db res" where
  "SetAppTabs d name tabs = upd_app_checked d name (\<lambda>a. a\<lparr>a_Tabs := tabs\<rparr>)"

definition SetAppPrivate :: "db \<Rightarrow> string \<Rightarrow> bool \<Rightarrow> db" where
  "SetAppPrivate d name private = upd_app d name (\<lambda>a. a\<lparr>a_Private := private\<rparr>)"

definition SetAppListed :: "db \<Rightarrow> string \<Rightarrow> bool \<Rightarrow> db res" where
  "SetAppListed d name listed = upd_app_checked d name (\<lambda>a. a\<lparr>a_Listed := listed\<rparr>)"

definition SetAppPoweredOff :: "db \<Rightarrow> string \<Rightarrow> bool \<Rightarrow> db" where
  "SetAppPoweredOff d name off = upd_app d name (\<lambda>a. a\<lparr>a_PoweredOff := off\<rparr>)"

text \<open>One transaction: an error of either statement leaves the database as it was.\<close>

definition RenameApp :: "db \<Rightarrow> string \<Rightarrow> string \<Rightarrow> db res" where
  "RenameApp d oldName newName =
     (case tbl_update_checked app_conflict (\<lambda>a. a_Name a = oldName) (\<lambda>a. a\<lparr>a_Name := newName\<rparr>) (app_tbl d) of
        Inl e \<Rightarrow> Inl ErrAppNameTaken
      | Inr apps \<Rightarrow>
          if affected (\<lambda>a. a_Name a = oldName) (app_tbl d) = 0 then Inl ErrAppNotFound
          else
            let d1 = d\<lparr>app_tbl := apps\<rparr>
            in case tbl_update_checked session_conflict (\<lambda>s. Some (as_app_id s) = app_id_of d1 newName)
                      (\<lambda>s. s\<lparr>as_app_name := newName\<rparr>) (assistant_session_tbl d1) of
                 Inl e \<Rightarrow> Inl e
               | Inr ss \<Rightarrow> Inr (d1\<lparr>assistant_session_tbl := ss\<rparr>))"

definition ImageTagsInUse :: "db \<Rightarrow> string set" where
  "ImageTagsInUse d = set (filter (\<lambda>t. t \<noteq> '''') (map a_ImageTag (app_tbl d)))"

definition Store_App :: "db \<Rightarrow> string \<Rightarrow> App res" where
  "Store_App d name = (case tbl_find (\<lambda>a. a_Name a = name) (app_tbl d) of None \<Rightarrow> Inl ErrAppNotFound | Some a \<Rightarrow> Inr a)"

definition AppHost :: "db \<Rightarrow> string \<Rightarrow> string res" where
  "AppHost d name =
     (case tbl_find (\<lambda>a. a_Name a = name) (app_tbl d) of None \<Rightarrow> Inl ErrAppNotFound | Some a \<Rightarrow> Inr (a_Host a))"

definition Apps :: "db \<Rightarrow> App list" where
  "Apps d = sort_key a_Name (app_tbl d)"

definition UpdateAppLimits :: "db \<Rightarrow> string \<Rightarrow> int \<Rightarrow> int \<Rightarrow> int \<Rightarrow> db res" where
  "UpdateAppLimits d name memoryLimitMB diskLimitMB cpuMilli =
     upd_app_checked d name (\<lambda>a. a\<lparr>a_MemoryLimitMB := memoryLimitMB, a_DiskLimitMB := diskLimitMB, a_CPUMilli := cpuMilli\<rparr>)"

definition AppsByOwner :: "db \<Rightarrow> string \<Rightarrow> App list" where
  "AppsByOwner d ownerID = sort_key a_Name (filter (\<lambda>a. a_OwnerID a = ownerID) (app_tbl d))"

definition AppCountByOwner :: "db \<Rightarrow> string \<Rightarrow> int" where
  "AppCountByOwner d ownerID =
     int (affected (\<lambda>a. a_OwnerID a = ownerID \<and> a_SoftDeletedAt a = None) (app_tbl d))"

definition UsedPorts :: "db \<Rightarrow> int list" where
  "UsedPorts d = sort (map a_Port (app_tbl d))"

definition UpdateAppUsage :: "db \<Rightarrow> string \<Rightarrow> int \<Rightarrow> db res" where
  "UpdateAppUsage d name diskMB = upd_app_checked d name (\<lambda>a. a\<lparr>a_DiskMB := diskMB\<rparr>)"

definition RemoveApp :: "db \<Rightarrow> string \<Rightarrow> db res" where
  "RemoveApp d name =
     (case Store_App d name of
        Inl e \<Rightarrow> Inl e
      | Inr app \<Rightarrow>
          let i = a_ID app;
              sel = app_row_sel i name;
              d1 = d\<lparr>app_tbl := tbl_delete (\<lambda>a. a_Name a = name) (app_tbl d)\<rparr>;
              d2 = d1\<lparr>app_key_tbl := tbl_delete (\<lambda>r. sel (ak_app_id r) (ak_app_name r)) (app_key_tbl d1)\<rparr>;
              d3 = d2\<lparr>assistant_session_tbl := tbl_delete (\<lambda>r. sel (as_app_id r) (as_app_name r)) (assistant_session_tbl d2)\<rparr>;
              d4 = d3\<lparr>snapshot_tbl := tbl_delete (\<lambda>r. sel (s_app_id r) (s_AppName r)) (snapshot_tbl d3)\<rparr>;
              d5 = d4\<lparr>app_domain_tbl := tbl_delete (\<lambda>r. sel (d_app_id r) (d_AppName r)) (app_domain_tbl d4)\<rparr>;
              d6 = d5\<lparr>app_event_tbl := tbl_delete (\<lambda>r. sel (e_app_id r) (e_AppName r)) (app_event_tbl d5)\<rparr>;
              d7 = d6\<lparr>app_usage_tbl := tbl_delete (\<lambda>r. us_app_id r = i) (app_usage_tbl d6)\<rparr>;
              d8 = d7\<lparr>app_collaborator_tbl := tbl_delete (\<lambda>g. g_app_id g = i) (app_collaborator_tbl d7)\<rparr>;
              d9 = d8\<lparr>pending_viewer_tbl := tbl_delete (\<lambda>g. g_app_id g = i) (pending_viewer_tbl d8)\<rparr>;
              d10 = d9\<lparr>app_viewer_tbl := tbl_delete (\<lambda>g. g_app_id g = i) (app_viewer_tbl d9)\<rparr>;
              d11 = d10\<lparr>app_connection_tbl := tbl_delete (\<lambda>g. g_app_id g = i) (app_connection_tbl d10)\<rparr>;
              d12 = d11\<lparr>app_assistant_tbl := tbl_delete (\<lambda>r. am_app_id r = i) (app_assistant_tbl d11)\<rparr>
          in Inr (RemoveTokensByApp d12 i name))"

end
