(* ===== verification/Store_Users.thy ===== *)
theory Store_Users
  imports Store_Apps
begin

text \<open>
  User accounts (\<open>store/user.go\<close>) and the two per-app grants to other people: collaborators
  (\<open>store/collaborator.go\<close>) and viewers with their pending invitations (\<open>store/viewer.go\<close>).
\<close>

section \<open>Users\<close>

definition AddUser :: "int \<Rightarrow> string \<Rightarrow> db \<Rightarrow> User \<Rightarrow> (db \<times> User) res" where
  "AddUser now rid d u0 =
     (let u = u0\<lparr>u_ID := if u_ID u0 = '''' then ''u_'' @ rid else u_ID u0,
                 u_CreatedAt := if u_CreatedAt u0 = None then Some now else u_CreatedAt u0\<rparr>;
          r = u\<lparr>u_TechLevel := '''', u_AssistantPrompt := '''', u_DefaultTabs := '''', u_Onboarded := False\<rparr>
      in case tbl_insert user_conflict r (user_tbl d) of
           Inl e \<Rightarrow> Inl e
         | Inr tbl \<Rightarrow> Inr (d\<lparr>user_tbl := tbl\<rparr>, u))"

definition Store_User :: "db \<Rightarrow> string \<Rightarrow> User res" where
  "Store_User d i = (case tbl_find (\<lambda>u. u_ID u = i) (user_tbl d) of None \<Rightarrow> Inl ErrUserNotFound | Some u \<Rightarrow> Inr u)"

definition UserByEmail :: "db \<Rightarrow> string \<Rightarrow> User res" where
  "UserByEmail d email =
     (case tbl_find (\<lambda>u. u_Email u = email) (user_tbl d) of None \<Rightarrow> Inl ErrUserNotFound | Some u \<Rightarrow> Inr u)"

definition Users :: "db \<Rightarrow> User list" where
  "Users d = sort_key u_Email (user_tbl d)"

definition UpdateUser :: "db \<Rightarrow> User \<Rightarrow> db res" where
  "UpdateUser d u =
     (let P = \<lambda>r. u_ID r = u_ID u
      in checkAffected (affected P (user_tbl d)) ErrUserNotFound
           (d\<lparr>user_tbl := tbl_update P
               (\<lambda>r. r\<lparr>u_Name := u_Name u, u_Role := u_Role u, u_Status := u_Status u,
                      u_AppLimit := u_AppLimit u, u_MemoryMB := u_MemoryMB u, u_DiskMB := u_DiskMB u,
                      u_MemoryPoolMB := u_MemoryPoolMB u, u_DiskPoolMB := u_DiskPoolMB u\<rparr>) (user_tbl d)\<rparr>))"

definition UpdateUserProfile :: "db \<Rightarrow> User \<Rightarrow> db res" where
  "UpdateUserProfile d u =
     (let P = \<lambda>r. u_ID r = u_ID u
      in checkAffected (affected P (user_tbl d)) ErrUserNotFound
           (d\<lparr>user_tbl := tbl_update P
               (\<lambda>r. r\<lparr>u_TechLevel := u_TechLevel u, u_AssistantPrompt := u_AssistantPrompt u,
                      u_DefaultTabs := u_DefaultTabs u, u_Onboarded := u_Onboarded u\<rparr>) (user_tbl d)\<rparr>))"

definition RemoveUser :: "db \<Rightarrow> string \<Rightarrow> db res" where
  "RemoveUser d i =
     (if affected (\<lambda>u. u_ID u = i) (user_tbl d) = 0 then Inl ErrUserNotFound
      else Inr (d\<lparr>user_tbl := tbl_delete (\<lambda>u. u_ID u = i) (user_tbl d),
                  token_tbl := tbl_delete (\<lambda>t. tk_UserID t = i) (token_tbl d),
                  user_key_tbl := tbl_delete (\<lambda>k. k_UserID k = i) (user_key_tbl d),
                  app_collaborator_tbl := tbl_delete (\<lambda>g. g_who g = i) (app_collaborator_tbl d),
                  app_viewer_tbl := tbl_delete (\<lambda>g. g_who g = i) (app_viewer_tbl d)\<rparr>))"

text \<open>One pass of the loop of \<open>TransferApps\<close>: the tokens are selected by the app's \<^emph>\<open>name\<close> mirror, the
  connection grants by the app's id.\<close>

definition transfer_one :: "string \<Rightarrow> App \<Rightarrow> db \<Rightarrow> db" where
  "transfer_one toUserID a d =
     d\<lparr>token_tbl := tbl_update (\<lambda>t. tk_AppName t = a_Name a) (\<lambda>t. t\<lparr>tk_UserID := toUserID\<rparr>) (token_tbl d),
       app_connection_tbl := tbl_delete (\<lambda>g. g_app_id g = a_ID a) (app_connection_tbl d)\<rparr>"

definition TransferApps :: "db \<Rightarrow> string \<Rightarrow> string \<Rightarrow> db \<times> string list" where
  "TransferApps d fromUserID toUserID =
     (let apps = AppsByOwner d fromUserID;
          d1 = fold (transfer_one toUserID) apps d;
          d2 = d1\<lparr>app_tbl := tbl_update (\<lambda>a. a_OwnerID a = fromUserID) (\<lambda>a. a\<lparr>a_OwnerID := toUserID\<rparr>) (app_tbl d1)\<rparr>
      in (d2, map a_Name apps))"

section \<open>Collaborators\<close>

definition AddAppCollaborator :: "int \<Rightarrow> db \<Rightarrow> string \<Rightarrow> string \<Rightarrow> db" where
  "AddAppCollaborator now d appID userID =
     d\<lparr>app_collaborator_tbl := tbl_insert_or_ignore grant_conflict
         \<lparr>g_app_id = appID, g_who = userID, g_created_at = now\<rparr> (app_collaborator_tbl d)\<rparr>"

definition RemoveAppCollaborator :: "db \<Rightarrow> string \<Rightarrow> string \<Rightarrow> db" where
  "RemoveAppCollaborator d appID userID =
     d\<lparr>app_collaborator_tbl := tbl_delete (\<lambda>g. g_app_id g = appID \<and> g_who g = userID) (app_collaborator_tbl d)\<rparr>"

definition IsAppCollaborator :: "db \<Rightarrow> string \<Rightarrow> string \<Rightarrow> bool" where
  "IsAppCollaborator d appID userID =
     (affected (\<lambda>g. g_app_id g = appID \<and> g_who g = userID) (app_collaborator_tbl d) > 0)"

text \<open>\<open>FROM grant g JOIN user u ON u.id = g.user_id\<close> and \<open>FROM grant g JOIN app a ON a.id = g.app_id\<close>.\<close>

definition join_users :: "db \<Rightarrow> grant_row list \<Rightarrow> User list" where
  "join_users d gs = concat (map (\<lambda>g. filter (\<lambda>u. u_ID u = g_who g) (user_tbl d)) gs)"

definition join_apps :: "db \<Rightarrow> grant_row list \<Rightarrow> App list" where
  "join_apps d gs = concat (map (\<lambda>g. filter (\<lambda>a. a_ID a = g_app_id g) (app_tbl d)) gs)"

definition AppCollaborators :: "db \<Rightarrow> string \<Rightarrow> User list" where
  "AppCollaborators d appID =
     sort_key u_Email (join_users d (filter (\<lambda>g. g_app_id g = appID) (app_collaborator_tbl d)))"

definition AppsByCollaborator :: "db \<Rightarrow> string \<Rightarrow> App list" where
  "AppsByCollaborator d userID =
     sort_key a_Name (join_apps d (filter (\<lambda>g. g_who g = userID) (app_collaborator_tbl d)))"

section \<open>Viewers\<close>

definition AppsByViewer :: "db \<Rightarrow> string \<Rightarrow> App list" where
  "AppsByViewer d userID =
     sort_key a_Name (join_apps d (filter (\<lambda>g. g_who g = userID) (app_viewer_tbl d)))"

definition AddAppViewer :: "int \<Rightarrow> db \<Rightarrow> string \<Rightarrow> string \<Rightarrow> db" where
  "AddAppViewer now d appID userID =
     d\<lparr>app_viewer_tbl := tbl_insert_or_ignore grant_conflict
         \<lparr>g_app_id = appID, g_who = userID, g_created_at = now\<rparr> (app_viewer_tbl d)\<rparr>"

definition RemoveAppViewer :: "db \<Rightarrow> string \<Rightarrow> string \<Rightarrow> db" where
  "RemoveAppViewer d appID userID =
     d\<lparr>app_viewer_tbl := tbl_delete (\<lambda>g. g_app_id g = appID \<and> g_who g = userID) (app_viewer_tbl d)\<rparr>"

definition AddPendingViewer :: "int \<Rightarrow> db \<Rightarrow> string \<Rightarrow> string \<Rightarrow> db" where
  "AddPendingViewer now d appID email =
     d\<lparr>pending_viewer_tbl := tbl_insert_or_ignore grant_conflict
         \<lparr>g_app_id = appID, g_who = ToLower (TrimSpace email), g_created_at = now\<rparr> (pending_viewer_tbl d)\<rparr>"

definition RemovePendingViewer :: "db \<Rightarrow> string \<Rightarrow> string \<Rightarrow> db" where
  "RemovePendingViewer d appID email =
     (let e = ToLower (TrimSpace email)
      in d\<lparr>pending_viewer_tbl := tbl_delete (\<lambda>g. g_app_id g = appID \<and> g_who g = e) (pending_viewer_tbl d)\<rparr>)"

definition PendingViewers :: "db \<Rightarrow> string \<Rightarrow> string list" where
  "PendingViewers d appID = sort (map g_who (filter (\<lambda>g. g_app_id g = appID) (pending_viewer_tbl d)))"

definition ResolvePendingViewers :: "int \<Rightarrow> db \<Rightarrow> string \<Rightarrow> string \<Rightarrow> db \<times> nat" where
  "ResolvePendingViewers now d email0 userID =
     (let email = ToLower (TrimSpace email0);
          appIDs = map g_app_id (filter (\<lambda>g. g_who g = email) (pending_viewer_tbl d));
          d' = fold (\<lambda>appID e.
                 let e1 = AddAppViewer now e appID userID
                 in e1\<lparr>pending_viewer_tbl := tbl_delete (\<lambda>g. g_app_id g = appID \<and> g_who g = email) (pending_viewer_tbl e1)\<rparr>)
               appIDs d
      in (d', length appIDs))"

definition ViewerEmailsForOwner :: "db \<Rightarrow> string \<Rightarrow> string list" where
  "ViewerEmailsForOwner d ownerID =
     sort (remdups (concat (map (\<lambda>g. concat (map (\<lambda>u. map (\<lambda>a. u_Email u)
         (filter (\<lambda>a. a_ID a = g_app_id g \<and> a_OwnerID a = ownerID) (app_tbl d)))
       (filter (\<lambda>u. u_ID u = g_who g) (user_tbl d)))) (app_viewer_tbl d))))"

definition IsAppViewer :: "db \<Rightarrow> string \<Rightarrow> string \<Rightarrow> bool" where
  "IsAppViewer d appID userID =
     (affected (\<lambda>g. g_app_id g = appID \<and> g_who g = userID) (app_viewer_tbl d) > 0)"

definition AppViewers :: "db \<Rightarrow> string \<Rightarrow> User list" where
  "AppViewers d appID =
     sort_key u_Email (join_users d (filter (\<lambda>g. g_app_id g = appID) (app_viewer_tbl d)))"

definition ViewerCounts :: "db \<Rightarrow> string \<Rightarrow> nat option" where
  "ViewerCounts d appID =
     (let n = affected (\<lambda>g. g_app_id g = appID) (app_viewer_tbl d) in if n = 0 then None else Some n)"

text \<open>The three queries of \<open>AccessSets\<close>, each a list of (app id, user id) pairs; the result maps an app
  id to the user ids appended for it, collaborators first, then viewers, then the owner.\<close>

definition active_grants :: "db \<Rightarrow> grant_row list \<Rightarrow> (string \<times> string) list" where
  "active_grants d gs =
     concat (map (\<lambda>g. map (\<lambda>u. (g_app_id g, g_who g))
       (filter (\<lambda>u. u_ID u = g_who g \<and> u_Status u = StatusActive) (user_tbl d))) gs)"

definition active_owners :: "db \<Rightarrow> (string \<times> string) list" where
  "active_owners d =
     concat (map (\<lambda>a. map (\<lambda>u. (a_ID a, a_OwnerID a))
       (filter (\<lambda>u. u_ID u = a_OwnerID a \<and> u_Status u = StatusActive) (user_tbl d))) (app_tbl d))"

definition AccessSets :: "db \<Rightarrow> string \<Rightarrow> string list" where
  "AccessSets d appID =
     map snd (filter (\<lambda>p. fst p = appID)
       (active_grants d (app_collaborator_tbl d) @ active_grants d (app_viewer_tbl d) @ active_owners d))"

definition ActiveAdmins :: "db \<Rightarrow> string list" where
  "ActiveAdmins d = map u_ID (filter (\<lambda>u. u_Role u = RoleAdmin \<and> u_Status u = StatusActive) (user_tbl d))"

end
