(* ===== verification/Store_AppData.thy ===== *)
theory Store_AppData
  imports Store_Users
begin

text \<open>
  What hangs off an app: custom domains (\<open>store/domain.go\<close>), snapshots (\<open>store/snapshot.go\<close>), the activity
  log (\<open>store/event.go\<close>), assistant usage, transcript and mode (\<open>store/usage.go\<close>, \<open>store/assistant.go\<close>,
  \<open>store/assistantprefs.go\<close>) and the two halves of the node mirror (\<open>store/sync.go\<close>).
\<close>

section \<open>Domains\<close>

definition scanDomain :: "db \<Rightarrow> domain_row \<Rightarrow> DomainRec" where
  "scanDomain d r =
     \<lparr>d_Domain = d_Domain r, d_AppName = app_name_of_id d (d_app_id r) (d_AppName r), d_Status = d_Status r,
      d_LastError = d_LastError r, d_CreatedAt = d_CreatedAt r, d_ActiveAt = d_ActiveAt r\<rparr>"

definition AddDomain :: "db \<Rightarrow> DomainRec \<Rightarrow> db res" where
  "AddDomain d x =
     (let r = \<lparr>d_Domain = d_Domain x, d_AppName = d_AppName x, d_Status = d_Status x, d_LastError = '''',
               d_CreatedAt = Some (unix_of (d_CreatedAt x)), d_ActiveAt = None,
               d_app_id = app_id_or_empty d (d_AppName x)\<rparr>
      in case tbl_insert domain_conflict r (app_domain_tbl d) of
           Inl e \<Rightarrow> Inl ErrAppDomainExists
         | Inr tbl \<Rightarrow> Inr (d\<lparr>app_domain_tbl := tbl\<rparr>))"

definition Domains :: "db \<Rightarrow> string \<Rightarrow> DomainRec list" where
  "Domains d appName =
     map (scanDomain d) (sort_key (\<lambda>r. unix_of (d_CreatedAt r))
       (filter (\<lambda>r. Some (d_app_id r) = app_id_of d appName) (app_domain_tbl d)))"

definition AllDomains :: "db \<Rightarrow> DomainRec list" where
  "AllDomains d = map (scanDomain d) (app_domain_tbl d)"

definition ActiveDomains :: "db \<Rightarrow> string \<Rightarrow> string list" where
  "ActiveDomains d appName =
     map d_Domain (filter (\<lambda>r. app_name_of_id d (d_app_id r) (d_AppName r) = appName)
       (sort_key (\<lambda>r. unix_of (d_CreatedAt r)) (filter (\<lambda>r. d_Status r = DomainActive) (app_domain_tbl d))))"

definition Store_Domain :: "db \<Rightarrow> string \<Rightarrow> DomainRec res" where
  "Store_Domain d name =
     (case tbl_find (\<lambda>r. d_Domain r = name) (app_domain_tbl d) of
        None \<Rightarrow> Inl ErrAppDomainNotFound
      | Some r \<Rightarrow> Inr (scanDomain d r))"

definition SetDomainStatus :: "db \<Rightarrow> string \<Rightarrow> string \<Rightarrow> string \<Rightarrow> int option \<Rightarrow> db res" where
  "SetDomainStatus d name status lastErr activeAt =
     (let P = \<lambda>r. d_Domain r = name
      in checkAffected (affected P (app_domain_tbl d)) ErrAppDomainNotFound
           (d\<lparr>app_domain_tbl := tbl_update P
               (\<lambda>r. r\<lparr>d_Status := status, d_LastError := lastErr, d_ActiveAt := activeAt\<rparr>) (app_domain_tbl d)\<rparr>))"

definition DeleteDomain :: "db \<Rightarrow> string \<Rightarrow> db" where
  "DeleteDomain d name = d\<lparr>app_domain_tbl := tbl_delete (\<lambda>r. d_Domain r = name) (app_domain_tbl d)\<rparr>"

section \<open>Snapshots\<close>

definition scanSnapshot :: "db \<Rightarrow> snapshot_row \<Rightarrow> Snapshot" where
  "scanSnapshot d r =
     \<lparr>s_ID = s_ID r, s_AppName = app_name_of_id d (s_app_id r) (s_AppName r), s_Label = s_Label r,
      s_CreatedAt = s_CreatedAt r, s_Auto = s_Auto r\<rparr>"

definition snapshot_row_of :: "db \<Rightarrow> string \<Rightarrow> Snapshot \<Rightarrow> snapshot_row" where
  "snapshot_row_of d appName x =
     \<lparr>s_ID = s_ID x, s_AppName = appName, s_Label = s_Label x, s_CreatedAt = Some (unix_of (s_CreatedAt x)),
      s_Auto = s_Auto x, s_app_id = app_id_or_empty d appName\<rparr>"

definition AddSnapshot :: "db \<Rightarrow> Snapshot \<Rightarrow> db res" where
  "AddSnapshot d x =
     (case tbl_insert snapshot_conflict (snapshot_row_of d (s_AppName x) x) (snapshot_tbl d) of
        Inl e \<Rightarrow> Inl e
      | Inr tbl \<Rightarrow> Inr (d\<lparr>snapshot_tbl := tbl\<rparr>))"

text \<open>\<open>ORDER BY created_at DESC\<close>\<close>

definition newest_first :: "snapshot_row list \<Rightarrow> snapshot_row list" where
  "newest_first t = sort_key (\<lambda>r. - unix_of (s_CreatedAt r)) t"

definition AllSnapshots :: "db \<Rightarrow> Snapshot list" where
  "AllSnapshots d = map (scanSnapshot d) (newest_first (snapshot_tbl d))"

definition Snapshots :: "db \<Rightarrow> string \<Rightarrow> Snapshot list" where
  "Snapshots d appName =
     map (scanSnapshot d) (newest_first (filter (\<lambda>r. Some (s_app_id r) = app_id_of d appName) (snapshot_tbl d)))"

definition Store_Snapshot :: "db \<Rightarrow> string \<Rightarrow> Snapshot res" where
  "Store_Snapshot d i =
     (case tbl_find (\<lambda>r. s_ID r = i) (snapshot_tbl d) of
        None \<Rightarrow> Inl ErrSnapshotNotFound
      | Some r \<Rightarrow> Inr (scanSnapshot d r))"

definition DeleteSnapshot :: "db \<Rightarrow> string \<Rightarrow> db" where
  "DeleteSnapshot d i = d\<lparr>snapshot_tbl := tbl_delete (\<lambda>r. s_ID r = i) (snapshot_tbl d)\<rparr>"

section \<open>The activity log\<close>

definition maxAppEvents :: nat where "maxAppEvents = 500"

text \<open>\<open>SELECT id ... ORDER BY id DESC LIMIT ?\<close> over the rows of one app.\<close>

definition newest_event_ids :: "event_row list \<Rightarrow> nat \<Rightarrow> int list" where
  "newest_event_ids t n = take n (rev (sort (map e_ID t)))"

definition AddEvent :: "db \<Rightarrow> Event \<Rightarrow> db" where
  "AddEvent d x =
     (let seq = app_event_seq d + 1;
          r = \<lparr>e_ID = seq, e_AppName = e_AppName x, e_CreatedAt = Some (unix_of (e_CreatedAt x)),
               e_Actor = e_Actor x, e_Level = e_Level x, e_Action = e_Action x, e_Detail = e_Detail x,
               e_app_id = app_id_or_empty d (e_AppName x)\<rparr>;
          d1 = d\<lparr>app_event_tbl := app_event_tbl d @ [r], app_event_seq := seq\<rparr>;
          mine = (\<lambda>r. Some (e_app_id r) = app_id_of d1 (e_AppName x));
          keep = newest_event_ids (filter mine (app_event_tbl d1)) maxAppEvents
      in d1\<lparr>app_event_tbl := tbl_delete (\<lambda>r. mine r \<and> e_ID r \<notin> set keep) (app_event_tbl d1)\<rparr>)"

definition scanEvent :: "db \<Rightarrow> event_row \<Rightarrow> Event" where
  "scanEvent d r =
     \<lparr>e_ID = e_ID r, e_AppName = app_name_of_id d (e_app_id r) (e_AppName r), e_CreatedAt = e_CreatedAt r,
      e_Actor = e_Actor r, e_Level = e_Level r, e_Action = e_Action r, e_Detail = e_Detail r\<rparr>"

text \<open>\<open>ORDER BY created_at DESC, id DESC LIMIT ?\<close>; a negative limit is no limit in SQLite.\<close>

definition AppEvents :: "db \<Rightarrow> string \<Rightarrow> int \<Rightarrow> Event list" where
  "AppEvents d appName limit =
     (let rows = sort_key (\<lambda>r. - unix_of (e_CreatedAt r)) (sort_key (\<lambda>r. - e_ID r)
                   (filter (\<lambda>r. Some (e_app_id r) = app_id_of d appName) (app_event_tbl d)))
      in map (scanEvent d) (if limit < 0 then rows else take (nat limit) rows))"

section \<open>Assistant usage, transcript and mode\<close>

definition AddAssistantUsage :: "int \<Rightarrow> db \<Rightarrow> string \<Rightarrow> AssistantUsage \<Rightarrow> db" where
  "AddAssistantUsage now d appName u =
     (case tbl_find (\<lambda>a. a_Name a = appName) (app_tbl d) of
        None \<Rightarrow> d
      | Some a \<Rightarrow>
          let P = \<lambda>r. us_app_id r = a_ID a
          in if affected P (app_usage_tbl d) > 0 then
               d\<lparr>app_usage_tbl := tbl_update P
                   (\<lambda>r. r\<lparr>us_InputTokens := us_InputTokens r + us_InputTokens u,
                          us_OutputTokens := us_OutputTokens r + us_OutputTokens u,
                          us_CacheWriteTokens := us_CacheWriteTokens r + us_CacheWriteTokens u,
                          us_CacheReadTokens := us_CacheReadTokens r + us_CacheReadTokens u,
                          us_updated_at := now\<rparr>) (app_usage_tbl d)\<rparr>
             else
               d\<lparr>app_usage_tbl := app_usage_tbl d @
                   [\<lparr>us_InputTokens = us_InputTokens u, us_OutputTokens = us_OutputTokens u,
                     us_CacheWriteTokens = us_CacheWriteTokens u, us_CacheReadTokens = us_CacheReadTokens u,
                     us_app_id = a_ID a, us_updated_at = now\<rparr>]\<rparr>)"

definition usage_rows_of_owner :: "db \<Rightarrow> string \<Rightarrow> usage_row list" where
  "usage_rows_of_owner d owner =
     concat (map (\<lambda>r. map (\<lambda>a. r) (filter (\<lambda>a. a_ID a = us_app_id r \<and> a_OwnerID a = owner) (app_tbl d))) (app_usage_tbl d))"

definition UsageByOwner :: "db \<Rightarrow> string \<Rightarrow> AssistantUsage option" where
  "UsageByOwner d owner =
     (let rows = usage_rows_of_owner d owner
      in if rows = [] then None
         else Some \<lparr>us_InputTokens = sum_list (map us_InputTokens rows),
                    us_OutputTokens = sum_list (map us_OutputTokens rows),
                    us_CacheWriteTokens = sum_list (map us_CacheWriteTokens rows),
                    us_CacheReadTokens = sum_list (map us_CacheReadTokens rows)\<rparr>)"

definition LoadAssistantSession :: "db \<Rightarrow> string \<Rightarrow> string" where
  "LoadAssistantSession d appName =
     (case tbl_find (\<lambda>s. Some (as_app_id s) = app_id_of d appName) (assistant_session_tbl d) of
        None \<Rightarrow> ''''
      | Some s \<Rightarrow> as_transcript s)"

text \<open>\<open>ON CONFLICT(app_name) DO UPDATE\<close> handles a conflict on the name only; one on the unique \<open>app_id\<close>
  index is still the driver's UNIQUE error.\<close>

definition SaveAssistantSession :: "int \<Rightarrow> db \<Rightarrow> string \<Rightarrow> string \<Rightarrow> db res" where
  "SaveAssistantSession now d appName transcript =
     (let r = \<lparr>as_app_name = appName, as_app_id = app_id_or_empty d appName, as_transcript = transcript, as_updated_at = now\<rparr>
      in if affected (\<lambda>s. as_app_name s = appName) (assistant_session_tbl d) > 0 then
           Inr (d\<lparr>assistant_session_tbl := tbl_update (\<lambda>s. as_app_name s = appName)
                   (\<lambda>s. s\<lparr>as_transcript := transcript, as_updated_at := now\<rparr>) (assistant_session_tbl d)\<rparr>)
         else case tbl_insert session_conflict r (assistant_session_tbl d) of
                Inl e \<Rightarrow> Inl e
              | Inr tbl \<Rightarrow> Inr (d\<lparr>assistant_session_tbl := tbl\<rparr>))"

definition DeleteAssistantSession :: "db \<Rightarrow> string \<Rightarrow> db" where
  "DeleteAssistantSession d appName =
     d\<lparr>assistant_session_tbl := tbl_delete (\<lambda>s. Some (as_app_id s) = app_id_of d appName) (assistant_session_tbl d)\<rparr>"

definition AppAssistantMode :: "db \<Rightarrow> string \<Rightarrow> string" where
  "AppAssistantMode d appName =
     (case tbl_find (\<lambda>m. Some (am_app_id m) = app_id_of d appName) (app_assistant_tbl d) of
        None \<Rightarrow> ''''
      | Some m \<Rightarrow> am_mode m)"

definition SetAppAssistantMode :: "db \<Rightarrow> string \<Rightarrow> string \<Rightarrow> db" where
  "SetAppAssistantMode d appName mode =
     (case tbl_find (\<lambda>a. a_Name a = appName) (app_tbl d) of
        None \<Rightarrow> d
      | Some a \<Rightarrow>
          let P = \<lambda>m. am_app_id m = a_ID a
          in if affected P (app_assistant_tbl d) > 0 then
               d\<lparr>app_assistant_tbl := tbl_update P (\<lambda>m. m\<lparr>am_mode := mode\<rparr>) (app_assistant_tbl d)\<rparr>
             else d\<lparr>app_assistant_tbl := app_assistant_tbl d @ [\<lparr>am_app_id = a_ID a, am_mode = mode\<rparr>]\<rparr>)"

section \<open>The node mirror\<close>

text \<open>\<open>inTx\<close>: an error of any statement rolls everything back, so the result is the error alone.\<close>

fun insert_mirror_apps :: "App list \<Rightarrow> App list \<Rightarrow> App list res" where
  "insert_mirror_apps [] tbl = Inr tbl"
| "insert_mirror_apps (a # as) tbl =
     (let r = \<lparr>a_ID = a_ID a, a_Name = a_Name a, a_Port = a_Port a, a_Host = a_Host a,
               a_OwnerID = a_OwnerID a, a_DiskMB = a_DiskMB a, a_CreatedAt = Some (unix_of (a_CreatedAt a)),
               a_ImageTag = a_ImageTag a, a_UID = a_UID a, a_PoweredOff = a_PoweredOff a, a_Archived = False,
               a_SoftDeletedAt = None, a_Listed = False, a_Private = False,
               a_MemoryLimitMB = 0, a_DiskLimitMB = 0, a_CPUMilli = 0, a_Tabs = ''''\<rparr>
      in case tbl_insert app_conflict r tbl of
           Inl e \<Rightarrow> Inl e
         | Inr tbl' \<Rightarrow> insert_mirror_apps as tbl')"

definition merge_snapshot :: "db \<Rightarrow> string \<Rightarrow> Snapshot \<Rightarrow> snapshot_row list \<Rightarrow> snapshot_row list" where
  "merge_snapshot d appName x t = tbl_insert_or_replace snapshot_conflict (snapshot_row_of d appName x) t"

definition ReplaceNodeMirror :: "db \<Rightarrow> App list \<Rightarrow> Snapshot list \<Rightarrow> db res" where
  "ReplaceNodeMirror d apps snaps =
     (case insert_mirror_apps apps [] of
        Inl e \<Rightarrow> Inl e
      | Inr tbl \<Rightarrow>
          let d1 = d\<lparr>app_tbl := tbl\<rparr>;
              merged = fold (\<lambda>x t. merge_snapshot d1 (s_AppName x) x t) snaps (snapshot_tbl d1)
          in Inr (d1\<lparr>snapshot_tbl := tbl_delete (\<lambda>r. s_AppName r \<notin> a_Name ` set (app_tbl d1)) merged\<rparr>))"

definition ReplaceAppSnapshots :: "db \<Rightarrow> string \<Rightarrow> Snapshot list \<Rightarrow> db res" where
  "ReplaceAppSnapshots d appName snaps =
     (case tbl_find (\<lambda>a. a_Name a = appName) (app_tbl d) of
        None \<Rightarrow> Inl SqlNoRows
      | Some a \<Rightarrow>
          let t = tbl_delete (\<lambda>r. app_row_sel (a_ID a) appName (s_app_id r) (s_AppName r)) (snapshot_tbl d)
          in Inr (d\<lparr>snapshot_tbl := fold (merge_snapshot d appName) snaps t\<rparr>))"

end
