(* ===== verification/Store_Connections.thy ===== *)
theory Store_Connections
  imports Store_AppData
begin

text \<open>
  Connections a user attached and the grants that lend one to an app (\<open>store/connection.go\<close>), provider
  definitions (\<open>store/provider.go\<close>), and the cluster membership tables (\<open>store/node.go\<close>,
  \<open>store/proxy.go\<close>).
\<close>

section \<open>Connections\<close>

definition SetConnectionStatus :: "db \<Rightarrow> string \<Rightarrow> string \<Rightarrow> db" where
  "SetConnectionStatus d i status =
     d\<lparr>connection_tbl := tbl_update (\<lambda>c. c_ID c = i) (\<lambda>c. c\<lparr>c_Status := status\<rparr>) (connection_tbl d)\<rparr>"

definition AddConnection :: "string \<Rightarrow> db \<Rightarrow> Connection \<Rightarrow> (db \<times> Connection) res" where
  "AddConnection rid d c0 =
     (let c = c0\<lparr>c_ID := if c_ID c0 = '''' then ''cn_'' @ rid else c_ID c0,
                 c_Status := if c_Status c0 = '''' then ConnectionStatusOK else c_Status c0\<rparr>;
          r = c\<lparr>c_CreatedAt := Some (unix_of (c_CreatedAt c))\<rparr>
      in case tbl_insert connection_conflict r (connection_tbl d) of
           Inl e \<Rightarrow> Inl ErrConnectionSlugExists
         | Inr tbl \<Rightarrow> Inr (d\<lparr>connection_tbl := tbl\<rparr>, c))"

definition Store_Connection :: "db \<Rightarrow> string \<Rightarrow> Connection res" where
  "Store_Connection d i =
     (case tbl_find (\<lambda>c. c_ID c = i) (connection_tbl d) of None \<Rightarrow> Inl ErrConnectionNotFound | Some c \<Rightarrow> Inr c)"

definition ConnectionBySlug :: "db \<Rightarrow> string \<Rightarrow> string \<Rightarrow> Connection res" where
  "ConnectionBySlug d userID slug =
     (case tbl_find (\<lambda>c. c_UserID c = userID \<and> c_Slug c = slug) (connection_tbl d) of
        None \<Rightarrow> Inl ErrConnectionNotFound
      | Some c \<Rightarrow> Inr c)"

definition by_provider_slug :: "Connection list \<Rightarrow> Connection list" where
  "by_provider_slug cs = sort_key c_Provider (sort_key c_Slug cs)"

definition Connections :: "db \<Rightarrow> string \<Rightarrow> Connection list" where
  "Connections d userID = by_provider_slug (filter (\<lambda>c. c_UserID c = userID) (connection_tbl d))"

definition AllConnections :: "db \<Rightarrow> Connection list" where
  "AllConnections d = sort_key c_UserID (sort_key c_Slug (connection_tbl d))"

definition upd_connection :: "db \<Rightarrow> string \<Rightarrow> (Connection \<Rightarrow> Connection) \<Rightarrow> db res" where
  "upd_connection d i f =
     checkAffected (affected (\<lambda>c. c_ID c = i) (connection_tbl d)) ErrConnectionNotFound
       (d\<lparr>connection_tbl := tbl_update (\<lambda>c. c_ID c = i) f (connection_tbl d)\<rparr>)"

definition UpdateConnectionSecretOnly :: "db \<Rightarrow> string \<Rightarrow> string \<Rightarrow> db res" where
  "UpdateConnectionSecretOnly d i secret = upd_connection d i (\<lambda>c. c\<lparr>c_Secret := secret\<rparr>)"

text \<open>\<open>user_id = (SELECT owner_id FROM app WHERE id = ?)\<close> compares with \<open>NULL\<close>, and so selects nothing,
  when no app has the id.\<close>

definition AppConnections :: "db \<Rightarrow> string \<Rightarrow> Connection list" where
  "AppConnections d appID =
     (let granted = map g_who (filter (\<lambda>g. g_app_id g = appID) (app_connection_tbl d));
          owner = map_option a_OwnerID (tbl_find (\<lambda>a. a_ID a = appID) (app_tbl d))
      in by_provider_slug (filter (\<lambda>c. c_ID c \<in> set granted \<and> Some (c_UserID c) = owner) (connection_tbl d)))"

definition UpdateConnectionSecret :: "db \<Rightarrow> string \<Rightarrow> string \<Rightarrow> string \<Rightarrow> string \<Rightarrow> db res" where
  "UpdateConnectionSecret d i secret scopes meta =
     upd_connection d i (\<lambda>c. c\<lparr>c_Secret := secret, c_Scopes := scopes, c_Meta := meta\<rparr>)"

definition RenameConnection :: "db \<Rightarrow> string \<Rightarrow> string \<Rightarrow> string \<Rightarrow> db res" where
  "RenameConnection d i slug label =
     (case tbl_update_checked connection_conflict (\<lambda>c. c_ID c = i) (\<lambda>c. c\<lparr>c_Slug := slug, c_Label := label\<rparr>) (connection_tbl d) of
        Inl e \<Rightarrow> Inl ErrConnectionSlugExists
      | Inr tbl \<Rightarrow> checkAffected (affected (\<lambda>c. c_ID c = i) (connection_tbl d)) ErrConnectionNotFound (d\<lparr>connection_tbl := tbl\<rparr>))"

text \<open>The grants go first; a connection that does not exist is reported after that, so the state is
  returned beside the error.\<close>

definition DeleteConnection :: "db \<Rightarrow> string \<Rightarrow> db \<times> err option" where
  "DeleteConnection d i =
     (let d1 = d\<lparr>app_connection_tbl := tbl_delete (\<lambda>g. g_who g = i) (app_connection_tbl d)\<rparr>;
          n = affected (\<lambda>c. c_ID c = i) (connection_tbl d1);
          d2 = d1\<lparr>connection_tbl := tbl_delete (\<lambda>c. c_ID c = i) (connection_tbl d1)\<rparr>
      in (d2, if n = 0 then Some ErrConnectionNotFound else None))"

definition GrantConnection :: "int \<Rightarrow> db \<Rightarrow> string \<Rightarrow> string \<Rightarrow> db" where
  "GrantConnection now d appID connectionID =
     d\<lparr>app_connection_tbl := tbl_insert_or_ignore grant_conflict
         \<lparr>g_app_id = appID, g_who = connectionID, g_created_at = now\<rparr> (app_connection_tbl d)\<rparr>"

definition RevokeConnection :: "db \<Rightarrow> string \<Rightarrow> string \<Rightarrow> db" where
  "RevokeConnection d appID connectionID =
     d\<lparr>app_connection_tbl := tbl_delete (\<lambda>g. g_app_id g = appID \<and> g_who g = connectionID) (app_connection_tbl d)\<rparr>"

definition CountGrants :: "db \<Rightarrow> string \<Rightarrow> nat" where
  "CountGrants d connectionID = affected (\<lambda>g. g_who g = connectionID) (app_connection_tbl d)"

definition GrantedAppNames :: "db \<Rightarrow> string \<Rightarrow> string list" where
  "GrantedAppNames d connectionID =
     sort (map a_Name (join_apps d (filter (\<lambda>g. g_who g = connectionID) (app_connection_tbl d))))"

section \<open>Providers\<close>

definition AddProvider :: "string \<Rightarrow> db \<Rightarrow> Provider \<Rightarrow> (db \<times> Provider) res" where
  "AddProvider rid d p0 =
     (let p = p0\<lparr>pv_ID := if pv_ID p0 = '''' then ''pv_'' @ rid else pv_ID p0\<rparr>;
          r = p\<lparr>pv_CreatedAt := Some (unix_of (pv_CreatedAt p))\<rparr>
      in case tbl_insert provider_conflict r (provider_tbl d) of
           Inl e \<Rightarrow> Inl ErrProviderExists
         | Inr tbl \<Rightarrow> Inr (d\<lparr>provider_tbl := tbl\<rparr>, p))"

definition UpdateProvider :: "db \<Rightarrow> Provider \<Rightarrow> db res" where
  "UpdateProvider d p =
     (let P = \<lambda>r. pv_ID r = pv_ID p
      in checkAffected (affected P (provider_tbl d)) ErrProviderNotFound
           (d\<lparr>provider_tbl := tbl_update P
               (\<lambda>r. r\<lparr>pv_Label := pv_Label p, pv_Scopes := pv_Scopes p, pv_Issuer := pv_Issuer p,
                      pv_AuthURL := pv_AuthURL p, pv_TokenURL := pv_TokenURL p, pv_ClientID := pv_ClientID p,
                      pv_ClientSecret := pv_ClientSecret p, pv_AuthParams := pv_AuthParams p,
                      pv_LongLived := pv_LongLived p, pv_Help := pv_Help p, pv_NameHint := pv_NameHint p,
                      pv_URL := pv_URL p, pv_ScopeOptions := pv_ScopeOptions p, pv_UserToken := pv_UserToken p,
                      pv_ShortDescription := pv_ShortDescription p, pv_LongDescription := pv_LongDescription p,
                      pv_AllowMultiple := pv_AllowMultiple p\<rparr>) (provider_tbl d)\<rparr>))"

definition ProviderByName :: "db \<Rightarrow> string \<Rightarrow> string \<Rightarrow> Provider res" where
  "ProviderByName d userID name =
     (case sort_key pv_OwnerID (filter (\<lambda>p. pv_Name p = name \<and> (pv_OwnerID p = '''' \<or> pv_OwnerID p = userID)) (provider_tbl d)) of
        [] \<Rightarrow> Inl ErrProviderNotFound
      | p # _ \<Rightarrow> Inr p)"

definition Store_Provider :: "db \<Rightarrow> string \<Rightarrow> Provider res" where
  "Store_Provider d i =
     (case tbl_find (\<lambda>p. pv_ID p = i) (provider_tbl d) of None \<Rightarrow> Inl ErrProviderNotFound | Some p \<Rightarrow> Inr p)"

definition by_kind_name :: "Provider list \<Rightarrow> Provider list" where
  "by_kind_name ps = sort_key pv_Kind (sort_key pv_Name ps)"

definition ProvidersFor :: "db \<Rightarrow> string \<Rightarrow> Provider list" where
  "ProvidersFor d userID = by_kind_name (filter (\<lambda>p. pv_OwnerID p = '''' \<or> pv_OwnerID p = userID) (provider_tbl d))"

definition InstanceProviders :: "db \<Rightarrow> Provider list" where
  "InstanceProviders d = by_kind_name (filter (\<lambda>p. pv_OwnerID p = '''') (provider_tbl d))"

definition DeleteProvider :: "db \<Rightarrow> string \<Rightarrow> db res" where
  "DeleteProvider d i =
     checkAffected (affected (\<lambda>p. pv_ID p = i) (provider_tbl d)) ErrProviderNotFound
       (d\<lparr>provider_tbl := tbl_delete (\<lambda>p. pv_ID p = i) (provider_tbl d)\<rparr>)"

section \<open>Nodes\<close>

text \<open>A time column is read as the zero time unless it is positive.\<close>

definition pos_time :: "int \<Rightarrow> gotime" where
  "pos_time v = (if 0 < v then Some v else None)"

definition EnsureNode :: "int \<Rightarrow> db \<Rightarrow> string \<Rightarrow> string \<Rightarrow> db" where
  "EnsureNode now d name address =
     (if affected (\<lambda>n. n_Name n = name) (node_tbl d) > 0 then
        d\<lparr>node_tbl := tbl_update (\<lambda>n. n_Name n = name) (\<lambda>n. n\<lparr>n_Address := address\<rparr>) (node_tbl d)\<rparr>
      else
        d\<lparr>node_tbl := node_tbl d @
            [\<lparr>n_Name = name, n_Address = address, n_Stats = '''', n_JoinedAt = pos_time now, n_LastSeen = None,
              n_SSHHost = '''', n_HostKey = '''', n_Version = ''''\<rparr>]\<rparr>)"

definition Store_Node :: "db \<Rightarrow> string \<Rightarrow> Node res" where
  "Store_Node d name = (case tbl_find (\<lambda>n. n_Name n = name) (node_tbl d) of None \<Rightarrow> Inl ErrNodeNotFound | Some n \<Rightarrow> Inr n)"

definition Nodes :: "db \<Rightarrow> Node list" where
  "Nodes d = sort_key n_Name (node_tbl d)"

definition upd_node :: "db \<Rightarrow> string \<Rightarrow> (Node \<Rightarrow> Node) \<Rightarrow> db" where
  "upd_node d name f = d\<lparr>node_tbl := tbl_update (\<lambda>n. n_Name n = name) f (node_tbl d)\<rparr>"

definition SetNodeSeen :: "db \<Rightarrow> string \<Rightarrow> gotime \<Rightarrow> db" where
  "SetNodeSeen d name seen = upd_node d name (\<lambda>n. n\<lparr>n_LastSeen := pos_time (unix_of seen)\<rparr>)"

definition SetNodeStats :: "db \<Rightarrow> string \<Rightarrow> string \<Rightarrow> db" where
  "SetNodeStats d name stats = upd_node d name (\<lambda>n. n\<lparr>n_Stats := stats\<rparr>)"

definition SetNodeVersion :: "db \<Rightarrow> string \<Rightarrow> string \<Rightarrow> db" where
  "SetNodeVersion d name version = upd_node d name (\<lambda>n. n\<lparr>n_Version := version\<rparr>)"

definition SetNodeSSHHost :: "db \<Rightarrow> string \<Rightarrow> string \<Rightarrow> db" where
  "SetNodeSSHHost d name host = upd_node d name (\<lambda>n. n\<lparr>n_SSHHost := host\<rparr>)"

definition SetNodeHostKey :: "db \<Rightarrow> string \<Rightarrow> string \<Rightarrow> db" where
  "SetNodeHostKey d name key = upd_node d name (\<lambda>n. n\<lparr>n_HostKey := key\<rparr>)"

definition RemoveNode :: "db \<Rightarrow> string \<Rightarrow> db" where
  "RemoveNode d name = d\<lparr>node_tbl := tbl_delete (\<lambda>n. n_Name n = name) (node_tbl d)\<rparr>"

section \<open>Proxies\<close>

definition EnsureProxy :: "int \<Rightarrow> db \<Rightarrow> string \<Rightarrow> db" where
  "EnsureProxy now d name =
     d\<lparr>proxy_tbl := tbl_insert_or_ignore proxy_conflict
         \<lparr>px_Name = name, px_Stats = '''', px_Version = '''', px_Routes = 0, px_RegisteredAt = pos_time now,
          px_LastSeen = None\<rparr> (proxy_tbl d)\<rparr>"

definition Store_Proxy :: "db \<Rightarrow> string \<Rightarrow> Proxy res" where
  "Store_Proxy d name = (case tbl_find (\<lambda>p. px_Name p = name) (proxy_tbl d) of None \<Rightarrow> Inl ErrProxyNotFound | Some p \<Rightarrow> Inr p)"

definition Proxies :: "db \<Rightarrow> Proxy list" where
  "Proxies d = sort_key px_Name (proxy_tbl d)"

definition SetProxySeen :: "db \<Rightarrow> string \<Rightarrow> gotime \<Rightarrow> db" where
  "SetProxySeen d name seen =
     d\<lparr>proxy_tbl := tbl_update (\<lambda>p. px_Name p = name) (\<lambda>p. p\<lparr>px_LastSeen := pos_time (unix_of seen)\<rparr>) (proxy_tbl d)\<rparr>"

definition SetProxyStatus :: "db \<Rightarrow> string \<Rightarrow> gotime \<Rightarrow> string \<Rightarrow> int \<Rightarrow> string \<Rightarrow> db" where
  "SetProxyStatus d name seen version routes stats =
     d\<lparr>proxy_tbl := tbl_update (\<lambda>p. px_Name p = name)
         (\<lambda>p. p\<lparr>px_LastSeen := pos_time (unix_of seen), px_Version := version, px_Routes := routes, px_Stats := stats\<rparr>) (proxy_tbl d)\<rparr>"

definition DeleteProxy :: "db \<Rightarrow> string \<Rightarrow> db res" where
  "DeleteProxy d name =
     (if affected (\<lambda>p. px_Name p = name) (proxy_tbl d) = 0 then Inl ErrProxyNotFound
      else Inr (d\<lparr>proxy_tbl := tbl_delete (\<lambda>p. px_Name p = name) (proxy_tbl d)\<rparr>))"

end
