(* ===== verification/Grant_Table.thy ===== *)
theory Grant_Table
  imports Store_Connections
begin

text \<open>
  The contract the three per-app grant tables share: a grant can be given (twice is a no-op), taken
  away and asked for. \<open>grant_table\<close> states it as laws on one operation at a time and derives what any
  history of operations leaves: a pair holds its grant exactly when the last operation on that very
  pair gave it. Collaborators, viewers and connection grants are its interpretations.
\<close>

datatype grant_op = Grant string string | Revoke string string

fun op_pair :: "grant_op \<Rightarrow> string \<times> string" where
  "op_pair (Grant a u) = (a, u)"
| "op_pair (Revoke a u) = (a, u)"

fun is_grant :: "grant_op \<Rightarrow> bool" where
  "is_grant (Grant _ _) = True"
| "is_grant (Revoke _ _) = False"

text \<open>What a history says about one pair: the verdict of the last operation on it, if there is one.\<close>

definition last_verdict :: "string \<Rightarrow> string \<Rightarrow> grant_op list \<Rightarrow> bool option" where
  "last_verdict a u ops =
     (let qs = filter (\<lambda>p. op_pair p = (a, u)) ops in if qs = [] then None else Some (is_grant (last qs)))"

lemma last_verdict_Nil [simp]: "last_verdict a u [] = None"
  by (simp add: last_verdict_def)

lemma last_verdict_snoc:
  "last_verdict a u (ops @ [p]) = (if op_pair p = (a, u) then Some (is_grant p) else last_verdict a u ops)"
  by (simp add: last_verdict_def Let_def)

locale grant_table =
  fixes grant :: "'d \<Rightarrow> string \<Rightarrow> string \<Rightarrow> 'd"
    and revoke :: "'d \<Rightarrow> string \<Rightarrow> string \<Rightarrow> 'd"
    and held :: "'d \<Rightarrow> string \<Rightarrow> string \<Rightarrow> bool"
  assumes held_grant: "held (grant d a u) b v \<longleftrightarrow> (a, u) = (b, v) \<or> held d b v"
    and held_revoke: "held (revoke d a u) b v \<longleftrightarrow> (a, u) \<noteq> (b, v) \<and> held d b v"
begin

fun run_op :: "grant_op \<Rightarrow> 'd \<Rightarrow> 'd" where
  "run_op (Grant a u) d = grant d a u"
| "run_op (Revoke a u) d = revoke d a u"

lemma held_run_op: "held (run_op p d) b v \<longleftrightarrow> (if op_pair p = (b, v) then is_grant p else held d b v)"
  by (cases p) (auto simp: held_grant held_revoke)

lemma held_history:
  "held (fold run_op ops d) b v \<longleftrightarrow> (case last_verdict b v ops of None \<Rightarrow> held d b v | Some g \<Rightarrow> g)"
proof (induction ops rule: rev_induct)
  case Nil
  then show ?case by simp
next
  case (snoc p ops)
  then show ?case by (simp add: held_run_op last_verdict_snoc)
qed

lemma grant_revoke_restores: "\<not> held d a u \<Longrightarrow> held (revoke (grant d a u) a u) b v = held d b v"
  by (auto simp: held_grant held_revoke)

end

section \<open>The three tables\<close>

definition ConnectionGranted :: "db \<Rightarrow> string \<Rightarrow> string \<Rightarrow> bool" where
  "ConnectionGranted d appID connectionID =
     (affected (\<lambda>g. g_app_id g = appID \<and> g_who g = connectionID) (app_connection_tbl d) > 0)"

lemma affected_pos [simp]: "0 < affected P t \<longleftrightarrow> (\<exists>r \<in> set t. P r)"
  by (metis affected_0 neq0_conv)

lemma insert_or_ignore_held:
  "(\<exists>g \<in> set (tbl_insert_or_ignore grant_conflict \<lparr>g_app_id = a, g_who = u, g_created_at = n\<rparr> t).
      g_app_id g = b \<and> g_who g = v) \<longleftrightarrow> (a = b \<and> u = v) \<or> (\<exists>g \<in> set t. g_app_id g = b \<and> g_who g = v)"
  by (auto simp: tbl_insert_or_ignore_def conflicts_with_iff grant_conflict_def)

interpretation collab: grant_table "AddAppCollaborator now" RemoveAppCollaborator IsAppCollaborator for now
  by unfold_locales
    (auto simp: AddAppCollaborator_def RemoveAppCollaborator_def IsAppCollaborator_def insert_or_ignore_held)

interpretation viewer: grant_table "AddAppViewer now" RemoveAppViewer IsAppViewer for now
  by unfold_locales (auto simp: AddAppViewer_def RemoveAppViewer_def IsAppViewer_def insert_or_ignore_held)

interpretation conngrant: grant_table "GrantConnection now" RevokeConnection ConnectionGranted for now
  by unfold_locales (auto simp: GrantConnection_def RevokeConnection_def ConnectionGranted_def insert_or_ignore_held)

section \<open>Properties\<close>

text \<open>Replaying a history of grants and revocations on a table.\<close>

definition replay :: "(db \<Rightarrow> string \<Rightarrow> string \<Rightarrow> db) \<Rightarrow> (db \<Rightarrow> string \<Rightarrow> string \<Rightarrow> db) \<Rightarrow> grant_op list \<Rightarrow> db \<Rightarrow> db" where
  "replay grant revoke ops d =
     fold (\<lambda>p d. case p of Grant a u \<Rightarrow> grant d a u | Revoke a u \<Rightarrow> revoke d a u) ops d"

lemma replay_run_op:
  "replay (AddAppCollaborator now) RemoveAppCollaborator = (\<lambda>ops. fold (collab.run_op now) ops)"
  "replay (AddAppViewer now) RemoveAppViewer = (\<lambda>ops. fold (viewer.run_op now) ops)"
  "replay (GrantConnection now) RevokeConnection = (\<lambda>ops. fold (conngrant.run_op now) ops)"
  unfolding replay_def by (auto intro!: ext fold_cong split: grant_op.splits)

text \<open>Access follows the last word. After any sequence of grants and revocations, somebody is a collaborator of an app (is one of its
  viewers; a connection is lent to it) exactly when the last operation on this very pair granted it, or there was none and the grant stood
  before. Repeated grants, revocations of grants never given and operations on other pairs make no difference.\<close>

lemma grants_follow_history:
  "(IsAppCollaborator (replay (AddAppCollaborator now) RemoveAppCollaborator ops d) a u \<longleftrightarrow>
      (case last_verdict a u ops of None \<Rightarrow> IsAppCollaborator d a u | Some granted \<Rightarrow> granted))
   \<and> (IsAppViewer (replay (AddAppViewer now) RemoveAppViewer ops d) a u \<longleftrightarrow>
      (case last_verdict a u ops of None \<Rightarrow> IsAppViewer d a u | Some granted \<Rightarrow> granted))
   \<and> (ConnectionGranted (replay (GrantConnection now) RevokeConnection ops d) a u \<longleftrightarrow>
      (case last_verdict a u ops of None \<Rightarrow> ConnectionGranted d a u | Some granted \<Rightarrow> granted))"
  unfolding replay_run_op by (intro conjI collab.held_history viewer.held_history conngrant.held_history)

end
