(* ===== verification/Store_Invariant.thy ===== *)
theory Store_Invariant
  imports Grant_Table
begin

text \<open>
  The registry as a transition system. \<open>store_step\<close> has one rule per mutating operation of the package
  \<open>store\<close>; the schema's invariant \<^const>\<open>db_unique\<close> holds in every state reachable from the empty database,
  so the lookups by name, id, port, hash and slug the rest of the control plane makes are functional.
\<close>

named_theorems unique_pres \<open>the operations that keep the schema's invariant\<close>

section \<open>One table at a time\<close>

lemma unique_app_tbl [simp, intro]: "db_unique d \<Longrightarrow> tbl_unique app_conflict t \<Longrightarrow> db_unique (d\<lparr>app_tbl := t\<rparr>)"
  by (simp add: db_unique_def)

lemma unique_user_tbl [simp, intro]: "db_unique d \<Longrightarrow> tbl_unique user_conflict t \<Longrightarrow> db_unique (d\<lparr>user_tbl := t\<rparr>)"
  by (simp add: db_unique_def)

lemma unique_token_tbl [simp, intro]: "db_unique d \<Longrightarrow> tbl_unique token_conflict t \<Longrightarrow> db_unique (d\<lparr>token_tbl := t\<rparr>)"
  by (simp add: db_unique_def)

lemma unique_user_key_tbl [simp, intro]: "db_unique d \<Longrightarrow> tbl_unique user_key_conflict t \<Longrightarrow> db_unique (d\<lparr>user_key_tbl := t\<rparr>)"
  by (simp add: db_unique_def)

lemma unique_allowed_domain_tbl [simp, intro]: "db_unique d \<Longrightarrow> tbl_unique allowed_domain_conflict t \<Longrightarrow> db_unique (d\<lparr>allowed_domain_tbl := t\<rparr>)"
  by (simp add: db_unique_def)

lemma unique_assistant_session_tbl [simp, intro]: "db_unique d \<Longrightarrow> tbl_unique session_conflict t \<Longrightarrow> db_unique (d\<lparr>assistant_session_tbl := t\<rparr>)"
  by (simp add: db_unique_def)

lemma unique_snapshot_tbl [simp, intro]: "db_unique d \<Longrightarrow> tbl_unique snapshot_conflict t \<Longrightarrow> db_unique (d\<lparr>snapshot_tbl := t\<rparr>)"
  by (simp add: db_unique_def)

lemma unique_app_domain_tbl [simp, intro]: "db_unique d \<Longrightarrow> tbl_unique domain_conflict t \<Longrightarrow> db_unique (d\<lparr>app_domain_tbl := t\<rparr>)"
  by (simp add: db_unique_def)

lemma unique_app_usage_tbl [simp, intro]: "db_unique d \<Longrightarrow> tbl_unique usage_conflict t \<Longrightarrow> db_unique (d\<lparr>app_usage_tbl := t\<rparr>)"
  by (simp add: db_unique_def)

lemma unique_app_assistant_tbl [simp, intro]: "db_unique d \<Longrightarrow> tbl_unique mode_conflict t \<Longrightarrow> db_unique (d\<lparr>app_assistant_tbl := t\<rparr>)"
  by (simp add: db_unique_def)

lemma unique_app_collaborator_tbl [simp, intro]: "db_unique d \<Longrightarrow> tbl_unique grant_conflict t \<Longrightarrow> db_unique (d\<lparr>app_collaborator_tbl := t\<rparr>)"
  by (simp add: db_unique_def)

lemma unique_app_viewer_tbl [simp, intro]: "db_unique d \<Longrightarrow> tbl_unique grant_conflict t \<Longrightarrow> db_unique (d\<lparr>app_viewer_tbl := t\<rparr>)"
  by (simp add: db_unique_def)

lemma unique_pending_viewer_tbl [simp, intro]: "db_unique d \<Longrightarrow> tbl_unique grant_conflict t \<Longrightarrow> db_unique (d\<lparr>pending_viewer_tbl := t\<rparr>)"
  by (simp add: db_unique_def)

lemma unique_connection_tbl [simp, intro]: "db_unique d \<Longrightarrow> tbl_unique connection_conflict t \<Longrightarrow> db_unique (d\<lparr>connection_tbl := t\<rparr>)"
  by (simp add: db_unique_def)

lemma unique_app_connection_tbl [simp, intro]: "db_unique d \<Longrightarrow> tbl_unique grant_conflict t \<Longrightarrow> db_unique (d\<lparr>app_connection_tbl := t\<rparr>)"
  by (simp add: db_unique_def)

lemma unique_provider_tbl [simp, intro]: "db_unique d \<Longrightarrow> tbl_unique provider_conflict t \<Longrightarrow> db_unique (d\<lparr>provider_tbl := t\<rparr>)"
  by (simp add: db_unique_def)

lemma unique_node_tbl [simp, intro]: "db_unique d \<Longrightarrow> tbl_unique node_conflict t \<Longrightarrow> db_unique (d\<lparr>node_tbl := t\<rparr>)"
  by (simp add: db_unique_def)

lemma unique_proxy_tbl [simp, intro]: "db_unique d \<Longrightarrow> tbl_unique proxy_conflict t \<Longrightarrow> db_unique (d\<lparr>proxy_tbl := t\<rparr>)"
  by (simp add: db_unique_def)

lemma unique_app_key_tbl [simp, intro]: "db_unique d \<Longrightarrow> db_unique (d\<lparr>app_key_tbl := t\<rparr>)"
  by (simp add: db_unique_def)

lemma unique_setting_tbl [simp, intro]: "db_unique d \<Longrightarrow> db_unique (d\<lparr>setting_tbl := t\<rparr>)"
  by (simp add: db_unique_def)

lemma unique_app_event_tbl [intro]:
  "db_unique d \<Longrightarrow> tbl_unique event_conflict t \<Longrightarrow> \<forall>e \<in> set t. e_ID e \<le> s \<Longrightarrow>
   db_unique (d\<lparr>app_event_seq := s, app_event_tbl := t\<rparr>)"
  by (simp add: db_unique_def)

lemma unique_app_event_delete [simp, intro]:
  "db_unique d \<Longrightarrow> db_unique (d\<lparr>app_event_tbl := tbl_delete P (app_event_tbl d)\<rparr>)"
  by (simp add: db_unique_def)

lemma db_uniqueD:
  assumes "db_unique d"
  shows "tbl_unique app_conflict (app_tbl d)"
    and "tbl_unique user_conflict (user_tbl d)"
    and "tbl_unique token_conflict (token_tbl d)"
    and "tbl_unique user_key_conflict (user_key_tbl d)"
    and "tbl_unique allowed_domain_conflict (allowed_domain_tbl d)"
    and "tbl_unique session_conflict (assistant_session_tbl d)"
    and "tbl_unique snapshot_conflict (snapshot_tbl d)"
    and "tbl_unique domain_conflict (app_domain_tbl d)"
    and "tbl_unique usage_conflict (app_usage_tbl d)"
    and "tbl_unique mode_conflict (app_assistant_tbl d)"
    and "tbl_unique grant_conflict (app_collaborator_tbl d)"
    and "tbl_unique grant_conflict (app_viewer_tbl d)"
    and "tbl_unique grant_conflict (pending_viewer_tbl d)"
    and "tbl_unique connection_conflict (connection_tbl d)"
    and "tbl_unique grant_conflict (app_connection_tbl d)"
    and "tbl_unique provider_conflict (provider_tbl d)"
    and "tbl_unique node_conflict (node_tbl d)"
    and "tbl_unique proxy_conflict (proxy_tbl d)"
    and "tbl_unique event_conflict (app_event_tbl d)"
    and "\<forall>e \<in> set (app_event_tbl d). e_ID e \<le> app_event_seq d"
  using assms by (simp_all add: db_unique_def)

section \<open>Every operation keeps the invariant\<close>

lemma AddToken_unique [unique_pres]: "AddToken now rid d t = Inr (d', t') \<Longrightarrow> db_unique d \<Longrightarrow> db_unique d'"
  by (auto simp: AddToken_def Let_def tbl_insert_Inr db_uniqueD split: sum.splits)

lemma RemoveTokensByApp_unique [unique_pres, simp]: "db_unique d \<Longrightarrow> db_unique (RemoveTokensByApp d i n)"
  by (simp add: RemoveTokensByApp_def db_uniqueD)

lemma TouchToken_unique [unique_pres]: "db_unique d \<Longrightarrow> db_unique (TouchToken now d i)"
  by (simp add: TouchToken_def db_uniqueD tbl_unique_update_key)

lemma RemoveToken_unique [unique_pres]: "RemoveToken d u i = Inr d' \<Longrightarrow> db_unique d \<Longrightarrow> db_unique d'"
  by (auto simp: RemoveToken_def Let_def checkAffected_Inr db_uniqueD)

lemma AddUserKey_unique [unique_pres]: "AddUserKey now rid d k = Inr (d', k') \<Longrightarrow> db_unique d \<Longrightarrow> db_unique d'"
  by (auto simp: AddUserKey_def Let_def tbl_insert_Inr db_uniqueD split: sum.splits)

lemma RenameUserKey_unique [unique_pres]: "RenameUserKey d u i l = Inr d' \<Longrightarrow> db_unique d \<Longrightarrow> db_unique d'"
  by (auto simp: RenameUserKey_def Let_def checkAffected_Inr db_uniqueD user_key_conflict_def
      intro!: unique_user_key_tbl tbl_unique_update_key)

lemma RemoveUserKey_unique [unique_pres]: "RemoveUserKey d u i = Inr d' \<Longrightarrow> db_unique d \<Longrightarrow> db_unique d'"
  by (auto simp: RemoveUserKey_def Let_def checkAffected_Inr db_uniqueD)

lemma SetAppKeys_unique [unique_pres]: "db_unique d \<Longrightarrow> db_unique (SetAppKeys d n ks)"
  by (simp add: SetAppKeys_eq)

lemma SetSetting_unique [unique_pres, simp]: "db_unique d \<Longrightarrow> db_unique (SetSetting d k v)"
  by (simp add: SetSetting_def)

lemma AddAllowedDomain_unique [unique_pres]: "AddAllowedDomain now d ad = (d', ad') \<Longrightarrow> db_unique d \<Longrightarrow> db_unique d'"
  by (auto simp: AddAllowedDomain_def Let_def db_uniqueD conflicts_with_iff tbl_find_None allowed_domain_conflict_def
      split: option.splits)

lemma RemoveAllowedDomain_unique [unique_pres]: "RemoveAllowedDomain d n = Inr d' \<Longrightarrow> db_unique d \<Longrightarrow> db_unique d'"
  by (auto simp: RemoveAllowedDomain_def Let_def checkAffected_Inr db_uniqueD)

lemma AddApp_unique [unique_pres]: "AddApp now rid d a = Inr (d', a') \<Longrightarrow> db_unique d \<Longrightarrow> db_unique d'"
  by (auto simp: AddApp_def Let_def tbl_insert_Inr db_uniqueD split: sum.splits)

lemma upd_app_unique [simp]:
  "db_unique d \<Longrightarrow> (\<And>a. a_Name (f a) = a_Name a \<and> a_Port (f a) = a_Port a \<and> a_ID (f a) = a_ID a) \<Longrightarrow>
   db_unique (upd_app d n f)"
  by (auto simp: upd_app_def db_uniqueD app_conflict_def intro!: unique_app_tbl tbl_unique_update_key)

lemma upd_app_checked_unique:
  "upd_app_checked d n f = Inr d' \<Longrightarrow> db_unique d \<Longrightarrow>
   (\<And>a. a_Name (f a) = a_Name a \<and> a_Port (f a) = a_Port a \<and> a_ID (f a) = a_ID a) \<Longrightarrow> db_unique d'"
  by (auto simp: upd_app_checked_def checkAffected_Inr)

lemma app_setters_unique [unique_pres]:
  "db_unique d \<Longrightarrow> db_unique (SetAppUID d n uid)"
  "db_unique d \<Longrightarrow> db_unique (SetAppOwner d n o')"
  "db_unique d \<Longrightarrow> db_unique (SetAppArchived d n b)"
  "db_unique d \<Longrightarrow> db_unique (SetAppPrivate d n b)"
  "db_unique d \<Longrightarrow> db_unique (SetAppPoweredOff d n b)"
  by (simp_all add: SetAppUID_def SetAppOwner_def SetAppArchived_def SetAppPrivate_def SetAppPoweredOff_def
      Let_def db_uniqueD)

lemma app_checked_setters_unique [unique_pres]:
  "SetAppSoftDeleted d n t = Inr d' \<Longrightarrow> db_unique d \<Longrightarrow> db_unique d'"
  "SetAppTabs d n tabs = Inr d' \<Longrightarrow> db_unique d \<Longrightarrow> db_unique d'"
  "SetAppListed d n b = Inr d' \<Longrightarrow> db_unique d \<Longrightarrow> db_unique d'"
  "UpdateAppLimits d n m k c = Inr d' \<Longrightarrow> db_unique d \<Longrightarrow> db_unique d'"
  "UpdateAppUsage d n k = Inr d' \<Longrightarrow> db_unique d \<Longrightarrow> db_unique d'"
  unfolding SetAppSoftDeleted_def SetAppTabs_def SetAppListed_def UpdateAppLimits_def UpdateAppUsage_def Let_def
  by (erule upd_app_checked_unique; simp)+

lemma RenameApp_unique [unique_pres]: "RenameApp d n m = Inr d' \<Longrightarrow> db_unique d \<Longrightarrow> db_unique d'"
  by (auto simp: RenameApp_def Let_def tbl_update_checked_Inr db_uniqueD split: sum.splits if_splits)

lemma RemoveApp_unique [unique_pres]: "RemoveApp d n = Inr d' \<Longrightarrow> db_unique d \<Longrightarrow> db_unique d'"
  by (auto simp: RemoveApp_def Let_def db_unique_def RemoveTokensByApp_def split: sum.splits)

lemma AddUser_unique [unique_pres]: "AddUser now rid d u = Inr (d', u') \<Longrightarrow> db_unique d \<Longrightarrow> db_unique d'"
  by (auto simp: AddUser_def Let_def tbl_insert_Inr db_uniqueD split: sum.splits)

lemma UpdateUser_unique [unique_pres]: "UpdateUser d u = Inr d' \<Longrightarrow> db_unique d \<Longrightarrow> db_unique d'"
  by (auto simp: UpdateUser_def Let_def checkAffected_Inr db_uniqueD user_conflict_def
      intro!: unique_user_tbl tbl_unique_update_key)

lemma UpdateUserProfile_unique [unique_pres]: "UpdateUserProfile d u = Inr d' \<Longrightarrow> db_unique d \<Longrightarrow> db_unique d'"
  by (auto simp: UpdateUserProfile_def Let_def checkAffected_Inr db_uniqueD user_conflict_def
      intro!: unique_user_tbl tbl_unique_update_key)

lemma RemoveUser_unique [unique_pres]: "RemoveUser d i = Inr d' \<Longrightarrow> db_unique d \<Longrightarrow> db_unique d'"
  by (auto simp: RemoveUser_def db_uniqueD split: if_splits)

lemma transfer_one_unique: "db_unique d \<Longrightarrow> db_unique (transfer_one u a d)"
  by (auto simp: transfer_one_def db_uniqueD intro!: unique_token_tbl tbl_unique_update_key)

lemma fold_unique: "(\<And>x d. db_unique d \<Longrightarrow> db_unique (f x d)) \<Longrightarrow> db_unique d \<Longrightarrow> db_unique (fold f xs d)"
  by (induction xs arbitrary: d) auto

lemma TransferApps_unique [unique_pres]: "TransferApps d u v = (d', ns) \<Longrightarrow> db_unique d \<Longrightarrow> db_unique d'"
  by (auto simp: TransferApps_def Let_def db_uniqueD fold_unique transfer_one_unique app_conflict_def
      intro!: unique_app_tbl tbl_unique_update_key)

lemma grant_ops_unique [unique_pres, simp]:
  "db_unique d \<Longrightarrow> db_unique (AddAppCollaborator now d a u)"
  "db_unique d \<Longrightarrow> db_unique (RemoveAppCollaborator d a u)"
  "db_unique d \<Longrightarrow> db_unique (AddAppViewer now d a u)"
  "db_unique d \<Longrightarrow> db_unique (RemoveAppViewer d a u)"
  "db_unique d \<Longrightarrow> db_unique (AddPendingViewer now d a u)"
  "db_unique d \<Longrightarrow> db_unique (RemovePendingViewer d a u)"
  "db_unique d \<Longrightarrow> db_unique (GrantConnection now d a u)"
  "db_unique d \<Longrightarrow> db_unique (RevokeConnection d a u)"
  by (simp_all add: AddAppCollaborator_def RemoveAppCollaborator_def AddAppViewer_def RemoveAppViewer_def
      AddPendingViewer_def RemovePendingViewer_def GrantConnection_def RevokeConnection_def Let_def db_uniqueD)

lemma ResolvePendingViewers_unique [unique_pres]:
  "ResolvePendingViewers now d e u = (d', n) \<Longrightarrow> db_unique d \<Longrightarrow> db_unique d'"
  by (auto simp: ResolvePendingViewers_def Let_def db_uniqueD intro!: fold_unique)

lemma AddDomain_unique [unique_pres]: "AddDomain d x = Inr d' \<Longrightarrow> db_unique d \<Longrightarrow> db_unique d'"
  by (auto simp: AddDomain_def Let_def tbl_insert_Inr db_uniqueD split: sum.splits)

lemma SetDomainStatus_unique [unique_pres]: "SetDomainStatus d n s e t = Inr d' \<Longrightarrow> db_unique d \<Longrightarrow> db_unique d'"
  by (auto simp: SetDomainStatus_def Let_def checkAffected_Inr db_uniqueD domain_conflict_def
      intro!: unique_app_domain_tbl tbl_unique_update_key)

lemma DeleteDomain_unique [unique_pres]: "db_unique d \<Longrightarrow> db_unique (DeleteDomain d n)"
  by (simp add: DeleteDomain_def db_uniqueD)

lemma AddSnapshot_unique [unique_pres]: "AddSnapshot d x = Inr d' \<Longrightarrow> db_unique d \<Longrightarrow> db_unique d'"
  by (auto simp: AddSnapshot_def tbl_insert_Inr db_uniqueD split: sum.splits)

lemma DeleteSnapshot_unique [unique_pres]: "db_unique d \<Longrightarrow> db_unique (DeleteSnapshot d i)"
  by (simp add: DeleteSnapshot_def db_uniqueD)

lemma AddEvent_unique [unique_pres]:
  assumes "db_unique d" shows "db_unique (AddEvent d x)"
proof -
  have "\<forall>e \<in> set (app_event_tbl d). e_ID e \<le> app_event_seq d" "tbl_unique event_conflict (app_event_tbl d)"
    using assms by (auto simp: db_uniqueD)
  moreover from this have "\<not> conflicts_with event_conflict r (app_event_tbl d)" if "e_ID r = app_event_seq d + 1" for r
    using that by (fastforce simp: conflicts_with_iff event_conflict_def)
  moreover have "\<forall>e \<in> set (app_event_tbl d). e_ID e \<le> app_event_seq d + 1"
    using db_uniqueD(20)[OF assms] by auto
  ultimately show ?thesis
    using assms by (auto simp: AddEvent_def Let_def intro!: unique_app_event_tbl)
qed

lemma AddAssistantUsage_unique [unique_pres]: "db_unique d \<Longrightarrow> db_unique (AddAssistantUsage now d n u)"
  by (auto simp: AddAssistantUsage_def Let_def db_uniqueD usage_conflict_def conflicts_with_iff
      intro!: unique_app_usage_tbl tbl_unique_update_key split: option.splits)

lemma SaveAssistantSession_unique [unique_pres]:
  "SaveAssistantSession now d n x = Inr d' \<Longrightarrow> db_unique d \<Longrightarrow> db_unique d'"
  by (auto simp: SaveAssistantSession_def Let_def tbl_insert_Inr db_uniqueD session_conflict_def
      intro!: unique_assistant_session_tbl tbl_unique_update_key split: if_splits sum.splits)

lemma DeleteAssistantSession_unique [unique_pres]: "db_unique d \<Longrightarrow> db_unique (DeleteAssistantSession d n)"
  by (simp add: DeleteAssistantSession_def db_uniqueD)

lemma SetAppAssistantMode_unique [unique_pres]: "db_unique d \<Longrightarrow> db_unique (SetAppAssistantMode d n m)"
  by (auto simp: SetAppAssistantMode_def Let_def db_uniqueD mode_conflict_def conflicts_with_iff
      intro!: unique_app_assistant_tbl tbl_unique_update_key split: option.splits)

lemma insert_mirror_apps_unique:
  "insert_mirror_apps as t = Inr t' \<Longrightarrow> tbl_unique app_conflict t \<Longrightarrow> tbl_unique app_conflict t'"
  by (induction as t rule: insert_mirror_apps.induct)
     (auto simp: Let_def tbl_insert_Inr split: sum.splits)

lemma fold_merge_unique:
  "tbl_unique snapshot_conflict t \<Longrightarrow> tbl_unique snapshot_conflict (fold (\<lambda>x t. merge_snapshot d (g x) x t) xs t)"
  by (induction xs arbitrary: t) (auto simp: merge_snapshot_def)

lemma ReplaceNodeMirror_unique [unique_pres]:
  "ReplaceNodeMirror d as xs = Inr d' \<Longrightarrow> db_unique d \<Longrightarrow> db_unique d'"
  by (auto simp: ReplaceNodeMirror_def Let_def db_uniqueD split: sum.splits
      intro!: unique_app_tbl unique_snapshot_tbl tbl_unique_delete fold_merge_unique
      dest!: insert_mirror_apps_unique)

lemma ReplaceAppSnapshots_unique [unique_pres]:
  "ReplaceAppSnapshots d n xs = Inr d' \<Longrightarrow> db_unique d \<Longrightarrow> db_unique d'"
  by (auto simp: ReplaceAppSnapshots_def Let_def db_uniqueD split: option.splits
      intro!: unique_snapshot_tbl fold_merge_unique[where g = "\<lambda>_. n"])

lemma SetConnectionStatus_unique [unique_pres]: "db_unique d \<Longrightarrow> db_unique (SetConnectionStatus d i s)"
  by (auto simp: SetConnectionStatus_def db_uniqueD connection_conflict_def
      intro!: unique_connection_tbl tbl_unique_update_key)

lemma AddConnection_unique [unique_pres]: "AddConnection rid d c = Inr (d', c') \<Longrightarrow> db_unique d \<Longrightarrow> db_unique d'"
  by (auto simp: AddConnection_def Let_def tbl_insert_Inr db_uniqueD split: sum.splits)

lemma upd_connection_unique:
  "upd_connection d i f = Inr d' \<Longrightarrow> db_unique d \<Longrightarrow>
   (\<And>c. c_ID (f c) = c_ID c \<and> c_UserID (f c) = c_UserID c \<and> c_Slug (f c) = c_Slug c) \<Longrightarrow> db_unique d'"
  by (auto simp: upd_connection_def checkAffected_Inr db_uniqueD connection_conflict_def
      intro!: unique_connection_tbl tbl_unique_update_key)

lemma UpdateConnection_unique [unique_pres]:
  "UpdateConnectionSecretOnly d i s = Inr d' \<Longrightarrow> db_unique d \<Longrightarrow> db_unique d'"
  "UpdateConnectionSecret d i s sc m = Inr d' \<Longrightarrow> db_unique d \<Longrightarrow> db_unique d'"
  unfolding UpdateConnectionSecretOnly_def UpdateConnectionSecret_def by (erule upd_connection_unique; simp)+

lemma RenameConnection_unique [unique_pres]: "RenameConnection d i s l = Inr d' \<Longrightarrow> db_unique d \<Longrightarrow> db_unique d'"
  by (auto simp: RenameConnection_def tbl_update_checked_Inr checkAffected_Inr split: sum.splits)

lemma DeleteConnection_unique [unique_pres]: "DeleteConnection d i = (d', e) \<Longrightarrow> db_unique d \<Longrightarrow> db_unique d'"
  by (auto simp: DeleteConnection_def Let_def db_uniqueD)

lemma AddProvider_unique [unique_pres]: "AddProvider rid d p = Inr (d', p') \<Longrightarrow> db_unique d \<Longrightarrow> db_unique d'"
  by (auto simp: AddProvider_def Let_def tbl_insert_Inr db_uniqueD split: sum.splits)

lemma UpdateProvider_unique [unique_pres]: "UpdateProvider d p = Inr d' \<Longrightarrow> db_unique d \<Longrightarrow> db_unique d'"
  by (auto simp: UpdateProvider_def Let_def checkAffected_Inr db_uniqueD provider_conflict_def
      intro!: unique_provider_tbl tbl_unique_update_key)

lemma DeleteProvider_unique [unique_pres]: "DeleteProvider d i = Inr d' \<Longrightarrow> db_unique d \<Longrightarrow> db_unique d'"
  by (auto simp: DeleteProvider_def checkAffected_Inr db_uniqueD)

lemma EnsureNode_unique [unique_pres]: "db_unique d \<Longrightarrow> db_unique (EnsureNode now d n a)"
  by (auto simp: EnsureNode_def db_uniqueD node_conflict_def conflicts_with_iff
      intro!: unique_node_tbl tbl_unique_update_key)

lemma upd_node_unique: "db_unique d \<Longrightarrow> (\<And>n. n_Name (f n) = n_Name n) \<Longrightarrow> db_unique (upd_node d n f)"
  by (auto simp: upd_node_def db_uniqueD node_conflict_def intro!: unique_node_tbl tbl_unique_update_key)

lemma node_ops_unique [unique_pres]:
  "db_unique d \<Longrightarrow> db_unique (SetNodeSeen d n t)"
  "db_unique d \<Longrightarrow> db_unique (SetNodeStats d n s)"
  "db_unique d \<Longrightarrow> db_unique (SetNodeVersion d n s)"
  "db_unique d \<Longrightarrow> db_unique (SetNodeSSHHost d n s)"
  "db_unique d \<Longrightarrow> db_unique (SetNodeHostKey d n s)"
  "db_unique d \<Longrightarrow> db_unique (RemoveNode d n)"
  by (simp_all add: SetNodeSeen_def SetNodeStats_def SetNodeVersion_def SetNodeSSHHost_def SetNodeHostKey_def
      RemoveNode_def upd_node_unique db_uniqueD)

lemma proxy_ops_unique [unique_pres]:
  "db_unique d \<Longrightarrow> db_unique (EnsureProxy now d n)"
  "db_unique d \<Longrightarrow> db_unique (SetProxySeen d n t)"
  "db_unique d \<Longrightarrow> db_unique (SetProxyStatus d n t v r s)"
  "DeleteProxy d n = Inr d' \<Longrightarrow> db_unique d \<Longrightarrow> db_unique d'"
  by (auto simp: EnsureProxy_def SetProxySeen_def SetProxyStatus_def DeleteProxy_def db_uniqueD proxy_conflict_def
      intro!: unique_proxy_tbl tbl_unique_update_key split: if_splits)

section \<open>Reachable registries\<close>

inductive store_step :: "db \<Rightarrow> db \<Rightarrow> bool" where
  step_AddApp: "AddApp now rid d a = Inr (d', a') \<Longrightarrow> store_step d d'"
|   step_SetAppUID: "store_step d (SetAppUID d n uid)"
|   step_SetAppOwner: "store_step d (SetAppOwner d n u)"
|   step_SetAppArchived: "store_step d (SetAppArchived d n b)"
|   step_SetAppSoftDeleted: "SetAppSoftDeleted d n t = Inr d' \<Longrightarrow> store_step d d'"
|   step_SetAppTabs: "SetAppTabs d n tabs = Inr d' \<Longrightarrow> store_step d d'"
|   step_SetAppPrivate: "store_step d (SetAppPrivate d n b)"
|   step_SetAppListed: "SetAppListed d n b = Inr d' \<Longrightarrow> store_step d d'"
|   step_SetAppPoweredOff: "store_step d (SetAppPoweredOff d n b)"
|   step_RenameApp: "RenameApp d n m = Inr d' \<Longrightarrow> store_step d d'"
|   step_UpdateAppLimits: "UpdateAppLimits d n i j k = Inr d' \<Longrightarrow> store_step d d'"
|   step_UpdateAppUsage: "UpdateAppUsage d n k = Inr d' \<Longrightarrow> store_step d d'"
|   step_RemoveApp: "RemoveApp d n = Inr d' \<Longrightarrow> store_step d d'"
|   step_AddToken: "AddToken now rid d tk = Inr (d', tk') \<Longrightarrow> store_step d d'"
|   step_RemoveTokensByApp: "store_step d (RemoveTokensByApp d i n)"
|   step_TouchToken: "store_step d (TouchToken now d i)"
|   step_RemoveToken: "RemoveToken d u i = Inr d' \<Longrightarrow> store_step d d'"
|   step_AddUserKey: "AddUserKey now rid d k = Inr (d', k') \<Longrightarrow> store_step d d'"
|   step_RenameUserKey: "RenameUserKey d u i l = Inr d' \<Longrightarrow> store_step d d'"
|   step_RemoveUserKey: "RemoveUserKey d u i = Inr d' \<Longrightarrow> store_step d d'"
|   step_SetAppKeys: "store_step d (SetAppKeys d n ks)"
|   step_SetSetting: "store_step d (SetSetting d k v)"
|   step_AddAllowedDomain: "AddAllowedDomain now d ad = (d', ad') \<Longrightarrow> store_step d d'"
|   step_RemoveAllowedDomain: "RemoveAllowedDomain d n = Inr d' \<Longrightarrow> store_step d d'"
|   step_AddUser: "AddUser now rid d u = Inr (d', u') \<Longrightarrow> store_step d d'"
|   step_UpdateUser: "UpdateUser d u = Inr d' \<Longrightarrow> store_step d d'"
|   step_UpdateUserProfile: "UpdateUserProfile d u = Inr d' \<Longrightarrow> store_step d d'"
|   step_RemoveUser: "RemoveUser d i = Inr d' \<Longrightarrow> store_step d d'"
|   step_TransferApps: "TransferApps d i j = (d', ns) \<Longrightarrow> store_step d d'"
|   step_AddAppCollaborator: "store_step d (AddAppCollaborator now d i j)"
|   step_RemoveAppCollaborator: "store_step d (RemoveAppCollaborator d i j)"
|   step_AddAppViewer: "store_step d (AddAppViewer now d i j)"
|   step_RemoveAppViewer: "store_step d (RemoveAppViewer d i j)"
|   step_AddPendingViewer: "store_step d (AddPendingViewer now d i j)"
|   step_RemovePendingViewer: "store_step d (RemovePendingViewer d i j)"
|   step_ResolvePendingViewers: "ResolvePendingViewers now d e i = (d', cnt) \<Longrightarrow> store_step d d'"
|   step_AddDomain: "AddDomain d x = Inr d' \<Longrightarrow> store_step d d'"
|   step_SetDomainStatus: "SetDomainStatus d n s e ta = Inr d' \<Longrightarrow> store_step d d'"
|   step_DeleteDomain: "store_step d (DeleteDomain d n)"
|   step_AddSnapshot: "AddSnapshot d sn = Inr d' \<Longrightarrow> store_step d d'"
|   step_DeleteSnapshot: "store_step d (DeleteSnapshot d i)"
|   step_AddEvent: "store_step d (AddEvent d ev)"
|   step_AddAssistantUsage: "store_step d (AddAssistantUsage now d n us)"
|   step_SaveAssistantSession: "SaveAssistantSession now d n s = Inr d' \<Longrightarrow> store_step d d'"
|   step_DeleteAssistantSession: "store_step d (DeleteAssistantSession d n)"
|   step_SetAppAssistantMode: "store_step d (SetAppAssistantMode d n s)"
|   step_ReplaceNodeMirror: "ReplaceNodeMirror d as sns = Inr d' \<Longrightarrow> store_step d d'"
|   step_ReplaceAppSnapshots: "ReplaceAppSnapshots d n sns = Inr d' \<Longrightarrow> store_step d d'"
|   step_SetConnectionStatus: "store_step d (SetConnectionStatus d i s)"
|   step_AddConnection: "AddConnection rid d c = Inr (d', c') \<Longrightarrow> store_step d d'"
|   step_UpdateConnectionSecretOnly: "UpdateConnectionSecretOnly d i s = Inr d' \<Longrightarrow> store_step d d'"
|   step_UpdateConnectionSecret: "UpdateConnectionSecret d i s sc m = Inr d' \<Longrightarrow> store_step d d'"
|   step_RenameConnection: "RenameConnection d i s l = Inr d' \<Longrightarrow> store_step d d'"
|   step_DeleteConnection: "DeleteConnection d i = (d', eo) \<Longrightarrow> store_step d d'"
|   step_GrantConnection: "store_step d (GrantConnection now d i j)"
|   step_RevokeConnection: "store_step d (RevokeConnection d i j)"
|   step_AddProvider: "AddProvider rid d p = Inr (d', p') \<Longrightarrow> store_step d d'"
|   step_UpdateProvider: "UpdateProvider d p = Inr d' \<Longrightarrow> store_step d d'"
|   step_DeleteProvider: "DeleteProvider d i = Inr d' \<Longrightarrow> store_step d d'"
|   step_EnsureNode: "store_step d (EnsureNode now d n s)"
|   step_SetNodeSeen: "store_step d (SetNodeSeen d n t)"
|   step_SetNodeStats: "store_step d (SetNodeStats d n s)"
|   step_SetNodeVersion: "store_step d (SetNodeVersion d n s)"
|   step_SetNodeSSHHost: "store_step d (SetNodeSSHHost d n s)"
|   step_SetNodeHostKey: "store_step d (SetNodeHostKey d n s)"
|   step_RemoveNode: "store_step d (RemoveNode d n)"
|   step_EnsureProxy: "store_step d (EnsureProxy now d n)"
|   step_SetProxySeen: "store_step d (SetProxySeen d n t)"
|   step_SetProxyStatus: "store_step d (SetProxyStatus d n t s r l)"
|   step_DeleteProxy: "DeleteProxy d n = Inr d' \<Longrightarrow> store_step d d'"

inductive store_reachable :: "db \<Rightarrow> bool" where
  reach_init: "store_reachable empty_db"
| reach_step: "store_reachable d \<Longrightarrow> store_step d d' \<Longrightarrow> store_reachable d'"

lemma store_step_unique: "store_step d d' \<Longrightarrow> db_unique d \<Longrightarrow> db_unique d'"
  by (induction rule: store_step.induct) (auto intro: unique_pres)

lemma store_reachable_db_unique: "store_reachable d \<Longrightarrow> db_unique d"
  by (induction rule: store_reachable.induct) (auto simp: db_unique_empty intro: store_step_unique)

end
