(* ===== verification/Samples.thy ===== *)
theory Samples
  imports Store_Invariant
begin

text \<open>
  Small concrete registries at which the theorems of the development are instantiated.
\<close>

definition plain_app :: App where
  "plain_app =
     \<lparr>a_ID = ''app_1'', a_Name = ''blog'', a_Port = 10000, a_Host = ''local'', a_OwnerID = ''usr_1'', a_DiskMB = 0,
      a_CreatedAt = Some 0, a_ImageTag = '''', a_UID = 1000000, a_PoweredOff = False, a_Archived = False,
      a_SoftDeletedAt = None, a_Listed = False, a_Private = False, a_MemoryLimitMB = 0, a_DiskLimitMB = 0,
      a_CPUMilli = 0, a_Tabs = ''''\<rparr>"

definition plain_user :: User where
  "plain_user =
     \<lparr>u_ID = ''usr_1'', u_Email = ''ann@example.org'', u_Name = ''Ann'', u_Role = RoleUser, u_Status = StatusActive,
      u_AppLimit = None, u_MemoryMB = None, u_DiskMB = None, u_MemoryPoolMB = None, u_DiskPoolMB = None,
      u_CreatedAt = Some 0, u_TechLevel = '''', u_AssistantPrompt = '''', u_DefaultTabs = '''', u_Onboarded = True\<rparr>"

definition second_user :: User where
  "second_user = plain_user\<lparr>u_ID := ''usr_2'', u_Email := ''bob@example.org'', u_Name := ''Bob''\<rparr>"

definition second_app :: App where
  "second_app = plain_app\<lparr>a_ID := ''app_2'', a_Name := ''wiki'', a_Port := 10001, a_OwnerID := ''usr_2''\<rparr>"

text \<open>Two users with a private app each.\<close>

definition small_db :: db where
  "small_db = empty_db\<lparr>user_tbl := [plain_user, second_user],
     app_tbl := [plain_app\<lparr>a_Private := True\<rparr>, second_app\<lparr>a_Private := True\<rparr>]\<rparr>"

lemmas sample_defs = plain_app_def plain_user_def second_user_def second_app_def

lemma small_db_unique: "db_unique small_db"
  by (simp add: db_unique_def small_db_def empty_db_def tbl_unique_def conflict_defs sample_defs)

text \<open>One user with one private app.\<close>

definition solo_db :: db where
  "solo_db = empty_db\<lparr>user_tbl := [plain_user], app_tbl := [plain_app\<lparr>a_Private := True\<rparr>]\<rparr>"

lemma solo_db_unique: "db_unique solo_db"
  by (simp add: db_unique_def solo_db_def empty_db_def tbl_unique_def)

end
