(* ===== verification/App_Attachments.thy ===== *)
theory App_Attachments
  imports Samples
begin

text \<open>
  The abstract view of the registry: an app is a row under a stable id, with the data attached to that
  id. \<open>attached\<close> collects, for one id, what every per-app table holds for it; the view says what
  deleting, renaming and re-owning an app mean, and the lemmas show that the table operations of
  \<open>store/app.go\<close> do exactly that and leave every other app alone.
\<close>

record app_data =
  v_keys :: "app_key_row list"
  v_transcripts :: "string list"
  v_snapshots :: "snapshot_row list"
  v_domains :: "domain_row list"
  v_events :: "event_row list"
  v_usage :: "usage_row list"
  v_mode :: "mode_row list"
  v_collaborators :: "grant_row list"
  v_viewers :: "grant_row list"
  v_pending :: "grant_row list"
  v_connections :: "grant_row list"
  v_tokens :: "token_row list"

definition attached :: "db \<Rightarrow> string \<Rightarrow> app_data" where
  "attached d i =
     \<lparr>v_keys = filter (\<lambda>r. ak_app_id r = i) (app_key_tbl d),
      v_transcripts = map as_transcript (filter (\<lambda>r. as_app_id r = i) (assistant_session_tbl d)),
      v_snapshots = filter (\<lambda>r. s_app_id r = i) (snapshot_tbl d),
      v_domains = filter (\<lambda>r. d_app_id r = i) (app_domain_tbl d),
      v_events = filter (\<lambda>r. e_app_id r = i) (app_event_tbl d),
      v_usage = filter (\<lambda>r. us_app_id r = i) (app_usage_tbl d),
      v_mode = filter (\<lambda>r. am_app_id r = i) (app_assistant_tbl d),
      v_collaborators = filter (\<lambda>g. g_app_id g = i) (app_collaborator_tbl d),
      v_viewers = filter (\<lambda>g. g_app_id g = i) (app_viewer_tbl d),
      v_pending = filter (\<lambda>g. g_app_id g = i) (pending_viewer_tbl d),
      v_connections = filter (\<lambda>g. g_app_id g = i) (app_connection_tbl d),
      v_tokens = filter (\<lambda>r. tk_app_id r = i) (token_tbl d)\<rparr>"

definition no_data :: app_data where
  "no_data = \<lparr>v_keys = [], v_transcripts = [], v_snapshots = [], v_domains = [], v_events = [], v_usage = [],
     v_mode = [], v_collaborators = [], v_viewers = [], v_pending = [], v_connections = [], v_tokens = []\<rparr>"

text \<open>The registry's abstraction: the live ids, each with its row and what is attached to it.\<close>

definition abs_registry :: "db \<Rightarrow> string \<rightharpoonup> App \<times> app_data" where
  "abs_registry d i =
     (if i = '''' then None
      else map_option (\<lambda>a. (a, attached d i)) (tbl_find (\<lambda>a. a_ID a = i) (app_tbl d)))"

section \<open>Lookups in a unique registry\<close>

lemma find_by_name:
  assumes "db_unique d"
  shows "tbl_find (\<lambda>a. a_Name a = n) (app_tbl d) = Some a \<longleftrightarrow> a \<in> set (app_tbl d) \<and> a_Name a = n"
  using db_uniqueD(1)[OF assms] by (rule tbl_unique_find) (simp add: app_conflict_def)

lemma Store_App_Inr:
  assumes "db_unique d"
  shows "Store_App d n = Inr a \<longleftrightarrow> a \<in> set (app_tbl d) \<and> a_Name a = n"
  using find_by_name[OF assms, of n a] by (auto simp: Store_App_def split: option.splits)

lemma Store_App_Inl: "Store_App d n = Inl e \<longleftrightarrow> (\<forall>a \<in> set (app_tbl d). a_Name a \<noteq> n) \<and> e = ErrAppNotFound"
  by (auto simp: Store_App_def tbl_find_None split: option.splits dest!: tbl_find_Some)

lemma same_name: "db_unique d \<Longrightarrow> a \<in> set (app_tbl d) \<Longrightarrow> b \<in> set (app_tbl d) \<Longrightarrow> a_Name a = a_Name b \<Longrightarrow> a = b"
  using tbl_unique_same[OF db_uniqueD(1), of d a_Name a b] by (auto simp: app_conflict_def)

lemma name_eq_iff:
  "db_unique d \<Longrightarrow> a \<in> set (app_tbl d) \<Longrightarrow> b \<in> set (app_tbl d) \<Longrightarrow> a_Name b = a_Name a \<longleftrightarrow> b = a"
  using same_name[of d a b] by auto

lemma same_app_id:
  assumes "db_unique d" "a \<in> set (app_tbl d)" "b \<in> set (app_tbl d)" "a_ID a = a_ID b" "a_ID a \<noteq> ''''"
  shows "a = b"
proof -
  have "tbl_unique app_conflict (filter (\<lambda>a. a_ID a \<noteq> '''') (app_tbl d))"
    using db_uniqueD(1)[OF assms(1)] by blast
  then have "tbl_unique (\<lambda>a b. a_ID a = a_ID b) (filter (\<lambda>a. a_ID a \<noteq> '''') (app_tbl d))"
    unfolding tbl_unique_def by (rule sorted_wrt_mono_rel[rotated]) (auto simp: app_conflict_def)
  from tbl_unique_same[OF this, of a_ID a b] assms show ?thesis by simp
qed

lemma find_by_id:
  assumes "db_unique d" "i \<noteq> ''''"
  shows "tbl_find (\<lambda>a. a_ID a = i) (app_tbl d) = Some a \<longleftrightarrow> a \<in> set (app_tbl d) \<and> a_ID a = i"
proof
  assume a: "a \<in> set (app_tbl d) \<and> a_ID a = i"
  then obtain b where b: "tbl_find (\<lambda>a. a_ID a = i) (app_tbl d) = Some b"
    using tbl_find_exists[of a "app_tbl d" "\<lambda>a. a_ID a = i"] by auto
  have "a = b"
    using a tbl_find_Some[OF b] assms(2) by (intro same_app_id[OF assms(1)]) auto
  with b show "tbl_find (\<lambda>a. a_ID a = i) (app_tbl d) = Some a" by simp
next
  assume "tbl_find (\<lambda>a. a_ID a = i) (app_tbl d) = Some a"
  from tbl_find_Some[OF this] show "a \<in> set (app_tbl d) \<and> a_ID a = i" .
qed

lemma app_id_of_iff:
  assumes "db_unique d"
  shows "app_id_of d n = Some i \<longleftrightarrow> (\<exists>a \<in> set (app_tbl d). a_Name a = n \<and> a_ID a = i \<and> i \<noteq> '''')"
proof
  assume "\<exists>a \<in> set (app_tbl d). a_Name a = n \<and> a_ID a = i \<and> i \<noteq> ''''"
  then obtain a where a: "a \<in> set (app_tbl d)" "a_Name a = n" "a_ID a = i" "i \<noteq> ''''" by blast
  then obtain b where b: "tbl_find (\<lambda>a. a_Name a = n \<and> a_ID a \<noteq> '''') (app_tbl d) = Some b"
    using tbl_find_exists[of a "app_tbl d" "\<lambda>a. a_Name a = n \<and> a_ID a \<noteq> ''''"] by auto
  have "a = b"
    using a tbl_find_Some[OF b] by (intro same_name[OF assms]) auto
  with a(3) b show "app_id_of d n = Some i" by (simp add: app_id_of_def)
next
  assume "app_id_of d n = Some i"
  then obtain a where a: "tbl_find (\<lambda>a. a_Name a = n \<and> a_ID a \<noteq> '''') (app_tbl d) = Some a" "a_ID a = i"
    by (auto simp: app_id_of_def)
  from tbl_find_Some[OF a(1)] a(2) show "\<exists>a \<in> set (app_tbl d). a_Name a = n \<and> a_ID a = i \<and> i \<noteq> ''''"
    by blast
qed

lemma abs_registry_Some:
  assumes "db_unique d"
  shows "abs_registry d i = Some (a, x) \<longleftrightarrow> a \<in> set (app_tbl d) \<and> a_ID a = i \<and> i \<noteq> '''' \<and> x = attached d i"
  using find_by_id[OF assms, of i a] by (auto simp: abs_registry_def)

lemma abs_registry_None:
  assumes "db_unique d" "i \<noteq> ''''"
  shows "abs_registry d i = None \<longleftrightarrow> (\<forall>a \<in> set (app_tbl d). a_ID a \<noteq> i)"
  using assms by (simp add: abs_registry_def tbl_find_None)

lemma abs_registry_eqI:
  assumes "db_unique d" "db_unique d'"
    and "\<And>a. a_ID a = i \<Longrightarrow> a \<in> set (app_tbl d') \<longleftrightarrow> a \<in> set (app_tbl d)"
    and "attached d' i = attached d i"
  shows "abs_registry d' i = abs_registry d i"
proof (cases "abs_registry d i")
  case None
  show ?thesis
  proof (cases "i = ''''")
    case False
    with None assms show ?thesis by (metis abs_registry_None)
  qed (simp add: abs_registry_def)
next
  case (Some p)
  obtain a x where p: "p = (a, x)" by (cases p)
  with Some assms show ?thesis by (metis abs_registry_Some)
qed

section \<open>Deleting an app\<close>

lemma filter_sel_other:
  "i \<noteq> j \<Longrightarrow> i \<noteq> [] \<Longrightarrow>
   filter (\<lambda>r. k r = i) (tbl_delete (\<lambda>r. app_row_sel j n (k r) (m r)) t) = filter (\<lambda>r. k r = i) t"
  by (rule filter_tbl_delete_disjoint) (auto simp: app_row_sel_def)

lemma filter_id_other:
  "i \<noteq> j \<Longrightarrow> filter (\<lambda>r. k r = i) (tbl_delete (\<lambda>r. k r = j) t) = filter (\<lambda>r. k r = i) t"
  by (rule filter_tbl_delete_disjoint) auto

lemma filter_sel_same: "filter (\<lambda>r. k r = j) (tbl_delete (\<lambda>r. app_row_sel j n (k r) (m r)) t) = []"
  by (auto simp: filter_empty_conv app_row_sel_def)

lemma filter_id_same: "filter (\<lambda>r. k r = j) (tbl_delete (\<lambda>r. k r = j) t) = []"
  by (auto simp: filter_empty_conv)

lemma RemoveApp_tables:
  assumes "Store_App d n = Inr a"
  shows "RemoveApp d n = Inr (let sel = app_row_sel (a_ID a) n in
    d\<lparr>app_tbl := tbl_delete (\<lambda>a. a_Name a = n) (app_tbl d),
      app_key_tbl := tbl_delete (\<lambda>r. sel (ak_app_id r) (ak_app_name r)) (app_key_tbl d),
      assistant_session_tbl := tbl_delete (\<lambda>r. sel (as_app_id r) (as_app_name r)) (assistant_session_tbl d),
      snapshot_tbl := tbl_delete (\<lambda>r. sel (s_app_id r) (s_AppName r)) (snapshot_tbl d),
      app_domain_tbl := tbl_delete (\<lambda>r. sel (d_app_id r) (d_AppName r)) (app_domain_tbl d),
      app_event_tbl := tbl_delete (\<lambda>r. sel (e_app_id r) (e_AppName r)) (app_event_tbl d),
      app_usage_tbl := tbl_delete (\<lambda>r. us_app_id r = a_ID a) (app_usage_tbl d),
      app_collaborator_tbl := tbl_delete (\<lambda>g. g_app_id g = a_ID a) (app_collaborator_tbl d),
      pending_viewer_tbl := tbl_delete (\<lambda>g. g_app_id g = a_ID a) (pending_viewer_tbl d),
      app_viewer_tbl := tbl_delete (\<lambda>g. g_app_id g = a_ID a) (app_viewer_tbl d),
      app_connection_tbl := tbl_delete (\<lambda>g. g_app_id g = a_ID a) (app_connection_tbl d),
      app_assistant_tbl := tbl_delete (\<lambda>r. am_app_id r = a_ID a) (app_assistant_tbl d),
      token_tbl := tbl_delete (\<lambda>r. sel (tk_app_id r) (tk_AppName r)) (token_tbl d)\<rparr>)"
  using assms by (simp add: RemoveApp_def Let_def RemoveTokensByApp_def)

lemma attached_drop:
  assumes "RemoveApp d n = Inr d'" "Store_App d n = Inr a"
  shows "attached d' (a_ID a) = no_data"
  using assms(1) unfolding RemoveApp_tables[OF assms(2)]
  by (auto simp: Let_def attached_def no_data_def filter_sel_same filter_id_same)

lemma attached_keep:
  assumes "RemoveApp d n = Inr d'" "Store_App d n = Inr a" "i \<noteq> a_ID a" "i \<noteq> []"
  shows "attached d' i = attached d i"
  using assms(1) unfolding RemoveApp_tables[OF assms(2)]
  by (auto simp: Let_def attached_def filter_sel_other filter_id_other assms(3,4))

lemma RemoveApp_apps:
  assumes "RemoveApp d n = Inr d'"
  shows "app_tbl d' = tbl_delete (\<lambda>a. a_Name a = n) (app_tbl d)"
  using assms by (auto simp: RemoveApp_def Let_def RemoveTokensByApp_def split: sum.splits)

text \<open>Deleting an app removes its id, with everything attached to it, from the registry, and nothing else.\<close>

lemma RemoveApp_refines:
  assumes "db_unique d" "Store_App d n = Inr a" "a_ID a \<noteq> ''''" "RemoveApp d n = Inr d'"
  shows "abs_registry d' = (abs_registry d)(a_ID a := None)"
proof
  fix i
  have u: "db_unique d'" using RemoveApp_unique[OF assms(4,1)] .
  have a: "a \<in> set (app_tbl d)" "a_Name a = n" using assms(1,2) by (auto simp: Store_App_Inr)
  show "abs_registry d' i = ((abs_registry d)(a_ID a := None)) i"
  proof (cases "i = a_ID a")
    case True
    have "b = a" if "b \<in> set (app_tbl d)" "a_ID b = a_ID a" for b
      using same_app_id[OF assms(1) that(1) a(1)] that(2) assms(3) by simp
    then show ?thesis
      using True a(2) assms(3) by (auto simp: abs_registry_None[OF u] RemoveApp_apps[OF assms(4)])
  next
    case False
    have "abs_registry d' i = abs_registry d i"
    proof (cases "i = ''''")
      case True
      then show ?thesis by (simp add: abs_registry_def)
    next
      case i: False
      show ?thesis
      proof (rule abs_registry_eqI[OF assms(1) u])
        fix b :: App assume b: "a_ID b = i"
        have "a_Name b \<noteq> n" if "b \<in> set (app_tbl d)"
          using same_name[OF assms(1) a(1) that] a(2) b False by blast
        then show "b \<in> set (app_tbl d') \<longleftrightarrow> b \<in> set (app_tbl d)"
          by (auto simp: RemoveApp_apps[OF assms(4)])
      qed (rule attached_keep[OF assms(4,2) False i])
    qed
    with False show ?thesis by simp
  qed
qed

section \<open>Renaming an app\<close>

lemma RenameApp_tables:
  assumes "RenameApp d n m = Inr d'"
  shows "app_tbl d' = tbl_update (\<lambda>a. a_Name a = n) (\<lambda>a. a\<lparr>a_Name := m\<rparr>) (app_tbl d)"
    and "\<exists>P A. d' = d\<lparr>app_tbl := A,
               assistant_session_tbl := tbl_update P (\<lambda>s. s\<lparr>as_app_name := m\<rparr>) (assistant_session_tbl d)\<rparr>"
    and "\<exists>a \<in> set (app_tbl d). a_Name a = n"
  using assms by (auto simp: RenameApp_def Let_def tbl_update_checked_Inr split: sum.splits if_splits)

lemma filter_map_update_mirror:
  "map as_transcript (filter (\<lambda>r. as_app_id r = i) (tbl_update P (\<lambda>s. s\<lparr>as_app_name := m\<rparr>) t)) =
   map as_transcript (filter (\<lambda>r. as_app_id r = i) t)"
  by (induction t) (auto simp: tbl_update_def)

lemma RenameApp_attached:
  assumes "RenameApp d n m = Inr d'"
  shows "attached d' i = attached d i"
proof -
  obtain P A where "d' = d\<lparr>app_tbl := A,
      assistant_session_tbl := tbl_update P (\<lambda>s. s\<lparr>as_app_name := m\<rparr>) (assistant_session_tbl d)\<rparr>"
    using RenameApp_tables(2)[OF assms] by blast
  then show ?thesis by (simp add: attached_def filter_map_update_mirror)
qed

lemma tbl_update_mem:
  "\<forall>b \<in> set t. P b \<longleftrightarrow> b = a \<Longrightarrow> a \<in> set t \<Longrightarrow>
   x \<in> set (tbl_update P f t) \<longleftrightarrow> x = f a \<or> (x \<in> set t \<and> x \<noteq> a)"
  by (auto simp: tbl_update_def)

lemma RenameApp_refines:
  assumes "db_unique d" "Store_App d n = Inr a" "a_ID a \<noteq> ''''" "RenameApp d n m = Inr d'"
  shows "abs_registry d' = (abs_registry d)(a_ID a \<mapsto> (a\<lparr>a_Name := m\<rparr>, attached d (a_ID a)))"
proof
  fix i
  have u: "db_unique d'" using RenameApp_unique[OF assms(4,1)] .
  have a: "a \<in> set (app_tbl d)" "a_Name a = n" using assms(1,2) by (auto simp: Store_App_Inr)
  have mem: "x \<in> set (app_tbl d') \<longleftrightarrow> x = a\<lparr>a_Name := m\<rparr> \<or> (x \<in> set (app_tbl d) \<and> x \<noteq> a)" for x
    unfolding RenameApp_tables(1)[OF assms(4)]
    using a name_eq_iff[OF assms(1) a(1)] by (intro tbl_update_mem) auto
  show "abs_registry d' i = ((abs_registry d)(a_ID a \<mapsto> (a\<lparr>a_Name := m\<rparr>, attached d (a_ID a)))) i"
  proof (cases "i = a_ID a")
    case True
    have "abs_registry d' i = Some (a\<lparr>a_Name := m\<rparr>, attached d' i)"
      using True assms(3) by (simp add: abs_registry_Some[OF u] mem)
    with True show ?thesis by (simp add: RenameApp_attached[OF assms(4)])
  next
    case False
    have "abs_registry d' i = abs_registry d i"
      by (rule abs_registry_eqI[OF assms(1) u])
         (use False in \<open>auto simp: mem RenameApp_attached[OF assms(4)]\<close>)
    with False show ?thesis by simp
  qed
qed

text \<open>When a rename is refused: an unknown app, a name another app has, or a stale transcript row that
  still carries the new name. Otherwise it succeeds.\<close>

lemma RenameApp_fails:
  assumes "RenameApp d n m = Inl e"
  shows "e \<in> {ErrAppNotFound, ErrAppNameTaken, SqlUnique}"
  using assms by (auto simp: RenameApp_def Let_def tbl_update_checked_Inl split: sum.splits if_splits)

lemma RenameApp_not_found:
  assumes "db_unique d" "\<forall>a \<in> set (app_tbl d). a_Name a \<noteq> n"
  shows "RenameApp d n m = Inl ErrAppNotFound"
proof -
  have "tbl_update (\<lambda>a. a_Name a = n) (\<lambda>a. a\<lparr>a_Name := m\<rparr>) (app_tbl d) = app_tbl d"
    using assms(2) by (auto simp: tbl_update_def intro: map_idI)
  with assms db_uniqueD(1)[OF assms(1)] show ?thesis
    by (simp add: RenameApp_def tbl_update_checked_def)
qed

lemma RenameApp_taken:
  assumes "a \<in> set (app_tbl d)" "a_Name a = n" "b \<in> set (app_tbl d)" "a_Name b = m" "n \<noteq> m"
  shows "RenameApp d n m = Inl ErrAppNameTaken"
proof -
  let ?t = "tbl_update (\<lambda>a. a_Name a = n) (\<lambda>a. a\<lparr>a_Name := m\<rparr>) (app_tbl d)"
  obtain i j where ij: "i < length (app_tbl d)" "app_tbl d ! i = a" "j < length (app_tbl d)" "app_tbl d ! j = b"
    using assms(1,3) by (metis in_set_conv_nth)
  have "i \<noteq> j" using ij assms by auto
  moreover have "length ?t = length (app_tbl d)" "a_Name (?t ! i) = m" "a_Name (?t ! j) = m"
    using ij assms by (simp_all add: tbl_update_def)
  ultimately have "\<not> distinct (map a_Name ?t)"
    using ij(1,3) nth_eq_iff_index_eq[of "map a_Name ?t" i j] by auto
  then have "\<not> tbl_unique app_conflict ?t"
    using tbl_unique_distinct[of app_conflict ?t a_Name] by (auto simp: app_conflict_def)
  then show ?thesis by (simp add: RenameApp_def tbl_update_checked_def)
qed

section \<open>Changing the owner\<close>

lemma SetAppOwner_attached:
  assumes "db_unique d" "Store_App d n = Inr a" "a_ID a \<noteq> ''''"
  shows "attached (SetAppOwner d n u) i = (if i = a_ID a then (attached d i)\<lparr>v_connections := []\<rparr> else attached d i)"
proof -
  have "app_id_of d n = Some (a_ID a)"
    using assms by (auto simp: app_id_of_iff Store_App_Inr)
  then show ?thesis
    by (auto simp: SetAppOwner_def Let_def upd_app_def attached_def filter_id_same filter_id_other)
qed

lemma SetAppOwner_refines:
  assumes "db_unique d" "Store_App d n = Inr a" "a_ID a \<noteq> ''''"
  shows "abs_registry (SetAppOwner d n u) =
           (abs_registry d)(a_ID a \<mapsto> (a\<lparr>a_OwnerID := u\<rparr>, (attached d (a_ID a))\<lparr>v_connections := []\<rparr>))"
proof
  fix i
  have un: "db_unique (SetAppOwner d n u)" using assms(1) by (rule app_setters_unique)
  have a: "a \<in> set (app_tbl d)" "a_Name a = n" using assms(1,2) by (auto simp: Store_App_Inr)
  have t: "app_tbl (SetAppOwner d n u) = tbl_update (\<lambda>a. a_Name a = n) (\<lambda>a. a\<lparr>a_OwnerID := u\<rparr>) (app_tbl d)"
    by (simp add: SetAppOwner_def Let_def upd_app_def)
  have mem: "x \<in> set (app_tbl (SetAppOwner d n u)) \<longleftrightarrow> x = a\<lparr>a_OwnerID := u\<rparr> \<or> (x \<in> set (app_tbl d) \<and> x \<noteq> a)" for x
    unfolding t using a name_eq_iff[OF assms(1) a(1)] by (intro tbl_update_mem) auto
  show "abs_registry (SetAppOwner d n u) i =
      ((abs_registry d)(a_ID a \<mapsto> (a\<lparr>a_OwnerID := u\<rparr>, (attached d (a_ID a))\<lparr>v_connections := []\<rparr>))) i"
  proof (cases "i = a_ID a")
    case True
    then have "abs_registry (SetAppOwner d n u) i = Some (a\<lparr>a_OwnerID := u\<rparr>, attached (SetAppOwner d n u) i)"
      using assms(3) by (simp add: abs_registry_Some[OF un] mem)
    with True show ?thesis by (simp add: SetAppOwner_attached[OF assms])
  next
    case False
    have "abs_registry (SetAppOwner d n u) i = abs_registry d i"
      by (rule abs_registry_eqI[OF assms(1) un])
         (use False in \<open>auto simp: mem SetAppOwner_attached[OF assms]\<close>)
    with False show ?thesis by simp
  qed
qed

section \<open>Properties\<close>

text \<open>C7: deleting, renaming and re-owning an app, on the abstract registry (stable id to row and attached data). Deleting always succeeds
  and takes exactly this app's id away, leaving nothing attached to it in any table; a rename that succeeds changes the name and
  nothing else; a new owner replaces the old one and cuts the app's connections. No other app's row or data moves.\<close>

theorem app_operations_refine:
  assumes "db_unique d" and "Store_App d n = Inr a" and "a_ID a \<noteq> ''''"
  shows "(\<exists>d'. RemoveApp d n = Inr d' \<and> abs_registry d' = (abs_registry d)(a_ID a := None) \<and> attached d' (a_ID a) = no_data)
    \<and> (\<forall>m d'. RenameApp d n m = Inr d' \<longrightarrow>
          abs_registry d' = (abs_registry d)(a_ID a \<mapsto> (a\<lparr>a_Name := m\<rparr>, attached d (a_ID a))))
    \<and> (\<forall>u. abs_registry (SetAppOwner d n u) =
          (abs_registry d)(a_ID a \<mapsto> (a\<lparr>a_OwnerID := u\<rparr>, (attached d (a_ID a))\<lparr>v_connections := []\<rparr>)))"
proof (intro conjI allI impI)
  obtain d' where d': "RemoveApp d n = Inr d'" using RemoveApp_tables[OF assms(2)] by blast
  show "\<exists>d'. RemoveApp d n = Inr d' \<and> abs_registry d' = (abs_registry d)(a_ID a := None) \<and> attached d' (a_ID a) = no_data"
    using RemoveApp_refines[OF assms d'] attached_drop[OF d' assms(2)] d' by blast
next
  fix m d' assume "RenameApp d n m = Inr d'"
  with assms show "abs_registry d' = (abs_registry d)(a_ID a \<mapsto> (a\<lparr>a_Name := m\<rparr>, attached d (a_ID a)))"
    by (rule RenameApp_refines)
next
  fix u
  show "abs_registry (SetAppOwner d n u) =
      (abs_registry d)(a_ID a \<mapsto> (a\<lparr>a_OwnerID := u\<rparr>, (attached d (a_ID a))\<lparr>v_connections := []\<rparr>))"
    using assms by (rule SetAppOwner_refines)
qed

theorem app_operations_refine_witness:
  "\<exists>d'. RemoveApp small_db ''blog'' = Inr d' \<and> abs_registry d' ''app_1'' = None \<and> attached d' ''app_1'' = no_data"
proof -
  have "Store_App small_db ''blog'' = Inr (plain_app\<lparr>a_Private := True\<rparr>)"
    by (simp add: Store_App_def small_db_def sample_defs tbl_find_def)
  from app_operations_refine[OF small_db_unique this] obtain d' where "RemoveApp small_db ''blog'' = Inr d'"
      "abs_registry d' = (abs_registry small_db)(''app_1'' := None)" "attached d' ''app_1'' = no_data"
    by (auto simp: sample_defs)
  then show ?thesis by simp
qed

end
