(* ===== verification/User_Manager.thy ===== *)
theory User_Manager
  imports App_Attachments
begin

text \<open>
  People (\<open>control/user/service.go\<close>, \<open>control/user/providers.go\<close>): sign-in with its approval workflow,
  invitations, allowed email domains, effective limits and their defaults, API tokens and profile keys.
  The SHA-256 hash of a token is a parameter (\<open>hash\<close>), the SSH key parser is a parameter (\<open>parse_key\<close>), and the
  random bytes of a token and of an id are arguments.
\<close>

section \<open>Sign-in\<close>

text \<open>\<open>adminEmails\<close> over the configured \<open>AdminEmails\<close>.\<close>

definition adminEmails :: "string list \<Rightarrow> string list" where
  "adminEmails AdminEmails = map (\<lambda>e. ToLower (TrimSpace e)) AdminEmails"

text \<open>\<open>email[at+1:]\<close> with \<open>at = strings.LastIndex(email, "@")\<close>.\<close>

definition after_last_at :: "string \<Rightarrow> string option" where
  "after_last_at email =
     (if CHR ''@'' \<in> set email then Some (last (split_on (CHR ''@'') email)) else None)"

definition emailDomainAllowed :: "db \<Rightarrow> string \<Rightarrow> bool" where
  "emailDomainAllowed d email = (case after_last_at email of None \<Rightarrow> False | Some dm \<Rightarrow> DomainAllowed d dm)"

definition new_user :: "string \<Rightarrow> string \<Rightarrow> string \<Rightarrow> string \<Rightarrow> User" where
  "new_user email name role status =
     \<lparr>u_ID = '''', u_Email = email, u_Name = name, u_Role = role, u_Status = status, u_AppLimit = None,
      u_MemoryMB = None, u_DiskMB = None, u_MemoryPoolMB = None, u_DiskPoolMB = None, u_CreatedAt = None,
      u_TechLevel = '''', u_AssistantPrompt = '''', u_DefaultTabs = '''', u_Onboarded = False\<rparr>"

definition Login :: "string list \<Rightarrow> int \<Rightarrow> string \<Rightarrow> db \<Rightarrow> string \<Rightarrow> string \<Rightarrow> (db \<times> User) res" where
  "Login AdminEmails now rid d email0 name =
     (let email = ToLower (TrimSpace email0)
      in if email = '''' then Inl ErrInvalid
         else
           let isAdminEmail = (email \<in> set (adminEmails AdminEmails));
               allowed = emailDomainAllowed d email
           in case UserByEmail d email of
                Inl _ \<Rightarrow>
                  let u1 = new_user email name RoleUser (if allowed then StatusActive else StatusPending);
                      u2 = (if isAdminEmail then u1\<lparr>u_Role := RoleAdmin, u_Status := StatusActive\<rparr> else u1)
                  in AddUser now rid d u2
              | Inr u \<Rightarrow>
                  let u1 = (if name \<noteq> '''' then u\<lparr>u_Name := name\<rparr> else u);
                      u2 = (if allowed \<and> u_Status u1 = StatusPending then u1\<lparr>u_Status := StatusActive\<rparr> else u1);
                      u3 = (if isAdminEmail then u2\<lparr>u_Role := RoleAdmin, u_Status := StatusActive\<rparr> else u2)
                  in case UpdateUser d u3 of Inl e \<Rightarrow> Inl e | Inr d' \<Rightarrow> Inr (d', u3))"

section \<open>Email addresses and domains\<close>

text \<open>The two regular expressions. \<open>[a-z0-9]([a-z0-9-]*[a-z0-9])?\<close> is a non-empty run of letters, digits and
  dashes that neither starts nor ends with a dash; \<open>domainRe\<close> is two or more of them joined by dots; and
  \<open>emailRe\<close> is a non-empty part without \<open>@\<close> and white space, an \<open>@\<close> and such a domain.\<close>

definition is_alnum :: "char \<Rightarrow> bool" where
  "is_alnum c = (let n = of_char c :: nat in (97 \<le> n \<and> n \<le> 122) \<or> (48 \<le> n \<and> n \<le> 57))"

definition is_label :: "string \<Rightarrow> bool" where
  "is_label s \<longleftrightarrow> s \<noteq> [] \<and> list_all (\<lambda>c. is_alnum c \<or> c = CHR ''-'') s \<and> is_alnum (hd s) \<and> is_alnum (last s)"

definition domainRe :: "string \<Rightarrow> bool" where
  "domainRe s \<longleftrightarrow> (let parts = split_on (CHR ''.'') s in 2 \<le> length parts \<and> list_all is_label parts)"

definition emailRe :: "string \<Rightarrow> bool" where
  "emailRe s \<longleftrightarrow>
     (case split_on (CHR ''@'') s of
        [l, dm] \<Rightarrow> l \<noteq> [] \<and> list_all (\<lambda>c. c \<notin> {CHR 0x09, CHR 0x0A, CHR 0x0C, CHR 0x0D, CHR '' ''}) l \<and> domainRe dm
      | _ \<Rightarrow> False)"

definition Invite :: "int \<Rightarrow> string \<Rightarrow> db \<Rightarrow> string \<Rightarrow> string \<Rightarrow> (db \<times> User) res" where
  "Invite now rid d email0 role =
     (let email = ToLower (TrimSpace email0)
      in if \<not> emailRe email then Inl ErrInvalid
         else if role \<noteq> RoleAdmin \<and> role \<noteq> RoleUser then Inl ErrInvalid
         else case UserByEmail d email of
                Inr _ \<Rightarrow> Inl ErrInvalid
              | Inl _ \<Rightarrow> AddUser now rid d (new_user email '''' role StatusActive))"

definition normalizeDomain :: "string \<Rightarrow> string res" where
  "normalizeDomain s0 =
     (let s = TrimPrefix (TrimPrefix (ToLower (TrimSpace s0)) ''*'') ''@''
      in if domainRe s then Inr s else Inl ErrInvalid)"

definition publicMailProviders :: "string list" where
  "publicMailProviders =
    [''gmail.com'', ''googlemail.com'', ''hotmail.com'', ''hotmail.co.uk'', ''hotmail.fr'',
     ''hotmail.de'', ''hotmail.it'', ''outlook.com'', ''outlook.de'', ''live.com'', ''live.co.uk'',
     ''live.nl'', ''msn.com'', ''passport.com'', ''icloud.com'', ''me.com'', ''mac.com'',
     ''yahoo.com'', ''yahoo.co.uk'', ''yahoo.co.jp'', ''yahoo.de'', ''yahoo.fr'', ''yahoo.in'',
     ''ymail.com'', ''rocketmail.com'', ''aol.com'', ''aim.com'', ''verizon.net'', ''att.net'',
     ''comcast.net'', ''sbcglobal.net'', ''bellsouth.net'', ''cox.net'', ''charter.net'',
     ''earthlink.net'', ''juno.com'', ''optonline.net'', ''frontier.com'', ''windstream.net'',
     ''proton.me'', ''protonmail.com'', ''protonmail.ch'', ''pm.me'', ''tutanota.com'',
     ''tutanota.de'', ''tuta.io'', ''tuta.com'', ''fastmail.com'', ''fastmail.fm'', ''hushmail.com'',
     ''zoho.com'', ''zohomail.com'', ''mailfence.com'', ''posteo.de'', ''mailbox.org'', ''runbox.com'',
     ''startmail.com'', ''gmx.com'', ''gmx.de'', ''gmx.net'', ''gmx.at'', ''gmx.ch'', ''web.de'',
     ''t-online.de'', ''freenet.de'', ''arcor.de'', ''orange.fr'', ''wanadoo.fr'', ''free.fr'',
     ''laposte.net'', ''sfr.fr'', ''libero.it'', ''virgilio.it'', ''tiscali.it'', ''alice.it'',
     ''terra.com.br'', ''uol.com.br'', ''bol.com.br'', ''seznam.cz'', ''centrum.cz'', ''wp.pl'',
     ''onet.pl'', ''o2.pl'', ''interia.pl'', ''telenet.be'', ''ziggo.nl'', ''kpnmail.nl'',
     ''bluewin.ch'', ''btinternet.com'', ''virginmedia.com'', ''sky.com'', ''talktalk.net'',
     ''blueyonder.co.uk'', ''ntlworld.com'', ''mail.ru'', ''inbox.ru'', ''bk.ru'', ''list.ru'',
     ''internet.ru'', ''yandex.ru'', ''yandex.com'', ''ya.ru'', ''rambler.ru'', ''qq.com'',
     ''foxmail.com'', ''163.com'', ''126.com'', ''sina.com'', ''sina.cn'', ''sohu.com'',
     ''aliyun.com'', ''naver.com'', ''hanmail.net'', ''daum.net'', ''nate.com'', ''docomo.ne.jp'',
     ''ezweb.ne.jp'', ''softbank.ne.jp'', ''rediffmail.com'', ''sify.com'', ''mailinator.com'',
     ''guerrillamail.com'', ''10minutemail.com'', ''yopmail.com'', ''temp-mail.org'',
     ''trashmail.com'', ''getnada.com'', ''sharklasers.com'', ''dispostable.com'', ''maildrop.cc'',
     ''throwawaymail.com'', ''tempmail.com'', ''mailnesia.com'', ''spamgourmet.com'',
     ''emailondeck.com'']"

definition AllowDomain :: "int \<Rightarrow> db \<Rightarrow> string \<Rightarrow> (db \<times> AllowedDomain) res" where
  "AllowDomain now d s =
     (case normalizeDomain s of
        Inl e \<Rightarrow> Inl e
      | Inr dm \<Rightarrow>
          if dm \<in> set publicMailProviders then Inl ErrInvalid
          else Inr (AddAllowedDomain now d \<lparr>ad_Domain = dm, ad_CreatedAt = None\<rparr>))"

definition DisallowDomain :: "db \<Rightarrow> string \<Rightarrow> db res" where
  "DisallowDomain d s = (case normalizeDomain s of Inl e \<Rightarrow> Inl e | Inr dm \<Rightarrow> RemoveAllowedDomain d dm)"

section \<open>Limits\<close>

record Limits =
  l_AppLimit :: int
  l_MemoryMB :: int
  l_DiskMB :: int
  l_MemoryPoolMB :: int
  l_DiskPoolMB :: int

definition EffectiveAppLimits :: "Limits \<Rightarrow> int \<Rightarrow> int \<Rightarrow> int \<Rightarrow> int \<times> int \<times> int" where
  "EffectiveAppLimits l memoryLimitMB diskLimitMB cpuMilli =
     (if memoryLimitMB > 0 then memoryLimitMB else l_MemoryMB l,
      if diskLimitMB > 0 then diskLimitMB else l_DiskMB l,
      cpuMilli)"

definition settingInt :: "(string \<rightharpoonup> string) \<Rightarrow> string \<Rightarrow> int \<Rightarrow> int" where
  "settingInt settings key fallback =
     (case settings key of
        Some v \<Rightarrow> (case parse_int v of Some i \<Rightarrow> i | None \<Rightarrow> fallback)
      | None \<Rightarrow> fallback)"

definition positiveOr :: "int \<Rightarrow> int \<Rightarrow> int" where
  "positiveOr value fallback = (if value > 0 then value else fallback)"

definition Defaults :: "db \<Rightarrow> Limits" where
  "Defaults d =
     (let settings = Settings d
      in \<lparr>l_AppLimit = settingInt settings ''default_app_limit'' 3,
          l_MemoryMB = settingInt settings ''default_memory_mb'' 128,
          l_DiskMB = settingInt settings ''default_disk_mb'' 256,
          l_MemoryPoolMB = positiveOr (settingInt settings ''default_memory_pool_mb'' 0) 1024,
          l_DiskPoolMB = positiveOr (settingInt settings ''default_disk_pool_mb'' 0) 4096\<rparr>)"

definition SetDefaults :: "db \<Rightarrow> Limits \<Rightarrow> db res" where
  "SetDefaults d l =
     (if l_AppLimit l < 0 \<or> l_MemoryMB l < 0 \<or> l_DiskMB l < 0 \<or> l_MemoryPoolMB l < 0 \<or> l_DiskPoolMB l < 0
      then Inl ErrInvalid
      else
        let d1 = SetSetting d ''default_app_limit'' (itoa (l_AppLimit l));
            d2 = SetSetting d1 ''default_memory_mb'' (itoa (l_MemoryMB l));
            d3 = SetSetting d2 ''default_disk_mb'' (itoa (l_DiskMB l));
            d4 = SetSetting d3 ''default_memory_pool_mb'' (itoa (l_MemoryPoolMB l))
        in Inr (SetSetting d4 ''default_disk_pool_mb'' (itoa (l_DiskPoolMB l))))"

definition or_default :: "int option \<Rightarrow> int \<Rightarrow> int" where
  "or_default v dflt = (case v of Some i \<Rightarrow> i | None \<Rightarrow> dflt)"

definition User_Limits :: "db \<Rightarrow> User \<Rightarrow> Limits" where
  "User_Limits d u =
     (let l0 = Defaults d;
          l1 = \<lparr>l_AppLimit = or_default (u_AppLimit u) (l_AppLimit l0),
                l_MemoryMB = or_default (u_MemoryMB u) (l_MemoryMB l0),
                l_DiskMB = or_default (u_DiskMB u) (l_DiskMB l0),
                l_MemoryPoolMB = or_default (u_MemoryPoolMB u) (l_MemoryPoolMB l0),
                l_DiskPoolMB = or_default (u_DiskPoolMB u) (l_DiskPoolMB l0)\<rparr>
      in if u_Role u = RoleViewer then l1\<lparr>l_AppLimit := 0\<rparr> else l1)"

section \<open>Tokens\<close>

text \<open>\<open>bytes\<close> is the hex encoding of the 24 random bytes, \<open>rid\<close> the random part of the row id.\<close>

definition CreateAppToken ::
  "(string \<Rightarrow> string) \<Rightarrow> int \<Rightarrow> string \<Rightarrow> string \<Rightarrow> db \<Rightarrow> string \<Rightarrow> string \<Rightarrow> string \<Rightarrow> (db \<times> string \<times> Token) res" where
  "CreateAppToken hash now rid bytes d userID appName label =
     (let token = ''hostit_'' @ bytes;
          tk = \<lparr>tk_ID = '''', tk_UserID = userID, tk_Hash = hash token, tk_Prefix = take 13 token,
                tk_Label = label, tk_AppName = appName, tk_Secret = (if appName \<noteq> '''' then token else ''''),
                tk_CreatedAt = None, tk_LastUsed = None\<rparr>
      in case AddToken now rid d tk of
           Inl e \<Rightarrow> Inl e
         | Inr (d', tk') \<Rightarrow> Inr (d', token, tk'))"

definition CreateToken ::
  "(string \<Rightarrow> string) \<Rightarrow> int \<Rightarrow> string \<Rightarrow> string \<Rightarrow> db \<Rightarrow> string \<Rightarrow> string \<Rightarrow> (db \<times> string \<times> Token) res" where
  "CreateToken hash now rid bytes d userID label = CreateAppToken hash now rid bytes d userID '''' label"

definition UserAndScopeByToken ::
  "(string \<Rightarrow> string) \<Rightarrow> int \<Rightarrow> db \<Rightarrow> string \<Rightarrow> (db \<times> User option \<times> string) res" where
  "UserAndScopeByToken hash now d token =
     (case TokenByHash d (hash token) of
        Inl e \<Rightarrow> Inl e
      | Inr tk \<Rightarrow>
          if tk_UserID tk = '''' then Inr (d, None, tk_AppName tk)
          else case Store_User d (tk_UserID tk) of
                 Inl e \<Rightarrow> Inl e
               | Inr u \<Rightarrow>
                   if u_Status u \<noteq> StatusActive then Inl ErrNotActive
                   else Inr (TouchToken now d (tk_ID tk), Some u, tk_AppName tk))"

definition AppToken ::
  "(string \<Rightarrow> string) \<Rightarrow> int \<Rightarrow> string \<Rightarrow> string \<Rightarrow> db \<Rightarrow> string \<Rightarrow> string \<Rightarrow> (db \<times> string) res" where
  "AppToken hash now rid bytes d userID appName =
     (case List.find (\<lambda>tk. tk_Secret tk \<noteq> '''') (TokensByApp d appName) of
        Some tk \<Rightarrow> Inr (d, tk_Secret tk)
      | None \<Rightarrow>
          (case CreateAppToken hash now rid bytes d userID appName ''agent'' of
             Inl e \<Rightarrow> Inl e
           | Inr (d', token, _) \<Rightarrow> Inr (d', token)))"

text \<open>The loop of \<open>RotateAppToken\<close>, which stops at the first error.\<close>

fun remove_tokens :: "Token list \<Rightarrow> db \<Rightarrow> db \<times> unit res" where
  "remove_tokens [] d = (d, Inr ())"
| "remove_tokens (tk # tks) d =
     (case RemoveToken d (tk_UserID tk) (tk_ID tk) of Inl e \<Rightarrow> (d, Inl e) | Inr d' \<Rightarrow> remove_tokens tks d')"

definition RotateAppToken ::
  "(string \<Rightarrow> string) \<Rightarrow> int \<Rightarrow> string \<Rightarrow> string \<Rightarrow> db \<Rightarrow> string \<Rightarrow> string \<Rightarrow> db \<times> string res" where
  "RotateAppToken hash now rid bytes d userID appName =
     (case remove_tokens (TokensByApp d appName) d of
        (d1, Inl e) \<Rightarrow> (d1, Inl e)
      | (d1, Inr _) \<Rightarrow>
          (case CreateAppToken hash now rid bytes d1 userID appName ''agent'' of
             Inl e \<Rightarrow> (d1, Inl e)
           | Inr (d', token, _) \<Rightarrow> (d', Inr token)))"

section \<open>Profile keys\<close>

text \<open>\<open>parse_key\<close> is \<open>ssh.ParseAuthorizedKey\<close>: \<open>None\<close> for an error, otherwise the unparsed rest.\<close>

definition AddKey ::
  "(string \<Rightarrow> string option) \<Rightarrow> int \<Rightarrow> string \<Rightarrow> db \<Rightarrow> string \<Rightarrow> string \<Rightarrow> string \<Rightarrow> (db \<times> UserKey) res" where
  "AddKey parse_key now rid d userID label key0 =
     (let key = TrimSpace key0
      in if CHR 0x0A \<in> set key \<or> CHR 0x0D \<in> set key then Inl ErrInvalid
         else if (case parse_key key of None \<Rightarrow> True | Some rest \<Rightarrow> TrimSpace rest \<noteq> '''') then Inl ErrInvalid
         else AddUserKey now rid d
                \<lparr>k_ID = '''', k_UserID = userID, k_Label = (if label = '''' then ''key'' else label),
                 k_Key = key, k_CreatedAt = None\<rparr>)"

definition KeyStrings :: "db \<Rightarrow> string \<Rightarrow> string list" where
  "KeyStrings d userID = map k_Key (UserKeys d userID)"

definition RenameKey :: "db \<Rightarrow> string \<Rightarrow> string \<Rightarrow> string \<Rightarrow> db res" where
  "RenameKey d userID i label0 =
     (let label = TrimSpace label0 in if label = '''' then Inl ErrInvalid else RenameUserKey d userID i label)"

section \<open>Sign-in: what a login may change\<close>

lemma find_user_by_id:
  assumes "db_unique d"
  shows "tbl_find (\<lambda>u. u_ID u = i) (user_tbl d) = Some u \<longleftrightarrow> u \<in> set (user_tbl d) \<and> u_ID u = i"
  using db_uniqueD(2)[OF assms] by (rule tbl_unique_find) (simp add: user_conflict_def)

lemma find_user_by_email:
  assumes "db_unique d"
  shows "tbl_find (\<lambda>u. u_Email u = e) (user_tbl d) = Some u \<longleftrightarrow> u \<in> set (user_tbl d) \<and> u_Email u = e"
  using db_uniqueD(2)[OF assms] by (rule tbl_unique_find) (simp add: user_conflict_def)

lemma Store_User_Inr:
  "db_unique d \<Longrightarrow> Store_User d i = Inr u \<longleftrightarrow> u \<in> set (user_tbl d) \<and> u_ID u = i"
  using find_user_by_id[of d i u] by (auto simp: Store_User_def split: option.splits)

lemma UserByEmail_Inr:
  "db_unique d \<Longrightarrow> UserByEmail d e = Inr u \<longleftrightarrow> u \<in> set (user_tbl d) \<and> u_Email u = e"
  using find_user_by_email[of d e u] by (auto simp: UserByEmail_def split: option.splits)

lemma UserByEmail_Inl: "UserByEmail d e = Inl x \<longleftrightarrow> (\<forall>u \<in> set (user_tbl d). u_Email u \<noteq> e) \<and> x = ErrUserNotFound"
  by (auto simp: UserByEmail_def tbl_find_None split: option.splits dest!: tbl_find_Some)

lemma user_id_eq_iff:
  "db_unique d \<Longrightarrow> u \<in> set (user_tbl d) \<Longrightarrow> v \<in> set (user_tbl d) \<Longrightarrow> u_ID v = u_ID u \<longleftrightarrow> v = u"
  using tbl_unique_same[OF db_uniqueD(2), of d u_ID v u] by (auto simp: user_conflict_def)

text \<open>Updating a row that was just read writes that row back, with the admin-owned columns replaced.\<close>

lemma UpdateUser_row:
  assumes "db_unique d" "u \<in> set (user_tbl d)"
    and "u_ID v = u_ID u" "u_Email v = u_Email u" "u_CreatedAt v = u_CreatedAt u" "u_TechLevel v = u_TechLevel u"
    and "u_AssistantPrompt v = u_AssistantPrompt u" "u_DefaultTabs v = u_DefaultTabs u" "u_Onboarded v = u_Onboarded u"
  obtains d' where "UpdateUser d v = Inr d'" "\<And>x. x \<in> set (user_tbl d') \<longleftrightarrow> x = v \<or> (x \<in> set (user_tbl d) \<and> x \<noteq> u)"
    "d' = d\<lparr>user_tbl := user_tbl d'\<rparr>"
proof -
  let ?f = "\<lambda>r. r\<lparr>u_Name := u_Name v, u_Role := u_Role v, u_Status := u_Status v, u_AppLimit := u_AppLimit v,
      u_MemoryMB := u_MemoryMB v, u_DiskMB := u_DiskMB v, u_MemoryPoolMB := u_MemoryPoolMB v, u_DiskPoolMB := u_DiskPoolMB v\<rparr>"
  let ?t = "tbl_update (\<lambda>r. u_ID r = u_ID v) ?f (user_tbl d)"
  have "?f u = v" using assms(3-) by (intro User.equality) simp_all
  moreover have "x \<in> set ?t \<longleftrightarrow> x = ?f u \<or> (x \<in> set (user_tbl d) \<and> x \<noteq> u)" for x
    using assms(2,3) user_id_eq_iff[OF assms(1,2)] by (intro tbl_update_mem) auto
  moreover have "UpdateUser d v = Inr (d\<lparr>user_tbl := ?t\<rparr>)"
    using assms(2,3) by (auto simp: UpdateUser_def Let_def checkAffected_def)
  ultimately show ?thesis using that[of "d\<lparr>user_tbl := ?t\<rparr>"] by simp
qed

lemma Login_existing_user:
  assumes "db_unique d" "UserByEmail d (ToLower (TrimSpace email)) = Inr u" "ToLower (TrimSpace email) \<noteq> ''''"
  obtains d' u' where "Login admins now rid d email name = Inr (d', u')"
    "u_Status u' = (if ToLower (TrimSpace email) \<in> set (adminEmails admins) \<or>
                       (emailDomainAllowed d (ToLower (TrimSpace email)) \<and> u_Status u = StatusPending)
                    then StatusActive else u_Status u)"
    "u_Role u' = (if ToLower (TrimSpace email) \<in> set (adminEmails admins) then RoleAdmin else u_Role u)"
    "u_ID u' = u_ID u"
    "\<And>x. x \<in> set (user_tbl d') \<longleftrightarrow> x = u' \<or> (x \<in> set (user_tbl d) \<and> x \<noteq> u)"
    "d' = d\<lparr>user_tbl := user_tbl d'\<rparr>"
proof -
  let ?e = "ToLower (TrimSpace email)"
  let ?adm = "?e \<in> set (adminEmails admins)" and ?al = "emailDomainAllowed d ?e"
  let ?u1 = "if name \<noteq> '''' then u\<lparr>u_Name := name\<rparr> else u"
  let ?u2 = "if ?al \<and> u_Status ?u1 = StatusPending then ?u1\<lparr>u_Status := StatusActive\<rparr> else ?u1"
  let ?u3 = "if ?adm then ?u2\<lparr>u_Role := RoleAdmin, u_Status := StatusActive\<rparr> else ?u2"
  have u: "u \<in> set (user_tbl d)" using assms(1,2) by (simp add: UserByEmail_Inr)
  obtain d' where d': "UpdateUser d ?u3 = Inr d'" "\<And>x. x \<in> set (user_tbl d') \<longleftrightarrow> x = ?u3 \<or> (x \<in> set (user_tbl d) \<and> x \<noteq> u)"
    "d' = d\<lparr>user_tbl := user_tbl d'\<rparr>"
    by (rule UpdateUser_row[OF assms(1) u, of ?u3]) (simp_all split: if_splits)
  have "Login admins now rid d email name = Inr (d', ?u3)"
    using assms(2,3) d'(1) unfolding Login_def Let_def by simp
  moreover have "u_Status ?u3 = (if ?adm \<or> (?al \<and> u_Status u = StatusPending) then StatusActive else u_Status u)"
    "u_Role ?u3 = (if ?adm then RoleAdmin else u_Role u)" "u_ID ?u3 = u_ID u"
    by auto
  ultimately show ?thesis using that d'(2,3) by blast
qed

lemma Login_new_user:
  assumes "UserByEmail d (ToLower (TrimSpace email)) = Inl e" "ToLower (TrimSpace email) \<noteq> ''''"
    and "Login admins now rid d email name = Inr (d', u)"
  shows "u_Status u = (if ToLower (TrimSpace email) \<in> set (adminEmails admins) \<or>
                          emailDomainAllowed d (ToLower (TrimSpace email)) then StatusActive else StatusPending)"
    and "u_Role u = (if ToLower (TrimSpace email) \<in> set (adminEmails admins) then RoleAdmin else RoleUser)"
    and "user_tbl d' = user_tbl d @ [u]"
    and "u_Email u = ToLower (TrimSpace email)"
  using assms unfolding Login_def Let_def AddUser_def new_user_def
  by (auto simp: tbl_insert_def split: if_splits)

section \<open>Default limits\<close>

lemma SetSetting_get [simp]: "setting_tbl (SetSetting d k v) k' = (if k' = k then Some v else setting_tbl d k')"
  by (simp add: SetSetting_def)

lemma settingInt_hit: "settings k = Some (itoa i) \<Longrightarrow> fits64 i \<Longrightarrow> settingInt settings k f = i"
  by (simp add: settingInt_def)

lemma Defaults_SetDefaults:
  assumes "SetDefaults d l = Inr d'"
    and "fits64 (l_AppLimit l)" "fits64 (l_MemoryMB l)" "fits64 (l_DiskMB l)" "fits64 (l_MemoryPoolMB l)" "fits64 (l_DiskPoolMB l)"
  shows "Defaults d' = l\<lparr>l_MemoryPoolMB := positiveOr (l_MemoryPoolMB l) 1024, l_DiskPoolMB := positiveOr (l_DiskPoolMB l) 4096\<rparr>"
  using assms by (auto simp: SetDefaults_def Defaults_def Settings_def Let_def settingInt_hit split: if_splits)

lemma Limits_viewer: "u_Role u = RoleViewer \<Longrightarrow> l_AppLimit (User_Limits d u) = 0"
  by (simp add: User_Limits_def Let_def)

section \<open>Tokens: issue, resolve, rotate\<close>

lemma find_token_by_hash:
  assumes "db_unique d"
  shows "tbl_find (\<lambda>r. tk_Hash r = h) (token_tbl d) = Some r \<longleftrightarrow> r \<in> set (token_tbl d) \<and> tk_Hash r = h"
  using db_uniqueD(3)[OF assms] by (rule tbl_unique_find) (simp add: token_conflict_def)

lemma token_id_eq_iff:
  "db_unique d \<Longrightarrow> r \<in> set (token_tbl d) \<Longrightarrow> q \<in> set (token_tbl d) \<Longrightarrow> tk_ID q = tk_ID r \<longleftrightarrow> q = r"
  using tbl_unique_same[OF db_uniqueD(3), of d tk_ID q r] by (auto simp: token_conflict_def)

lemma scanToken_sel [simp]:
  "tk_ID (scanToken d r) = tk_ID r" "tk_UserID (scanToken d r) = tk_UserID r" "tk_Hash (scanToken d r) = tk_Hash r"
  "tk_Secret (scanToken d r) = tk_Secret r" "tk_AppName (scanToken d r) = app_name_of_id d (tk_app_id r) (tk_AppName r)"
  by (simp_all add: scanToken_def)

lemma CreateAppToken_row:
  assumes "CreateAppToken hash now rid bytes d userID appName label = Inr (d', token, tk)"
  obtains r where "d' = d\<lparr>token_tbl := token_tbl d @ [r]\<rparr>" "token = ''hostit_'' @ bytes" "tk_Hash r = hash token"
    "tk_UserID r = userID" "tk_app_id r = app_id_or_empty d appName" "tk_AppName r = appName"
    "tk_Secret r = (if appName = '''' then '''' else token)" "\<not> conflicts_with token_conflict r (token_tbl d)"
  using assms unfolding CreateAppToken_def AddToken_def Let_def
  by (auto simp: tbl_insert_def split: if_splits sum.splits)

lemma remove_tokens_ok:
  assumes "\<forall>tk \<in> set tks. \<exists>r \<in> set (token_tbl d). tk_ID r = tk_ID tk \<and> tk_UserID r = tk_UserID tk"
    and "distinct (map tk_ID tks)"
  shows "remove_tokens tks d =
           (d\<lparr>token_tbl := tbl_delete (\<lambda>r. \<exists>tk \<in> set tks. tk_UserID r = tk_UserID tk \<and> tk_ID r = tk_ID tk) (token_tbl d)\<rparr>, Inr ())"
  using assms
proof (induction tks arbitrary: d)
  case Nil
  then show ?case by (simp add: tbl_delete_def)
next
  case (Cons tk tks)
  let ?P = "\<lambda>r. tk_UserID r = tk_UserID tk \<and> tk_ID r = tk_ID tk"
  let ?d1 = "d\<lparr>token_tbl := tbl_delete ?P (token_tbl d)\<rparr>"
  have rm: "RemoveToken d (tk_UserID tk) (tk_ID tk) = Inr ?d1"
    using Cons.prems(1) by (auto simp: RemoveToken_def checkAffected_def)
  have "\<forall>tk' \<in> set tks. \<exists>r \<in> set (token_tbl ?d1). tk_ID r = tk_ID tk' \<and> tk_UserID r = tk_UserID tk'"
    using Cons.prems by fastforce
  from Cons.IH[OF this] Cons.prems(2) rm show ?case
    by (simp add: tbl_delete_def disj_commute)
qed

lemma TokensByApp_rows:
  assumes "app_id_of d n = Some i"
  shows "set (TokensByApp d n) = scanToken d ` {r \<in> set (token_tbl d). tk_app_id r = i}"
  using assms by (auto simp: TokensByApp_def)

lemma TokensByApp_distinct:
  assumes "db_unique d"
  shows "distinct (map tk_ID (TokensByApp d n))"
proof -
  have "distinct (map tk_ID (token_tbl d))"
    using db_uniqueD(3)[OF assms] by (rule tbl_unique_distinct) (simp add: token_conflict_def)
  then have "distinct (map tk_ID (filter P (token_tbl d)))" for P by (rule distinct_map_filter)
  then have "distinct (map tk_ID (sort_key f (filter P (token_tbl d))))" for f :: "token_row \<Rightarrow> int" and P
    by (simp add: distinct_map)
  then show ?thesis by (simp add: TokensByApp_def comp_def)
qed

lemma remove_app_tokens:
  assumes "db_unique d" "app_id_of d n = Some i"
  shows "remove_tokens (TokensByApp d n) d = (d\<lparr>token_tbl := tbl_delete (\<lambda>r. tk_app_id r = i) (token_tbl d)\<rparr>, Inr ())"
proof -
  let ?P = "\<lambda>r. \<exists>tk \<in> set (TokensByApp d n). tk_UserID r = tk_UserID tk \<and> tk_ID r = tk_ID tk"
  have "tbl_delete ?P (token_tbl d) = tbl_delete (\<lambda>r. tk_app_id r = i) (token_tbl d)"
    unfolding tbl_delete_def
  proof (rule filter_cong[OF refl])
    fix q assume q: "q \<in> set (token_tbl d)"
    have "(\<exists>r \<in> set (token_tbl d). tk_app_id r = i \<and> tk_UserID q = tk_UserID r \<and> tk_ID q = tk_ID r) \<longleftrightarrow> tk_app_id q = i"
      using token_id_eq_iff[OF assms(1) _ q] q by (metis (no_types, lifting))
    then show "(\<not> ?P q) = (tk_app_id q \<noteq> i)" by (auto simp: TokensByApp_rows[OF assms(2)])
  qed
  moreover have "remove_tokens (TokensByApp d n) d = (d\<lparr>token_tbl := tbl_delete ?P (token_tbl d)\<rparr>, Inr ())"
    by (rule remove_tokens_ok) (auto simp: TokensByApp_rows[OF assms(2)] TokensByApp_distinct[OF assms(1)])
  ultimately show ?thesis by simp
qed

lemma RotateAppToken_rows:
  assumes "db_unique d" "app_id_of d n = Some i"
    and "RotateAppToken hash now rid bytes d userID n = (d', Inr token)"
  obtains r where "token_tbl d' = tbl_delete (\<lambda>r. tk_app_id r = i) (token_tbl d) @ [r]"
    "tk_Hash r = hash token" "tk_UserID r = userID" "tk_app_id r = i" "app_tbl d' = app_tbl d" "user_tbl d' = user_tbl d"
    "\<not> conflicts_with token_conflict r (tbl_delete (\<lambda>r. tk_app_id r = i) (token_tbl d))"
proof -
  from assms(3) obtain tk where "CreateAppToken hash now rid bytes (d\<lparr>token_tbl := tbl_delete (\<lambda>r. tk_app_id r = i) (token_tbl d)\<rparr>)
      userID n ''agent'' = Inr (d', token, tk)"
    unfolding RotateAppToken_def remove_app_tokens[OF assms(1,2)] by (auto split: sum.splits prod.splits)
  from CreateAppToken_row[OF this] show ?thesis using that assms(2) by force
qed

section \<open>Properties\<close>

text \<open>What a sign-in decides. A sign-in never lets an unknown or waiting person in by itself: a new person becomes active only with a
  configured admin address or an allowed email domain, and waits otherwise; somebody who was denied stays denied unless the address is a configured
  admin's; only configured admin addresses become admins; and the registry changes in that one user row only.\<close>

lemma Login_decides:
  assumes "db_unique d" and "Login admins now rid d email name = Inr (d', u)"
  shows "let e = ToLower (TrimSpace email); admin = (e \<in> set (adminEmails admins)); ok = emailDomainAllowed d e
    in e \<noteq> '''' \<and> d' = d\<lparr>user_tbl := user_tbl d'\<rparr> \<and>
       (case UserByEmail d e of
          Inl _ \<Rightarrow> u_Email u = e \<and> user_tbl d' = user_tbl d @ [u]
                   \<and> u_Status u = (if admin \<or> ok then StatusActive else StatusPending)
                   \<and> u_Role u = (if admin then RoleAdmin else RoleUser)
        | Inr v \<Rightarrow> u_ID u = u_ID v
                   \<and> u_Status u = (if admin \<or> (ok \<and> u_Status v = StatusPending) then StatusActive else u_Status v)
                   \<and> u_Role u = (if admin then RoleAdmin else u_Role v)
                   \<and> (\<forall>x. x \<in> set (user_tbl d') \<longleftrightarrow> x = u \<or> (x \<in> set (user_tbl d) \<and> x \<noteq> v)))"
proof -
  let ?e = "ToLower (TrimSpace email)"
  have e: "?e \<noteq> ''''" using assms(2) by (auto simp: Login_def Let_def)
  show ?thesis
  proof (cases "UserByEmail d ?e")
    case (Inl x)
    have "d' = d\<lparr>user_tbl := user_tbl d'\<rparr>"
      using assms(2) e Inl by (auto simp: Login_def Let_def AddUser_def split: if_splits sum.splits)
    with e Login_new_user[OF Inl e assms(2)] show ?thesis unfolding Let_def Inl sum.case by blast
  next
    case (Inr v)
    obtain d1 u1 where
      l: "Login admins now rid d email name = Inr (d1, u1)"
        "u_Status u1 = (if ?e \<in> set (adminEmails admins) \<or> (emailDomainAllowed d ?e \<and> u_Status v = StatusPending)
                        then StatusActive else u_Status v)"
        "u_Role u1 = (if ?e \<in> set (adminEmails admins) then RoleAdmin else u_Role v)" "u_ID u1 = u_ID v"
        "\<And>x. x \<in> set (user_tbl d1) \<longleftrightarrow> x = u1 \<or> (x \<in> set (user_tbl d) \<and> x \<noteq> v)" "d1 = d\<lparr>user_tbl := user_tbl d1\<rparr>"
      by (rule Login_existing_user[OF assms(1) Inr e, of admins now rid name]) (rule that)
    from l(1) assms(2) have "d1 = d'" "u1 = u" by simp_all
    note l' = l(2-6)[unfolded this]
    show ?thesis unfolding Let_def Inr sum.case using e l' by blast
  qed
qed

lemma Login_decides_witness:
  "\<exists>d' u. Login [] 5 ''9'' solo_db ''eve@evil.org'' ''Eve'' = Inr (d', u) \<and> u_Status u = StatusPending \<and> u_Role u = RoleUser
     \<and> user_tbl d' = [plain_user, u]"
proof -
  have e: "ToLower (TrimSpace ''eve@evil.org'') = ''eve@evil.org''" by code_simp
  have nf: "UserByEmail solo_db ''eve@evil.org'' = Inl ErrUserNotFound"
    by (simp add: UserByEmail_Inl solo_db_def sample_defs)
  have dom: "\<not> emailDomainAllowed solo_db ''eve@evil.org''"
    by (simp add: emailDomainAllowed_def DomainAllowed_def solo_db_def empty_db_def affected_def split: option.splits)
  have fresh: "\<not> conflicts_with user_conflict u (user_tbl solo_db)" if "u_ID u = ''u_9''" "u_Email u = ''eve@evil.org''" for u :: User
    using that by (simp add: conflicts_with_iff user_conflict_def solo_db_def plain_user_def)
  obtain d' u where l: "Login [] 5 ''9'' solo_db ''eve@evil.org'' ''Eve'' = Inr (d', u)"
    using that unfolding Login_def e
    by (simp add: nf dom Let_def adminEmails_def AddUser_def new_user_def tbl_insert_def fresh)
  have "adminEmails [] = []" by (simp add: adminEmails_def)
  with Login_decides[OF solo_db_unique l] nf dom have "user_tbl d' = user_tbl solo_db @ [u]" "u_Status u = StatusPending" "u_Role u = RoleUser"
    by (simp_all add: Let_def e)
  then show ?thesis using l by (auto simp: solo_db_def)
qed

text \<open>Rotating an app's token. Afterwards the new token resolves to the user and the app it was made for; no token the app had before resolves any
  more (hash collisions with the new one apart); and every token of another app and every account-wide token is as it was.\<close>

lemma RotateAppToken_revokes:
  assumes "db_unique d" and "app_id_of d n = Some i" and "RotateAppToken hash now rid bytes d uid n = (d', Inr token)"
  shows "(\<exists>tk. TokenByHash d' (hash token) = Inr tk \<and> tk_UserID tk = uid \<and> tk_AppName tk = n)
    \<and> (\<forall>r \<in> set (token_tbl d). tk_app_id r = i \<and> tk_Hash r \<noteq> hash token \<longrightarrow> TokenByHash d' (tk_Hash r) = Inl ErrTokenNotFound)
    \<and> (\<forall>r \<in> set (token_tbl d). tk_app_id r \<noteq> i \<longrightarrow> TokenByHash d' (tk_Hash r) = TokenByHash d (tk_Hash r))"
proof -
  let ?keep = "tbl_delete (\<lambda>r. tk_app_id r = i) (token_tbl d)"
  obtain r where r: "token_tbl d' = ?keep @ [r]" "tk_Hash r = hash token" "tk_UserID r = uid"
    "tk_app_id r = i" "app_tbl d' = app_tbl d" "\<not> conflicts_with token_conflict r ?keep"
    by (rule RotateAppToken_rows[OF assms]) (rule that)
  obtain a where a: "a \<in> set (app_tbl d)" "a_Name a = n" "a_ID a = i" "i \<noteq> ''''" using assms(1,2) by (auto simp: app_id_of_iff)
  have name: "app_name_of_id d' i x = n" for x
    using a find_by_id[OF assms(1) a(4), of a] r(5) by (simp add: app_name_of_id_def)
  have fresh: "q \<in> set (token_tbl d) \<Longrightarrow> tk_app_id q \<noteq> i \<Longrightarrow> tk_Hash q \<noteq> hash token" for q
    using r(2,6) by (auto simp: conflicts_with_iff token_conflict_def)
  have kept: "tk_Hash x = tk_Hash q \<Longrightarrow> x \<in> set (token_tbl d) \<Longrightarrow> q \<in> set (token_tbl d) \<Longrightarrow> x = q" for x q
    using find_token_by_hash[OF assms(1)] by (metis option.inject)
  have find: "tbl_find (\<lambda>r. tk_Hash r = h) (token_tbl d') =
      (case tbl_find (\<lambda>r. tk_Hash r = h) ?keep of None \<Rightarrow> if hash token = h then Some r else None | Some q \<Rightarrow> Some q)" for h
    unfolding r(1) using r(2) by (simp add: tbl_find_append split: option.splits)
  have "tbl_find (\<lambda>r. tk_Hash r = hash token) ?keep = None" using fresh by (auto simp: tbl_find_None)
  then have "TokenByHash d' (hash token) = Inr (scanToken d' r)" by (simp add: TokenByHash_def find)
  moreover have "TokenByHash d' (tk_Hash q) = Inl ErrTokenNotFound"
    if "q \<in> set (token_tbl d)" "tk_app_id q = i" "tk_Hash q \<noteq> hash token" for q
  proof -
    have "tbl_find (\<lambda>r. tk_Hash r = tk_Hash q) ?keep = None" using kept[OF _ _ that(1)] that(2) by (auto simp: tbl_find_None)
    then show ?thesis using that(3) by (auto simp: TokenByHash_def find)
  qed
  moreover have "TokenByHash d' (tk_Hash q) = TokenByHash d (tk_Hash q)" if "q \<in> set (token_tbl d)" "tk_app_id q \<noteq> i" for q
  proof -
    have f: "tbl_find (\<lambda>r. tk_Hash r = tk_Hash q) (token_tbl d) = Some q" using that(1) find_token_by_hash[OF assms(1)] by blast
    have "q \<in> set ?keep" using that by simp
    then obtain x where x: "tbl_find (\<lambda>r. tk_Hash r = tk_Hash q) ?keep = Some x"
      using tbl_find_exists[of q ?keep "\<lambda>r. tk_Hash r = tk_Hash q"] by auto
    then have "x = q" using tbl_find_Some[OF x] kept[of x q] that(1) by auto
    with x f show ?thesis by (simp add: TokenByHash_def find scanToken_cong[OF r(5)])
  qed
  ultimately show ?thesis using r(3,4) name by auto
qed

text \<open>A registry whose app has one token.\<close>

definition token_db :: db where
  "token_db = solo_db\<lparr>token_tbl := [\<lparr>tk_ID = ''tk_1'', tk_UserID = ''usr_1'', tk_Hash = ''#old'', tk_Prefix = '''', tk_Label = ''agent'',
     tk_AppName = ''blog'', tk_Secret = ''old'', tk_CreatedAt = Some 0, tk_LastUsed = None, tk_app_id = ''app_1''\<rparr>]\<rparr>"

lemma RotateAppToken_revokes_witness:
  "\<exists>d' token. RotateAppToken (\<lambda>s. CHR ''#'' # s) 7 ''2'' ''ab'' token_db ''usr_1'' ''blog'' = (d', Inr token)
     \<and> TokenByHash d' ''#old'' = Inl ErrTokenNotFound"
proof -
  have u: "db_unique token_db"
    using solo_db_unique by (simp add: db_unique_def token_db_def tbl_unique_def)
  have i: "app_id_of token_db ''blog'' = Some ''app_1''"
    by (simp add: app_id_of_def token_db_def solo_db_def sample_defs tbl_find_def)
  obtain d' where l: "RotateAppToken (\<lambda>s. CHR ''#'' # s) 7 ''2'' ''ab'' token_db ''usr_1'' ''blog'' = (d', Inr ''hostit_ab'')"
    unfolding RotateAppToken_def remove_app_tokens[OF u i]
    by (simp add: token_db_def tbl_delete_def CreateAppToken_def AddToken_def tbl_insert_def conflicts_with_iff Let_def)
  show ?thesis using RotateAppToken_revokes[OF u i l] l by (simp add: token_db_def)
qed

text \<open>Default limits round-trip. Storing the defaults fails exactly when one of them is negative; otherwise they are read back as they were stored,
  with a zero pool read as the built-in pool size.\<close>

lemma SetDefaults_roundtrip:
  assumes "fits64 (l_AppLimit l)" "fits64 (l_MemoryMB l)" "fits64 (l_DiskMB l)" "fits64 (l_MemoryPoolMB l)" "fits64 (l_DiskPoolMB l)"
  shows "case SetDefaults d l of
      Inl e \<Rightarrow> e = ErrInvalid \<and> (l_AppLimit l < 0 \<or> l_MemoryMB l < 0 \<or> l_DiskMB l < 0 \<or> l_MemoryPoolMB l < 0 \<or> l_DiskPoolMB l < 0)
    | Inr d' \<Rightarrow> Defaults d' = l\<lparr>l_MemoryPoolMB := (if l_MemoryPoolMB l = 0 then 1024 else l_MemoryPoolMB l),
                               l_DiskPoolMB := (if l_DiskPoolMB l = 0 then 4096 else l_DiskPoolMB l)\<rparr>"
proof (cases "SetDefaults d l")
  case (Inl e)
  then show ?thesis by (auto simp: SetDefaults_def Let_def split: if_splits)
next
  case (Inr d')
  then have "0 \<le> l_MemoryPoolMB l" "0 \<le> l_DiskPoolMB l" by (auto simp: SetDefaults_def Let_def split: if_splits)
  with Inr Defaults_SetDefaults[OF Inr assms] show ?thesis by (simp add: positiveOr_def)
qed

lemma SetDefaults_roundtrip_witness:
  "\<exists>d'. SetDefaults empty_db \<lparr>l_AppLimit = 5, l_MemoryMB = 256, l_DiskMB = 512, l_MemoryPoolMB = 0, l_DiskPoolMB = 9000\<rparr> = Inr d'
     \<and> Defaults d' = \<lparr>l_AppLimit = 5, l_MemoryMB = 256, l_DiskMB = 512, l_MemoryPoolMB = 1024, l_DiskPoolMB = 9000\<rparr>"
proof -
  let ?l = "\<lparr>l_AppLimit = 5, l_MemoryMB = 256, l_DiskMB = 512, l_MemoryPoolMB = 0, l_DiskPoolMB = 9000\<rparr>"
  obtain d' where "SetDefaults empty_db ?l = Inr d'" by (simp add: SetDefaults_def Let_def)
  with SetDefaults_roundtrip[of ?l empty_db] show ?thesis by (simp add: fits64_def)
qed

end
