(* ===== verification/Signed_Token.thy ===== *)
theory Signed_Token
  imports User_Manager
begin

text \<open>
  The two signed credentials: the session cookie \<open>user|expiry|mac\<close> (\<open>control/session.go\<close>) and the per-app
  grant \<open>app|user|expiry|signature\<close> (\<open>proxy/grant/service.go\<close>). HMAC-SHA256 with its base64 encoding is the
  parameter \<open>mac\<close>; Ed25519 signing and verification under one key pair and the base64 codec are the parameters
  \<open>ed_sign\<close>, \<open>ed_verify\<close>, \<open>b64enc\<close> and \<open>b64dec\<close>. Clocks are in nanoseconds, as \<open>time.Now()\<close> is.

  \<open>expiring_credential\<close> is the contract both share with the code that asks for an identity: a
  credential that is accepted names one principal, and once it has been refused it stays refused.
\<close>

section \<open>Clocks\<close>

definition unix_ns :: "int \<Rightarrow> int" where
  "unix_ns t = t div 1000000000"

text \<open>\<open>time.Now().After(time.Unix(expiry, 0))\<close>\<close>

definition is_after :: "int \<Rightarrow> int \<Rightarrow> bool" where
  "is_after now expiry = (now > expiry * 1000000000)"

definition sessionTTL :: int where "sessionTTL = 30 * 24 * 3600 * 1000000000"
definition appGrantTTL :: int where "appGrantTTL = 12 * 3600 * 1000000000"

section \<open>Session cookies\<close>

abbreviation bar :: char where "bar \<equiv> CHR ''|''"

definition session_encode :: "(string \<Rightarrow> string) \<Rightarrow> int \<Rightarrow> string \<Rightarrow> string res" where
  "session_encode mac now userID =
     (if bar \<in> set userID then Inl (ErrText ''invalid user id'')
      else let payload = userID @ bar # itoa (unix_ns (now + sessionTTL))
           in Inr (payload @ bar # mac payload))"

definition session_decode :: "(string \<Rightarrow> string) \<Rightarrow> int \<Rightarrow> string \<Rightarrow> string res" where
  "session_decode mac now value =
     (case split_on bar value of
        [u, e, signature] \<Rightarrow>
          if signature \<noteq> mac (u @ bar # e) then Inl ErrInvalidSession
          else (case parse_int e of
                  None \<Rightarrow> Inl ErrInvalidSession
                | Some expiry \<Rightarrow> if is_after now expiry then Inl ErrInvalidSession else Inr u)
      | _ \<Rightarrow> Inl ErrInvalidSession)"

section \<open>App grants\<close>

definition Sign ::
  "(string \<Rightarrow> string) \<Rightarrow> (string \<Rightarrow> string) \<Rightarrow> int \<Rightarrow> int \<Rightarrow> string \<Rightarrow> string \<Rightarrow> string res" where
  "Sign b64enc ed_sign ttl now app userID =
     (if bar \<in> set app \<or> bar \<in> set userID then Inl (ErrText ''invalid app or user id'')
      else let payload = app @ bar # userID @ bar # itoa (unix_ns (now + ttl))
           in Inr (payload @ bar # b64enc (ed_sign payload)))"

definition Verify ::
  "(string \<Rightarrow> string option) \<Rightarrow> (string \<Rightarrow> string \<Rightarrow> bool) \<Rightarrow> int \<Rightarrow> string \<Rightarrow> (string \<times> string) res" where
  "Verify b64dec ed_verify now value =
     (case split_on bar value of
        [a, u, e, s] \<Rightarrow>
          let payload = join_with bar [a, u, e]
          in (case b64dec s of
                None \<Rightarrow> Inl ErrInvalidGrant
              | Some sig \<Rightarrow>
                  if \<not> ed_verify payload sig then Inl ErrInvalidGrant
                  else (case parse_int e of
                          None \<Rightarrow> Inl ErrInvalidGrant
                        | Some expiry \<Rightarrow> if is_after now expiry then Inl ErrInvalidGrant else Inr (a, u)))
      | _ \<Rightarrow> Inl ErrInvalidGrant)"

section \<open>The contract\<close>

locale expiring_credential =
  fixes check :: "int \<Rightarrow> string \<Rightarrow> 'a res"
  assumes check_earlier: "check now v = Inr x \<Longrightarrow> earlier \<le> now \<Longrightarrow> check earlier v = Inr x"
begin

lemma one_principal:
  assumes "check t v = Inr x" "check t' v = Inr y"
  shows "x = y"
proof (cases "t \<le> t'")
  case True
  with assms check_earlier[of t' v y t] show ?thesis by simp
next
  case False
  with assms check_earlier[of t v x t'] show ?thesis by simp
qed

lemma refused_for_good:
  assumes "check t v = Inl e" "t \<le> t'"
  shows "check t' v \<noteq> Inr x"
proof
  assume "check t' v = Inr x"
  from check_earlier[OF this assms(2)] assms(1) show False by simp
qed

end

lemma is_after_mono: "\<not> is_after now e \<Longrightarrow> earlier \<le> now \<Longrightarrow> \<not> is_after earlier e"
  by (simp add: is_after_def)

interpretation session: expiring_credential "session_decode mac" for mac
  by unfold_locales (auto simp: session_decode_def is_after_mono split: list.splits if_splits option.splits)

interpretation appgrant: expiring_credential "Verify b64dec ed_verify" for b64dec ed_verify
  by unfold_locales (auto simp: Verify_def Let_def is_after_mono split: list.splits if_splits option.splits)

section \<open>Round trips\<close>

lemma unix_ns_not_after: "now' \<le> unix_ns t * 1000000000 \<Longrightarrow> \<not> is_after now' (unix_ns t)"
  by (simp add: is_after_def)

lemma unix_ns_bounds: "unix_ns t * 1000000000 \<le> t" "t < unix_ns t * 1000000000 + 1000000000"
  using div_mult_mod_eq[of t 1000000000] pos_mod_bound[of 1000000000 t] pos_mod_sign[of 1000000000 t]
  by (auto simp: unix_ns_def)

lemma session_roundtrip:
  assumes "bar \<notin> set (mac (u @ bar # itoa (unix_ns (now + sessionTTL))))" "fits64 (unix_ns (now + sessionTTL))"
    and "session_encode mac now u = Inr v"
  shows "session_decode mac now' v = (if is_after now' (unix_ns (now + sessionTTL)) then Inl ErrInvalidSession else Inr u)"
proof -
  let ?e = "itoa (unix_ns (now + sessionTTL))" and ?m = "mac (u @ bar # itoa (unix_ns (now + sessionTTL)))"
  have u: "bar \<notin> set u" and v: "v = join_with bar [u, ?e, ?m]"
    using assms(3) by (auto simp: session_encode_def Let_def split: if_splits)
  have "split_on bar v = [u, ?e, ?m]"
    unfolding v using u assms(1) itoa_no_bar(1) by (intro split_join) auto
  then show ?thesis using assms(2) by (simp add: session_decode_def)
qed

lemma grant_roundtrip:
  assumes "\<And>x. b64dec (b64enc x) = Some x" "\<And>x. bar \<notin> set (b64enc x)" "\<And>p. ed_verify p (ed_sign p)"
    and "fits64 (unix_ns (now + ttl))" "Sign b64enc ed_sign ttl now a u = Inr v"
  shows "Verify b64dec ed_verify now' v = (if is_after now' (unix_ns (now + ttl)) then Inl ErrInvalidGrant else Inr (a, u))"
proof -
  let ?e = "itoa (unix_ns (now + ttl))"
  let ?p = "a @ bar # u @ bar # ?e"
  have n: "bar \<notin> set a" "bar \<notin> set u" and v: "v = join_with bar [a, u, ?e, b64enc (ed_sign ?p)]"
    using assms(5) by (auto simp: Sign_def Let_def split: if_splits)
  have "split_on bar v = [a, u, ?e, b64enc (ed_sign ?p)]"
    unfolding v using n assms(2) itoa_no_bar(1) by (intro split_join) auto
  then show ?thesis using assms(1,3,4) by (simp add: Verify_def)
qed

text \<open>A grant that verifies carries a signature the key accepts on exactly the app, the user and the expiry
  it names: nothing about it can be altered without a new signature.\<close>

lemma Verify_sound:
  assumes "Verify b64dec ed_verify now v = Inr (a, u)"
  obtains e s sig expiry where "v = join_with bar [a, u, e, s]" "bar \<notin> set a" "bar \<notin> set u" "bar \<notin> set e" "bar \<notin> set s"
    "b64dec s = Some sig" "ed_verify (a @ bar # u @ bar # e) sig" "parse_int e = Some expiry" "\<not> is_after now expiry"
proof -
  obtain e s where sp: "split_on bar v = [a, u, e, s]"
    using assms by (auto simp: Verify_def Let_def split: list.splits option.splits if_splits)
  then have "v = join_with bar [a, u, e, s]" by (metis join_split)
  moreover have "bar \<notin> set x" if "x \<in> {a, u, e, s}" for x
    using split_on_parts[of x bar v] that sp by auto
  moreover obtain sig expiry where "b64dec s = Some sig" "ed_verify (a @ bar # u @ bar # e) sig" "parse_int e = Some expiry"
      "\<not> is_after now expiry"
    using assms sp by (auto simp: Verify_def Let_def split: option.splits if_splits)
  ultimately show ?thesis using that by blast
qed

section \<open>Properties\<close>

text \<open>C9: app grants. A grant that \<open>Sign\<close> issues verifies to the app and the user it was issued for, at every moment up to its
  expiry (the issue time plus the lifetime, in whole seconds) and at none after it. And whatever verifies is signed: the value is its app, user,
  expiry and signature joined by bars, none of which contains a bar, and the key accepts the signature on exactly these three fields,
  so no two different readings of one grant exist and nothing in it can be changed without a new signature.\<close>

theorem grant_roundtrip_and_soundness:
  assumes "\<And>x. b64dec (b64enc x) = Some x" and "\<And>x. bar \<notin> set (b64enc x)" and "\<And>p. ed_verify p (ed_sign p)"
  shows "(\<forall>a u now now' ttl v. fits64 (unix_ns (now + ttl)) \<and> Sign b64enc ed_sign ttl now a u = Inr v \<longrightarrow>
            Verify b64dec ed_verify now' v = (if now' \<le> unix_ns (now + ttl) * 1000000000 then Inr (a, u) else Inl ErrInvalidGrant))
    \<and> (\<forall>a u now v. Verify b64dec ed_verify now v = Inr (a, u) \<longrightarrow>
            (\<exists>e s sig expiry. v = join_with bar [a, u, e, s] \<and> bar \<notin> set a \<union> set u \<union> set e \<union> set s \<and> b64dec s = Some sig
               \<and> ed_verify (join_with bar [a, u, e]) sig \<and> parse_int e = Some expiry \<and> now \<le> expiry * 1000000000))"
proof
  show "\<forall>a u now now' ttl v. fits64 (unix_ns (now + ttl)) \<and> Sign b64enc ed_sign ttl now a u = Inr v \<longrightarrow>
            Verify b64dec ed_verify now' v = (if now' \<le> unix_ns (now + ttl) * 1000000000 then Inr (a, u) else Inl ErrInvalidGrant)"
  proof (intro allI impI)
    fix a u now now' ttl v
    assume "fits64 (unix_ns (now + ttl)) \<and> Sign b64enc ed_sign ttl now a u = Inr v"
    then show "Verify b64dec ed_verify now' v = (if now' \<le> unix_ns (now + ttl) * 1000000000 then Inr (a, u) else Inl ErrInvalidGrant)"
      using grant_roundtrip[where b64dec = b64dec and b64enc = b64enc and ed_verify = ed_verify and ed_sign = ed_sign
          and now = now and ttl = ttl and a = a and u = u and v = v and now' = now', OF assms] by (simp add: is_after_def)
  qed
  show "\<forall>a u now v. Verify b64dec ed_verify now v = Inr (a, u) \<longrightarrow>
            (\<exists>e s sig expiry. v = join_with bar [a, u, e, s] \<and> bar \<notin> set a \<union> set u \<union> set e \<union> set s \<and> b64dec s = Some sig
               \<and> ed_verify (join_with bar [a, u, e]) sig \<and> parse_int e = Some expiry \<and> now \<le> expiry * 1000000000)"
  proof (intro allI impI)
    fix a u now v
    assume "Verify b64dec ed_verify now v = Inr (a, u)"
    from Verify_sound[OF this] show "\<exists>e s sig expiry. v = join_with bar [a, u, e, s] \<and> bar \<notin> set a \<union> set u \<union> set e \<union> set s
        \<and> b64dec s = Some sig \<and> ed_verify (join_with bar [a, u, e]) sig \<and> parse_int e = Some expiry \<and> now \<le> expiry * 1000000000"
      by (metis Un_iff is_after_def join_with.simps(2,3) not_less)
  qed
qed

text \<open>An encoding into the letter \<open>x\<close>, one per code point, separated by \<open>y\<close>.\<close>

definition tally_enc :: "string \<Rightarrow> string" where
  "tally_enc s = concat (map (\<lambda>c. replicate (of_char c) CHR ''x'' @ ''y'') s)"

definition tally_dec :: "string \<Rightarrow> string option" where
  "tally_dec s = Some (map (\<lambda>p. char_of (length p)) (butlast (split_on (CHR ''y'') s)))"

lemma tally_split: "split_on (CHR ''y'') (tally_enc s) = map (\<lambda>c. replicate (of_char c) CHR ''x'') s @ ['''']"
proof (induction s)
  case Nil
  then show ?case by (simp add: tally_enc_def)
next
  case (Cons c s)
  have "tally_enc (c # s) = replicate (of_char c) CHR ''x'' @ CHR ''y'' # tally_enc s" by (simp add: tally_enc_def)
  then show ?case using Cons by (simp add: split_on_append)
qed

lemma tally_roundtrip: "tally_dec (tally_enc s) = Some s"
  by (simp add: tally_dec_def tally_split comp_def butlast_append)

lemma tally_no_bar: "bar \<notin> set (tally_enc s)"
  by (induction s) (auto simp: tally_enc_def set_replicate_conv_if split: if_splits)

lemma grant_roundtrip_and_soundness_witness:
  "\<exists>v. Sign tally_enc rev 3600000000000 0 ''blog'' ''usr_1'' = Inr v
     \<and> Verify tally_dec (\<lambda>p s. s = rev p) 3600000000000 v = Inr (''blog'', ''usr_1'')
     \<and> Verify tally_dec (\<lambda>p s. s = rev p) 3600000000001 v = Inl ErrInvalidGrant"
proof -
  obtain v where v: "Sign tally_enc rev 3600000000000 0 ''blog'' ''usr_1'' = Inr v" by (simp add: Sign_def Let_def)
  have exp: "fits64 (unix_ns (0 + 3600000000000))" "unix_ns (0 + 3600000000000) = 3600" by (simp_all add: unix_ns_def fits64_def)
  note verify = conjunct1[OF grant_roundtrip_and_soundness[of tally_dec tally_enc "\<lambda>p s. s = rev p" rev, OF tally_roundtrip tally_no_bar refl],
      rule_format, OF conjI, OF exp(1) v]
  show ?thesis using v verify[of 3600000000000] verify[of 3600000000001] unfolding exp(2) by simp
qed

text \<open>Session cookies. What \<open>encode\<close> issues for a user decodes to that user until the session expires and to nobody after; a decoded cookie carries
  the MAC of its own user and expiry; and a cookie that was refused once stays refused, so an expired session cannot come back.\<close>

lemma session_cookie_sound:
  assumes "\<And>p. bar \<notin> set (mac p)"
  shows "(\<forall>u now now' v. fits64 (unix_ns (now + sessionTTL)) \<and> session_encode mac now u = Inr v \<longrightarrow>
            session_decode mac now' v = (if now' \<le> unix_ns (now + sessionTTL) * 1000000000 then Inr u else Inl ErrInvalidSession))
    \<and> (\<forall>u now v. session_decode mac now v = Inr u \<longrightarrow>
            (\<exists>e expiry. v = join_with bar [u, e, mac (join_with bar [u, e])] \<and> parse_int e = Some expiry \<and> now \<le> expiry * 1000000000))
    \<and> (\<forall>now later v e u. session_decode mac now v = Inl e \<and> now \<le> later \<longrightarrow> session_decode mac later v \<noteq> Inr u)"
proof (intro conjI allI impI)
  fix u now now' v
  assume "fits64 (unix_ns (now + sessionTTL)) \<and> session_encode mac now u = Inr v"
  then show "session_decode mac now' v = (if now' \<le> unix_ns (now + sessionTTL) * 1000000000 then Inr u else Inl ErrInvalidSession)"
    using session_roundtrip[of mac u now v now'] assms by (simp add: is_after_def)
next
  fix u now v
  assume d: "session_decode mac now v = Inr u"
  then obtain e s where sp: "split_on bar v = [u, e, s]"
    by (auto simp: session_decode_def split: list.splits option.splits if_splits)
  then have "v = join_with bar [u, e, s]" by (metis join_split)
  with d sp show "\<exists>e expiry. v = join_with bar [u, e, mac (join_with bar [u, e])] \<and> parse_int e = Some expiry \<and> now \<le> expiry * 1000000000"
    by (auto simp: session_decode_def is_after_def split: option.splits if_splits)
next
  fix now later v e u
  assume "session_decode mac now v = Inl e \<and> now \<le> later"
  then show "session_decode mac later v \<noteq> Inr u" using session.refused_for_good by blast
qed

lemma session_cookie_sound_witness:
  "\<exists>v. session_encode (\<lambda>p. tally_enc p) 0 ''usr_1'' = Inr v \<and> session_decode (\<lambda>p. tally_enc p) 5 v = Inr ''usr_1''"
proof -
  obtain v where v: "session_encode (\<lambda>p. tally_enc p) 0 ''usr_1'' = Inr v" by (simp add: session_encode_def Let_def)
  have exp: "fits64 (unix_ns (0 + sessionTTL))" "5 \<le> unix_ns (0 + sessionTTL) * 1000000000"
    by (simp_all add: unix_ns_def fits64_def sessionTTL_def)
  note decode = conjunct1[OF session_cookie_sound[of "\<lambda>p. tally_enc p", OF tally_no_bar], rule_format, OF conjI, OF exp(1) v]
  show ?thesis using v decode[of 5] exp(2) by simp
qed

end
