(* ===== verification/Auth.thy ===== *)
theory Auth
  imports Signed_Token
begin

text \<open>
  Who is calling and what they may reach: \<open>control/auth.go\<close> (authentication, the gates every route is
  wrapped in, the app-token scope, the same-origin check), the app lookups of
  \<open>control/server_handler_apps.go\<close> (\<open>ownedApp\<close>, \<open>ownerApp\<close>, \<open>listedApps\<close>, \<open>checkAppLimit\<close>), the pool arithmetic of
  \<open>control/server_handler_limits.go\<close> and the visibility decision \<open>mayViewApp\<close> of \<open>control/appaccess.go\<close>.

  An HTTP request is the record of what these functions read; a refused request is its HTTP status.
\<close>

section \<open>Requests, configuration, callers\<close>

record request =
  rq_peer :: "int option"
  rq_method :: string
  rq_host :: string
  rq_path :: string
  rq_tls :: bool
  rq_header :: "string \<Rightarrow> string"
  rq_cookies :: "(string \<times> string) list"

record config =
  cf_AdminToken :: string
  cf_AdminEmails :: "string list"
  cf_TLSOff :: bool
  cf_BaseDomain :: string
  cf_APIHost :: string
  cf_AppListing :: bool
  cf_TLSLetsEncrypt :: bool
  cf_DNSProvider :: string
  cf_GoogleClientID :: string
  cf_GoogleClientSecret :: string

text \<open>\<open>r.Cookie(name)\<close>: the first cookie of that name.\<close>

definition get_cookie :: "request \<Rightarrow> string \<Rightarrow> string option" where
  "get_cookie r name = map_option snd (tbl_find (\<lambda>c. fst c = name) (rq_cookies r))"

definition APIHostname :: "config \<Rightarrow> string" where
  "APIHostname cf = (if cf_APIHost cf \<noteq> '''' then cf_APIHost cf else cf_BaseDomain cf)"

definition WebHostnames :: "config \<Rightarrow> string list" where
  "WebHostnames cf = APIHostname cf # (if cf_BaseDomain cf \<noteq> APIHostname cf then [cf_BaseDomain cf] else [])"

definition IsWebHostname :: "config \<Rightarrow> string \<Rightarrow> bool" where
  "IsWebHostname cf host = (host \<in> set (WebHostnames cf))"

definition WildcardTLS :: "config \<Rightarrow> bool" where
  "WildcardTLS cf \<longleftrightarrow> cf_TLSLetsEncrypt cf \<and> cf_DNSProvider cf \<noteq> ''''"

definition WebEnabled :: "config \<Rightarrow> bool" where
  "WebEnabled cf \<longleftrightarrow> cf_GoogleClientID cf \<noteq> '''' \<and> cf_GoogleClientSecret cf \<noteq> ''''"

record caller =
  cl_user :: "User option"
  cl_globalAdmin :: bool
  cl_appScope :: string
  cl_viaCookie :: bool

definition isAdmin :: "caller \<Rightarrow> bool" where
  "isAdmin c \<longleftrightarrow> cl_globalAdmin c \<or> (case cl_user c of Some u \<Rightarrow> u_Role u = RoleAdmin | None \<Rightarrow> False)"

definition isActive :: "caller \<Rightarrow> bool" where
  "isActive c \<longleftrightarrow>
     (if cl_globalAdmin c \<or> (case cl_user c of Some u \<Rightarrow> u_Status u = StatusActive | None \<Rightarrow> False) then True
      else cl_user c = None \<and> cl_appScope c \<noteq> '''')"

definition userID :: "caller \<Rightarrow> string" where
  "userID c = (case cl_user c of None \<Rightarrow> '''' | Some u \<Rightarrow> u_ID u)"

section \<open>Authentication\<close>

definition cookieName :: "config \<Rightarrow> string \<Rightarrow> string" where
  "cookieName cf name = (if cf_TLSOff cf then name else ''__Host-'' @ name)"

text \<open>\<open>hash\<close> is the token hash, \<open>mac\<close> the session MAC, \<open>now\<close> the clock in nanoseconds. Resolving a token records
  its use, so the database is part of the result.\<close>

definition authenticate ::
  "(string \<Rightarrow> string) \<Rightarrow> (string \<Rightarrow> string) \<Rightarrow> config \<Rightarrow> int \<Rightarrow> db \<Rightarrow> request \<Rightarrow> db \<times> caller res" where
  "authenticate hash mac cf now d r =
     (if rq_peer r = Some 0 then
        (d, Inr \<lparr>cl_user = None, cl_globalAdmin = True, cl_appScope = '''', cl_viaCookie = False\<rparr>)
      else
        let authz = rq_header r ''Authorization''; token = TrimPrefix authz ''Bearer ''
        in if token \<noteq> '''' \<and> token \<noteq> authz then
             (if token = cf_AdminToken cf then
                (d, Inr \<lparr>cl_user = None, cl_globalAdmin = True, cl_appScope = '''', cl_viaCookie = False\<rparr>)
              else case UserAndScopeByToken hash (unix_ns now) d token of
                     Inl e \<Rightarrow> (d, Inl e)
                   | Inr (d', u, scope) \<Rightarrow>
                       (d', Inr \<lparr>cl_user = u, cl_globalAdmin = False, cl_appScope = scope, cl_viaCookie = False\<rparr>))
           else case get_cookie r (cookieName cf ''hostit_session'') of
                  None \<Rightarrow> (d, Inl ErrInvalidSession)
                | Some v \<Rightarrow>
                    if v = '''' then (d, Inl ErrInvalidSession)
                    else (case session_decode mac now v of
                            Inl e \<Rightarrow> (d, Inl e)
                          | Inr uid \<Rightarrow>
                              (case Store_User d uid of
                                 Inl e \<Rightarrow> (d, Inl e)
                               | Inr u \<Rightarrow>
                                   (d, Inr \<lparr>cl_user = Some u, cl_globalAdmin = False, cl_appScope = '''', cl_viaCookie = True\<rparr>))))"

definition withinAppScope :: "string \<Rightarrow> string \<Rightarrow> bool" where
  "withinAppScope path app =
     (if path = ''/api/info'' then True
      else let prefix = ''/api/apps/'' @ app in path = prefix \<or> HasPrefix path (prefix @ ''/''))"

text \<open>\<open>origin_host\<close> is \<open>url.Parse\<close> of an Origin header followed by \<open>hostOnly\<close> of its host; \<open>None\<close> is a parse error.\<close>

definition isWebOrigin :: "(string \<Rightarrow> string option) \<Rightarrow> config \<Rightarrow> string \<Rightarrow> bool" where
  "isWebOrigin origin_host cf origin = (case origin_host origin of None \<Rightarrow> False | Some h \<Rightarrow> IsWebHostname cf h)"

definition checkSameOrigin :: "(string \<Rightarrow> string option) \<Rightarrow> config \<Rightarrow> request \<Rightarrow> caller \<Rightarrow> bool" where
  "checkSameOrigin origin_host cf r c =
     (if \<not> cl_viaCookie c \<or> rq_method r \<in> {''GET'', ''HEAD'', ''OPTIONS''} then True
      else let site = rq_header r ''Sec-Fetch-Site''
           in if site = ''same-origin'' \<or> site = ''none'' then True
              else if site = '''' then
                (let origin = rq_header r ''Origin'' in origin = '''' \<or> isWebOrigin origin_host cf origin)
              else False)"

section \<open>The gates\<close>

text \<open>A gate yields the caller the wrapped handler runs with, or the status the request is refused with.\<close>

definition authenticated ::
  "(string \<Rightarrow> string) \<Rightarrow> (string \<Rightarrow> string) \<Rightarrow> (string \<Rightarrow> string option) \<Rightarrow> config \<Rightarrow> int \<Rightarrow> db \<Rightarrow> request \<Rightarrow> db \<times> (nat + caller)" where
  "authenticated hash mac origin_host cf now d r =
     (case authenticate hash mac cf now d r of
        (d', Inl _) \<Rightarrow> (d', Inl 401)
      | (d', Inr c) \<Rightarrow>
          if \<not> checkSameOrigin origin_host cf r c then (d', Inl 403)
          else if cl_appScope c \<noteq> '''' \<and> \<not> withinAppScope (rq_path r) (cl_appScope c) then (d', Inl 403)
          else (d', Inr c))"

definition gate_if :: "(caller \<Rightarrow> bool) \<Rightarrow> db \<times> (nat + caller) \<Rightarrow> db \<times> (nat + caller)" where
  "gate_if P x = (case x of (d, Inr c) \<Rightarrow> (if P c then (d, Inr c) else (d, Inl 403)) | (d, Inl s) \<Rightarrow> (d, Inl s))"

definition requireActive ::
  "(string \<Rightarrow> string) \<Rightarrow> (string \<Rightarrow> string) \<Rightarrow> (string \<Rightarrow> string option) \<Rightarrow> config \<Rightarrow> int \<Rightarrow> db \<Rightarrow> request \<Rightarrow> db \<times> (nat + caller)" where
  "requireActive hash mac origin_host cf now d r = gate_if isActive (authenticated hash mac origin_host cf now d r)"

definition requireAccount ::
  "(string \<Rightarrow> string) \<Rightarrow> (string \<Rightarrow> string) \<Rightarrow> (string \<Rightarrow> string option) \<Rightarrow> config \<Rightarrow> int \<Rightarrow> db \<Rightarrow> request \<Rightarrow> db \<times> (nat + caller)" where
  "requireAccount hash mac origin_host cf now d r =
     gate_if (\<lambda>c. cl_appScope c = '''') (requireActive hash mac origin_host cf now d r)"

definition requirePerson ::
  "(string \<Rightarrow> string) \<Rightarrow> (string \<Rightarrow> string) \<Rightarrow> (string \<Rightarrow> string option) \<Rightarrow> config \<Rightarrow> int \<Rightarrow> db \<Rightarrow> request \<Rightarrow> db \<times> (nat + caller)" where
  "requirePerson hash mac origin_host cf now d r =
     gate_if (\<lambda>c. userID c \<noteq> '''') (requireAccount hash mac origin_host cf now d r)"

definition requireAdmin ::
  "(string \<Rightarrow> string) \<Rightarrow> (string \<Rightarrow> string) \<Rightarrow> (string \<Rightarrow> string option) \<Rightarrow> config \<Rightarrow> int \<Rightarrow> db \<Rightarrow> request \<Rightarrow> db \<times> (nat + caller)" where
  "requireAdmin hash mac origin_host cf now d r =
     gate_if isAdmin (requireAccount hash mac origin_host cf now d r)"

section \<open>Apps a caller may act on\<close>

definition ownedApp :: "db \<Rightarrow> caller \<Rightarrow> string \<Rightarrow> App res" where
  "ownedApp d c name =
     (case Store_App d name of
        Inl e \<Rightarrow> Inl e
      | Inr a \<Rightarrow>
          if a_SoftDeletedAt a \<noteq> None then Inl ErrAppNotFound
          else if \<not> isAdmin c \<and> a_OwnerID a \<noteq> userID c \<and> \<not> IsAppCollaborator d (a_ID a) (userID c)
          then Inl ErrAppNotFound
          else Inr a)"

definition ownerApp :: "db \<Rightarrow> caller \<Rightarrow> string \<Rightarrow> App res" where
  "ownerApp d c name =
     (case ownedApp d c name of
        Inl e \<Rightarrow> Inl e
      | Inr a \<Rightarrow> if \<not> isAdmin c \<and> a_OwnerID a \<noteq> userID c then Inl ErrForbidden else Inr a)"

definition liveApps :: "App list \<Rightarrow> App list" where
  "liveApps apps = filter (\<lambda>a. a_SoftDeletedAt a = None) apps"

definition listedApps :: "db \<Rightarrow> caller \<Rightarrow> bool \<Rightarrow> App list res" where
  "listedApps d c all =
     (if all then (if \<not> isAdmin c then Inl ErrForbidden else Inr (Apps d))
      else case cl_user c of
             None \<Rightarrow> Inr (Apps d)
           | Some u \<Rightarrow>
               if u_Role u = RoleViewer then Inr (liveApps (AppsByViewer d (u_ID u)))
               else Inr (liveApps (AppsByOwner d (u_ID u) @ AppsByCollaborator d (u_ID u))))"

definition mayViewApp :: "db \<Rightarrow> caller \<Rightarrow> App \<Rightarrow> bool" where
  "mayViewApp d c a =
     (if cl_globalAdmin c then True
      else if cl_appScope c \<noteq> '''' then cl_appScope c = a_Name a
      else case cl_user c of
             None \<Rightarrow> False
           | Some u \<Rightarrow>
               if \<not> isActive c then False
               else if isAdmin c \<or> a_OwnerID a = u_ID u then True
               else IsAppCollaborator d (a_ID a) (u_ID u) \<or> IsAppViewer d (a_ID a) (u_ID u))"

section \<open>Pools\<close>

definition poolReserved :: "db \<Rightarrow> string \<Rightarrow> string \<Rightarrow> (int \<times> int) res" where
  "poolReserved d ownerID excludeApp =
     (case Store_User d ownerID of
        Inl e \<Rightarrow> Inl e
      | Inr owner \<Rightarrow>
          let limits = User_Limits d owner;
              apps = filter (\<lambda>a. a_Name a \<noteq> excludeApp \<and> a_SoftDeletedAt a = None) (AppsByOwner d ownerID);
              eff = map (\<lambda>a. EffectiveAppLimits limits (a_MemoryLimitMB a) (a_DiskLimitMB a) (a_CPUMilli a)) apps
          in Inr (sum_list (map fst eff), sum_list (map (\<lambda>e. fst (snd e)) eff)))"

definition checkPoolFits :: "db \<Rightarrow> App \<Rightarrow> int \<Rightarrow> int \<Rightarrow> unit res" where
  "checkPoolFits d a memoryLimitMB diskLimitMB =
     (if a_OwnerID a = '''' then Inr ()
      else case Store_User d (a_OwnerID a) of
             Inl e \<Rightarrow> Inl e
           | Inr owner \<Rightarrow>
               (let limits = User_Limits d owner
                in case poolReserved d (a_OwnerID a) (a_Name a) of
                     Inl e \<Rightarrow> Inl e
                   | Inr (usedMemory, usedDisk) \<Rightarrow>
                       (let (newMemory, newDisk, _) = EffectiveAppLimits limits memoryLimitMB diskLimitMB 0
                        in if l_MemoryPoolMB limits > 0 \<and> usedMemory + newMemory > l_MemoryPoolMB limits
                           then Inl (ErrText ''memory pool'')
                           else if l_DiskPoolMB limits > 0 \<and> usedDisk + newDisk > l_DiskPoolMB limits
                           then Inl (ErrText ''disk pool'')
                           else Inr ())))"

definition checkAppLimit :: "db \<Rightarrow> caller \<Rightarrow> unit res" where
  "checkAppLimit d c =
     (case cl_user c of
        None \<Rightarrow> Inr ()
      | Some u \<Rightarrow>
          let limits = User_Limits d u;
              count = AppCountByOwner d (u_ID u)
          in if count \<ge> l_AppLimit limits then Inl ErrLimitReached
             else case poolReserved d (u_ID u) '''' of
                    Inl e \<Rightarrow> Inl e
                  | Inr (usedMemory, usedDisk) \<Rightarrow>
                      if l_MemoryPoolMB limits > 0 \<and> usedMemory + l_MemoryMB limits > l_MemoryPoolMB limits
                      then Inl ErrLimitReached
                      else if l_DiskPoolMB limits > 0 \<and> usedDisk + l_DiskMB limits > l_DiskPoolMB limits
                      then Inl ErrLimitReached
                      else Inr ())"

definition callerMemoryLimit :: "db \<Rightarrow> caller \<Rightarrow> int" where
  "callerMemoryLimit d c = (case cl_user c of None \<Rightarrow> l_MemoryMB (Defaults d) | Some u \<Rightarrow> l_MemoryMB (User_Limits d u))"

definition callerDiskLimit :: "db \<Rightarrow> caller \<Rightarrow> int" where
  "callerDiskLimit d c = (case cl_user c of None \<Rightarrow> l_DiskMB (Defaults d) | Some u \<Rightarrow> l_DiskMB (User_Limits d u))"

section \<open>Who gets through the gates\<close>

lemma gate_if_Inr [simp]: "gate_if P x = (d, Inr c) \<longleftrightarrow> x = (d, Inr c) \<and> P c"
  by (cases x; cases "snd x") (auto simp: gate_if_def)

lemma authenticated_Inr:
  "authenticated hash mac origin_host cf now d r = (d', Inr c) \<longleftrightarrow>
     authenticate hash mac cf now d r = (d', Inr c) \<and> checkSameOrigin origin_host cf r c
     \<and> (cl_appScope c \<noteq> '''' \<longrightarrow> withinAppScope (rq_path r) (cl_appScope c))"
  by (auto simp: authenticated_def split: prod.splits sum.splits if_splits)

text \<open>Where a caller comes from: the socket's root peer, the configured admin token, an API token or a session.\<close>

lemma authenticate_sources:
  assumes "authenticate hash mac cf now d r = (d', Inr c)"
  obtains (root) "rq_peer r = Some 0" "cl_globalAdmin c" "cl_user c = None" "cl_appScope c = ''''"
  | (admin_token) "rq_header r ''Authorization'' = ''Bearer '' @ cf_AdminToken cf" "cf_AdminToken cf \<noteq> ''''" "cl_globalAdmin c"
      "cl_user c = None" "cl_appScope c = ''''"
  | (token) token u scope where "rq_header r ''Authorization'' = ''Bearer '' @ token"
      "UserAndScopeByToken hash (unix_ns now) d token = Inr (d', u, scope)" "cl_user c = u" "cl_appScope c = scope"
      "\<not> cl_globalAdmin c" "\<not> cl_viaCookie c"
  | (session) v uid u where "get_cookie r (cookieName cf ''hostit_session'') = Some v" "session_decode mac now v = Inr uid"
      "Store_User d uid = Inr u" "cl_user c = Some u" "cl_appScope c = ''''" "\<not> cl_globalAdmin c" "cl_viaCookie c"
proof -
  let ?h = "rq_header r ''Authorization''"
  have bearer: "?h = ''Bearer '' @ TrimPrefix ?h ''Bearer ''" if "TrimPrefix ?h ''Bearer '' \<noteq> ?h"
    using that by (auto simp: TrimPrefix_def HasPrefix_iff split: if_splits)
  consider "rq_peer r = Some 0"
    | "rq_peer r \<noteq> Some 0" "TrimPrefix ?h ''Bearer '' \<noteq> ''''" "TrimPrefix ?h ''Bearer '' \<noteq> ?h"
    | "rq_peer r \<noteq> Some 0" "TrimPrefix ?h ''Bearer '' = '''' \<or> TrimPrefix ?h ''Bearer '' = ?h"
    by blast
  then show ?thesis
  proof cases
    case 1
    then show ?thesis using assms root by (auto simp: authenticate_def)
  next
    case 2
    show ?thesis
    proof (cases "TrimPrefix ?h ''Bearer '' = cf_AdminToken cf")
      case True
      with 2 assms show ?thesis using admin_token bearer by (auto simp: authenticate_def Let_def)
    next
      case False
      with 2 assms show ?thesis
        using token[of "TrimPrefix ?h ''Bearer ''"] bearer by (auto simp: authenticate_def Let_def split: sum.splits prod.splits)
    qed
  next
    case 3
    then show ?thesis using assms session
      by (auto simp: authenticate_def Let_def split: sum.splits option.splits if_splits)
  qed
qed

lemma UserAndScopeByToken_user:
  assumes "UserAndScopeByToken hash now d token = Inr (d', Some u, scope)"
  shows "Store_User d (u_ID u) = Inr u" "u_Status u = StatusActive"
proof -
  show "u_Status u = StatusActive"
    using assms by (auto simp: UserAndScopeByToken_def split: sum.splits if_splits)
  have "\<exists>i. Store_User d i = Inr u"
    using assms by (auto simp: UserAndScopeByToken_def split: sum.splits if_splits)
  then obtain i where i: "Store_User d i = Inr u" by blast
  then have "u_ID u = i" by (auto simp: Store_User_def split: option.splits dest!: tbl_find_Some)
  with i show "Store_User d (u_ID u) = Inr u" by simp
qed

section \<open>Properties\<close>

text \<open>C10: nobody reaches an admin handler but root on the control socket, the bearer of the configured (non-empty) admin token, or a registered user whose
  row says admin and active, presented by an API token or a session cookie the server signed. No app-scoped token does, and a cookie does not on a
  state-changing request that the browser marks as coming from another site.\<close>

theorem requireAdmin_sound:
  assumes "requireAdmin hash mac origin_host cf now d r = (d', Inr c)"
  shows "cl_appScope c = '''' \<and>
    (rq_peer r = Some 0
     \<or> (rq_header r ''Authorization'' = ''Bearer '' @ cf_AdminToken cf \<and> cf_AdminToken cf \<noteq> '''')
     \<or> (\<exists>u. cl_user c = Some u \<and> Store_User d (u_ID u) = Inr u \<and> u_Role u = RoleAdmin \<and> u_Status u = StatusActive
          \<and> ((\<exists>token scope. rq_header r ''Authorization'' = ''Bearer '' @ token
                \<and> UserAndScopeByToken hash (unix_ns now) d token = Inr (d', Some u, scope))
             \<or> (\<exists>v. get_cookie r (cookieName cf ''hostit_session'') = Some v \<and> session_decode mac now v = Inr (u_ID u)
                \<and> (rq_method r \<in> {''GET'', ''HEAD'', ''OPTIONS''} \<or> rq_header r ''Sec-Fetch-Site'' \<in> {''same-origin'', ''none'', ''''})))))"
proof -
  have c: "authenticate hash mac cf now d r = (d', Inr c)" "checkSameOrigin origin_host cf r c" "cl_appScope c = ''''" "isAdmin c" "isActive c"
    using assms by (auto simp: requireAdmin_def requireAccount_def requireActive_def authenticated_Inr)
  from c(1) show ?thesis
  proof (cases rule: authenticate_sources)
    case root
    then show ?thesis by simp
  next
    case admin_token
    then show ?thesis by simp
  next
    case (token token u scope)
    from c(4) token obtain x where x: "u = Some x" "u_Role x = RoleAdmin" by (auto simp: isAdmin_def split: option.splits)
    with token have "UserAndScopeByToken hash (unix_ns now) d token = Inr (d', Some x, scope)" by simp
    with x token(1,3) UserAndScopeByToken_user[OF this] c(3) show ?thesis by auto
  next
    case (session v uid u)
    have u: "u_ID u = uid" using session(3) by (auto simp: Store_User_def split: option.splits dest!: tbl_find_Some)
    have "u_Role u = RoleAdmin" "u_Status u = StatusActive"
      using c(4,5) session by (auto simp: isAdmin_def isActive_def split: if_splits)
    moreover have "rq_method r \<in> {''GET'', ''HEAD'', ''OPTIONS''} \<or> rq_header r ''Sec-Fetch-Site'' \<in> {''same-origin'', ''none'', ''''}"
      using c(2) session(7) unfolding checkSameOrigin_def Let_def by (simp split: if_splits; blast)
    ultimately show ?thesis using session u by auto
  qed
qed

definition root_request :: request where
  "root_request = \<lparr>rq_peer = Some 0, rq_method = ''POST'', rq_host = '''', rq_path = ''/api/apps'', rq_tls = False,
     rq_header = (\<lambda>_. ''''), rq_cookies = []\<rparr>"

definition token_request :: request where
  "token_request = \<lparr>rq_peer = None, rq_method = ''GET'', rq_host = ''x'', rq_path = ''/api/apps/blog/files'', rq_tls = True,
     rq_header = (\<lambda>h. if h = ''Authorization'' then ''Bearer old'' else ''''), rq_cookies = []\<rparr>"

definition bare_config :: config where
  "bare_config = \<lparr>cf_AdminToken = ''s3cret'', cf_AdminEmails = [], cf_TLSOff = False, cf_BaseDomain = ''example.org'', cf_APIHost = '''',
     cf_AppListing = True, cf_TLSLetsEncrypt = True, cf_DNSProvider = ''route53'', cf_GoogleClientID = ''id'', cf_GoogleClientSecret = ''secret''\<rparr>"

theorem requireAdmin_sound_witness:
  "\<exists>d' c. requireAdmin (\<lambda>s. s) (\<lambda>s. s) (\<lambda>_. None) bare_config 0 solo_db root_request = (d', Inr c) \<and> cl_appScope c = ''''"
proof -
  obtain d' c where "requireAdmin (\<lambda>s. s) (\<lambda>s. s) (\<lambda>_. None) bare_config 0 solo_db root_request = (d', Inr c)"
    by (simp add: requireAdmin_def requireAccount_def requireActive_def authenticated_Inr authenticate_def root_request_def
        checkSameOrigin_def isActive_def isAdmin_def)
  with requireAdmin_sound[OF this] show ?thesis by blast
qed

text \<open>An app-scoped token stays inside its app. A request it authenticates goes to the info endpoint or below the app's own API path; since app names
  have no slash, the app named in the path is the token's app, never another one whose name merely starts the same; and no gate that wants an
  account lets it through.\<close>

lemma app_token_confined:
  assumes "authenticated hash mac origin_host cf now d r = (d', Inr c)" and "cl_appScope c \<noteq> ''''" and "CHR ''/'' \<notin> set (cl_appScope c)"
  shows "(rq_path r = ''/api/info'' \<or> (\<exists>rest. rq_path r = ''/api/apps/'' @ cl_appScope c @ rest \<and> (rest = '''' \<or> hd rest = CHR ''/'')))
    \<and> (\<forall>n rest. CHR ''/'' \<notin> set n \<and> rq_path r = ''/api/apps/'' @ n @ rest \<and> (rest = '''' \<or> hd rest = CHR ''/'') \<longrightarrow> n = cl_appScope c)
    \<and> \<not> cl_globalAdmin c \<and> \<not> cl_viaCookie c
    \<and> (\<forall>d'' c'. requireAccount hash mac origin_host cf now d r \<noteq> (d'', Inr c'))"
proof -
  have a: "authenticate hash mac cf now d r = (d', Inr c)" and w: "withinAppScope (rq_path r) (cl_appScope c)"
    using assms(1,2) by (simp_all add: authenticated_Inr)
  have path: "rq_path r = ''/api/info'' \<or> (\<exists>rest. rq_path r = ''/api/apps/'' @ cl_appScope c @ rest \<and> (rest = '''' \<or> hd rest = CHR ''/''))"
    using w by (auto simp: withinAppScope_def Let_def HasPrefix_iff split: if_splits)
  have "n = cl_appScope c"
    if n: "CHR ''/'' \<notin> set n" "rq_path r = ''/api/apps/'' @ n @ rest" "rest = '''' \<or> hd rest = CHR ''/''" for n rest
  proof -
    have "takeWhile (\<lambda>x. x \<noteq> CHR ''/'') (m @ rest') = m"
      if "CHR ''/'' \<notin> set m" "rest' = '''' \<or> hd rest' = CHR ''/''" for m rest'
      using that by (cases rest') (auto simp: takeWhile_append2 takeWhile_tail)
    note tw = this[OF n(1,3)] this[OF assms(3)]
    from path n(2) obtain rest' where "n @ rest = cl_appScope c @ rest'" "rest' = '''' \<or> hd rest' = CHR ''/''" by auto
    with tw show ?thesis by metis
  qed
  moreover have "\<not> cl_globalAdmin c" "\<not> cl_viaCookie c"
    using a assms(2) by (auto elim: authenticate_sources)
  moreover have "requireAccount hash mac origin_host cf now d r \<noteq> (d'', Inr c')" for d'' c'
    using assms(1,2) by (auto simp: requireAccount_def requireActive_def)
  ultimately show ?thesis using path by blast
qed

lemma app_token_confined_witness:
  "\<exists>d' c. authenticated (\<lambda>s. CHR ''#'' # s) (\<lambda>s. s) (\<lambda>_. None) bare_config 0 token_db token_request = (d', Inr c) \<and> cl_appScope c = ''blog''
     \<and> \<not> cl_globalAdmin c \<and> \<not> cl_viaCookie c"
proof -
  obtain t0 where tk: "TokenByHash token_db ''#old'' = Inr t0" and sc: "tk_UserID t0 = ''usr_1''" "tk_AppName t0 = ''blog''"
    by (simp add: TokenByHash_def token_db_def scanToken_def app_name_of_id_def solo_db_def plain_app_def)
  have us: "Store_User token_db ''usr_1'' = Inr plain_user" by (simp add: Store_User_def token_db_def solo_db_def plain_user_def)
  have tr: "rq_header token_request ''Authorization'' = ''Bearer old''" "TrimPrefix ''Bearer old'' ''Bearer '' = ''old''"
    "rq_peer token_request = None" by (simp_all add: token_request_def TrimPrefix_def HasPrefix_def)
  have su: "u_ID plain_user = ''usr_1''" "u_Status plain_user = StatusActive" by (simp_all add: plain_user_def)
  have ws: "withinAppScope (rq_path token_request) ''blog''" by (simp add: withinAppScope_def token_request_def HasPrefix_def)
  have au: "authenticate (\<lambda>s. CHR ''#'' # s) (\<lambda>s. s) bare_config 0 token_db token_request =
      (TouchToken (unix_ns 0) token_db (tk_ID t0),
       Inr \<lparr>cl_user = Some plain_user, cl_globalAdmin = False, cl_appScope = ''blog'', cl_viaCookie = False\<rparr>)"
    by (simp add: authenticate_def tr UserAndScopeByToken_def tk sc us su bare_config_def Let_def)
  obtain d' c where l: "authenticated (\<lambda>s. CHR ''#'' # s) (\<lambda>s. s) (\<lambda>_. None) bare_config 0 token_db token_request = (d', Inr c)" "cl_appScope c = ''blog''"
    by (simp add: authenticated_Inr au checkSameOrigin_def ws)
  show ?thesis using app_token_confined[OF l(1)] l by simp
qed

end
