(* ===== verification/App_Handlers.thy ===== *)
theory App_Handlers
  imports Auth
begin

text \<open>
  The handlers that change who owns, shares, sees and sizes an app: collaborators and transfer
  (\<open>control/server_handler_collaborators.go\<close>), viewers (\<open>control/server_handler_viewers.go\<close>), visibility and the
  gallery (\<open>control/server_handler_visibility.go\<close>, \<open>control/explore.go\<close>) and limits
  (\<open>control/server_handler_limits.go\<close>), each with the whole sequence of its effects and its activity-log entry.

  A handler takes the decoded request body (\<^term>\<open>None\<close> when decoding fails), returns the database it
  leaves and the HTTP status. The node's answer to the key push is the parameter \<open>set_keys\<close>; \<open>relay\<close> is the SSH relay's
  key line, empty when the relay is off; \<open>now\<close> is the clock in nanoseconds.
\<close>

type_synonym set_keys_fn = "string \<Rightarrow> string list \<Rightarrow> string list \<Rightarrow> unit res"

section \<open>Statuses and the activity log\<close>

definition writeUserError :: "err \<Rightarrow> nat" where
  "writeUserError e =
     (if e \<in> {ErrUserNotFound, ErrTokenNotFound, ErrKeyNotFound, ErrDomainNotFound} then 404
      else if e = ErrInvalid then 400
      else if e = ErrNotActive then 403
      else 500)"

definition writeAppError :: "err \<Rightarrow> nat" where
  "writeAppError e =
     (if e = ErrForbidden then 403
      else if e = ErrArchived then 409
      else if e = ErrPoweredOff then 409
      else if e = ErrAppNotFound then 404
      else if e = ErrAppExists then 409
      else if e = ErrInvalid then 400
      else if e = ErrLimitReached then 403
      else if e = ErrInvalidDomain then 400
      else if e = ErrAppDomainExists then 409
      else if e = ErrAppDomainNotFound then 404
      else if e = ErrNotExist then 404
      else writeUserError e)"

definition ownerIdentity :: "db \<Rightarrow> string \<Rightarrow> string \<times> string" where
  "ownerIdentity d ownerID =
     (if ownerID = '''' then ('''', '''')
      else case Store_User d ownerID of Inl _ \<Rightarrow> ('''', '''') | Inr u \<Rightarrow> (u_Email u, u_Name u))"

definition recordEvent :: "int \<Rightarrow> db \<Rightarrow> string \<Rightarrow> string \<Rightarrow> string \<Rightarrow> string \<Rightarrow> string \<Rightarrow> db" where
  "recordEvent now d appName actor level action detail =
     AddEvent d \<lparr>e_ID = 0, e_AppName = appName, e_CreatedAt = Some (unix_ns now), e_Actor = actor,
                 e_Level = level, e_Action = action, e_Detail = detail\<rparr>"

definition logAction :: "int \<Rightarrow> db \<Rightarrow> caller \<Rightarrow> string \<Rightarrow> string \<Rightarrow> string \<Rightarrow> db" where
  "logAction now d c appName action detail =
     recordEvent now d appName (fst (ownerIdentity d (userID c))) ''info'' action detail"

section \<open>Keys of an app\<close>

definition appProfileKeys :: "db \<Rightarrow> App \<Rightarrow> string list" where
  "appProfileKeys d a =
     KeyStrings d (a_OwnerID a) @ concat (map (\<lambda>u. KeyStrings d (u_ID u)) (AppCollaborators d (a_ID a)))"

definition appendRelayKey :: "string \<Rightarrow> string \<Rightarrow> string list \<Rightarrow> string list" where
  "appendRelayKey relay host keys =
     (if host = '''' \<or> host = HostLocal then keys else if relay = '''' then keys else keys @ [relay])"

definition resyncAppKeys :: "set_keys_fn \<Rightarrow> string \<Rightarrow> db \<Rightarrow> App \<Rightarrow> unit res" where
  "resyncAppKeys set_keys relay d a =
     set_keys (a_Name a) (AppKeys d (a_Name a)) (appendRelayKey relay (a_Host a) (appProfileKeys d a))"

section \<open>Collaborators\<close>

definition grantableUser :: "db \<Rightarrow> string \<Rightarrow> User res" where
  "grantableUser d email =
     (case UserByEmail d email of
        Inl _ \<Rightarrow> Inl (ErrText ''has not signed in yet'')
      | Inr u \<Rightarrow>
          if u_Status u = StatusActive then Inr u
          else if u_Status u = StatusPending then Inl (ErrText ''waiting for approval'')
          else Inl (ErrText ''account is suspended''))"

definition handleCollaboratorsAdd ::
  "set_keys_fn \<Rightarrow> string \<Rightarrow> int \<Rightarrow> db \<Rightarrow> caller \<Rightarrow> string \<Rightarrow> string option \<Rightarrow> db \<times> nat" where
  "handleCollaboratorsAdd set_keys relay now d c name body =
     (case ownerApp d c name of
        Inl e \<Rightarrow> (d, writeAppError e)
      | Inr a \<Rightarrow>
          (case body of
             None \<Rightarrow> (d, 400)
           | Some email \<Rightarrow>
               (case grantableUser d email of
                  Inl _ \<Rightarrow> (d, 400)
                | Inr u \<Rightarrow>
                    if u_ID u = a_OwnerID a then (d, 400)
                    else
                      let d1 = AddAppCollaborator (unix_ns now) d (a_ID a) (u_ID u);
                          d2 = RemoveAppViewer d1 (a_ID a) (u_ID u)
                      in (case resyncAppKeys set_keys relay d2 a of
                            Inl e \<Rightarrow> (d2, writeAppError e)
                          | Inr _ \<Rightarrow>
                              (logAction now d2 c (a_Name a) ''collaborator-added'' (''Added collaborator '' @ u_Email u), 200)))))"

definition handleCollaboratorsRemove ::
  "set_keys_fn \<Rightarrow> string \<Rightarrow> int \<Rightarrow> db \<Rightarrow> caller \<Rightarrow> string \<Rightarrow> string \<Rightarrow> db \<times> nat" where
  "handleCollaboratorsRemove set_keys relay now d c name uid =
     (case ownedApp d c name of
        Inl e \<Rightarrow> (d, writeAppError e)
      | Inr a \<Rightarrow>
          if \<not> isAdmin c \<and> a_OwnerID a \<noteq> userID c \<and> uid \<noteq> userID c then (d, 403)
          else
            let d1 = RemoveAppCollaborator d (a_ID a) uid
            in (case resyncAppKeys set_keys relay d1 a of
                  Inl e \<Rightarrow> (d1, writeAppError e)
                | Inr _ \<Rightarrow> (logAction now d1 c (a_Name a) ''collaborator-removed'' ''Removed a collaborator'', 200)))"

definition handleAppsTransfer ::
  "set_keys_fn \<Rightarrow> string \<Rightarrow> int \<Rightarrow> db \<Rightarrow> caller \<Rightarrow> string \<Rightarrow> string option \<Rightarrow> db \<times> nat" where
  "handleAppsTransfer set_keys relay now d c name body =
     (case ownerApp d c name of
        Inl e \<Rightarrow> (d, writeAppError e)
      | Inr a \<Rightarrow>
          (case body of
             None \<Rightarrow> (d, 400)
           | Some email \<Rightarrow>
               (case UserByEmail d email of
                  Inl _ \<Rightarrow> (d, 400)
                | Inr u \<Rightarrow>
                    if u_Status u \<noteq> StatusActive then (d, 400)
                    else if u_ID u = a_OwnerID a then (d, 400)
                    else
                      let limits = User_Limits d u
                      in if l_AppLimit limits > 0 \<and> AppCountByOwner d (u_ID u) \<ge> l_AppLimit limits then (d, 403)
                         else
                           let oldOwner = a_OwnerID a;
                               d1 = SetAppOwner d (a_Name a) (u_ID u);
                               d2 = RemoveAppCollaborator d1 (a_ID a) (u_ID u);
                               d3 = (if oldOwner \<noteq> '''' then AddAppCollaborator (unix_ns now) d2 (a_ID a) oldOwner else d2);
                               a' = a\<lparr>a_OwnerID := u_ID u\<rparr>
                           in (case resyncAppKeys set_keys relay d3 a' of
                                 Inl e \<Rightarrow> (d3, writeAppError e)
                               | Inr _ \<Rightarrow>
                                   (logAction now d3 c (a_Name a) ''transferred'' (''Transferred ownership to '' @ u_Email u), 200)))))"

section \<open>Viewers\<close>

definition handleViewersAdd :: "int \<Rightarrow> db \<Rightarrow> caller \<Rightarrow> string \<Rightarrow> string option \<Rightarrow> db \<times> nat" where
  "handleViewersAdd now d c name body =
     (case ownerApp d c name of
        Inl e \<Rightarrow> (d, writeAppError e)
      | Inr a \<Rightarrow>
          (case body of
             None \<Rightarrow> (d, 400)
           | Some email0 \<Rightarrow>
               let email = ToLower (TrimSpace email0)
               in if CHR ''@'' \<notin> set email then (d, 400)
                  else (case UserByEmail d email of
                          Inl _ \<Rightarrow>
                            (logAction now (AddPendingViewer (unix_ns now) d (a_ID a) email) c (a_Name a) ''viewer-invited''
                               (''Invited '' @ email @ '' (gets access when they sign in)''), 200)
                        | Inr _ \<Rightarrow>
                            (case grantableUser d email of
                               Inl _ \<Rightarrow> (d, 400)
                             | Inr u \<Rightarrow>
                                 if u_ID u = a_OwnerID a then (d, 400)
                                 else if IsAppCollaborator d (a_ID a) (u_ID u) then (d, 400)
                                 else (logAction now (AddAppViewer (unix_ns now) d (a_ID a) (u_ID u)) c (a_Name a) ''viewer-added''
                                         (''Gave '' @ u_Email u @ '' access''), 200)))))"

definition handleViewersRemove :: "int \<Rightarrow> db \<Rightarrow> caller \<Rightarrow> string \<Rightarrow> string \<Rightarrow> db \<times> nat" where
  "handleViewersRemove now d c name i =
     (case ownerApp d c name of
        Inl e \<Rightarrow> (d, writeAppError e)
      | Inr a \<Rightarrow>
          let d1 = (if CHR ''@'' \<in> set i then RemovePendingViewer d (a_ID a) i else RemoveAppViewer d (a_ID a) i)
          in (logAction now d1 c (a_Name a) ''viewer-removed'' ''Removed someone's access'', 200))"

text \<open>The rows of \<open>handleViewersList\<close>: id, email and the pending mark.\<close>

definition handleViewersList :: "db \<Rightarrow> caller \<Rightarrow> string \<Rightarrow> (nat + (string \<times> string \<times> bool) list)" where
  "handleViewersList d c name =
     (case ownedApp d c name of
        Inl e \<Rightarrow> Inl (writeAppError e)
      | Inr a \<Rightarrow>
          Inr (map (\<lambda>u. (u_ID u, u_Email u, False)) (AppViewers d (a_ID a)) @
               map (\<lambda>e. (e, e, True)) (PendingViewers d (a_ID a))))"

section \<open>Visibility and the gallery\<close>

definition appListingEnabled :: "config \<Rightarrow> db \<Rightarrow> bool" where
  "appListingEnabled cf d =
     (let v = Setting d ''app_listing'' in if v \<noteq> '''' then v = ''true'' else cf_AppListing cf)"

definition visibilityAction :: "bool \<Rightarrow> string" where
  "visibilityAction private = (if private then ''App made private'' else ''App made public'')"

definition handleAppsSetVisibility ::
  "config \<Rightarrow> int \<Rightarrow> db \<Rightarrow> caller \<Rightarrow> string \<Rightarrow> (bool \<times> bool) option \<Rightarrow> db \<times> nat" where
  "handleAppsSetVisibility cf now d c name body =
     (case body of
        None \<Rightarrow> (d, 400)
      | Some (private, listed0) \<Rightarrow>
          (case ownerApp d c name of
             Inl e \<Rightarrow> (d, writeAppError e)
           | Inr a \<Rightarrow>
               let d1 = SetAppPrivate d (a_Name a) private;
                   listed = (listed0 \<and> \<not> private \<and> appListingEnabled cf d1)
               in (case SetAppListed d1 (a_Name a) listed of
                     Inl e \<Rightarrow> (d1, writeAppError e)
                   | Inr d2 \<Rightarrow> (logAction now d2 c (a_Name a) ''visibility'' (visibilityAction private), 200))))"

definition listedAction :: "bool \<Rightarrow> string" where
  "listedAction listed = (if listed then ''App listed on the gallery'' else ''App removed from the gallery'')"

definition handleAppsSetListed ::
  "config \<Rightarrow> int \<Rightarrow> db \<Rightarrow> caller \<Rightarrow> string \<Rightarrow> bool option \<Rightarrow> db \<times> nat" where
  "handleAppsSetListed cf now d c name body =
     (case body of
        None \<Rightarrow> (d, 400)
      | Some listed \<Rightarrow>
          (case ownerApp d c name of
             Inl e \<Rightarrow> (d, writeAppError e)
           | Inr a \<Rightarrow>
               if listed \<and> \<not> appListingEnabled cf d then (d, 403)
               else if listed \<and> a_Private a then (d, 400)
               else (case SetAppListed d (a_Name a) listed of
                       Inl e \<Rightarrow> (d, writeAppError e)
                     | Inr d1 \<Rightarrow> (logAction now d1 c (a_Name a) ''listed'' (listedAction listed), 200))))"

text \<open>\<open>handleExplore\<close>: whether the gallery is on, and the names it shows.\<close>

definition handleExplore :: "config \<Rightarrow> db \<Rightarrow> bool \<times> string list" where
  "handleExplore cf d =
     (if \<not> appListingEnabled cf d then (False, [])
      else (True, map a_Name (filter (\<lambda>a. \<not> (a_Private a \<or> \<not> a_Listed a \<or> a_SoftDeletedAt a \<noteq> None)) (Apps d))))"

section \<open>Limits\<close>

text \<open>The local closure \<open>patch\<close> of \<open>handleAppLimitsUpdate\<close>; an error is a bad request.\<close>

definition patch_limit :: "int \<Rightarrow> int \<Rightarrow> int \<Rightarrow> int option" where
  "patch_limit current requested floor =
     (if requested = 0 then Some current
      else if requested = - 1 then Some 0
      else if requested < floor then None
      else if requested > 2 ^ 30 then None
      else Some requested)"

record apiLimitsPatch =
  lp_MemoryMB :: int
  lp_DiskMB :: int
  lp_CPUMilli :: int

text \<open>The handler up to the release of its lock: the checks and the write to the registry. The whole handler, which then records the
  effective limits in the manager, is in \<open>App_Lifecycle\<close>.\<close>

definition limits_update :: "db \<Rightarrow> caller \<Rightarrow> string \<Rightarrow> apiLimitsPatch option \<Rightarrow> db \<times> nat" where
  "limits_update d c name body =
     (if cl_appScope c \<noteq> '''' then (d, 403)
      else case ownerApp d c name of
             Inl e \<Rightarrow> (d, writeAppError e)
           | Inr a \<Rightarrow>
               (case body of
                  None \<Rightarrow> (d, 400)
                | Some req \<Rightarrow>
                    (case (patch_limit (a_MemoryLimitMB a) (lp_MemoryMB req) 64,
                           patch_limit (a_DiskLimitMB a) (lp_DiskMB req) 256,
                           patch_limit (a_CPUMilli a) (lp_CPUMilli req) 100) of
                       (Some memoryMB, Some diskMB, Some cpuMilli) \<Rightarrow>
                         if lp_CPUMilli req \<noteq> 0 \<and> \<not> isAdmin c then (d, 403)
                         else (case checkPoolFits d a memoryMB diskMB of
                                 Inl e \<Rightarrow> (d, 403)
                               | Inr _ \<Rightarrow>
                                   (case UpdateAppLimits d (a_Name a) memoryMB diskMB cpuMilli of
                                      Inl e \<Rightarrow> (d, writeAppError e)
                                    | Inr d1 \<Rightarrow> (d1, 200)))
                     | _ \<Rightarrow> (d, 400))))"

definition EffectiveDiskCapMB :: "int \<Rightarrow> int" where
  "EffectiveDiskCapMB diskMB = (if diskMB \<le> 0 then 2048 else diskMB)"

definition appLimits :: "db \<Rightarrow> string \<Rightarrow> int \<times> int \<times> int" where
  "appLimits d name =
     (case Store_App d name of
        Inl _ \<Rightarrow> (0, 0, 0)
      | Inr a \<Rightarrow>
          let limits = (if a_OwnerID a \<noteq> '''' then
                          (case Store_User d (a_OwnerID a) of Inl _ \<Rightarrow> Defaults d | Inr owner \<Rightarrow> User_Limits d owner)
                        else Defaults d);
              (memoryMB, diskMB, cpuMilli) = EffectiveAppLimits limits (a_MemoryLimitMB a) (a_DiskLimitMB a) (a_CPUMilli a)
          in (memoryMB, EffectiveDiskCapMB diskMB, cpuMilli))"

section \<open>The pool holds\<close>

text \<open>What an owner's live apps add up to: memory and disk, each app at its own override or the owner's default.\<close>

definition pool_total :: "db \<Rightarrow> Limits \<Rightarrow> string \<Rightarrow> int \<times> int" where
  "pool_total d l owner =
     (let live = filter (\<lambda>a. a_OwnerID a = owner \<and> a_SoftDeletedAt a = None) (app_tbl d)
      in (\<Sum>a\<leftarrow>live. if a_MemoryLimitMB a > 0 then a_MemoryLimitMB a else l_MemoryMB l,
          \<Sum>a\<leftarrow>live. if a_DiskLimitMB a > 0 then a_DiskLimitMB a else l_DiskMB l))"

lemma sum_list_sort_key: "sum_list (map f (sort_key k xs)) = (sum_list (map f xs) :: int)"
  by (metis mset_map mset_sort sum_mset_sum_list)

lemma filter_sort_key: "filter P (sort_key k xs) = sort_key k (filter P xs)"
  by (rule filter_sort)

lemma sum_update_one:
  assumes "distinct (map a_Name t)" "a \<in> set t" "P a" "\<And>x. P (g x) = P x"
  shows "(\<Sum>x\<leftarrow>filter P (tbl_update (\<lambda>x. a_Name x = a_Name a) g t). f x) =
         f (g a) + (\<Sum>x\<leftarrow>filter (\<lambda>x. a_Name x \<noteq> a_Name a \<and> P x) t. f x :: int)"
  using assms(1,2)
proof (induction t)
  case (Cons b t)
  show ?case
  proof (cases "a_Name b = a_Name a")
    case True
    then have "b = a" using Cons.prems by (auto simp: image_iff)
    have other: "\<forall>x \<in> set t. a_Name x \<noteq> a_Name a" using Cons.prems(1) True by (force simp: image_iff)
    then have "tbl_update (\<lambda>x. a_Name x = a_Name a) g t = t" by (auto simp: tbl_update_def intro: map_idI)
    moreover have "filter (\<lambda>x. a_Name x \<noteq> a_Name a \<and> P x) t = filter P t" using other by (auto intro: filter_cong)
    ultimately show ?thesis using \<open>b = a\<close> assms(3,4) by (simp add: tbl_update_def)
  next
    case False
    then have "a \<in> set t" using Cons.prems(2) by auto
    with Cons.IH Cons.prems(1) False show ?thesis by (simp add: tbl_update_def)
  qed
qed simp

lemma ownerApp_Inr:
  assumes "ownerApp d c name = Inr a"
  shows "Store_App d name = Inr a" "a_SoftDeletedAt a = None" "isAdmin c \<or> a_OwnerID a = userID c"
  using assms by (auto simp: ownerApp_def ownedApp_def split: sum.splits if_splits)

lemma Store_App_mem: "Store_App d n = Inr a \<Longrightarrow> a \<in> set (app_tbl d) \<and> a_Name a = n"
  by (auto simp: Store_App_def split: option.splits dest!: tbl_find_Some)

lemma limits_update_200:
  assumes "limits_update d c name body = (d', 200)"
  obtains a req mem disk cpu where "ownerApp d c name = Inr a" "body = Some req" "checkPoolFits d a mem disk = Inr ()"
    "patch_limit (a_MemoryLimitMB a) (lp_MemoryMB req) 64 = Some mem" "patch_limit (a_DiskLimitMB a) (lp_DiskMB req) 256 = Some disk"
    "patch_limit (a_CPUMilli a) (lp_CPUMilli req) 100 = Some cpu" "lp_CPUMilli req = 0 \<or> isAdmin c"
    "d' = d\<lparr>app_tbl := tbl_update (\<lambda>x. a_Name x = a_Name a)
            (\<lambda>x. x\<lparr>a_MemoryLimitMB := mem, a_DiskLimitMB := disk, a_CPUMilli := cpu\<rparr>) (app_tbl d)\<rparr>"
  using assms unfolding limits_update_def
  by (auto simp: UpdateAppLimits_def upd_app_checked_def upd_app_def checkAffected_def writeAppError_def writeUserError_def
      split: sum.splits option.splits if_splits)

lemma limits_update_error: "limits_update d c name body = (d', s) \<Longrightarrow> s \<noteq> 200 \<Longrightarrow> d' = d"
  unfolding limits_update_def by (auto split: sum.splits option.splits if_splits)

lemma limits_update_pool:
  assumes "db_unique d" "limits_update d c name body = (d', 200)" "ownerApp d c name = Inr a" "a_OwnerID a \<noteq> ''''"
    and "Store_User d (a_OwnerID a) = Inr owner"
  shows "l_MemoryPoolMB (User_Limits d owner) > 0 \<longrightarrow>
           fst (pool_total d' (User_Limits d' owner) (a_OwnerID a)) \<le> l_MemoryPoolMB (User_Limits d owner)"
    and "l_DiskPoolMB (User_Limits d owner) > 0 \<longrightarrow>
           snd (pool_total d' (User_Limits d' owner) (a_OwnerID a)) \<le> l_DiskPoolMB (User_Limits d owner)"
proof -
  let ?l = "User_Limits d owner" and ?P = "\<lambda>x. a_OwnerID x = a_OwnerID a \<and> a_SoftDeletedAt x = None"
  obtain mem disk cpu where p: "checkPoolFits d a mem disk = Inr ()"
    "d' = d\<lparr>app_tbl := tbl_update (\<lambda>x. a_Name x = a_Name a)
            (\<lambda>x. x\<lparr>a_MemoryLimitMB := mem, a_DiskLimitMB := disk, a_CPUMilli := cpu\<rparr>) (app_tbl d)\<rparr>"
  proof (rule limits_update_200[OF assms(2)])
    fix b req mem disk cpu
    assume b: "ownerApp d c name = Inr b" "checkPoolFits d b mem disk = Inr ()" "d' = d\<lparr>app_tbl := tbl_update (\<lambda>x. a_Name x = a_Name b)
            (\<lambda>x. x\<lparr>a_MemoryLimitMB := mem, a_DiskLimitMB := disk, a_CPUMilli := cpu\<rparr>) (app_tbl d)\<rparr>"
    then have "b = a" using assms(3) by simp
    with b(2,3) show thesis using that by blast
  qed
  have l: "User_Limits d' owner = ?l"
    unfolding p(2) by (simp add: User_Limits_def Defaults_def Settings_def)
  have a: "a \<in> set (app_tbl d)" "?P a" using ownerApp_Inr[OF assms(3)] Store_App_mem[of d name a] by auto
  have dist: "distinct (map a_Name (app_tbl d))"
    using db_uniqueD(1)[OF assms(1)] by (rule tbl_unique_distinct) (simp add: app_conflict_def)
  note one = sum_update_one[OF dist a(1), of ?P, OF a(2)]
  have tot: "pool_total d' ?l (a_OwnerID a) =
      ((if mem > 0 then mem else l_MemoryMB ?l) +
         (\<Sum>x\<leftarrow>filter (\<lambda>x. a_Name x \<noteq> a_Name a \<and> ?P x) (app_tbl d). if a_MemoryLimitMB x > 0 then a_MemoryLimitMB x else l_MemoryMB ?l),
       (if disk > 0 then disk else l_DiskMB ?l) +
         (\<Sum>x\<leftarrow>filter (\<lambda>x. a_Name x \<noteq> a_Name a \<and> ?P x) (app_tbl d). if a_DiskLimitMB x > 0 then a_DiskLimitMB x else l_DiskMB ?l))"
    unfolding pool_total_def Let_def p(2) by (simp add: one)
  have res: "poolReserved d (a_OwnerID a) (a_Name a) =
      Inr (\<Sum>x\<leftarrow>filter (\<lambda>x. a_Name x \<noteq> a_Name a \<and> ?P x) (app_tbl d). if a_MemoryLimitMB x > 0 then a_MemoryLimitMB x else l_MemoryMB ?l,
           \<Sum>x\<leftarrow>filter (\<lambda>x. a_Name x \<noteq> a_Name a \<and> ?P x) (app_tbl d). if a_DiskLimitMB x > 0 then a_DiskLimitMB x else l_DiskMB ?l)"
    using assms(5)
    by (simp add: poolReserved_def Let_def AppsByOwner_def filter_sort_key conj_ac comp_def sum_list_sort_key EffectiveAppLimits_def)
  have fits: "(l_MemoryPoolMB ?l > 0 \<longrightarrow> fst (pool_total d' ?l (a_OwnerID a)) \<le> l_MemoryPoolMB ?l)
      \<and> (l_DiskPoolMB ?l > 0 \<longrightarrow> snd (pool_total d' ?l (a_OwnerID a)) \<le> l_DiskPoolMB ?l)"
    using p(1) assms(4,5) res unfolding tot checkPoolFits_def EffectiveAppLimits_def
    by (auto simp: Let_def split: if_splits)
  then show "l_MemoryPoolMB ?l > 0 \<longrightarrow> fst (pool_total d' (User_Limits d' owner) (a_OwnerID a)) \<le> l_MemoryPoolMB ?l"
    and "l_DiskPoolMB ?l > 0 \<longrightarrow> snd (pool_total d' (User_Limits d' owner) (a_OwnerID a)) \<le> l_DiskPoolMB ?l"
    unfolding l by blast+
qed

section \<open>Handlers and the access tables\<close>

lemma logAction_sel [simp]:
  "app_tbl (logAction now d c app action detail) = app_tbl d"
  "user_tbl (logAction now d c app action detail) = user_tbl d"
  "app_collaborator_tbl (logAction now d c app action detail) = app_collaborator_tbl d"
  "app_viewer_tbl (logAction now d c app action detail) = app_viewer_tbl d"
  "pending_viewer_tbl (logAction now d c app action detail) = pending_viewer_tbl d"
  "app_connection_tbl (logAction now d c app action detail) = app_connection_tbl d"
  "token_tbl (logAction now d c app action detail) = token_tbl d"
  by (simp_all add: logAction_def recordEvent_def AddEvent_def Let_def)

lemma writeAppError_not_200 [simp]: "writeAppError e \<noteq> 200" "200 \<noteq> writeAppError e"
  by (auto simp: writeAppError_def writeUserError_def)

lemma IsAppCollaborator_cong: "app_collaborator_tbl d' = app_collaborator_tbl d \<Longrightarrow> IsAppCollaborator d' = IsAppCollaborator d"
  by (intro ext) (simp add: IsAppCollaborator_def)

lemma handleAppsTransfer_200:
  assumes "handleAppsTransfer set_keys relay now d c name body = (d', 200)"
  obtains a email u where "ownerApp d c name = Inr a" "body = Some email" "UserByEmail d email = Inr u" "u_Status u = StatusActive"
    "u_ID u \<noteq> a_OwnerID a" "l_AppLimit (User_Limits d u) \<le> 0 \<or> AppCountByOwner d (u_ID u) < l_AppLimit (User_Limits d u)"
    "app_tbl d' = app_tbl (SetAppOwner d (a_Name a) (u_ID u))"
    "app_connection_tbl d' = app_connection_tbl (SetAppOwner d (a_Name a) (u_ID u))"
    "app_collaborator_tbl d' = app_collaborator_tbl
       (let d2 = RemoveAppCollaborator (SetAppOwner d (a_Name a) (u_ID u)) (a_ID a) (u_ID u)
        in if a_OwnerID a \<noteq> '''' then AddAppCollaborator (unix_ns now) d2 (a_ID a) (a_OwnerID a) else d2)"
    "token_tbl d' = token_tbl d" "app_viewer_tbl d' = app_viewer_tbl d"
  using assms unfolding handleAppsTransfer_def
  by (force simp: Let_def SetAppOwner_def upd_app_def RemoveAppCollaborator_def AddAppCollaborator_def
      split: sum.splits option.splits if_splits)

text \<open>A transfer that reports success has moved the app: the recipient is an active, registered user and owns it now, the previous owner is left as a
  collaborator and the recipient is not one any more, every connection the previous owner lent the app is taken back, and no other app has a
  new owner.\<close>

lemma handleAppsTransfer_moves:
  assumes "db_unique d" and "handleAppsTransfer set_keys relay now d c name body = (d', 200)"
  shows "\<exists>a u. ownerApp d c name = Inr a \<and> u \<in> set (user_tbl d) \<and> u_Status u = StatusActive
    \<and> Store_App d' name = Inr (a\<lparr>a_OwnerID := u_ID u\<rparr>)
    \<and> (\<forall>n. n \<noteq> name \<longrightarrow> Store_App d' n = Store_App d n)
    \<and> (a_OwnerID a \<noteq> '''' \<longrightarrow> IsAppCollaborator d' (a_ID a) (a_OwnerID a)) \<and> \<not> IsAppCollaborator d' (a_ID a) (u_ID u)
    \<and> (a_ID a \<noteq> '''' \<longrightarrow> (\<forall>g \<in> set (app_connection_tbl d'). g_app_id g \<noteq> a_ID a))"
proof -
  obtain a email u where t: "ownerApp d c name = Inr a" "UserByEmail d email = Inr u" "u_Status u = StatusActive" "u_ID u \<noteq> a_OwnerID a"
    "app_tbl d' = app_tbl (SetAppOwner d (a_Name a) (u_ID u))"
    "app_connection_tbl d' = app_connection_tbl (SetAppOwner d (a_Name a) (u_ID u))"
    "app_collaborator_tbl d' = app_collaborator_tbl
       (let d2 = RemoveAppCollaborator (SetAppOwner d (a_Name a) (u_ID u)) (a_ID a) (u_ID u)
        in if a_OwnerID a \<noteq> '''' then AddAppCollaborator (unix_ns now) d2 (a_ID a) (a_OwnerID a) else d2)"
    by (rule handleAppsTransfer_200[OF assms(2)]) (rule that)
  have a: "Store_App d name = Inr a" "a_Name a = name" "a \<in> set (app_tbl d)" using ownerApp_Inr(1)[OF t(1)] Store_App_mem by auto
  have tbl: "app_tbl d' = tbl_update (\<lambda>x. a_Name x = name) (\<lambda>x. x\<lparr>a_OwnerID := u_ID u\<rparr>) (app_tbl d)"
    using t(5) a(2) by (simp add: SetAppOwner_def Let_def upd_app_def)
  have look: "Store_App d' n = (case Store_App d n of Inl e \<Rightarrow> Inl e | Inr x \<Rightarrow> Inr (if a_Name x = name then x\<lparr>a_OwnerID := u_ID u\<rparr> else x))" for n
    unfolding Store_App_def tbl by (subst tbl_find_tbl_update) (auto split: option.splits)
  have "Store_App d' name = Inr (a\<lparr>a_OwnerID := u_ID u\<rparr>)" using look[of name] a by simp
  moreover have "Store_App d' n = Store_App d n" if "n \<noteq> name" for n
    using look[of n] that Store_App_mem[of d n] by (auto split: sum.splits)
  moreover have "(a_OwnerID a \<noteq> '''' \<longrightarrow> IsAppCollaborator d' (a_ID a) (a_OwnerID a)) \<and> \<not> IsAppCollaborator d' (a_ID a) (u_ID u)"
    unfolding IsAppCollaborator_cong[OF t(7)] using t(4) by (auto simp: Let_def collab.held_grant collab.held_revoke)
  moreover have "\<forall>g \<in> set (app_connection_tbl d'). g_app_id g \<noteq> a_ID a" if "a_ID a \<noteq> ''''"
  proof -
    have "app_id_of d name = Some (a_ID a)" using that a assms(1) by (auto simp: app_id_of_iff)
    then show ?thesis using t(6) a(2) by (auto simp: SetAppOwner_def Let_def upd_app_def)
  qed
  moreover have "u \<in> set (user_tbl d)" using t(2) assms(1) by (simp add: UserByEmail_Inr)
  ultimately show ?thesis using t(1,3) by blast
qed

text \<open>The owner of the sample app, signed in.\<close>

definition owner_caller :: caller where
  "owner_caller = \<lparr>cl_user = Some plain_user, cl_globalAdmin = False, cl_appScope = '''', cl_viaCookie = False\<rparr>"

text \<open>The second person of this registry is a viewer: an account that may not have apps.\<close>

definition viewer_user :: User where
  "viewer_user = second_user\<lparr>u_Role := RoleViewer\<rparr>"

definition viewer_db :: db where
  "viewer_db = empty_db\<lparr>user_tbl := [plain_user, viewer_user], app_tbl := [plain_app]\<rparr>"

lemma viewer_db_unique: "db_unique viewer_db"
  by (simp add: db_unique_def viewer_db_def empty_db_def tbl_unique_def conflict_defs sample_defs viewer_user_def)

lemma ownerApp_sample: "ownerApp viewer_db owner_caller ''blog'' = Inr plain_app"
  by (simp add: ownerApp_def ownedApp_def Store_App_def viewer_db_def owner_caller_def isAdmin_def userID_def plain_app_def plain_user_def)

lemma transfer_to_viewer_sample:
  "\<exists>d'. handleAppsTransfer (\<lambda>_ _ _. Inr ()) '''' 0 viewer_db owner_caller ''blog'' (Some ''bob@example.org'') = (d', 200)"
proof -
  have u: "UserByEmail viewer_db ''bob@example.org'' = Inr viewer_user"
    by (simp add: UserByEmail_def viewer_db_def viewer_user_def second_user_def plain_user_def)
  have "u_Status viewer_user = StatusActive" "u_ID viewer_user = ''usr_2''" "a_OwnerID plain_app = ''usr_1''"
    by (simp_all add: viewer_user_def second_user_def plain_user_def plain_app_def)
  moreover have "l_AppLimit (User_Limits viewer_db viewer_user) = 0" by (rule Limits_viewer) (simp add: viewer_user_def)
  ultimately show ?thesis
    unfolding handleAppsTransfer_def by (simp add: ownerApp_sample u resyncAppKeys_def Let_def)
qed

lemma handleAppsTransfer_moves_witness:
  "\<exists>d'. handleAppsTransfer (\<lambda>_ _ _. Inr ()) '''' 0 viewer_db owner_caller ''blog'' (Some ''bob@example.org'') = (d', 200)
     \<and> IsAppCollaborator d' ''app_1'' ''usr_1''"
proof -
  from transfer_to_viewer_sample obtain d' where
    d': "handleAppsTransfer (\<lambda>_ _ _. Inr ()) '''' 0 viewer_db owner_caller ''blog'' (Some ''bob@example.org'') = (d', 200)" by blast
  from handleAppsTransfer_moves[OF viewer_db_unique d'] ownerApp_sample d' show ?thesis
    by (auto simp: plain_app_def)
qed

text \<open>The app limit is no protection against a transfer to a viewer. Viewers may not have apps: their limit is always 0 and creating one is refused. But
  a transfer reads a limit of 0 as no limit, so the owner of an app can hand it to any active viewer, who then owns it.\<close>

lemma transfer_to_viewer_succeeds:
  "\<exists>d'. u_Role viewer_user = RoleViewer
     \<and> checkAppLimit viewer_db \<lparr>cl_user = Some viewer_user, cl_globalAdmin = False, cl_appScope = '''', cl_viaCookie = False\<rparr> = Inl ErrLimitReached
     \<and> handleAppsTransfer (\<lambda>_ _ _. Inr ()) '''' 0 viewer_db owner_caller ''blog'' (Some ''bob@example.org'') = (d', 200)"
proof -
  have role: "u_Role viewer_user = RoleViewer" by (simp add: viewer_user_def)
  moreover have "0 \<le> AppCountByOwner viewer_db (u_ID viewer_user)" by (simp add: AppCountByOwner_def)
  ultimately have "checkAppLimit viewer_db \<lparr>cl_user = Some viewer_user, cl_globalAdmin = False, cl_appScope = '''', cl_viaCookie = False\<rparr> = Inl ErrLimitReached"
    by (simp add: checkAppLimit_def Limits_viewer)
  with role transfer_to_viewer_sample show ?thesis by blast
qed

section \<open>The gallery\<close>

text \<open>What the gallery relies on: a listed app is not private.\<close>

definition gallery_ok :: "db \<Rightarrow> bool" where
  "gallery_ok d \<longleftrightarrow> (\<forall>a \<in> set (app_tbl d). a_Listed a \<longrightarrow> \<not> a_Private a)"

lemma SetAppListed_ok:
  "a \<in> set (app_tbl d) \<Longrightarrow> a_Name a = n \<Longrightarrow> SetAppListed d n l = Inr (upd_app d n (\<lambda>x. x\<lparr>a_Listed := l\<rparr>))"
  by (auto simp: SetAppListed_def upd_app_checked_def checkAffected_def)

lemma upd_app_twice:
  "(\<And>x. a_Name (f x) = a_Name x) \<Longrightarrow> upd_app (upd_app d n f) n g = upd_app d n (\<lambda>x. g (f x))"
  by (simp add: upd_app_def tbl_update_def comp_def if_distrib cong: if_cong)

lemma upd_app_rows:
  "x \<in> set (app_tbl (upd_app d n f)) \<Longrightarrow> a_Name x = n \<Longrightarrow> \<exists>y. x = f y"
  by (auto simp: upd_app_def tbl_update_def split: if_splits)

lemma handleAppsSetVisibility_row:
  assumes "ownerApp d c name = Inr a"
  obtains l where "handleAppsSetVisibility cf now d c name (Some (private, listed)) =
     (logAction now (upd_app d name (\<lambda>x. x\<lparr>a_Private := private, a_Listed := l\<rparr>)) c name ''visibility'' (visibilityAction private), 200)"
    "l \<longrightarrow> \<not> private"
proof -
  let ?d1 = "SetAppPrivate d name private"
  let ?l = "listed \<and> \<not> private \<and> appListingEnabled cf ?d1"
  have a: "a \<in> set (app_tbl d)" "a_Name a = name" using ownerApp_Inr(1)[OF assms] Store_App_mem by auto
  then have "a\<lparr>a_Private := private\<rparr> \<in> set (app_tbl ?d1)" by (force simp: SetAppPrivate_def upd_app_def tbl_update_def image_iff)
  with a(2) have "SetAppListed ?d1 name ?l = Inr (upd_app ?d1 name (\<lambda>x. x\<lparr>a_Listed := ?l\<rparr>))"
    using SetAppListed_ok[of "a\<lparr>a_Private := private\<rparr>" ?d1 name ?l] by simp
  moreover have "upd_app ?d1 name (\<lambda>x. x\<lparr>a_Listed := ?l\<rparr>) = upd_app d name (\<lambda>x. x\<lparr>a_Private := private, a_Listed := ?l\<rparr>)"
    unfolding SetAppPrivate_def by (rule upd_app_twice) simp
  ultimately show ?thesis using that[of ?l] assms a(2) by (simp add: handleAppsSetVisibility_def Let_def)
qed

lemma gallery_ok_upd:
  assumes "gallery_ok d" "\<And>x. x \<in> set (app_tbl d) \<Longrightarrow> a_Name x = n \<Longrightarrow> a_Listed (f x) \<Longrightarrow> \<not> a_Private (f x)"
  shows "gallery_ok (upd_app d n f)"
  using assms by (auto simp: gallery_ok_def upd_app_def tbl_update_def)

lemma gallery_ok_logAction [simp]: "gallery_ok (logAction now d c n act det) = gallery_ok d"
  by (simp add: gallery_ok_def)

lemma gallery_SetVisibility:
  assumes "gallery_ok d"
  shows "gallery_ok (fst (handleAppsSetVisibility cf now d c name body))"
proof (cases body)
  case None
  then show ?thesis using assms by (simp add: handleAppsSetVisibility_def)
next
  case (Some b)
  obtain priv listed where b: "b = (priv, listed)" by (cases b)
  show ?thesis
  proof (cases "ownerApp d c name")
    case (Inl e)
    then show ?thesis using assms Some b by (simp add: handleAppsSetVisibility_def)
  next
    case (Inr a)
    from handleAppsSetVisibility_row[OF Inr, of cf now priv listed] obtain l where
      "fst (handleAppsSetVisibility cf now d c name body) =
         logAction now (upd_app d name (\<lambda>x. x\<lparr>a_Private := priv, a_Listed := l\<rparr>)) c name ''visibility'' (visibilityAction priv)"
      "l \<longrightarrow> \<not> priv" using Some b by (metis fst_conv)
    moreover from this(2) have "gallery_ok (upd_app d name (\<lambda>x. x\<lparr>a_Private := priv, a_Listed := l\<rparr>))"
      by (intro gallery_ok_upd[OF assms]) simp
    ultimately show ?thesis by simp
  qed
qed

lemma gallery_SetListed:
  assumes "db_unique d" "gallery_ok d"
  shows "gallery_ok (fst (handleAppsSetListed cf now d c name body))"
proof (cases "\<exists>listed a. body = Some listed \<and> ownerApp d c name = Inr a \<and> \<not> (listed \<and> \<not> appListingEnabled cf d) \<and> \<not> (listed \<and> a_Private a)")
  case False
  then show ?thesis using assms(2) by (auto simp: handleAppsSetListed_def split: option.splits sum.splits)
next
  case True
  then obtain listed a where b: "body = Some listed" "ownerApp d c name = Inr a" "listed \<longrightarrow> appListingEnabled cf d" "listed \<longrightarrow> \<not> a_Private a"
    by blast
  have a: "a \<in> set (app_tbl d)" "a_Name a = name" using ownerApp_Inr(1)[OF b(2)] Store_App_mem by auto
  have "x = a" if "x \<in> set (app_tbl d)" "a_Name x = name" for x using that a same_name[OF assms(1)] by metis
  then have "gallery_ok (upd_app d name (\<lambda>x. x\<lparr>a_Listed := listed\<rparr>))" using b(4) by (intro gallery_ok_upd[OF assms(2)]) auto
  then show ?thesis using b a SetAppListed_ok[OF a] by (auto simp: handleAppsSetListed_def)
qed

lemma handleExplore_names:
  "n \<in> set (snd (handleExplore cf d)) \<longleftrightarrow>
     appListingEnabled cf d \<and> (\<exists>a \<in> set (app_tbl d). a_Name a = n \<and> a_Listed a \<and> \<not> a_Private a \<and> a_SoftDeletedAt a = None)"
  by (auto simp: handleExplore_def Apps_def)

text \<open>The gallery's invariant. Whatever the two handlers that change an app's visibility are asked to do and by whom, afterwards no app is both
  private and listed if none was before; an app that has just been made private is off the gallery; and the gallery
  shows exactly the live, listed, public apps, and none at all while listing is switched off.\<close>

lemma gallery_stays_public:
  assumes "db_unique d" and "gallery_ok d"
  shows "gallery_ok (fst (handleAppsSetVisibility cf now d c name body1)) \<and> gallery_ok (fst (handleAppsSetListed cf now d c name body2))
    \<and> (\<forall>listed. snd (handleAppsSetVisibility cf now d c name (Some (True, listed))) = 200 \<longrightarrow>
          name \<notin> set (snd (handleExplore cf (fst (handleAppsSetVisibility cf now d c name (Some (True, listed)))))))
    \<and> (\<forall>n. n \<in> set (snd (handleExplore cf d)) \<longleftrightarrow> appListingEnabled cf d
          \<and> (\<exists>a \<in> set (app_tbl d). a_Name a = n \<and> a_Listed a \<and> \<not> a_Private a \<and> a_SoftDeletedAt a = None))"
proof (intro conjI allI impI)
  fix listed
  assume ok: "snd (handleAppsSetVisibility cf now d c name (Some (True, listed))) = 200"
  then obtain a where a: "ownerApp d c name = Inr a" by (auto simp: handleAppsSetVisibility_def split: sum.splits)
  from handleAppsSetVisibility_row[OF a, of cf now True listed] obtain l where eq:
    "fst (handleAppsSetVisibility cf now d c name (Some (True, listed))) =
       logAction now (upd_app d name (\<lambda>x. x\<lparr>a_Private := True, a_Listed := l\<rparr>)) c name ''visibility'' (visibilityAction True)"
    by (metis fst_conv)
  show "name \<notin> set (snd (handleExplore cf (fst (handleAppsSetVisibility cf now d c name (Some (True, listed))))))"
    unfolding eq handleExplore_names using upd_app_rows[of _ d name] by force
qed (rule gallery_SetVisibility[OF assms(2)] gallery_SetListed[OF assms] handleExplore_names)+

lemma gallery_stays_public_witness:
  "gallery_ok (fst (handleAppsSetVisibility bare_config 0 viewer_db owner_caller ''blog'' (Some (True, True))))"
proof -
  have "gallery_ok viewer_db" by (simp add: gallery_ok_def viewer_db_def plain_app_def)
  from gallery_stays_public[OF viewer_db_unique this] show ?thesis by blast
qed

end
