(* ===== verification/Routing.thy ===== *)
theory Routing
  imports App_Handlers
begin

text \<open>
  The data plane. Control derives the routing table from the registry (\<open>Routes\<close> in \<open>control/proxies.go\<close>) and gates
  private apps itself (\<open>control/appaccess.go\<close>, \<open>control/proxy.go\<close>); a proxy holds the last table it was pushed
  (\<open>proxy/service.go\<close>) and gates private apps from it alone (\<open>proxy/grant.go\<close>). The table's types are those of
  \<open>proxy/api/proxyapi.go\<close>.

  The signature check of a grant under the table's public key is the parameter \<open>verify\<close> (\<open>NewVerifier\<close> followed by
  \<open>Verify\<close> at the current time, \<^term>\<open>Inl\<close> for a bad key too). The order in which Go iterates the map of custom domains is the
  argument \<open>order\<close>.
\<close>

section \<open>The table\<close>

record Route =
  rt_Host :: string
  rt_Target :: string
  rt_App :: string
  rt_Private :: bool
  rt_Access :: "string list"

record Table =
  tb_GrantPublicKey :: string
  tb_Admins :: "string list"
  tb_Seq :: int
  tb_Routes :: "Route list"

definition nodeAddress :: "db \<Rightarrow> string \<Rightarrow> string" where
  "nodeAddress d host =
     (if host = '''' \<or> host = HostLocal then ''127.0.0.1''
      else case Store_Node d host of
             Inl _ \<Rightarrow> ''''
           | Inr n \<Rightarrow> if n_Address n \<noteq> '''' then n_Address n else '''')"

definition app_target :: "db \<Rightarrow> App \<Rightarrow> string" where
  "app_target d a = nodeAddress d (a_Host a) @ '':'' @ itoa (a_Port a)"

definition app_allowed :: "db \<Rightarrow> App \<Rightarrow> string list" where
  "app_allowed d a = (if a_Private a then sort (AccessSets d (a_ID a)) else [])"

definition app_route :: "config \<Rightarrow> db \<Rightarrow> App \<Rightarrow> Route" where
  "app_route cf d a =
     \<lparr>rt_Host = a_Name a @ ''.'' @ cf_BaseDomain cf, rt_Target = app_target d a, rt_App = a_Name a,
      rt_Private = a_Private a, rt_Access = app_allowed d a\<rparr>"

definition routable :: "db \<Rightarrow> App list" where
  "routable d = filter (\<lambda>a. nodeAddress d (a_Host a) \<noteq> '''') (Apps d)"

text \<open>The routes of one app's active custom domains: none when the app has no target.\<close>

definition domain_routes :: "db \<Rightarrow> string \<Rightarrow> Route list" where
  "domain_routes d appName =
     (case tbl_find (\<lambda>a. a_Name a = appName) (routable d) of
        None \<Rightarrow> []
      | Some a \<Rightarrow>
          map (\<lambda>dm. \<lparr>rt_Host = dm, rt_Target = app_target d a, rt_App = appName, rt_Private = a_Private a,
                     rt_Access = app_allowed d a\<rparr>) (ActiveDomains d appName))"

definition route_list :: "config \<Rightarrow> string list \<Rightarrow> db \<Rightarrow> Route list" where
  "route_list cf order d =
     sort_key rt_Host (map (app_route cf d) (routable d) @ concat (map (domain_routes d) order))"

text \<open>The versioning state of the server: \<open>routesHash\<close> and \<open>routesSeq\<close>. \<open>digest\<close> is the hex SHA-256 of the table's JSON.\<close>

record route_state =
  rs_hash :: string
  rs_seq :: int

definition Routes ::
  "(Route list \<times> string list \<times> string \<Rightarrow> string) \<Rightarrow> config \<Rightarrow> string \<Rightarrow> string list \<Rightarrow> db \<Rightarrow> route_state \<Rightarrow> db \<times> route_state \<times> Table" where
  "Routes digest cf grantKey order d st =
     (let routes = route_list cf order d;
          admins = sort (ActiveAdmins d);
          sum = digest (routes, admins, grantKey);
          (d', st') = (if sum \<noteq> rs_hash st then
                         (let seq = rs_seq st + 1
                          in (SetSetting d ''routes_seq'' (itoa seq), \<lparr>rs_hash = sum, rs_seq = seq\<rparr>))
                       else (d, st))
      in (d', st', \<lparr>tb_GrantPublicKey = grantKey, tb_Admins = admins, tb_Seq = rs_seq st', tb_Routes = routes\<rparr>))"

section \<open>The proxy\<close>

abbreviation GrantCookie :: string where "GrantCookie \<equiv> ''hostit_app''"
abbreviation GrantCookieHost :: string where "GrantCookieHost \<equiv> ''__Host-hostit_app''"
abbreviation PreviewPrincipal :: string where "PreviewPrincipal \<equiv> ''__hostit_preview__''"

definition grantCookieNames :: "string list" where
  "grantCookieNames = [GrantCookieHost, GrantCookie]"

definition hostitPaths :: "string list" where
  "hostitPaths = [''/hostit/auth'', ''/hostit/granted'', ''/hostit/logout'']"

definition allowed :: "string \<Rightarrow> string list \<Rightarrow> string list \<Rightarrow> bool" where
  "allowed uid access admins \<longleftrightarrow> uid \<in> set access \<or> uid \<in> set admins"

fun first_cookie :: "request \<Rightarrow> string list \<Rightarrow> string" where
  "first_cookie r [] = ''''"
| "first_cookie r (n # ns) =
     (case get_cookie r n of Some v \<Rightarrow> if v \<noteq> '''' then v else first_cookie r ns | None \<Rightarrow> first_cookie r ns)"

definition grantCookie :: "request \<Rightarrow> string" where
  "grantCookie r = first_cookie r (if rq_tls r then take 1 grantCookieNames else grantCookieNames)"

definition stripGrantCookies :: "request \<Rightarrow> request" where
  "stripGrantCookies r = r\<lparr>rq_cookies := filter (\<lambda>c. fst c \<notin> set grantCookieNames) (rq_cookies r)\<rparr>"

type_synonym verify_fn = "string \<Rightarrow> string \<Rightarrow> (string \<times> string) res"

definition mayServePrivately :: "verify_fn \<Rightarrow> request \<Rightarrow> Route \<Rightarrow> Table \<Rightarrow> bool" where
  "mayServePrivately verify r route table =
     (if rq_header r ''Authorization'' \<noteq> '''' then False
      else if rq_path r \<in> set hostitPaths then False
      else
        let value = grantCookie r
        in if value = '''' \<or> tb_GrantPublicKey table = '''' then False
           else (case verify (tb_GrantPublicKey table) value of
                   Inl _ \<Rightarrow> False
                 | Inr (app, uid) \<Rightarrow>
                     if uid = '''' \<or> app \<noteq> rt_App route then False
                     else uid = PreviewPrincipal \<or> allowed uid (rt_Access route) (tb_Admins table)))"

text \<open>\<open>hostOnly\<close> of the proxy: everything before the first colon.\<close>

definition proxy_hostOnly :: "string \<Rightarrow> string" where
  "proxy_hostOnly host = takeWhile (\<lambda>c. c \<noteq> CHR '':'') host"

definition ForwardingHeaders :: "string list" where
  "ForwardingHeaders =
     [''Forwarded'', ''X-Real-Ip'', ''X-Forwarded-For'', ''X-Forwarded-Host'', ''X-Forwarded-Proto'', ''X-Forwarded-Port'',
      ''X-Forwarded-Prefix'', ''X-Forwarded-Server'', ''X-Original-Forwarded-For'', ''X-Client-Ip'', ''True-Client-Ip'',
      ''CF-Connecting-Ip'']"

text \<open>The headers a request is forwarded with: what the client claimed is dropped, then \<open>SetXForwarded\<close> states the peer's
  address and the host, and the scheme is set. \<open>remote\<close> is the peer's address.\<close>

definition forward_headers :: "string \<Rightarrow> request \<Rightarrow> string \<Rightarrow> string" where
  "forward_headers remote r =
     (\<lambda>h. if h = ''X-Forwarded-Proto'' then ''https''
          else if h = ''X-Forwarded-For'' then remote
          else if h = ''X-Forwarded-Host'' then rq_host r
          else if h \<in> set ForwardingHeaders then ''''
          else rq_header r h)"

datatype served = ToApp string request | ToControl request

text \<open>The loop over the routes stops at the first one with the host: it is served, or \<open>break\<close> hands the request to control.\<close>

definition ServeHTTP :: "verify_fn \<Rightarrow> string \<Rightarrow> Table \<Rightarrow> request \<Rightarrow> served" where
  "ServeHTTP verify remote table r =
     (case tbl_find (\<lambda>route. rt_Host route = proxy_hostOnly (rq_host r)) (tb_Routes table) of
        None \<Rightarrow> ToControl (r\<lparr>rq_header := forward_headers remote r\<rparr>)
      | Some route \<Rightarrow>
          if rt_Private route \<and> \<not> mayServePrivately verify r route table
          then ToControl (r\<lparr>rq_header := forward_headers remote r\<rparr>)
          else ToApp (rt_Target route) ((stripGrantCookies r)\<lparr>rq_header := forward_headers remote r\<rparr>))"

text \<open>\<open>ApplyRoutes\<close>: a nil table and one that is not newer are ignored.\<close>

definition ApplyRoutes :: "Table option \<Rightarrow> Table \<Rightarrow> Table" where
  "ApplyRoutes pushed current =
     (case pushed of None \<Rightarrow> current | Some t \<Rightarrow> if tb_Seq t < tb_Seq current then current
        else if tb_Seq t = tb_Seq current then current else t)"

section \<open>Control's own gate\<close>

definition callerFromGrant :: "verify_fn \<Rightarrow> string \<Rightarrow> config \<Rightarrow> db \<Rightarrow> request \<Rightarrow> App \<Rightarrow> caller option" where
  "callerFromGrant verify grantKey cf d r a =
     (case get_cookie r (cookieName cf GrantCookie) of
        None \<Rightarrow> None
      | Some v \<Rightarrow>
          if v = '''' then None
          else (case verify grantKey v of
                  Inl _ \<Rightarrow> None
                | Inr (app, uid) \<Rightarrow>
                    if app \<noteq> a_Name a then None
                    else (case Store_User d uid of
                            Inl _ \<Rightarrow> None
                          | Inr u \<Rightarrow> Some \<lparr>cl_user = Some u, cl_globalAdmin = False, cl_appScope = '''', cl_viaCookie = True\<rparr>)))"

definition isNavigation :: "request \<Rightarrow> bool" where
  "isNavigation r =
     (if rq_method r \<noteq> ''GET'' then False
      else let mode = rq_header r ''Sec-Fetch-Mode''
           in if mode \<noteq> '''' then mode = ''navigate''
              else (\<exists>i \<le> length (rq_header r ''Accept''). HasPrefix (drop i (rq_header r ''Accept'')) ''text/html''))"

datatype gate_answer = Allow | GrantedHop | LogoutHop | RedirectToAccess | PrivatePage

definition allowPrivateRequest ::
  "(string \<Rightarrow> string) \<Rightarrow> (string \<Rightarrow> string) \<Rightarrow> verify_fn \<Rightarrow> string \<Rightarrow> config \<Rightarrow> int \<Rightarrow> db \<Rightarrow> request \<Rightarrow> App \<Rightarrow> db \<times> gate_answer" where
  "allowPrivateRequest hash mac verify grantKey cf now d r a =
     (if rq_path r = ''/hostit/granted'' then (d, GrantedHop)
      else if rq_path r = ''/hostit/logout'' then (d, LogoutHop)
      else if rq_path r = ''/hostit/auth'' then (d, RedirectToAccess)
      else if rq_header r ''Authorization'' \<noteq> '''' then
        (case authenticate hash mac cf now d r of
           (d', Inl _) \<Rightarrow> (d', PrivatePage)
         | (d', Inr c) \<Rightarrow> (d', if mayViewApp d' c a then Allow else PrivatePage))
      else case callerFromGrant verify grantKey cf d r a of
             Some c \<Rightarrow>
               if mayViewApp d c a then (d, Allow)
               else if isNavigation r then (d, RedirectToAccess) else (d, PrivatePage)
           | None \<Rightarrow> if isNavigation r then (d, RedirectToAccess) else (d, PrivatePage))"

definition appNameFromHost :: "config \<Rightarrow> string \<Rightarrow> string option" where
  "appNameFromHost cf host =
     (let suffix = CHR ''.'' # cf_BaseDomain cf
      in if \<not> HasSuffix host suffix then None
         else let name = TrimSuffix host suffix
              in if name = '''' \<or> CHR ''.'' \<in> set name then None else Some name)"

section \<open>Membership of the pushed table\<close>

lemma set_route_list:
  "set (route_list cf order d) = app_route cf d ` set (routable d) \<union> (\<Union>n \<in> set order. set (domain_routes d n))"
  by (auto simp: route_list_def)

lemma set_routable: "set (routable d) = {a \<in> set (app_tbl d). nodeAddress d (a_Host a) \<noteq> ''''}"
  by (auto simp: routable_def Apps_def)

lemma routable_find:
  assumes "db_unique d" "tbl_find (\<lambda>a. a_Name a = n) (routable d) = Some a"
  shows "a \<in> set (app_tbl d)" "a_Name a = n"
  using tbl_find_Some[OF assms(2)] by (auto simp: set_routable)

text \<open>Every route of the table, on the app's own hostname or a custom domain, names a registered app and carries
  that app's visibility and access set.\<close>

lemma route_list_app:
  assumes "db_unique d" "rt \<in> set (route_list cf order d)"
  obtains a where "a \<in> set (app_tbl d)" "rt_App rt = a_Name a" "rt_Private rt = a_Private a"
    "rt_Access rt = app_allowed d a" "rt_Target rt = app_target d a"
proof (cases "rt \<in> app_route cf d ` set (routable d)")
  case True
  then obtain a where "a \<in> set (routable d)" "rt = app_route cf d a" by blast
  then show ?thesis using that[of a] by (simp add: set_routable app_route_def)
next
  case False
  then obtain n where "rt \<in> set (domain_routes d n)" using assms(2) by (auto simp: set_route_list)
  then obtain a where a: "tbl_find (\<lambda>a. a_Name a = n) (routable d) = Some a"
      and rt: "rt_App rt = n" "rt_Private rt = a_Private a" "rt_Access rt = app_allowed d a" "rt_Target rt = app_target d a"
    by (cases "tbl_find (\<lambda>a. a_Name a = n) (routable d)") (auto simp: domain_routes_def)
  from routable_find[OF assms(1) a] rt show ?thesis using that[of a] by simp
qed

section \<open>Who may see a private app\<close>

lemma active_grants_mem:
  assumes "db_unique d"
  shows "(i, v) \<in> set (active_grants d gs) \<longleftrightarrow>
    (\<exists>g \<in> set gs. g_app_id g = i \<and> g_who g = v) \<and> (\<exists>u \<in> set (user_tbl d). u_ID u = v \<and> u_Status u = StatusActive)"
  by (auto simp: active_grants_def)

lemma active_owners_mem:
  "(i, v) \<in> set (active_owners d) \<longleftrightarrow>
    (\<exists>a \<in> set (app_tbl d). a_ID a = i \<and> a_OwnerID a = v) \<and> (\<exists>u \<in> set (user_tbl d). u_ID u = v \<and> u_Status u = StatusActive)"
  by (auto simp: active_owners_def)

lemma AccessSets_mem:
  assumes "db_unique d" "a \<in> set (app_tbl d)" "a_ID a \<noteq> ''''"
  shows "v \<in> set (AccessSets d (a_ID a)) \<longleftrightarrow>
    (\<exists>u \<in> set (user_tbl d). u_ID u = v \<and> u_Status u = StatusActive) \<and>
    (a_OwnerID a = v \<or> IsAppCollaborator d (a_ID a) v \<or> IsAppViewer d (a_ID a) v)"
proof -
  have own: "(\<exists>b \<in> set (app_tbl d). a_ID b = a_ID a \<and> a_OwnerID b = v) \<longleftrightarrow> a_OwnerID a = v"
    using same_app_id[OF assms(1) _ assms(2)] assms(2,3) by metis
  have "v \<in> set (AccessSets d (a_ID a)) \<longleftrightarrow>
      (a_ID a, v) \<in> set (active_grants d (app_collaborator_tbl d)) \<union> set (active_grants d (app_viewer_tbl d)) \<union> set (active_owners d)"
    by (force simp: AccessSets_def)
  then show ?thesis
    by (auto simp: active_grants_mem[OF assms(1)] active_owners_mem own IsAppCollaborator_def IsAppViewer_def)
qed

text \<open>The set control pushes for a private app, together with the admins, is exactly the set of people its own
  decision procedure admits when they arrive with a grant.\<close>

lemma allowed_iff_mayView:
  assumes "db_unique d" "a \<in> set (app_tbl d)" "a_ID a \<noteq> ''''" "a_Private a"
  shows "allowed v (app_allowed d a) (sort (ActiveAdmins d)) \<longleftrightarrow>
    (case Store_User d v of
       Inl _ \<Rightarrow> False
     | Inr u \<Rightarrow> mayViewApp d \<lparr>cl_user = Some u, cl_globalAdmin = False, cl_appScope = '''', cl_viaCookie = True\<rparr> a)"
proof (cases "Store_User d v")
  case (Inl e)
  then have "\<forall>u \<in> set (user_tbl d). u_ID u \<noteq> v"
    by (auto simp: Store_User_def tbl_find_None split: option.splits)
  then show ?thesis using Inl assms(4) by (auto simp: allowed_def app_allowed_def AccessSets_mem[OF assms(1-3)] ActiveAdmins_def)
next
  case (Inr u)
  then have u: "u \<in> set (user_tbl d)" "u_ID u = v" by (simp_all add: Store_User_Inr[OF assms(1)])
  have act: "(\<exists>w \<in> set (user_tbl d). u_ID w = v \<and> P w) \<longleftrightarrow> P u" for P
    using user_id_eq_iff[OF assms(1) u(1)] u by auto
  have adm: "v \<in> set (ActiveAdmins d) \<longleftrightarrow> u_Role u = RoleAdmin \<and> u_Status u = StatusActive"
    using act[of "\<lambda>w. u_Role w = RoleAdmin \<and> u_Status w = StatusActive"] by (auto simp: ActiveAdmins_def)
  show ?thesis
    using Inr u(2) assms(4)
    by (auto simp: allowed_def app_allowed_def AccessSets_mem[OF assms(1-3)] adm act mayViewApp_def isActive_def isAdmin_def)
qed

section \<open>The proxy's gate\<close>

lemma strip_no_grant:
  "n \<in> set grantCookieNames \<Longrightarrow> get_cookie (stripGrantCookies r) n = None"
  by (auto simp: get_cookie_def stripGrantCookies_def tbl_find_None)

lemma strip_keeps:
  "n \<notin> set grantCookieNames \<Longrightarrow> get_cookie (stripGrantCookies r) n = get_cookie r n"
proof -
  assume "n \<notin> set grantCookieNames"
  then have "tbl_find (\<lambda>c. fst c = n) (filter (\<lambda>c. fst c \<notin> set grantCookieNames) cs) = tbl_find (\<lambda>c. fst c = n) cs" for cs :: "(string \<times> string) list"
    by (induction cs) auto
  then show ?thesis by (simp add: get_cookie_def stripGrantCookies_def)
qed

lemma get_cookie_header [simp]: "get_cookie (r\<lparr>rq_header := h\<rparr>) n = get_cookie r n"
  by (simp add: get_cookie_def)

lemma ServeHTTP_ToApp:
  assumes "ServeHTTP verify remote table r = ToApp target r'"
  obtains route where "route \<in> set (tb_Routes table)" "rt_Host route = proxy_hostOnly (rq_host r)" "target = rt_Target route"
    "rt_Private route \<Longrightarrow> mayServePrivately verify r route table"
    "r' = (stripGrantCookies r)\<lparr>rq_header := forward_headers remote r\<rparr>"
proof -
  obtain route where f: "tbl_find (\<lambda>route. rt_Host route = proxy_hostOnly (rq_host r)) (tb_Routes table) = Some route"
    using assms by (cases "tbl_find (\<lambda>route. rt_Host route = proxy_hostOnly (rq_host r)) (tb_Routes table)") (auto simp: ServeHTTP_def)
  from tbl_find_Some[OF f] f assms show ?thesis
    using that[of route] by (auto simp: ServeHTTP_def split: if_splits)
qed

lemma mayServePrivatelyD:
  assumes "mayServePrivately verify r route table"
  obtains uid where "verify (tb_GrantPublicKey table) (grantCookie r) = Inr (rt_App route, uid)" "uid \<noteq> ''''"
    "uid = PreviewPrincipal \<or> allowed uid (rt_Access route) (tb_Admins table)"
  using assms by (auto simp: mayServePrivately_def Let_def split: if_splits sum.splits prod.splits)

section \<open>Delivery of tables\<close>

lemma ApplyRoutes_seq: "tb_Seq (ApplyRoutes (Some t) cur) = max (tb_Seq t) (tb_Seq cur)"
  by (simp add: ApplyRoutes_def)

lemma ApplyRoutes_run:
  "fold (\<lambda>t. ApplyRoutes (Some t)) ts cur \<in> insert cur (set ts) \<and>
   (\<forall>t \<in> insert cur (set ts). tb_Seq t \<le> tb_Seq (fold (\<lambda>t. ApplyRoutes (Some t)) ts cur))"
proof (induction ts arbitrary: cur)
  case Nil
  then show ?case by simp
next
  case (Cons t ts)
  let ?c = "ApplyRoutes (Some t) cur"
  have c: "?c \<in> {t, cur}" "tb_Seq t \<le> tb_Seq ?c" "tb_Seq cur \<le> tb_Seq ?c"
    by (auto simp: ApplyRoutes_def)
  show ?case using Cons.IH[of ?c] c by (auto intro: order_trans)
qed

text \<open>However the pushes are reordered or repeated, a proxy ends on the same table, provided no two different tables
  share a sequence number.\<close>

lemma ApplyRoutes_order:
  assumes "set ts = set us" and "\<forall>t \<in> insert cur (set ts). \<forall>u \<in> insert cur (set ts). tb_Seq t = tb_Seq u \<longrightarrow> t = u"
  shows "fold (\<lambda>t. ApplyRoutes (Some t)) ts cur = fold (\<lambda>t. ApplyRoutes (Some t)) us cur"
proof -
  let ?x = "fold (\<lambda>t. ApplyRoutes (Some t)) ts cur" and ?y = "fold (\<lambda>t. ApplyRoutes (Some t)) us cur"
  have x: "?x \<in> insert cur (set ts)" "\<forall>t \<in> insert cur (set ts). tb_Seq t \<le> tb_Seq ?x"
    and y: "?y \<in> insert cur (set ts)" "\<forall>t \<in> insert cur (set ts). tb_Seq t \<le> tb_Seq ?y"
    using ApplyRoutes_run[of ts cur] ApplyRoutes_run[of us cur] assms(1) by auto
  then have "tb_Seq ?x = tb_Seq ?y" by (meson antisym)
  with x(1) y(1) assms(2) show ?thesis by blast
qed

section \<open>Versioning\<close>

text \<open>The content a table is versioned by, and the sequence of tables a run of the server hands out as the registry
  changes underneath it.\<close>

definition table_content :: "Table \<Rightarrow> Route list \<times> string list \<times> string" where
  "table_content t = (tb_Routes t, tb_Admins t, tb_GrantPublicKey t)"

fun serve_tables ::
  "(Route list \<times> string list \<times> string \<Rightarrow> string) \<Rightarrow> config \<Rightarrow> string \<Rightarrow> (string list \<times> db) list \<Rightarrow> route_state \<Rightarrow> Table list" where
  "serve_tables digest cf key [] st = []"
| "serve_tables digest cf key ((order, d) # xs) st =
     (let (_, st', t) = Routes digest cf key order d st in t # serve_tables digest cf key xs st')"

lemma Routes_table:
  assumes "Routes digest cf key order d st = (d', st', t)"
  shows "tb_Seq t = rs_seq st'" "rs_hash st' = digest (table_content t)" "rs_seq st \<le> rs_seq st'"
    "rs_seq st' = rs_seq st \<longleftrightarrow> rs_hash st = digest (table_content t)"
    "tb_Routes t = route_list cf order d" "tb_Admins t = sort (ActiveAdmins d)" "tb_GrantPublicKey t = key"
  using assms by (auto simp: Routes_def table_content_def Let_def split: if_splits)

lemma serve_tables_seq:
  "t \<in> set (serve_tables digest cf key xs st) \<Longrightarrow>
   rs_seq st \<le> tb_Seq t \<and> (tb_Seq t = rs_seq st \<longrightarrow> digest (table_content t) = rs_hash st)"
proof (induction xs arbitrary: st)
  case Nil
  then show ?case by simp
next
  case (Cons x xs)
  obtain order d where x: "x = (order, d)" by (cases x)
  obtain d' st' t0 where r: "Routes digest cf key order d st = (d', st', t0)" by (metis prod_cases3)
  note R = Routes_table[OF r]
  show ?case
  proof (cases "t = t0")
    case True
    then show ?thesis using R(1-4) by auto
  next
    case False
    then have "t \<in> set (serve_tables digest cf key xs st')" using Cons.prems x r by simp
    from Cons.IH[OF this] R(1-4) show ?thesis by auto
  qed
qed

lemma serve_tables_content:
  assumes "inj_on digest (table_content ` set (serve_tables digest cf key xs st))"
    "t \<in> set (serve_tables digest cf key xs st)" "u \<in> set (serve_tables digest cf key xs st)" "tb_Seq t = tb_Seq u"
  shows "table_content t = table_content u"
  using assms
proof (induction xs arbitrary: st)
  case Nil
  then show ?case by simp
next
  case (Cons x xs)
  obtain order d where x: "x = (order, d)" by (cases x)
  obtain d' st' t0 where r: "Routes digest cf key order d st = (d', st', t0)" by (metis prod_cases3)
  note R = Routes_table[OF r]
  have mem: "set (serve_tables digest cf key (x # xs) st) = insert t0 (set (serve_tables digest cf key xs st'))"
    using x r by simp
  have later: "table_content v = table_content t0"
    if "v \<in> set (serve_tables digest cf key xs st')" "tb_Seq v = tb_Seq t0" for v
  proof (rule inj_onD[OF Cons.prems(1)[unfolded mem]])
    show "digest (table_content v) = digest (table_content t0)"
      using serve_tables_seq[OF that(1)] that(2) R(1,2) by simp
  qed (use that(1) in auto)
  have "inj_on digest (table_content ` set (serve_tables digest cf key xs st'))"
    using Cons.prems(1) unfolding mem by (rule inj_on_subset) auto
  then show ?case
    using Cons.prems(2-4) Cons.IH[of st'] later[of t] later[of u] unfolding mem by auto
qed

section \<open>Properties\<close>

abbreviation grant_caller :: "User \<Rightarrow> caller" where
  "grant_caller u \<equiv> \<lparr>cl_user = Some u, cl_globalAdmin = False, cl_appScope = '''', cl_viaCookie = True\<rparr>"

text \<open>C2: a private app is only served to people its registry lets in. When a proxy holding the table built from a registry forwards a
  request to an app, that app is registered and the request goes to the app's own node and port. If the app is private, on its hostname or any custom
  domain, the request carries a grant signed for this very app whose holder is a registered user that control's own
  decision procedure admits (or the preview renderer's principal). What is forwarded no longer carries a grant cookie, so an app never
  sees one, and the app's own cookies are untouched.\<close>

theorem proxy_serves_only_admitted:
  assumes "db_unique d" and "\<forall>a \<in> set (app_tbl d). a_ID a \<noteq> ''''"
    and "Routes digest cf key order d st = (d', st', t)" and "ServeHTTP verify remote t r = ToApp target r'"
  shows "(\<exists>a \<in> set (app_tbl d). target = app_target d a \<and>
            (a_Private a \<longrightarrow>
               (\<exists>uid. verify key (grantCookie r) = Inr (a_Name a, uid) \<and>
                  (uid = PreviewPrincipal \<or> (\<exists>u. Store_User d uid = Inr u \<and> mayViewApp d (grant_caller u) a)))))
    \<and> (\<forall>n. get_cookie r' n = (if n \<in> set grantCookieNames then None else get_cookie r n))"
proof
  note T = Routes_table(5-7)[OF assms(3)]
  obtain route where rt: "route \<in> set (tb_Routes t)" "target = rt_Target route"
    "rt_Private route \<Longrightarrow> mayServePrivately verify r route t" "r' = (stripGrantCookies r)\<lparr>rq_header := forward_headers remote r\<rparr>"
    using ServeHTTP_ToApp[OF assms(4)] by metis
  then show "\<forall>n. get_cookie r' n = (if n \<in> set grantCookieNames then None else get_cookie r n)"
    by (simp add: strip_no_grant strip_keeps)
  have "route \<in> set (route_list cf order d)" using rt(1) by (simp add: T(1))
  from route_list_app[OF assms(1) this] obtain a where a: "a \<in> set (app_tbl d)" "rt_App route = a_Name a"
    "rt_Private route = a_Private a" "rt_Access route = app_allowed d a" "rt_Target route = app_target d a" by metis
  have "\<exists>uid. verify key (grantCookie r) = Inr (a_Name a, uid) \<and>
      (uid = PreviewPrincipal \<or> (\<exists>u. Store_User d uid = Inr u \<and> mayViewApp d (grant_caller u) a))" if p: "a_Private a"
  proof -
    obtain uid where u: "verify key (grantCookie r) = Inr (a_Name a, uid)"
      "uid = PreviewPrincipal \<or> allowed uid (app_allowed d a) (sort (ActiveAdmins d))"
      using mayServePrivatelyD[OF rt(3)] p a T by metis
    then show ?thesis
      using allowed_iff_mayView[OF assms(1) a(1) _ p, of uid] assms(2) a(1) by (auto split: sum.splits)
  qed
  then show "\<exists>a \<in> set (app_tbl d). target = app_target d a \<and>
            (a_Private a \<longrightarrow>
               (\<exists>uid. verify key (grantCookie r) = Inr (a_Name a, uid) \<and>
                  (uid = PreviewPrincipal \<or> (\<exists>u. Store_User d uid = Inr u \<and> mayViewApp d (grant_caller u) a))))"
    using a(1,5) rt(2) by blast
qed

definition sample_config :: config where
  "sample_config = \<lparr>cf_AdminToken = ''secret'', cf_AdminEmails = [], cf_TLSOff = False, cf_BaseDomain = ''example.org'', cf_APIHost = '''',
     cf_AppListing = True, cf_TLSLetsEncrypt = True, cf_DNSProvider = '''', cf_GoogleClientID = '''', cf_GoogleClientSecret = ''''\<rparr>"

definition sample_request :: request where
  "sample_request = \<lparr>rq_peer = None, rq_method = ''GET'', rq_host = ''blog.example.org'', rq_path = ''/'', rq_tls = True,
     rq_header = (\<lambda>_. ''''), rq_cookies = [(''__Host-hostit_app'', ''g''), (''theme'', ''dark'')]\<rparr>"

definition sample_verify :: verify_fn where
  "sample_verify k v = (if v = ''g'' then Inr (''blog'', ''usr_1'') else Inl ErrInvalidGrant)"

lemmas sample_web_defs = sample_config_def sample_request_def sample_verify_def

lemma digit_chars: "char_of (48 :: nat) = CHR ''0''" "char_of (49 :: nat) = CHR ''1''"
  by code_simp+

lemma solo_route:
  "app_route sample_config solo_db (plain_app\<lparr>a_Private := True\<rparr>) =
     \<lparr>rt_Host = ''blog.example.org'', rt_Target = ''127.0.0.1:10000'', rt_App = ''blog'', rt_Private = True, rt_Access = [''usr_1'']\<rparr>"
  "route_list sample_config [] solo_db = [app_route sample_config solo_db (plain_app\<lparr>a_Private := True\<rparr>)]"
  by (simp_all add: digit_chars app_route_def app_target_def nodeAddress_def app_allowed_def AccessSets_def active_grants_def active_owners_def
      route_list_def routable_def Apps_def itoa_def show_nat.simps solo_db_def empty_db_def sample_defs sample_web_defs)

lemma proxy_serves_only_admitted_witness:
  "case Routes (\<lambda>_. ''x'') sample_config ''k'' [] solo_db \<lparr>rs_hash = '''', rs_seq = 0\<rparr> of (d', st', t) \<Rightarrow>
     (case ServeHTTP sample_verify ''1.2.3.4'' t sample_request of
        ToApp target r' \<Rightarrow> target = ''127.0.0.1:10000'' \<and> (\<exists>a \<in> set (app_tbl solo_db). target = app_target solo_db a)
      | ToControl _ \<Rightarrow> False)"
proof -
  obtain d' st' t where R: "Routes (\<lambda>_. ''x'') sample_config ''k'' [] solo_db \<lparr>rs_hash = '''', rs_seq = 0\<rparr> = (d', st', t)"
    by (metis prod_cases3)
  note T = Routes_table(5-7)[OF R]
  have host: "proxy_hostOnly (rq_host sample_request) = ''blog.example.org''" by (simp add: proxy_hostOnly_def sample_web_defs)
  have may: "mayServePrivately sample_verify sample_request (app_route sample_config solo_db (plain_app\<lparr>a_Private := True\<rparr>)) t"
    unfolding solo_route(1)
    by (simp add: T mayServePrivately_def hostitPaths_def grantCookie_def grantCookieNames_def get_cookie_def allowed_def
        sample_request_def sample_verify_def)
  have tg: "rt_Host (app_route sample_config solo_db (plain_app\<lparr>a_Private := True\<rparr>)) = ''blog.example.org''"
    "rt_Target (app_route sample_config solo_db (plain_app\<lparr>a_Private := True\<rparr>)) = ''127.0.0.1:10000''"
    by (simp_all add: solo_route)
  obtain r' where r': "ServeHTTP sample_verify ''1.2.3.4'' t sample_request = ToApp ''127.0.0.1:10000'' r'"
    unfolding ServeHTTP_def T solo_route(2) host by (simp add: tg may)
  have "\<forall>a \<in> set (app_tbl solo_db). a_ID a \<noteq> ''''" by (simp add: solo_db_def sample_defs)
  from proxy_serves_only_admitted[OF solo_db_unique this R r'] r' show ?thesis by (auto simp: R)
qed

text \<open>C8: how the two gates relate. Over TLS a proxy that holds control's table admits a request to a private app by itself exactly when three things
  hold: it carries no bearer token, it is not for one of hostit's own paths (both kinds are left to control), and control would admit it
  from its database or its grant is the preview renderer's for this app, which only the proxy lets in. So wherever the proxy decides
  by itself on a visitor's grant, it decides as control would.\<close>

theorem gates_agree:
  assumes "db_unique d" and "\<forall>u \<in> set (user_tbl d). u_ID u \<noteq> ''''" and "a \<in> set (app_tbl d)" "a_ID a \<noteq> ''''" "a_Private a"
    and "Routes digest cf key order d st = (d', st', t)" and "key \<noteq> ''''"
    and "rq_tls r" "\<not> cf_TLSOff cf"
  shows "mayServePrivately verify r (app_route cf d a) t \<longleftrightarrow>
    rq_header r ''Authorization'' = '''' \<and> rq_path r \<notin> set hostitPaths \<and>
    (snd (allowPrivateRequest hash mac verify key cf now d r a) = Allow \<or>
     grantCookie r \<noteq> '''' \<and> verify key (grantCookie r) = Inr (a_Name a, PreviewPrincipal))"
proof (cases "rq_header r ''Authorization'' = '''' \<and> rq_path r \<notin> set hostitPaths")
  case False
  then show ?thesis by (auto simp: mayServePrivately_def)
next
  case True
  note T = Routes_table(5-7)[OF assms(6)]
  have gc: "grantCookie r = (case get_cookie r GrantCookieHost of Some v \<Rightarrow> v | None \<Rightarrow> '''')"
    using assms(8) by (simp add: grantCookie_def grantCookieNames_def split: option.splits)
  have cn: "cookieName cf GrantCookie = GrantCookieHost" using assms(9) by (simp add: cookieName_def)
  have cfg: "callerFromGrant verify key cf d r a =
      (if grantCookie r = '''' then None
       else case verify key (grantCookie r) of
              Inl _ \<Rightarrow> None
            | Inr (app, uid) \<Rightarrow>
                if app \<noteq> a_Name a then None
                else (case Store_User d uid of Inl _ \<Rightarrow> None | Inr u \<Rightarrow> Some (grant_caller u)))"
    by (simp add: callerFromGrant_def cn gc split: option.splits)
  have user: "Store_User d '''' \<noteq> Inr u" for u
    using assms(2) Store_User_Inr[OF assms(1)] by auto
  have al: "allowed v (rt_Access (app_route cf d a)) (tb_Admins t) \<longleftrightarrow>
      (\<exists>u. Store_User d v = Inr u \<and> mayViewApp d (grant_caller u) a)" for v
    using allowed_iff_mayView[OF assms(1,3,4,5), of v] by (simp add: app_route_def T split: sum.splits)
  have paths: "rq_path r \<noteq> ''/hostit/granted'' \<and> rq_path r \<noteq> ''/hostit/logout'' \<and> rq_path r \<noteq> ''/hostit/auth''"
    using True by (simp add: hostitPaths_def)

  have control: "snd (allowPrivateRequest hash mac verify key cf now d r a) = Allow \<longleftrightarrow>
      (\<exists>c. callerFromGrant verify key cf d r a = Some c \<and> mayViewApp d c a)"
    using paths True by (simp add: allowPrivateRequest_def split: option.splits)
  have "mayServePrivately verify r (app_route cf d a) t \<longleftrightarrow>
      (\<exists>c. callerFromGrant verify key cf d r a = Some c \<and> mayViewApp d c a) \<or>
      grantCookie r \<noteq> '''' \<and> verify key (grantCookie r) = Inr (a_Name a, PreviewPrincipal)"
    using assms(7) True user al
    by (auto simp: cfg mayServePrivately_def Let_def T app_route_def split: sum.splits prod.splits if_splits)
  then show ?thesis unfolding control using True by blast
qed

lemma gates_agree_witness:
  "snd (allowPrivateRequest (\<lambda>s. s) (\<lambda>s. s) sample_verify ''k'' sample_config 0 solo_db sample_request (plain_app\<lparr>a_Private := True\<rparr>)) = Allow"
proof -
  obtain d' st' t where R: "Routes (\<lambda>_. ''x'') sample_config ''k'' [] solo_db \<lparr>rs_hash = '''', rs_seq = 0\<rparr> = (d', st', t)"
    by (metis prod_cases3)
  note T = Routes_table(5-7)[OF R]
  have "mayServePrivately sample_verify sample_request (app_route sample_config solo_db (plain_app\<lparr>a_Private := True\<rparr>)) t"
    unfolding solo_route(1)
    by (simp add: T mayServePrivately_def hostitPaths_def grantCookie_def grantCookieNames_def get_cookie_def allowed_def
        sample_request_def sample_verify_def)
  then show ?thesis
    using gates_agree[OF solo_db_unique _ _ _ _ R, of "plain_app\<lparr>a_Private := True\<rparr>" sample_request sample_verify "\<lambda>s. s" "\<lambda>s. s" 0]
    by (simp add: hostitPaths_def grantCookie_def grantCookieNames_def get_cookie_def sample_web_defs)
      (simp add: solo_db_def sample_defs)
qed


definition sample_digest :: "Route list \<times> string list \<times> string \<Rightarrow> string" where
  "sample_digest c = (if fst c = [] then ''none'' else ''some'')"


end
