(* ===== verification/Snapshot_Control.thy ===== *)
theory Snapshot_Control
  imports Retention Routing "HOL-Library.Word"
begin

text \<open>
  Automatic snapshots: when an app is due (\<open>control/snapshotsched.go\<close>) and what the control plane does with the
  records (\<open>control/snapshot.go\<close>). Durations and clocks are \<open>int64\<close> nanoseconds; arithmetic that can leave
  the 64-bit range is wrapped or saturated as Go does. A run-time panic is \<^term>\<open>None\<close>. What a node answers is an
  argument: \<open>interval\<close> is the interval read from the app's \<open>hostit.yml\<close> on its node, \<open>take_snap\<close> and \<open>del_snap\<close> are the
  effects that the node's \<open>TakeSnapshot\<close> and \<open>DeleteSnapshot\<close> (with the callback that reports the new list) have on the
  registry.
\<close>

unbundle bit_operations_syntax

section \<open>The schedule\<close>

definition second :: int where "second = 1000000000"

definition snapshotTick :: int where "snapshotTick = 15 * 60 * second"

definition overdueFactor :: int where "overdueFactor = 2"

text \<open>\<open>int64\<close> arithmetic: \<open>*\<close> wraps, \<open>Time.Sub\<close> saturates.\<close>

definition wrap64 :: "int \<Rightarrow> int" where
  "wrap64 i = (i + 2 ^ 63) mod 2 ^ 64 - 2 ^ 63"

definition sat64 :: "int \<Rightarrow> int" where
  "sat64 i = (if i < - (2 ^ 63) then - (2 ^ 63) else if 2 ^ 63 - 1 < i then 2 ^ 63 - 1 else i)"

definition fnv32a :: "string \<Rightarrow> 32 word" where
  "fnv32a s = foldl (\<lambda>h c. (h XOR word_of_nat (of_char c)) * 16777619) 2166136261 s"

definition slotCount :: "int \<Rightarrow> int" where
  "slotCount interval = (let n = interval div snapshotTick in if n < 1 then 1 else n)"

definition snapshotSlot :: "string \<Rightarrow> int \<Rightarrow> int" where
  "snapshotSlot name interval = uint (fnv32a name) mod slotCount interval"

text \<open>\<open>now\<close> is not before the epoch; \<^term>\<open>None\<close> is the integer division by zero.\<close>

definition currentSlot :: "int \<Rightarrow> int \<Rightarrow> int option" where
  "currentSlot interval now =
     (let tick = snapshotTick div second; secs = interval div second
      in if secs = 0 then None else Some (((now div second) mod secs) div tick))"

definition snapshotDue :: "string \<Rightarrow> int \<Rightarrow> gotime \<Rightarrow> int \<Rightarrow> bool option" where
  "snapshotDue name interval lastAt now =
     (let slot = map_option (\<lambda>c. snapshotSlot name interval = c) (currentSlot interval now)
      in if interval \<le> 0 then Some False
         else case lastAt of
                None \<Rightarrow> slot
              | Some l \<Rightarrow>
                  let age = sat64 (now - l * second)
                  in if age < interval then Some False
                     else if wrap64 (overdueFactor * interval) \<le> age then Some True
                     else slot)"

section \<open>The sweep\<close>

text \<open>\<open>CreatedAt.After(newest)\<close>, starting from the zero time.\<close>

definition lastAutoSnapshot :: "db \<Rightarrow> string \<Rightarrow> gotime" where
  "lastAutoSnapshot d name =
     foldl (\<lambda>newest s. if s_Auto s \<and> unix_of newest < unix_of (s_CreatedAt s) then s_CreatedAt s else newest)
       None (Snapshots d name)"

definition archived :: "db \<Rightarrow> string \<Rightarrow> bool" where
  "archived d name = (case Store_App d name of Inl _ \<Rightarrow> False | Inr a \<Rightarrow> a_Archived a)"

definition retentionPolicy :: "db \<Rightarrow> string \<Rightarrow> Policy" where
  "retentionPolicy d name = (if archived d name then Archived else Default)"

definition retention_view :: "Snapshot \<Rightarrow> rsnap" where
  "retention_view s =
     \<lparr>r_ID = s_ID s, r_App = s_AppName s, r_Label = s_Label s, r_CreatedAt = unix_of (s_CreatedAt s), r_Auto = s_Auto s\<rparr>"

definition prune_list :: "db \<Rightarrow> string \<Rightarrow> rsnap list" where
  "prune_list d name = snd (Apply (map retention_view (Snapshots d name)) (retentionPolicy d name))"

type_synonym del_fn = "string \<Rightarrow> string \<Rightarrow> db \<Rightarrow> db"
type_synonym take_fn = "string \<Rightarrow> db \<Rightarrow> db res"

definition PruneSnapshots :: "del_fn \<Rightarrow> db \<Rightarrow> string \<Rightarrow> db" where
  "PruneSnapshots del_snap d name = fold (\<lambda>p. del_snap name (r_ID p)) (prune_list d name) d"

fun sweep_loop :: "(string \<Rightarrow> int) \<Rightarrow> take_fn \<Rightarrow> del_fn \<Rightarrow> int \<Rightarrow> App list \<Rightarrow> db \<Rightarrow> db option" where
  "sweep_loop interval take_snap del_snap now [] d = Some d"
| "sweep_loop interval take_snap del_snap now (a # as) d =
     (if a_Archived a then sweep_loop interval take_snap del_snap now as (PruneSnapshots del_snap d (a_Name a))
      else case snapshotDue (a_Name a) (interval (a_Name a)) (lastAutoSnapshot d (a_Name a)) now of
             None \<Rightarrow> None
           | Some False \<Rightarrow> sweep_loop interval take_snap del_snap now as d
           | Some True \<Rightarrow>
               (case take_snap (a_Name a) d of
                  Inl _ \<Rightarrow> sweep_loop interval take_snap del_snap now as d
                | Inr d' \<Rightarrow> sweep_loop interval take_snap del_snap now as (PruneSnapshots del_snap d' (a_Name a))))"

definition autoSnapshotSweep :: "(string \<Rightarrow> int) \<Rightarrow> take_fn \<Rightarrow> del_fn \<Rightarrow> int \<Rightarrow> db \<Rightarrow> db option" where
  "autoSnapshotSweep interval take_snap del_snap now d = sweep_loop interval take_snap del_snap now (Apps d) d"

section \<open>Ingesting a node's records\<close>

definition hostOrLocal :: "string \<Rightarrow> string" where
  "hostOrLocal host = (if host = '''' then HostLocal else host)"

definition node_hosts :: "db \<Rightarrow> string \<Rightarrow> string \<Rightarrow> bool" where
  "node_hosts d nodeID name = (case AppHost d name of Inl _ \<Rightarrow> False | Inr h \<Rightarrow> hostOrLocal h = nodeID)"

text \<open>\<open>order\<close> is the order in which Go ranges over the map \<open>byApp\<close>: the names of the accepted records, each once.\<close>

definition IngestNodeSnapshots :: "string list \<Rightarrow> db \<Rightarrow> string \<Rightarrow> Snapshot list res \<Rightarrow> db" where
  "IngestNodeSnapshots order d nodeID answer =
     (case answer of
        Inl _ \<Rightarrow> d
      | Inr reported \<Rightarrow>
          let mine = filter (\<lambda>s. node_hosts d nodeID (s_AppName s)) reported
          in fold (\<lambda>name d'. if name \<in> s_AppName ` set mine
                    then (case ReplaceAppSnapshots d' name (filter (\<lambda>s. s_AppName s = name) mine) of
                            Inl _ \<Rightarrow> d' | Inr d'' \<Rightarrow> d'')
                    else d') order d)"

section \<open>Every app gets its turn\<close>

lemma slotCount_pos: "1 \<le> slotCount i"
  by (simp add: slotCount_def Let_def)

lemma snapshotSlot_bounds: "0 \<le> snapshotSlot name i \<and> snapshotSlot name i < slotCount i"
  using slotCount_pos[of i] by (simp add: snapshotSlot_def)

text \<open>The slots of an interval of at least one tick lie inside it.\<close>

lemma slots_fit: "second \<le> i \<Longrightarrow> 1 < slotCount i \<Longrightarrow> 900 * slotCount i \<le> i div second"
proof -
  assume "1 < slotCount i"
  then have n: "slotCount i = i div snapshotTick" by (simp add: slotCount_def Let_def split: if_splits)
  define q where "q = i div snapshotTick"
  have "snapshotTick * q \<le> i"
    using div_bounds[of snapshotTick i] by (simp add: q_def snapshotTick_def second_def)
  then have "second * (900 * q) \<le> i" by (simp add: snapshotTick_def second_def)
  then have "(second * (900 * q)) div second \<le> i div second"
    by (rule zdiv_mono1) (simp add: second_def)
  then show ?thesis by (simp add: n q_def second_def)
qed

text \<open>Stepping by 900 seconds visits every window of 900 seconds of a cycle of \<open>n\<close> seconds.\<close>

lemma visits_window:
  fixes t n s :: int
  assumes "0 < n" and "0 \<le> s" and "900 * s + 900 \<le> n"
  shows "\<exists>k. 0 \<le> k \<and> 900 * k < n + 900 \<and> ((t + 900 * k) mod n) div 900 = s"
proof -
  define g where "g = (900 * s - t) mod n"
  have g: "0 \<le> g" "g < n" using assms(1) by (simp_all add: g_def)
  define k where "k = (g + 899) div 900"
  have k: "900 * k \<le> g + 899" "g + 899 < 900 * k + 900"
    using div_bounds[of 900 "g + 899"] by (simp_all add: k_def)
  define r where "r = 900 * k - g"
  have r: "0 \<le> r" "r < 900" using k by (simp_all add: r_def)
  have "(t + g) mod n = (900 * s) mod n" by (simp add: g_def mod_add_right_eq)
  then have "(t + 900 * k) mod n = (900 * s + r) mod n"
    by (metis r_def add_diff_cancel_left' add.assoc mod_add_left_eq add_diff_eq)
  also have "\<dots> = 900 * s + r" using assms r by simp
  finally have "((t + 900 * k) mod n) div 900 = s" using r by simp
  moreover have "0 \<le> k" using g by (simp add: k_def)
  moreover have "900 * k < n + 900" using k g by linarith
  ultimately show ?thesis by blast
qed

lemma currentSlot_hits:
  assumes "second \<le> i"
  shows "\<exists>k. 0 \<le> k \<and> k * snapshotTick < i + snapshotTick \<and>
           currentSlot i (now + k * snapshotTick) = Some (snapshotSlot name i)"
proof -
  define n where "n = i div second"
  have n: "0 < n" "second * n \<le> i"
    using assms div_bounds[of second i] by (simp_all add: n_def second_def pos_imp_zdiv_pos_iff)
  have step: "(now + k * snapshotTick) div second = now div second + 900 * k" for k
  proof -
    have e: "now + k * snapshotTick = now + (900 * k) * second" by (simp add: snapshotTick_def second_def)
    have "second \<noteq> 0" by (simp add: second_def)
    then have "(now + (900 * k) * second) div second = 900 * k + now div second" by (rule div_mult_self1)
    then show ?thesis unfolding e by simp
  qed
  have cur: "currentSlot i (now + k * snapshotTick) = Some (((now div second + 900 * k) mod n) div 900)" for k
    using n(1) unfolding currentSlot_def Let_def step n_def[symmetric] by (simp add: snapshotTick_def second_def)
  show ?thesis
  proof (cases "slotCount i = 1")
    case True
    then have "snapshotSlot name i = 0" by (simp add: snapshotSlot_def)
    show ?thesis
    proof (cases "n < 900")
      case True
      have "0 \<le> now div second mod n" "now div second mod n < n" using n(1) by simp_all
      then have "(now div second mod n) div 900 = 0" using True by simp
      then have "currentSlot i (now + 0 * snapshotTick) = Some (snapshotSlot name i)"
        unfolding cur \<open>snapshotSlot name i = 0\<close> by simp
      then show ?thesis using assms by (intro exI[of _ 0]) (simp add: second_def snapshotTick_def)
    next
      case False
      then obtain k where "0 \<le> k" "900 * k < n + 900" "((now div second + 900 * k) mod n) div 900 = 0"
        using visits_window[of n 0 "now div second"] n(1) by auto
      moreover from this(2) n(2) have "k * snapshotTick < i + snapshotTick"
        by (simp add: snapshotTick_def second_def)
      ultimately show ?thesis unfolding cur \<open>snapshotSlot name i = 0\<close> by auto
    qed
  next
    case False
    then have "1 < slotCount i" using slotCount_pos[of i] by simp
    then have "900 * slotCount i \<le> n" using slots_fit[OF assms] by (simp add: n_def)
    then have "900 * snapshotSlot name i + 900 \<le> n" using snapshotSlot_bounds[of name i] by simp
    then obtain k where "0 \<le> k" "900 * k < n + 900"
      "((now div second + 900 * k) mod n) div 900 = snapshotSlot name i"
      using visits_window[of n "snapshotSlot name i" "now div second"] n(1) snapshotSlot_bounds[of name i] by auto
    moreover from this(2) n(2) have "k * snapshotTick < i + snapshotTick"
      by (simp add: snapshotTick_def second_def)
    ultimately show ?thesis unfolding cur by auto
  qed
qed

text \<open>No app is starved by the staggering as long as the ticks are exactly a tick apart. Take an app whose interval is at least a second (and short enough that
  twice the interval fits in 64 bits), which is due at \<open>now\<close>: it was never snapshotted, or its last automatic snapshot
  is at least an interval old. Then it is due at one of the following ticks, at most one tick more than an interval away.\<close>

lemma snapshotDue_no_starvation:
  assumes "second \<le> interval" and "2 * interval < 2 ^ 63"
    and "\<And>l. lastAt = Some l \<Longrightarrow> interval \<le> now - l * second \<and> now - l * second < 2 ^ 62"
  shows "\<exists>k. 0 \<le> k \<and> k * snapshotTick < interval + snapshotTick \<and>
           snapshotDue name interval lastAt (now + k * snapshotTick) = Some True"
proof -
  obtain k where k: "0 \<le> k" "k * snapshotTick < interval + snapshotTick"
    "currentSlot interval (now + k * snapshotTick) = Some (snapshotSlot name interval)"
    using currentSlot_hits[OF assms(1)] by blast
  have kt: "0 \<le> k * snapshotTick" using k(1) by (simp add: snapshotTick_def second_def)
  have pos: "0 < interval" using assms(1) by (simp add: second_def)
  have "snapshotDue name interval lastAt (now + k * snapshotTick) = Some True"
  proof (cases lastAt)
    case None
    then show ?thesis using k(3) pos by (simp add: snapshotDue_def)
  next
    case (Some l)
    have "interval \<le> sat64 (now + k * snapshotTick - l * second)"
      using assms(2) assms(3)[OF Some] kt pos by (auto simp: sat64_def)
    then show ?thesis using k(3) pos Some by (simp add: snapshotDue_def Let_def)
  qed
  with k show ?thesis by blast
qed

lemma snapshotDue_no_starvation_witness:
  "\<exists>k. 0 \<le> k \<and> k * snapshotTick < 3 * 3600 * second + snapshotTick \<and>
     snapshotDue ''blog'' (3 * 3600 * second) (Some 1767225600) (1767240000 * second + k * snapshotTick) = Some True"
  by (rule snapshotDue_no_starvation) (simp_all add: second_def)

text \<open>But the loop waits a tick after each sweep, so the ticks drift by what a sweep takes. When sweeps take as long as a tick, every second slot is jumped:
  an app that was never snapshotted and whose slot is one of those is due at none of them.\<close>

lemma drifting_ticks_starve:
  assumes "snapshotSlot name (1800 * second) = 1"
  shows "snapshotDue name (1800 * second) None (k * (1800 * second)) = Some False"
proof -
  have "k * (1800 * second) div second mod 1800 = 0"
    by (simp add: second_def)
  then show ?thesis
    using assms by (simp add: snapshotDue_def currentSlot_def second_def)
qed

text \<open>A sub-second interval crashes the sweep. \<open>snapshotDue\<close> divides by the interval in whole seconds: for an app
  that was never snapshotted it panics exactly for the intervals strictly between zero and one second, and the sweep, whose loop
  reaches that app, dies with it, whatever the other apps need.\<close>

lemma snapshotDue_panics_iff:
  "(snapshotDue name i None now = None \<longleftrightarrow> 0 < i \<and> i < second)
   \<and> (\<not> a_Archived a \<and> lastAutoSnapshot d (a_Name a) = None \<and> 0 < interval (a_Name a) \<and> interval (a_Name a) < second
      \<longrightarrow> sweep_loop interval take_snap del_snap now (a # as) d = None)"
proof -
  have due: "snapshotDue x i None now = None \<longleftrightarrow> 0 < i \<and> i < second" for x i
    by (auto simp: snapshotDue_def currentSlot_def Let_def second_def div_eq_0_iff)
  have "sweep_loop interval take_snap del_snap now (a # as) d = None"
    if "\<not> a_Archived a" "lastAutoSnapshot d (a_Name a) = None" "0 < interval (a_Name a)" "interval (a_Name a) < second"
    using that due[of "a_Name a" "interval (a_Name a)"] by simp
  then show ?thesis using due by blast
qed

lemma snapshotDue_panics_iff_witness:
  "sweep_loop (\<lambda>_. 500000000) (\<lambda>_. Inr) (\<lambda>_ i d. DeleteSnapshot d i) 0 [plain_app] empty_db = None"
  using snapshotDue_panics_iff[of "''blog''" 500000000 0 plain_app empty_db "\<lambda>_. 500000000"
      "\<lambda>_. Inr" "\<lambda>_ i d. DeleteSnapshot d i" "[]"]
  by (simp add: plain_app_def lastAutoSnapshot_def Snapshots_def empty_db_def app_id_of_def newest_first_def second_def)

section \<open>Retention never empties an app's history\<close>

text \<open>The records of an app have distinct IDs in a registry that satisfies its constraints.\<close>

lemma Snapshots_distinct:
  assumes "db_unique d"
  shows "distinct (map s_ID (Snapshots d name))"
proof -
  have u: "tbl_unique snapshot_conflict (snapshot_tbl d)" using assms by (simp add: db_unique_def)
  have "distinct (map s_ID t)" if "tbl_unique snapshot_conflict t" for t :: "snapshot_row list"
    using that by (induction t) (auto simp: tbl_unique_def snapshot_conflict_def)
  with u have "distinct (map s_ID (snapshot_tbl d))" by blast
  then have "distinct (map s_ID (filter P (snapshot_tbl d)))" for P by (rule distinct_map_filter)
  moreover have "mset (map s_ID (newest_first t)) = mset (map s_ID t)" for t :: "snapshot_row list"
    by (simp add: newest_first_def)
  ultimately have "distinct (map s_ID (newest_first (filter P (snapshot_tbl d))))" for P
    by (metis mset_eq_imp_distinct_iff)
  then show ?thesis by (simp add: Snapshots_def scanSnapshot_def comp_def)
qed

lemma views_distinct:
  assumes "db_unique d"
  shows "distinct (map r_ID (map retention_view (Snapshots d name)))"
  using Snapshots_distinct[OF assms, of name] by (simp add: retention_view_def comp_def)

lemma fold_del_frame:
  assumes "\<And>n i d r. r \<in> set (snapshot_tbl d) \<Longrightarrow> s_ID r \<noteq> i \<Longrightarrow> r \<in> set (snapshot_tbl (del_snap n i d))"
    and "r \<in> set (snapshot_tbl d)" and "s_ID r \<notin> r_ID ` set ps"
  shows "r \<in> set (snapshot_tbl (fold (\<lambda>p. del_snap name (r_ID p)) ps d))"
  using assms(2,3) by (induction ps arbitrary: d) (auto intro: assms(1))

lemma Snapshots_mem:
  "s \<in> set (Snapshots d name) \<longleftrightarrow>
     (\<exists>r \<in> set (snapshot_tbl d). Some (s_app_id r) = app_id_of d name \<and> s = scanSnapshot d r)"
  by (auto simp: Snapshots_def newest_first_def)

text \<open>Pruning destroys only what the policy gives up. Whatever deleting a snapshot does on a node, as long as it
  removes no other record, every record of the app that the app's policy retains is still there after
  \<open>PruneSnapshots\<close>; and an app that had a snapshot still has its newest one.\<close>

lemma PruneSnapshots_keeps:
  assumes "db_unique d" and "\<forall>s \<in> set (Snapshots d name). 0 \<le> unix_of (s_CreatedAt s)"
    and "\<And>n i d r. r \<in> set (snapshot_tbl d) \<Longrightarrow> s_ID r \<noteq> i \<Longrightarrow> r \<in> set (snapshot_tbl (del_snap n i d))"
  shows "(\<forall>r \<in> set (snapshot_tbl d). Some (s_app_id r) = app_id_of d name
           \<and> retained (retentionPolicy d name) (retention_view ` set (Snapshots d name)) (retention_view (scanSnapshot d r))
           \<longrightarrow> r \<in> set (snapshot_tbl (PruneSnapshots del_snap d name)))
    \<and> (Snapshots d name \<noteq> [] \<longrightarrow>
         (\<exists>r \<in> set (snapshot_tbl (PruneSnapshots del_snap d name)).
            scanSnapshot d r \<in> set (Snapshots d name)
            \<and> (\<forall>s \<in> set (Snapshots d name). unix_of (s_CreatedAt s) \<le> unix_of (s_CreatedAt r))))"
proof -
  let ?V = "map retention_view (Snapshots d name)" and ?p = "retentionPolicy d name"
  have nn: "\<forall>s \<in> set ?V. 0 \<le> r_CreatedAt s" using assms(2) by (simp add: retention_view_def)
  note u = views_distinct[OF assms(1), of name]
  note ap = Apply_kept[OF u nn, of ?p]
  have view_id: "s_ID r = r_ID (retention_view (scanSnapshot d r))" for r
    by (simp add: retention_view_def scanSnapshot_def)
  have survive: "r \<in> set (snapshot_tbl (PruneSnapshots del_snap d name))"
    if r: "r \<in> set (snapshot_tbl d)" "Some (s_app_id r) = app_id_of d name"
      "retained ?p (set ?V) (retention_view (scanSnapshot d r))" for r
  proof -
    have inV: "retention_view (scanSnapshot d r) \<in> set ?V"
      using r(1,2) by (metis Snapshots_mem image_eqI set_map)
    have "v \<notin> set (prune_list d name)" if v: "r_ID v = s_ID r" for v
    proof
      assume "v \<in> set (prune_list d name)"
      then have "v \<in> set ?V" and nr: "\<not> retained ?p (set ?V) v"
        unfolding prune_list_def ap by simp_all
      then have "retention_view (scanSnapshot d r) = v"
        using inV v
        by (intro distinct_key_eq[OF u]) (simp_all only: view_id)
      with r(3) nr show False by simp
    qed
    then have "s_ID r \<notin> r_ID ` set (prune_list d name)" by (metis imageE)
    then show ?thesis unfolding PruneSnapshots_def by (intro fold_del_frame assms(3) r(1))
  qed
  have newest: "\<exists>r \<in> set (snapshot_tbl (PruneSnapshots del_snap d name)). scanSnapshot d r \<in> set (Snapshots d name)
      \<and> (\<forall>s \<in> set (Snapshots d name). unix_of (s_CreatedAt s) \<le> unix_of (s_CreatedAt r))" if "Snapshots d name \<noteq> []"
  proof -
    have "Max (snap_key ` set ?V) \<in> snap_key ` set ?V" using that by (intro Max_in) simp_all
    then obtain m where m: "m \<in> set ?V" "snap_key m = Max (snap_key ` set ?V)" by (metis imageE)
    have m_max: "snap_key v \<le> snap_key m" if "v \<in> set ?V" for v
      unfolding m(2) using that by (intro Max_ge) (simp_all del: set_map)
    have "\<not> newer v m" if "v \<in> set ?V" for v
      unfolding newer_def not_less by (rule m_max[OF that])
    then have "newer_than (set ?V) m = {}" unfolding newer_than_def by blast
    then have ret: "retained ?p (set ?V) m"
      by (intro retained_newest) (auto simp: retentionPolicy_def Default_def Archived_def)
    from m(1) obtain r where r: "r \<in> set (snapshot_tbl d)" "Some (s_app_id r) = app_id_of d name"
      "m = retention_view (scanSnapshot d r)" by (auto simp: Snapshots_mem)
    have "unix_of (s_CreatedAt s) \<le> unix_of (s_CreatedAt r)" if "s \<in> set (Snapshots d name)" for s
    proof -
      have "snap_key (retention_view s) \<le> snap_key m" using m_max that by simp
      then show ?thesis by (auto simp: snap_key_def r(3) retention_view_def scanSnapshot_def)
    qed
    moreover have "scanSnapshot d r \<in> set (Snapshots d name)" using r by (auto simp: Snapshots_mem)
    moreover have "r \<in> set (snapshot_tbl (PruneSnapshots del_snap d name))"
      using survive[OF r(1,2)] ret r(3) by simp
    ultimately show ?thesis by blast
  qed
  show ?thesis using survive newest by simp
qed

definition one_snapshot_db :: db where
  "one_snapshot_db = empty_db\<lparr>app_tbl := [plain_app],
     snapshot_tbl := [\<lparr>s_ID = ''s1'', s_AppName = ''blog'', s_Label = '''', s_CreatedAt = Some 1767225600,
                       s_Auto = True, s_app_id = ''app_1''\<rparr>]\<rparr>"

lemma one_snapshot_db_unique: "db_unique one_snapshot_db"
  by (simp add: db_unique_def one_snapshot_db_def empty_db_def tbl_unique_def)

lemma PruneSnapshots_keeps_witness:
  "\<exists>r \<in> set (snapshot_tbl (PruneSnapshots (\<lambda>_ i d. DeleteSnapshot d i) one_snapshot_db ''blog'')). s_ID r = ''s1''"
proof -
  let ?del = "\<lambda>(_::string) i d. DeleteSnapshot d i"
  have s: "Snapshots one_snapshot_db ''blog'' = [\<lparr>s_ID = ''s1'', s_AppName = ''blog'', s_Label = '''',
      s_CreatedAt = Some 1767225600, s_Auto = True\<rparr>]"
    by (simp add: Snapshots_def one_snapshot_db_def empty_db_def plain_app_def app_id_of_def newest_first_def
        scanSnapshot_def app_name_of_id_def)
  have "\<exists>r \<in> set (snapshot_tbl (PruneSnapshots ?del one_snapshot_db ''blog'')).
      scanSnapshot one_snapshot_db r \<in> set (Snapshots one_snapshot_db ''blog'')"
    using PruneSnapshots_keeps[of one_snapshot_db "''blog''" ?del, OF one_snapshot_db_unique]
    by (auto simp: s DeleteSnapshot_def)
  then show ?thesis by (auto simp: s scanSnapshot_def)
qed

end
