(* ===== verification/Node_Link.thy ===== *)
theory Node_Link
  imports Snapshot_Control "HOL-Library.AList"
begin

text \<open>
  How the control plane reaches its nodes and proxies: the tables of live connections (\<open>NodeRegistry\<close> in
  \<open>control/registry.go\<close>, \<open>ProxyRegistry\<close> in \<open>control/proxies.go\<close>), the routing agent that sends every verb to the
  node hosting the app, placement, and the registry mirror that control pushes (\<open>control/sync.go\<close>) and a node
  applies (\<open>node/machine_sync.go\<close>).

  A live connection is identified by a number: Go compares the agents by identity, and every dial-in makes a new one.
  The table is an association list from ids to connections.
\<close>

section \<open>Connection tables\<close>

type_synonym conn = nat
type_synonym agents = "(string \<times> conn) list"

definition Register :: "agents \<Rightarrow> string \<Rightarrow> conn \<Rightarrow> agents" where
  "Register r i agent = AList.update i agent r"

definition Unregister :: "agents \<Rightarrow> string \<Rightarrow> conn \<Rightarrow> agents" where
  "Unregister r i agent = (if map_of r i = Some agent then AList.delete i r else r)"

definition Agent :: "agents \<Rightarrow> string \<Rightarrow> conn option" where
  "Agent r i = map_of r i"

definition IDs :: "agents \<Rightarrow> string list" where
  "IDs r = sort (map fst r)"

definition ProxyRegistry_Register :: "agents \<Rightarrow> string \<Rightarrow> conn \<Rightarrow> agents" where
  "ProxyRegistry_Register r proxyID agent = AList.update proxyID agent r"

definition ProxyRegistry_Unregister :: "agents \<Rightarrow> string \<Rightarrow> conn \<Rightarrow> agents" where
  "ProxyRegistry_Unregister r proxyID agent =
     (case map_of r proxyID of
        None \<Rightarrow> r
      | Some current \<Rightarrow> if current = agent then AList.delete proxyID r else r)"

definition Agents :: "agents \<Rightarrow> string \<rightharpoonup> conn" where
  "Agents r = map_of r"

section \<open>The routing agent\<close>

text \<open>The verbs of the node interface that name an app.\<close>

datatype verb =
    Ensure | Up | Down | PowerOn | Restart | StartApp | StopApp | RestartApp | Status | Logs | Exec | Screenshot
  | RunAssistantTurn | AnswerAssistant | Terminal | ListFiles | ReadFile | ReadFileMax | WriteFile | WriteFileFrom
  | ArchiveWorkspace | ArchiveSnapshot | DeleteFile | MoveFile | MakeDir | StatFile | FileExists | ExtractTar | SetKeys
  | Node_Rename | SetMemoryLimit | SetCPULimit | SetDiskLimit | TakeSnapshot | Node_DeleteSnapshot | Rollback

definition agentFor :: "agents \<Rightarrow> string \<Rightarrow> conn res" where
  "agentFor reg host = (case Agent reg (hostOrLocal host) of None \<Rightarrow> Inl NodeNotConnected | Some c \<Rightarrow> Inr c)"

definition route :: "agents \<Rightarrow> db \<Rightarrow> string \<Rightarrow> conn res" where
  "route reg d name = (case Store_App d name of Inl e \<Rightarrow> Inl e | Inr a \<Rightarrow> agentFor reg (a_Host a))"

definition routeRunnable :: "agents \<Rightarrow> db \<Rightarrow> string \<Rightarrow> conn res" where
  "routeRunnable reg d name =
     (case Store_App d name of
        Inl e \<Rightarrow> Inl e
      | Inr a \<Rightarrow> if a_Archived a then Inl ErrArchived else agentFor reg (a_Host a))"

fun needs_runnable :: "verb \<Rightarrow> bool" where
  "needs_runnable Ensure = True"
| "needs_runnable Up = True"
| "needs_runnable PowerOn = True"
| "needs_runnable Restart = True"
| "needs_runnable StartApp = True"
| "needs_runnable RestartApp = True"
| "needs_runnable Exec = True"
| "needs_runnable Screenshot = True"
| "needs_runnable RunAssistantTurn = True"
| "needs_runnable AnswerAssistant = True"
| "needs_runnable Terminal = True"
| "needs_runnable TakeSnapshot = True"
| "needs_runnable _ = False"

text \<open>The connection a verb is sent over. For \<open>Rename(oldName, newName, id)\<close> the name is the old one.\<close>

definition dispatch :: "agents \<Rightarrow> db \<Rightarrow> verb \<Rightarrow> string \<Rightarrow> conn res" where
  "dispatch reg d v name = (if needs_runnable v then routeRunnable reg d name else route reg d name)"

text \<open>\<open>counts\<close> counts the raw \<open>host\<close> column of every app.\<close>

definition host_count :: "db \<Rightarrow> string \<Rightarrow> nat" where
  "host_count d i = length (filter (\<lambda>a. a_Host a = i) (Apps d))"

definition placeNode :: "agents \<Rightarrow> db \<Rightarrow> string" where
  "placeNode reg d =
     (case IDs reg of
        [] \<Rightarrow> HostLocal
      | i # is \<Rightarrow> foldl (\<lambda>best j. if host_count d j < host_count d best then j else best) i is)"

section \<open>The mirror\<close>

record SyncState =
  sy_Apps :: "App list"
  sy_Snapshots :: "Snapshot list"
  sy_Seq :: int

definition on_host :: "string \<Rightarrow> App \<Rightarrow> bool" where
  "on_host host a \<longleftrightarrow> host = '''' \<or> hostOrLocal (a_Host a) = host"

text \<open>The registry read and the stamp are one step; \<open>seq\<close> is \<open>mirrorSeq\<close>.\<close>

definition syncState :: "db \<Rightarrow> int \<Rightarrow> string \<Rightarrow> int \<times> SyncState" where
  "syncState d seq host =
     (let mine = filter (on_host host) (Apps d)
      in (seq + 1,
          \<lparr>sy_Apps = map (\<lambda>a. a\<lparr>a_OwnerID := ''''\<rparr>) mine,
           sy_Snapshots = concat (map (\<lambda>a. Snapshots d (a_Name a)) mine),
           sy_Seq = seq + 1\<rparr>))"

text \<open>A node: its mirror and the last sequence number. \<open>sync_check\<close> is what \<open>Sync\<close> does under its lock, \<open>sync_apply\<close> what it
  does after releasing it.\<close>

record node_state =
  nd_db :: db
  nd_syncSeq :: int

definition sync_check :: "node_state \<Rightarrow> SyncState \<Rightarrow> node_state \<times> bool" where
  "sync_check n st =
     (if sy_Seq st \<noteq> 0 \<and> sy_Seq st \<le> nd_syncSeq n then (n, False) else (n\<lparr>nd_syncSeq := sy_Seq st\<rparr>, True))"

definition sync_apply :: "node_state \<Rightarrow> SyncState \<Rightarrow> node_state res" where
  "sync_apply n st =
     (case ReplaceNodeMirror (nd_db n) (sy_Apps st) (sy_Snapshots st) of
        Inl e \<Rightarrow> Inl e
      | Inr d \<Rightarrow> Inr (n\<lparr>nd_db := d\<rparr>))"

definition Sync :: "node_state \<Rightarrow> SyncState \<Rightarrow> node_state \<times> err option" where
  "Sync n st =
     (case sync_check n st of
        (n', False) \<Rightarrow> (n', None)
      | (n', True) \<Rightarrow> (case sync_apply n' st of Inl e \<Rightarrow> (n', Some e) | Inr n'' \<Rightarrow> (n'', None)))"

definition ResetSyncSeq :: "node_state \<Rightarrow> node_state" where
  "ResetSyncSeq n = n\<lparr>nd_syncSeq := 0\<rparr>"

section \<open>A reconnect supersedes\<close>

text \<open>The contract of a connection table: a lookup sees the last registration, and an unregistration removes a
  connection only while it is the registered one.\<close>

datatype conn_event = Dialed string conn | Dropped string conn

locale connection_table =
  fixes reg :: "'t \<Rightarrow> string \<Rightarrow> conn \<Rightarrow> 't"
    and unreg :: "'t \<Rightarrow> string \<Rightarrow> conn \<Rightarrow> 't"
    and live :: "'t \<Rightarrow> string \<Rightarrow> conn option"
  assumes live_reg: "live (reg t i c) j = (if i = j then Some c else live t j)"
    and live_unreg: "live (unreg t i c) j = (if i = j \<and> live t i = Some c then None else live t j)"
begin

fun run_event :: "conn_event \<Rightarrow> 't \<Rightarrow> 't" where
  "run_event (Dialed i c) t = reg t i c"
| "run_event (Dropped i c) t = unreg t i c"

text \<open>Whatever else happens, a connection stays until it is dropped itself or the same id dials in again.\<close>

lemma live_survives:
  assumes "live t i = Some c"
    and "\<forall>e \<in> set es. e \<noteq> Dropped i c \<and> (\<forall>c'. e \<noteq> Dialed i c')"
  shows "live (fold run_event es t) i = Some c"
  using assms
proof (induction es arbitrary: t)
  case Nil
  then show ?case by simp
next
  case (Cons e es)
  then have "live (run_event e t) i = Some c" by (cases e) (auto simp: live_reg live_unreg)
  with Cons show ?case by simp
qed

lemma dialed_survives:
  assumes "\<forall>e \<in> set es. e \<noteq> Dropped i c \<and> (\<forall>c'. e \<noteq> Dialed i c')"
  shows "live (fold run_event (Dialed i c # es) t) i = Some c"
  using live_survives[OF _ assms, of "reg t i c"] by (simp add: live_reg)

lemma dropped_is_gone: "live (unreg t i c) i \<noteq> Some c"
  by (auto simp: live_unreg)

end

interpretation nodes: connection_table Register Unregister Agent
  by unfold_locales (auto simp: Register_def Unregister_def Agent_def update_conv delete_conv)

interpretation proxies: connection_table ProxyRegistry_Register ProxyRegistry_Unregister Agents
  by unfold_locales
    (auto simp: ProxyRegistry_Register_def ProxyRegistry_Unregister_def Agents_def update_conv delete_conv
      split: option.splits)

text \<open>A redial supersedes, and the cleanup of the connection it replaced never evicts it. In both tables, after an id
  dials in, any further sequence of events in which that id does not dial in again and that connection is not dropped
  leaves the connection live.\<close>

lemma reconnect_supersedes:
  assumes "\<forall>e \<in> set es. e \<noteq> Dropped i c \<and> (\<forall>c'. e \<noteq> Dialed i c')"
  shows "Agent (fold nodes.run_event (Dialed i c # es) r) i = Some c
    \<and> Agents (fold proxies.run_event (Dialed i c # es) r) i = Some c"
  using nodes.dialed_survives[OF assms] proxies.dialed_survives[OF assms] by blast

lemma reconnect_supersedes_witness:
  "Agent (fold nodes.run_event [Dialed ''n1'' 2, Dropped ''n1'' 1, Dialed ''n2'' 3] [(''n1'', 1)]) ''n1'' = Some 2"
  using reconnect_supersedes[of "[Dropped ''n1'' 1, Dialed ''n2'' 3]" "''n1''" 2 "[(''n1'', 1)]"] by simp

section \<open>Verbs reach the hosting node\<close>

text \<open>A verb is sent over a connection exactly when that connection is the live one of the node hosting the app, and
  the app is not archived if the verb is one that would make it run. So no machine work is done on
  a node that does not host the app, and an archived app is never run, deployed into or snapshotted.\<close>

lemma dispatch_iff:
  "dispatch reg d v name = Inr c \<longleftrightarrow>
     (\<exists>a. Store_App d name = Inr a \<and> Agent reg (hostOrLocal (a_Host a)) = Some c
          \<and> (a_Archived a \<longrightarrow> \<not> needs_runnable v))"
  by (auto simp: dispatch_def route_def routeRunnable_def agentFor_def split: sum.splits option.splits)

definition archived_db :: db where
  "archived_db = empty_db\<lparr>app_tbl := [plain_app\<lparr>a_Archived := True\<rparr>]\<rparr>"

lemma dispatch_iff_witness:
  "dispatch [(''local'', 7)] archived_db Down ''blog'' = Inr 7
   \<and> dispatch [(''local'', 7)] archived_db Up ''blog'' \<noteq> Inr 7"
  unfolding dispatch_iff
  by (simp add: archived_db_def empty_db_def plain_app_def Store_App_def Agent_def hostOrLocal_def)

section \<open>Placement\<close>

lemma foldl_best:
  fixes f :: "'a :: linorder \<Rightarrow> nat"
  defines "step \<equiv> \<lambda>best j. if f j < f best then j else best"
  assumes "sorted (i # is)"
  shows "foldl step i is \<in> set (i # is)
    \<and> (\<forall>j \<in> set (i # is). f (foldl step i is) < f j \<or> (f (foldl step i is) = f j \<and> foldl step i is \<le> j))"
  using assms(2)
proof (induction "is" arbitrary: i)
  case Nil
  then show ?case by simp
next
  case (Cons j js)
  show ?case
  proof (cases "f j < f i")
    case True
    then have "step i j = j" by (simp add: step_def)
    with Cons.IH[of j] Cons.prems True show ?thesis by auto
  next
    case False
    then have "step i j = i" by (simp add: step_def)
    with Cons.IH[of i] Cons.prems False show ?thesis by auto
  qed
qed

text \<open>A new app is placed on a connected node that hosts the fewest apps, the first in name order among those; with no
  node connected it goes to the local one.\<close>

lemma placeNode_least_loaded:
  "(map fst reg = [] \<longrightarrow> placeNode reg d = HostLocal)
   \<and> (map fst reg \<noteq> [] \<longrightarrow>
        placeNode reg d \<in> fst ` set reg
        \<and> (\<forall>j \<in> fst ` set reg. host_count d (placeNode reg d) < host_count d j
             \<or> (host_count d (placeNode reg d) = host_count d j \<and> placeNode reg d \<le> j)))"
proof (cases "IDs reg")
  case Nil
  then have "reg = []" by (metis IDs_def Nil_is_map_conv set_empty set_sort)
  with Nil show ?thesis by (simp add: placeNode_def)
next
  case (Cons i "is")
  have s: "sorted (i # is)" using Cons by (metis IDs_def sorted_sort)
  have m: "set (i # is) = fst ` set reg" using Cons by (metis IDs_def set_sort set_map)
  show ?thesis
    using foldl_best[OF s, of "host_count d"] unfolding m
    by (auto simp: placeNode_def Cons)
qed

lemma placeNode_least_loaded_witness:
  "placeNode [(''n2'', 1), (''local'', 2)] (empty_db\<lparr>app_tbl := [plain_app]\<rparr>) = ''n2''"
  using placeNode_least_loaded[of "[(''n2'', 1), (''local'', 2)]" "empty_db\<lparr>app_tbl := [plain_app]\<rparr>"]
  by (auto simp: host_count_def Apps_def plain_app_def)

section \<open>The mirror agrees with the registry\<close>

text \<open>The constraints of the app table do not depend on the order of its rows.\<close>

lemma app_unique_iff:
  "tbl_unique app_conflict t \<longleftrightarrow>
     distinct (map a_Name t) \<and> distinct (map a_Port t) \<and> distinct (map a_ID (filter (\<lambda>a. a_ID a \<noteq> '''') t))"
  by (induction t) (auto simp: tbl_unique_def app_conflict_def)

lemma app_unique_perm:
  assumes "mset s = mset t"
  shows "tbl_unique app_conflict s = tbl_unique app_conflict t"
proof -
  have "mset (map k s) = mset (map k t)" "mset (map k (filter P s)) = mset (map k (filter P t))" for k :: "App \<Rightarrow> 'k" and P
    using assms by (simp_all)
  then show ?thesis unfolding app_unique_iff by (metis mset_eq_imp_distinct_iff)
qed

definition mirror_row :: "App \<Rightarrow> App" where
  "mirror_row a =
     \<lparr>a_ID = a_ID a, a_Name = a_Name a, a_Port = a_Port a, a_Host = a_Host a, a_OwnerID = '''', a_DiskMB = a_DiskMB a,
      a_CreatedAt = Some (unix_of (a_CreatedAt a)), a_ImageTag = a_ImageTag a, a_UID = a_UID a,
      a_PoweredOff = a_PoweredOff a, a_Archived = False, a_SoftDeletedAt = None, a_Listed = False, a_Private = False,
      a_MemoryLimitMB = 0, a_DiskLimitMB = 0, a_CPUMilli = 0, a_Tabs = ''''\<rparr>"

lemma insert_mirror_apps_ok:
  assumes "tbl_unique app_conflict (tbl @ map mirror_row as)"
  shows "insert_mirror_apps (map (\<lambda>a. a\<lparr>a_OwnerID := ''''\<rparr>) as) tbl = Inr (tbl @ map mirror_row as)"
  using assms
proof (induction as arbitrary: tbl)
  case Nil
  then show ?case by simp
next
  case (Cons a as)
  have u: "tbl_unique app_conflict ((tbl @ [mirror_row a]) @ map mirror_row as)" using Cons.prems by simp
  then have "\<not> conflicts_with app_conflict (mirror_row a) tbl"
    by (auto simp: tbl_unique_def sorted_wrt_append conflicts_with_iff)
  then have "tbl_insert app_conflict (mirror_row a) tbl = Inr (tbl @ [mirror_row a])" by (simp add: tbl_insert_def)
  with Cons.IH[OF u] show ?case
    by (simp add: Let_def mirror_row_def)
qed

lemma mirror_rows_unique:
  assumes "db_unique d"
  shows "tbl_unique app_conflict (map mirror_row (filter P (Apps d)))"
proof -
  have "tbl_unique app_conflict (app_tbl d)" using assms by (simp add: db_unique_def)
  then have "tbl_unique app_conflict (Apps d)"
    using app_unique_perm[of "Apps d" "app_tbl d"] by (simp add: Apps_def)
  then have "tbl_unique app_conflict (filter P (Apps d))" by simp
  then show ?thesis by (simp add: tbl_unique_def sorted_wrt_map app_conflict_def mirror_row_def)
qed

text \<open>C6: a fresh push makes the mirror agree with the registry. When the registry satisfies its constraints and the node has seen
  only smaller numbers, applying the pushed state succeeds and the node then holds exactly the apps the registry places
  on it, in the registry's order, with the id, name, port, host, uid, image and power state of each and without its owner;
  and of its snapshots only those of such apps.\<close>

theorem Sync_mirrors_registry:
  assumes "db_unique d" and "0 \<le> seq" and "nd_syncSeq n \<le> seq"
  shows "snd (Sync n (snd (syncState d seq host))) = None
    \<and> app_tbl (nd_db (fst (Sync n (snd (syncState d seq host))))) = map mirror_row (filter (on_host host) (Apps d))
    \<and> nd_syncSeq (fst (Sync n (snd (syncState d seq host)))) = seq + 1
    \<and> (\<forall>s \<in> set (snapshot_tbl (nd_db (fst (Sync n (snd (syncState d seq host)))))).
         \<exists>a \<in> set (app_tbl d). on_host host a \<and> a_Name a = s_AppName s)"
proof -
  have ins: "insert_mirror_apps (map (\<lambda>a. a\<lparr>a_OwnerID := ''''\<rparr>) (filter (on_host host) (Apps d))) [] =
      Inr (map mirror_row (filter (on_host host) (Apps d)))"
    using insert_mirror_apps_ok[of "[]"] mirror_rows_unique[OF assms(1)] by simp
  have names: "a_Name ` set (map mirror_row (filter (on_host host) (Apps d))) = a_Name ` {a \<in> set (app_tbl d). on_host host a}"
    by (auto simp: Apps_def mirror_row_def image_iff)
  have fresh: "\<not> seq + 1 \<le> nd_syncSeq n" using assms(3) by simp
  have owned: "\<exists>b \<in> set (app_tbl d). on_host host b \<and> a_Name b = s"
    if "s \<in> a_Name ` set (map mirror_row (filter (on_host host) (Apps d)))" for s
    using that unfolding names by auto
  show ?thesis
    unfolding Sync_def syncState_def sync_check_def sync_apply_def ReplaceNodeMirror_def Let_def
    using owned by (simp add: ins fresh del: set_map)
qed

lemma Sync_mirrors_registry_witness:
  "snd (Sync \<lparr>nd_db = empty_db, nd_syncSeq = 0\<rparr> (snd (syncState one_snapshot_db 0 ''local''))) = None
   \<and> app_tbl (nd_db (fst (Sync \<lparr>nd_db = empty_db, nd_syncSeq = 0\<rparr> (snd (syncState one_snapshot_db 0 ''local''))))) \<noteq> []"
  using Sync_mirrors_registry[of one_snapshot_db 0 "\<lparr>nd_db = empty_db, nd_syncSeq = 0\<rparr>" "''local''"]
  by (simp add: one_snapshot_db_unique) (simp add: one_snapshot_db_def plain_app_def Apps_def on_host_def hostOrLocal_def)

section \<open>Concurrent pushes\<close>

lemma ReplaceNodeMirror_apps:
  "ReplaceNodeMirror d apps snaps = Inr d' \<Longrightarrow> insert_mirror_apps apps [] = Inr (app_tbl d')"
  by (auto simp: ReplaceNodeMirror_def Let_def split: sum.splits)

text \<open>The interleaving of two \<open>Sync\<close> calls in which the first one is overtaken between its check and its write.\<close>

definition overtaken :: "node_state \<Rightarrow> SyncState \<Rightarrow> SyncState \<Rightarrow> node_state res" where
  "overtaken n st1 st2 =
     (let n1 = fst (sync_check n st1); n2 = fst (sync_check n1 st2)
      in case sync_apply n2 st2 of Inl e \<Rightarrow> Inl e | Inr n3 \<Rightarrow> sync_apply n3 st1)"

text \<open>The sequence number does not protect a node from two pushes handled concurrently. \<open>Sync\<close> compares and stores the
  number under its lock but writes the mirror after releasing it. If the older push passes its check first and the newer one
  is written in between, both pass, the node ends with the older app rows under the newer number, and a repetition of the newer push
  is then ignored as stale.\<close>

lemma Sync_race_keeps_older:
  assumes "nd_syncSeq n < sy_Seq st1" and "0 < sy_Seq st1" and "sy_Seq st1 < sy_Seq st2"
    and "overtaken n st1 st2 = Inr n'"
  shows "insert_mirror_apps (sy_Apps st1) [] = Inr (app_tbl (nd_db n'))
    \<and> nd_syncSeq n' = sy_Seq st2 \<and> Sync n' st2 = (n', None)"
proof -
  let ?n2 = "n\<lparr>nd_syncSeq := sy_Seq st2\<rparr>"
  have "overtaken n st1 st2 = (case sync_apply ?n2 st2 of Inl e \<Rightarrow> Inl e | Inr n3 \<Rightarrow> sync_apply n3 st1)"
    using assms(1-3) by (simp add: overtaken_def sync_check_def)
  then obtain n3 where n3: "sync_apply ?n2 st2 = Inr n3" "sync_apply n3 st1 = Inr n'"
    using assms(4) by (auto split: sum.splits)
  have "nd_syncSeq n3 = sy_Seq st2" using n3(1) by (auto simp: sync_apply_def split: sum.splits)
  then have s: "nd_syncSeq n' = sy_Seq st2" using n3(2) by (auto simp: sync_apply_def split: sum.splits)
  moreover have "insert_mirror_apps (sy_Apps st1) [] = Inr (app_tbl (nd_db n'))"
    using n3(2) by (auto simp: sync_apply_def split: sum.splits dest!: ReplaceNodeMirror_apps)
  moreover have "Sync n' st2 = (n', None)"
    using s assms(2,3) by (simp add: Sync_def sync_check_def)
  ultimately show ?thesis by simp
qed

definition node0 :: node_state where
  "node0 = \<lparr>nd_db = empty_db, nd_syncSeq = 0\<rparr>"

lemma Sync_race_keeps_older_witness:
  "\<exists>n'. overtaken node0 \<lparr>sy_Apps = [], sy_Snapshots = [], sy_Seq = 1\<rparr> \<lparr>sy_Apps = [plain_app], sy_Snapshots = [], sy_Seq = 2\<rparr> = Inr n'
     \<and> app_tbl (nd_db n') = [] \<and> nd_syncSeq n' = 2"
proof -
  let ?st1 = "\<lparr>sy_Apps = [], sy_Snapshots = [], sy_Seq = 1\<rparr>"
  let ?st2 = "\<lparr>sy_Apps = [plain_app], sy_Snapshots = [], sy_Seq = 2\<rparr>"
  obtain n' where n': "overtaken node0 ?st1 ?st2 = Inr n'"
    by (simp add: overtaken_def sync_check_def sync_apply_def ReplaceNodeMirror_def node0_def tbl_insert_def
        empty_db_def conflicts_with_def Let_def)
  with Sync_race_keeps_older[of node0 ?st1 ?st2 n'] show ?thesis by (simp add: node0_def)
qed

end
