(* ===== verification/App_Lifecycle.thy ===== *)
theory App_Lifecycle
  imports Node_Link
begin

text \<open>
  The manager's half of an app's life (\<open>control/manager.go\<close>, \<open>rename.go\<close>, \<open>archive.go\<close>, \<open>softdelete.go\<close>): names, ports and
  uid blocks, creating, forking, renaming, shelving, deleting and reaping. The manager's own state is a record: the
  registry, the port rotation, the ports reserved in memory and the recorded limits. What a node answers is an argument;
  the notifications that only tell nodes about the registry (\<open>PushMirror\<close>, \<open>refreshSSHRelay\<close>, \<open>SetMemoryLimit\<close> and its siblings,
  the background start) change none of this state and are left out.
\<close>

section \<open>Ports and uid blocks\<close>

abbreviation PortMin :: int where "PortMin \<equiv> 10000"
abbreviation PortMax :: int where "PortMax \<equiv> 19999"
abbreviation UIDBlockSize :: int where "UIDBlockSize \<equiv> 65536"
abbreviation UIDBlockStart :: int where "UIDBlockStart \<equiv> 1000000"

definition UIDTop :: int where
  "UIDTop = UIDBlockStart + (PortMax - PortMin) * UIDBlockSize + UIDBlockSize - 1"

definition UIDFor :: "int \<Rightarrow> int" where
  "UIDFor port = UIDBlockStart + (port - PortMin) * UIDBlockSize"

record manager =
  mg_db :: db
  mg_nextPort :: int
  mg_reserved :: "int set"
  mg_limits :: "string \<rightharpoonup> int \<times> int \<times> int"

definition NewManager :: "db \<Rightarrow> manager" where
  "NewManager d =
     \<lparr>mg_db = d,
      mg_nextPort = (case parse_int (Setting d ''next_port'') of None \<Rightarrow> 0 | Some n \<Rightarrow> n),
      mg_reserved = {}, mg_limits = Map.empty\<rparr>"

definition port_free :: "int list \<Rightarrow> int set \<Rightarrow> int \<Rightarrow> bool" where
  "port_free used reserved port \<longleftrightarrow> port \<notin> set used \<and> port \<notin> reserved"

text \<open>The port of iteration \<open>i\<close> of the loop \<open>for i := 0; i < span; i++\<close>; \<open>k\<close> iterations are left in \<open>scan_ports\<close>.\<close>

definition cyc :: "int \<Rightarrow> int \<Rightarrow> int" where
  "cyc start i = PortMin + (start - PortMin + i) mod (PortMax - PortMin + 1)"

fun scan_ports :: "int list \<Rightarrow> int set \<Rightarrow> int \<Rightarrow> int \<Rightarrow> nat \<Rightarrow> int option" where
  "scan_ports used reserved start i 0 = None"
| "scan_ports used reserved start i (Suc k) =
     (let port = cyc start i
      in if port_free used reserved port then Some port else scan_ports used reserved start (i + 1) k)"

definition start_port :: "int \<Rightarrow> int" where
  "start_port next = (if next < PortMin \<or> PortMax < next then PortMin else next)"

text \<open>What happens under the lock, with the ports read from the registry before.\<close>

definition grant_port :: "int list \<Rightarrow> manager \<Rightarrow> manager \<times> int res" where
  "grant_port used m =
     (let start = start_port (mg_nextPort m)
      in case scan_ports used (mg_reserved m) start 0 (nat (PortMax - PortMin + 1)) of
           None \<Rightarrow> (m\<lparr>mg_nextPort := start\<rparr>, Inl ErrNoPortsAvailable)
         | Some port \<Rightarrow>
             (m\<lparr>mg_reserved := insert port (mg_reserved m), mg_nextPort := port + 1,
                mg_db := SetSetting (mg_db m) ''next_port'' (itoa (port + 1))\<rparr>, Inr port))"

definition allocatePort :: "manager \<Rightarrow> manager \<times> int res" where
  "allocatePort m = grant_port (UsedPorts (mg_db m)) m"

definition releasePort :: "manager \<Rightarrow> int \<Rightarrow> manager" where
  "releasePort m port = m\<lparr>mg_reserved := mg_reserved m - {port}\<rparr>"

definition RecordLimits :: "manager \<Rightarrow> string \<Rightarrow> int \<Rightarrow> int \<Rightarrow> int \<Rightarrow> manager" where
  "RecordLimits m name memoryMB diskMB cpuMilli = m\<lparr>mg_limits := (mg_limits m)(name \<mapsto> (memoryMB, diskMB, cpuMilli))\<rparr>"

definition DiskLimit :: "manager \<Rightarrow> string \<Rightarrow> int" where
  "DiskLimit m name = (case mg_limits m name of None \<Rightarrow> 0 | Some (mem, disk, cpu) \<Rightarrow> disk)"

section \<open>Names\<close>

definition is_lower_letter :: "char \<Rightarrow> bool" where
  "is_lower_letter c = (let n = of_char c :: nat in 97 \<le> n \<and> n \<le> 122)"

text \<open>\<open>^[a-z]([a-z0-9-]{0,30}[a-z0-9])?$\<close>\<close>

definition ValidName :: "string \<Rightarrow> bool" where
  "ValidName s =
     (s \<noteq> [] \<and> is_lower_letter (hd s) \<and>
      (tl s = [] \<or>
       (length (butlast (tl s)) \<le> 30
        \<and> list_all (\<lambda>c. is_lower_letter c \<or> is_digit c \<or> c = CHR ''-'') (butlast (tl s))
        \<and> (is_lower_letter (last s) \<or> is_digit (last s)))))"

definition reservedNames :: "string list" where
  "reservedNames =
     [''hostit'', ''hostit-control'', ''hostit-node'', ''hostit-proxy'', ''hostit-apps'',
      ''api'', ''www'', ''www-data'', ''mail'', ''smtp'', ''imap'', ''ftp'', ''ssh'', ''git'',
      ''control'', ''node'', ''proxy'',
      ''admin'', ''administrator'', ''root'', ''daemon'', ''bin'', ''sys'', ''sync'', ''adm'',
      ''operator'', ''backup'', ''nobody'', ''sshd'', ''systemd'', ''dbus'', ''messagebus'',
      ''lp'', ''news'', ''uucp'', ''games'', ''man'', ''postfix'', ''dovecot'', ''ntp'', ''chrony'',
      ''postgres'', ''mysql'', ''mariadb'', ''redis'', ''mongodb'', ''mongo'', ''mongod'',
      ''memcached'', ''rabbitmq'', ''elasticsearch'', ''influxdb'', ''cassandra'',
      ''nginx'', ''apache'', ''apache2'', ''httpd'', ''tomcat'', ''docker'', ''podman'',
      ''grafana'', ''prometheus'', ''jenkins'', ''gitlab'',
      ''ubuntu'', ''debian'']"

text \<open>\<open>filepath.Clean\<close> on Unix: \<open>.\<close> and empty elements go, \<open>..\<close> removes the element before it. The stack holds the
  elements so far, last one first.\<close>

fun clean_elems :: "bool \<Rightarrow> string list \<Rightarrow> string list \<Rightarrow> string list" where
  "clean_elems rooted st [] = rev st"
| "clean_elems rooted st (e # es) =
     (if e = '''' \<or> e = ''.'' then clean_elems rooted st es
      else if e = ''..'' then
        (case st of
           [] \<Rightarrow> if rooted then clean_elems rooted [] es else clean_elems rooted [''..''] es
         | t # ts \<Rightarrow> if t = ''..'' then clean_elems rooted (''..'' # st) es else clean_elems rooted ts es)
      else clean_elems rooted (e # st) es)"

definition filepath_Clean :: "string \<Rightarrow> string" where
  "filepath_Clean p =
     (let rooted = HasPrefix p ''/'';
          out = join_with (CHR ''/'') (clean_elems rooted [] (split_on (CHR ''/'') p))
      in if rooted then CHR ''/'' # out else if out = '''' then ''.'' else out)"

definition managedHome :: "string \<Rightarrow> string \<Rightarrow> bool" where
  "managedHome appsDir home0 =
     (let home = filepath_Clean home0
      in list_ex (\<lambda>prefix. prefix \<noteq> '''' \<and>
            (let p = filepath_Clean prefix in home = p \<or> HasPrefix home (p @ ''/'')))
          [''/run/hostit'', ''/var/lib/hostit'', appsDir])"

text \<open>\<open>lookup\<close> is the passwd lookup on the control host: the home directory of an account.\<close>

definition validateName :: "(string \<Rightarrow> string option) \<Rightarrow> string \<Rightarrow> db \<Rightarrow> string \<Rightarrow> unit res" where
  "validateName lookup appsDir d name =
     (if \<not> ValidName name then Inl ErrInvalid
      else if name \<in> set reservedNames then Inl ErrInvalid
      else case Store_App d name of
             Inr _ \<Rightarrow> Inl ErrAppExists
           | Inl e \<Rightarrow>
               if e \<noteq> ErrAppNotFound then Inl e
               else (case lookup name of
                       None \<Rightarrow> Inr ()
                     | Some home \<Rightarrow> if managedHome appsDir home then Inr () else Inl ErrInvalid))"

section \<open>Creating and forking\<close>

record CreateOptions =
  co_OwnerID :: string
  co_RequestKeys :: "string list"
  co_ProfileKeys :: "string list"
  co_MemoryMB :: int
  co_DiskMB :: int
  co_Host :: string
  co_Private :: bool

record ProvisionSpec =
  ps_Host :: string
  ps_ID :: string
  ps_Name :: string
  ps_Port :: int
  ps_SSHKeys :: "string list"
  ps_SeedAppID :: string
  ps_SeedSnapshotID :: string
  ps_URL :: string
  ps_DiskMB :: int

text \<open>What creating an app uses of its surroundings: the passwd lookup and apps directory of the control host, the check of SSH
  keys, the fresh id, the clock, the workspace image, the relay key, the connected nodes, the URL of an app name, whether a
  statement of \<open>SetAppKeys\<close> fails and how (\<open>0\<close> the delete, \<open>k + 1\<close> the insert of the key after the first \<open>k\<close>), and
  the node's answer to a provision request.\<close>

record create_env =
  ce_lookup :: "string \<Rightarrow> string option"
  ce_appsDir :: string
  ce_keysOk :: "string list \<Rightarrow> bool"
  ce_newID :: string
  ce_now :: int
  ce_imageTag :: string
  ce_relayLine :: string
  ce_nodes :: agents
  ce_url :: "string \<Rightarrow> string"
  ce_keysFail :: "(nat \<times> err) option"
  ce_provision :: "ProvisionSpec \<Rightarrow> unit res"

definition defaultCPUMilli :: int where "defaultCPUMilli = 500"

definition create_spec :: "create_env \<Rightarrow> manager \<Rightarrow> string \<Rightarrow> string \<Rightarrow> string \<Rightarrow> int \<Rightarrow> CreateOptions \<Rightarrow> (string \<times> string) option \<Rightarrow> ProvisionSpec" where
  "create_spec env m host i name port opts seed =
     \<lparr>ps_Host = host, ps_ID = i, ps_Name = name, ps_Port = port,
      ps_SSHKeys = appendRelayKey (ce_relayLine env) host (co_RequestKeys opts @ co_ProfileKeys opts),
      ps_SeedAppID = (case seed of None \<Rightarrow> '''' | Some (a, s) \<Rightarrow> a),
      ps_SeedSnapshotID = (case seed of None \<Rightarrow> '''' | Some (a, s) \<Rightarrow> s),
      ps_URL = ce_url env name, ps_DiskMB = DiskLimit m name\<rparr>"

definition create_row :: "create_env \<Rightarrow> db \<Rightarrow> string \<Rightarrow> int \<Rightarrow> CreateOptions \<Rightarrow> App" where
  "create_row env d name port opts =
     \<lparr>a_ID = ce_newID env, a_Name = name, a_Port = port,
      a_Host = (if co_Host opts = '''' then placeNode (ce_nodes env) d else co_Host opts),
      a_OwnerID = co_OwnerID opts, a_DiskMB = 0, a_CreatedAt = None, a_ImageTag = ce_imageTag env, a_UID = UIDFor port,
      a_PoweredOff = False, a_Archived = False, a_SoftDeletedAt = None, a_Listed = False, a_Private = co_Private opts,
      a_MemoryLimitMB = 0, a_DiskLimitMB = 0, a_CPUMilli = 0, a_Tabs = ''''\<rparr>"

text \<open>What a \<open>SetAppKeys\<close> that fails at its \<open>k\<close>-th statement leaves of the registry: its statements are not one transaction.\<close>

definition SetAppKeys_upto :: "nat \<Rightarrow> db \<Rightarrow> string \<Rightarrow> string list \<Rightarrow> db" where
  "SetAppKeys_upto k d appName keys = (case k of 0 \<Rightarrow> d | Suc j \<Rightarrow> SetAppKeys d appName (take j keys))"

text \<open>From the granted port on. A failed \<open>UpdateAppLimits\<close> is only logged; a failed \<open>SetAppKeys\<close> or \<open>Provision\<close> removes the row
  again. The port's reservation ends on every path out.\<close>

definition create_at ::
  "create_env \<Rightarrow> manager \<Rightarrow> string \<Rightarrow> CreateOptions \<Rightarrow> (string \<times> string) option \<Rightarrow> int \<Rightarrow> manager \<times> App res" where
  "create_at env m name opts seed port =
     (let row = create_row env (mg_db m) name port opts;
          m2 = RecordLimits m name (co_MemoryMB opts) (co_DiskMB opts) defaultCPUMilli
      in case AddApp (ce_now env) (ce_newID env) (mg_db m2) row of
           Inl e \<Rightarrow> (releasePort m2 port, Inl e)
         | Inr (d1, app) \<Rightarrow>
             (case ce_keysFail env of
                Some (k, e) \<Rightarrow>
                  let d2 = SetAppKeys_upto k d1 name (co_RequestKeys opts)
                  in (releasePort (m2\<lparr>mg_db := (case RemoveApp d2 name of Inl _ \<Rightarrow> d2 | Inr d \<Rightarrow> d)\<rparr>) port, Inl e)
              | None \<Rightarrow>
                  let d2 = SetAppKeys d1 name (co_RequestKeys opts);
                      d3 = (case UpdateAppLimits d2 name 0 0 defaultCPUMilli of Inl _ \<Rightarrow> d2 | Inr d \<Rightarrow> d)
                  in case ce_provision env (create_spec env m2 (a_Host row) (ce_newID env) name port opts seed) of
                       Inl e \<Rightarrow>
                         (releasePort (m2\<lparr>mg_db := (case RemoveApp d3 name of Inl _ \<Rightarrow> d3 | Inr d \<Rightarrow> d)\<rparr>) port, Inl e)
                     | Inr _ \<Rightarrow> (releasePort (m2\<lparr>mg_db := d3\<rparr>) port, Inr app)))"

definition create :: "create_env \<Rightarrow> manager \<Rightarrow> string \<Rightarrow> CreateOptions \<Rightarrow> (string \<times> string) option \<Rightarrow> manager \<times> App res" where
  "create env m name opts seed =
     (case validateName (ce_lookup env) (ce_appsDir env) (mg_db m) name of
        Inl e \<Rightarrow> (m, Inl e)
      | Inr _ \<Rightarrow>
          if \<not> ce_keysOk env (co_RequestKeys opts) then (m, Inl ErrInvalid)
          else case allocatePort m of
                 (m1, Inl e) \<Rightarrow> (m1, Inl e)
               | (m1, Inr port) \<Rightarrow> create_at env m1 name opts seed port)"

definition CreateApp :: "create_env \<Rightarrow> manager \<Rightarrow> string \<Rightarrow> CreateOptions \<Rightarrow> manager \<times> App res" where
  "CreateApp env m name opts = create env m name opts None"

definition Fork :: "create_env \<Rightarrow> manager \<Rightarrow> string \<Rightarrow> string \<Rightarrow> string \<Rightarrow> CreateOptions \<Rightarrow> manager \<times> App res" where
  "Fork env m source newName snapshotID opts =
     (case Store_App (mg_db m) source of
        Inl e \<Rightarrow> (m, Inl e)
      | Inr src \<Rightarrow>
          let go = create env m newName (opts\<lparr>co_Host := hostOrLocal (a_Host src)\<rparr>) (Some (a_ID src, snapshotID))
          in if snapshotID = '''' then go
             else case Store_Snapshot (mg_db m) snapshotID of
                    Inl e \<Rightarrow> (m, Inl e)
                  | Inr snap \<Rightarrow> if s_AppName snap \<noteq> source then (m, Inl ErrSnapshotNotFound) else go)"

section \<open>Deleting\<close>

text \<open>\<open>DeleteApp\<close> up to and including the removal from the registry, and the reservation of the port after it. The teardown
  runs in the background and ends with \<open>releasePort\<close>.\<close>

definition delete_remove :: "manager \<Rightarrow> string \<Rightarrow> (manager \<times> App) res" where
  "delete_remove m name =
     (case Store_App (mg_db m) name of
        Inl e \<Rightarrow> Inl e
      | Inr a \<Rightarrow> (case RemoveApp (mg_db m) name of Inl e \<Rightarrow> Inl e | Inr d \<Rightarrow> Inr (m\<lparr>mg_db := d\<rparr>, a)))"

definition delete_reserve :: "manager \<Rightarrow> int \<Rightarrow> manager" where
  "delete_reserve m port = m\<lparr>mg_reserved := insert port (mg_reserved m)\<rparr>"

definition DeleteApp :: "manager \<Rightarrow> string \<Rightarrow> manager res" where
  "DeleteApp m name =
     (case delete_remove m name of Inl e \<Rightarrow> Inl e | Inr (m', a) \<Rightarrow> Inr (delete_reserve m' (a_Port a)))"

definition BackfillUIDs :: "db \<Rightarrow> db" where
  "BackfillUIDs d = fold (\<lambda>a d'. if a_UID a \<noteq> 0 then d' else SetAppUID d' (a_Name a) (UIDFor (a_Port a))) (Apps d) d"

section \<open>Shelving and the grace period\<close>

text \<open>\<open>down\<close> is what powering the app off on its node does to the registry (the node reports the transition), a failed call
  does nothing to it.\<close>

type_synonym down_fn = "string \<Rightarrow> db \<Rightarrow> db"

definition Archive :: "down_fn \<Rightarrow> db \<Rightarrow> string \<Rightarrow> db res" where
  "Archive down d name =
     (case Store_App d name of Inl e \<Rightarrow> Inl e | Inr _ \<Rightarrow> Inr (SetAppArchived (down name d) name True))"

definition Unarchive :: "db \<Rightarrow> string \<Rightarrow> db res" where
  "Unarchive d name = (case Store_App d name of Inl e \<Rightarrow> Inl e | Inr _ \<Rightarrow> Inr (SetAppArchived d name False))"

text \<open>The clock is in nanoseconds, the stamp in seconds.\<close>

definition SoftDeleteApp :: "down_fn \<Rightarrow> int \<Rightarrow> db \<Rightarrow> string \<Rightarrow> db res" where
  "SoftDeleteApp down now d name =
     (case Store_App d name of Inl e \<Rightarrow> Inl e | Inr _ \<Rightarrow> SetAppSoftDeleted (down name d) name (Some (now div second)))"

definition RestoreSoftDeleted :: "db \<Rightarrow> string \<Rightarrow> db res" where
  "RestoreSoftDeleted d name =
     (case Store_App d name of Inl e \<Rightarrow> Inl e | Inr _ \<Rightarrow> SetAppSoftDeleted d name None)"

definition past_grace :: "int \<Rightarrow> int \<Rightarrow> App \<Rightarrow> bool" where
  "past_grace grace now a =
     (case a_SoftDeletedAt a of None \<Rightarrow> False | Some s \<Rightarrow> \<not> now - grace < s * second)"

text \<open>Dropping a reaped app's assistant session deletes its stored transcript.\<close>

definition DropSession :: "manager \<Rightarrow> string \<Rightarrow> manager" where
  "DropSession m name = m\<lparr>mg_db := DeleteAssistantSession (mg_db m) name\<rparr>"

definition ReapSoftDeleted :: "bool \<Rightarrow> int \<Rightarrow> int \<Rightarrow> manager \<Rightarrow> manager" where
  "ReapSoftDeleted assistant grace now m =
     fold (\<lambda>a m'. if past_grace grace now a
                   then (case DeleteApp m' (a_Name a) of
                           Inl _ \<Rightarrow> m'
                         | Inr m'' \<Rightarrow> if assistant then DropSession m'' (a_Name a) else m'')
                   else m')
       (Apps (mg_db m)) m"

definition handleAppsPurge :: "bool \<Rightarrow> manager \<Rightarrow> string \<Rightarrow> manager \<times> nat" where
  "handleAppsPurge assistant m name =
     (case Store_App (mg_db m) name of
        Inl e \<Rightarrow> (m, writeAppError e)
      | Inr a \<Rightarrow>
          if a_SoftDeletedAt a = None then (m, 400)
          else case DeleteApp m name of
                 Inl e \<Rightarrow> (m, writeAppError e)
               | Inr m' \<Rightarrow> (if assistant then DropSession m' name else m', 200))"

definition handleAppsRestore :: "db \<Rightarrow> string \<Rightarrow> db \<times> nat" where
  "handleAppsRestore d name =
     (case RestoreSoftDeleted d name of Inl e \<Rightarrow> (d, writeAppError e) | Inr d' \<Rightarrow> (d', 200))"

definition handleAppsDelete :: "down_fn \<Rightarrow> int \<Rightarrow> db \<Rightarrow> caller \<Rightarrow> string \<Rightarrow> db \<times> nat" where
  "handleAppsDelete down now d c name =
     (case ownerApp d c name of
        Inl e \<Rightarrow> (d, writeAppError e)
      | Inr a \<Rightarrow> (case SoftDeleteApp down now d (a_Name a) of Inl e \<Rightarrow> (d, writeAppError e) | Inr d' \<Rightarrow> (d', 200)))"

section \<open>Renaming\<close>

text \<open>A call to a node: the connection it went over and its arguments. \<open>ans\<close> is the node's answer.\<close>

type_synonym rename_call = "conn \<times> string \<times> string \<times> string"

definition node_rename ::
  "agents \<Rightarrow> (rename_call \<Rightarrow> unit res) \<Rightarrow> db \<Rightarrow> string \<Rightarrow> string \<Rightarrow> string \<Rightarrow> rename_call list \<times> unit res" where
  "node_rename reg ans d oldName newName i =
     (case dispatch reg d Node_Rename oldName of
        Inl e \<Rightarrow> ([], Inl e)
      | Inr c \<Rightarrow> ([(c, oldName, newName, i)], ans (c, oldName, newName, i)))"

text \<open>\<open>race\<close> is what other requests do to the registry while the node renames the login. The result is the registry, the calls that
  reached a node, and what the function returns.\<close>

definition Manager_RenameApp ::
  "(string \<Rightarrow> string option) \<Rightarrow> string \<Rightarrow> agents \<Rightarrow> (rename_call \<Rightarrow> unit res) \<Rightarrow> (db \<Rightarrow> db) \<Rightarrow> db \<Rightarrow> string \<Rightarrow> string
     \<Rightarrow> db \<times> rename_call list \<times> App res" where
  "Manager_RenameApp lookup appsDir reg ans race d oldName newName =
     (if newName = oldName then (d, [], Store_App d oldName)
      else case Store_App d oldName of
             Inl e \<Rightarrow> (d, [], Inl e)
           | Inr a \<Rightarrow>
               (case validateName lookup appsDir d newName of
                  Inl e \<Rightarrow> (d, [], Inl e)
                | Inr _ \<Rightarrow>
                    (case node_rename reg ans d oldName newName (a_ID a) of
                       (calls, Inl e) \<Rightarrow> (d, calls, Inl e)
                     | (calls, Inr _) \<Rightarrow>
                         let d1 = race d
                         in (case RenameApp d1 oldName newName of
                               Inl e \<Rightarrow>
                                 (d1, calls @ fst (node_rename reg ans d1 newName oldName (a_ID a)),
                                  Inl (if e = ErrAppNameTaken then ErrAppExists else e))
                             | Inr d2 \<Rightarrow> (d2, calls, Store_App d2 newName)))))"

section \<open>Limits\<close>

text \<open>The limits handler as a whole: after the registry write it records the app's effective limits; what it tells the node changes
  nothing here.\<close>

definition handleAppLimitsUpdate :: "manager \<Rightarrow> caller \<Rightarrow> string \<Rightarrow> apiLimitsPatch option \<Rightarrow> manager \<times> nat" where
  "handleAppLimitsUpdate m c name body =
     (case limits_update (mg_db m) c name body of
        (d, s) \<Rightarrow>
          if s \<noteq> 200 then (m\<lparr>mg_db := d\<rparr>, s)
          else let (memoryMB, diskMB, cpuMilli) = appLimits d name;
                   m1 = RecordLimits (m\<lparr>mg_db := d\<rparr>) name memoryMB diskMB cpuMilli
               in case Store_App d name of Inl e \<Rightarrow> (m1, writeAppError e) | Inr _ \<Rightarrow> (m1, 200))"

section \<open>Port allocation is correct\<close>

lemma scan_ports_None:
  "scan_ports used reserved start i k = None \<longleftrightarrow> (\<forall>j < k. \<not> port_free used reserved (cyc start (i + int j)))"
proof (induction k arbitrary: i)
  case 0
  then show ?case by simp
next
  case (Suc k)
  have "(\<forall>j < Suc k. P j) \<longleftrightarrow> P 0 \<and> (\<forall>j < k. P (Suc j))" for P
    by (auto simp: less_Suc_eq_0_disj)
  then show ?case using Suc[of "i + 1"] by (simp add: Let_def algebra_simps)
qed

lemma scan_ports_Some:
  "scan_ports used reserved start i k = Some p \<Longrightarrow>
     \<exists>j < k. p = cyc start (i + int j) \<and> port_free used reserved p
          \<and> (\<forall>j' < j. \<not> port_free used reserved (cyc start (i + int j')))"
proof (induction k arbitrary: i)
  case 0
  then show ?case by simp
next
  case (Suc k)
  show ?case
  proof (cases "port_free used reserved (cyc start i)")
    case True
    then show ?thesis using Suc.prems by (intro exI[of _ 0]) (simp add: Let_def)
  next
    case False
    then have "scan_ports used reserved start (i + 1) k = Some p" using Suc.prems by (simp add: Let_def)
    from Suc.IH[OF this] obtain j where j: "j < k" "p = cyc start (i + 1 + int j)" "port_free used reserved p"
      "\<forall>j' < j. \<not> port_free used reserved (cyc start (i + 1 + int j'))" by blast
    have "\<not> port_free used reserved (cyc start (i + int j'))" if "j' < Suc j" for j'
    proof (cases j')
      case 0
      then show ?thesis using False by simp
    next
      case (Suc j'')
      then show ?thesis using j(4) that by (auto simp: algebra_simps)
    qed
    then show ?thesis using j(1-3) by (intro exI[of _ "Suc j"]) (auto simp: algebra_simps)
  qed
qed

text \<open>Every port of the range is visited: \<open>q\<close> after \<open>(q - start) mod 10000\<close> steps.\<close>

lemma cyc_offset: "PortMin \<le> q \<Longrightarrow> q \<le> PortMax \<Longrightarrow> cyc start ((q - start) mod 10000) = q"
proof -
  assume q: "PortMin \<le> q" "q \<le> PortMax"
  have "(start - 10000 + (q - start) mod 10000) mod 10000 = (q - 10000) mod 10000"
    unfolding mod_add_right_eq by simp
  also have "\<dots> = q - 10000" using q by (intro mod_pos_pos_trivial) simp_all
  finally show ?thesis by (simp add: cyc_def)
qed

lemma cyc_range: "PortMin \<le> cyc start i \<and> cyc start i \<le> PortMax"
proof -
  have "0 \<le> (start - PortMin + i) mod 10000" "(start - PortMin + i) mod 10000 < 10000" by simp_all
  then show ?thesis by (simp add: cyc_def)
qed

lemma cyc_inverse: "0 \<le> j \<Longrightarrow> j < 10000 \<Longrightarrow> (cyc start j - start) mod 10000 = j"
proof -
  assume j: "0 \<le> j" "j < 10000"
  have "(cyc start j - start) mod 10000 = (10000 - start + (start - 10000 + j) mod 10000) mod 10000"
    by (simp add: cyc_def algebra_simps)
  also have "\<dots> = j mod 10000" unfolding mod_add_right_eq by simp
  finally show ?thesis using j by simp
qed

lemma app_tbl_SetSetting [simp]: "app_tbl (SetSetting d k v) = app_tbl d"
  by (simp add: SetSetting_def)

lemma UsedPorts_set [simp]: "set (UsedPorts d) = a_Port ` set (app_tbl d)"
  by (simp add: UsedPorts_def)

lemma allocatePort_Inr:
  assumes "allocatePort m = (m', Inr p)"
  shows "PortMin \<le> p \<and> p \<le> PortMax \<and> p \<notin> a_Port ` set (app_tbl (mg_db m)) \<and> p \<notin> mg_reserved m
    \<and> m' = m\<lparr>mg_reserved := insert p (mg_reserved m), mg_nextPort := p + 1,
              mg_db := SetSetting (mg_db m) ''next_port'' (itoa (p + 1))\<rparr>
    \<and> (\<forall>q. PortMin \<le> q \<and> q \<le> PortMax
          \<and> (q - start_port (mg_nextPort m)) mod 10000 < (p - start_port (mg_nextPort m)) mod 10000
          \<longrightarrow> q \<in> a_Port ` set (app_tbl (mg_db m)) \<union> mg_reserved m)"
proof -
  let ?s = "start_port (mg_nextPort m)" and ?u = "UsedPorts (mg_db m)"
  have scan: "scan_ports ?u (mg_reserved m) ?s 0 (nat (PortMax - PortMin + 1)) = Some p"
    and m': "m' = m\<lparr>mg_reserved := insert p (mg_reserved m), mg_nextPort := p + 1,
              mg_db := SetSetting (mg_db m) ''next_port'' (itoa (p + 1))\<rparr>"
    using assms by (auto simp: allocatePort_def grant_port_def Let_def split: option.splits)
  from scan_ports_Some[OF scan] obtain j where j: "j < 10000" "p = cyc ?s (int j)" "port_free ?u (mg_reserved m) p"
    "\<forall>j' < j. \<not> port_free ?u (mg_reserved m) (cyc ?s (int j'))" by auto
  have pj: "(p - ?s) mod 10000 = int j" unfolding j(2) using j(1) by (intro cyc_inverse) simp_all
  have "\<not> port_free ?u (mg_reserved m) q"
    if q: "PortMin \<le> q" "q \<le> PortMax" "(q - ?s) mod 10000 < (p - ?s) mod 10000" for q
  proof -
    have "nat ((q - ?s) mod 10000) < j" using q(3) pj by simp
    then have "\<not> port_free ?u (mg_reserved m) (cyc ?s ((q - ?s) mod 10000))" using j(4) by fastforce
    then show ?thesis using cyc_offset[OF q(1,2)] by simp
  qed
  moreover have "PortMin \<le> p \<and> p \<le> PortMax" unfolding j(2) by (rule cyc_range)
  ultimately show ?thesis using j(3) m' by (auto simp: port_free_def)
qed

lemma allocatePort_Inl:
  assumes "allocatePort m = (m', Inl e)"
  shows "e = ErrNoPortsAvailable \<and> m' = m\<lparr>mg_nextPort := start_port (mg_nextPort m)\<rparr>
    \<and> (\<forall>q. PortMin \<le> q \<and> q \<le> PortMax \<longrightarrow> q \<in> a_Port ` set (app_tbl (mg_db m)) \<union> mg_reserved m)"
proof -
  let ?s = "start_port (mg_nextPort m)" and ?u = "UsedPorts (mg_db m)"
  have scan: "scan_ports ?u (mg_reserved m) ?s 0 (nat (PortMax - PortMin + 1)) = None"
    and r: "e = ErrNoPortsAvailable" "m' = m\<lparr>mg_nextPort := ?s\<rparr>"
    using assms by (auto simp: allocatePort_def grant_port_def Let_def split: option.splits)
  have "\<not> port_free ?u (mg_reserved m) q" if q: "PortMin \<le> q" "q \<le> PortMax" for q
  proof -
    have lt: "nat ((q - ?s) mod 10000) < nat (PortMax - PortMin + 1)" by (simp add: nat_less_iff)
    have "\<not> port_free ?u (mg_reserved m) (cyc ?s (0 + int (nat ((q - ?s) mod 10000))))"
      using scan lt unfolding scan_ports_None by blast
    then show ?thesis using cyc_offset[OF q] by simp
  qed
  then show ?thesis using r by (auto simp: port_free_def)
qed



text \<open>The uid blocks of two ports never overlap, the blocks of allocatable ports fill exactly the uids from \<open>UIDBlockStart\<close> to
  \<open>UIDTop\<close>, and all of them fit a signed 32-bit uid.\<close>

lemma UIDFor_blocks:
  "(p \<noteq> q \<longrightarrow> {UIDFor p ..< UIDFor p + UIDBlockSize} \<inter> {UIDFor q ..< UIDFor q + UIDBlockSize} = {})
   \<and> (\<Union>r \<in> {PortMin .. PortMax}. {UIDFor r ..< UIDFor r + UIDBlockSize}) = {UIDBlockStart .. UIDTop}
   \<and> UIDTop < 2 ^ 31"
proof (intro conjI impI)
  assume "p \<noteq> q"
  then have "p + 1 \<le> q \<or> q + 1 \<le> p" by linarith
  then show "{UIDFor p ..< UIDFor p + UIDBlockSize} \<inter> {UIDFor q ..< UIDFor q + UIDBlockSize} = {}"
    by (auto simp: UIDFor_def)
next
  show "(\<Union>r \<in> {PortMin .. PortMax}. {UIDFor r ..< UIDFor r + UIDBlockSize}) = {UIDBlockStart .. UIDTop}"
  proof (intro set_eqI iffI)
    fix u
    assume "u \<in> (\<Union>r \<in> {PortMin .. PortMax}. {UIDFor r ..< UIDFor r + UIDBlockSize})"
    then show "u \<in> {UIDBlockStart .. UIDTop}" by (auto simp: UIDFor_def UIDTop_def)
  next
    fix u
    assume u: "u \<in> {UIDBlockStart .. UIDTop}"
    define r where "r = PortMin + (u - UIDBlockStart) div UIDBlockSize"
    have b: "UIDBlockSize * ((u - UIDBlockStart) div UIDBlockSize) \<le> u - UIDBlockStart"
      "u - UIDBlockStart < UIDBlockSize * ((u - UIDBlockStart) div UIDBlockSize) + UIDBlockSize"
      using div_bounds[of UIDBlockSize "u - UIDBlockStart"] by simp_all
    define v where "v = (u - UIDBlockStart) div UIDBlockSize"
    have v: "UIDBlockSize * v \<le> u - UIDBlockStart" "u - UIDBlockStart < UIDBlockSize * v + UIDBlockSize" "r = PortMin + v"
      using b by (simp_all add: v_def r_def)
    have "r \<in> {PortMin .. PortMax}" using u v by (auto simp: UIDTop_def)
    moreover have "u \<in> {UIDFor r ..< UIDFor r + UIDBlockSize}" using v by (auto simp: UIDFor_def)
    ultimately show "u \<in> (\<Union>r \<in> {PortMin .. PortMax}. {UIDFor r ..< UIDFor r + UIDBlockSize})" by blast
  qed
next
  show "UIDTop < 2 ^ 31" by (simp add: UIDTop_def)
qed

lemma UIDFor_blocks_witness:
  "{UIDFor 10000 ..< UIDFor 10000 + UIDBlockSize} \<inter> {UIDFor 10001 ..< UIDFor 10001 + UIDBlockSize} = {}"
  using UIDFor_blocks[of 10000 10001] by simp

section \<open>Creating is all or nothing\<close>

lemma app_tbl_SetAppKeys [simp]: "app_tbl (SetAppKeys d name keys) = app_tbl d"
proof -
  have "app_tbl (fold (\<lambda>key d'. d'\<lparr>app_key_tbl := app_key_tbl d' @ f key d'\<rparr>) keys d0) = app_tbl d0" for f and d0 :: db
    by (induction keys arbitrary: d0) simp_all
  then show ?thesis by (simp add: SetAppKeys_def Let_def)
qed

lemma validateName_ok: "validateName lookup dir d name = Inr u \<Longrightarrow> ValidName name \<and> name \<notin> set reservedNames \<and> (\<forall>a \<in> set (app_tbl d). a_Name a \<noteq> name)"
  by (auto simp: validateName_def Store_App_def tbl_find_None split: if_splits sum.splits option.splits)

lemma releasePort_reserved: "p \<notin> R \<Longrightarrow> mg_reserved m = insert p R \<Longrightarrow> mg_reserved (releasePort m p) = R"
  by (auto simp: releasePort_def)

lemma RemoveApp_app_tbl: "RemoveApp d name = Inr d' \<Longrightarrow> app_tbl d' = tbl_delete (\<lambda>a. a_Name a = name) (app_tbl d)"
  by (auto simp: RemoveApp_def RemoveTokensByApp_def Let_def split: sum.splits)

text \<open>The row a successful create leaves behind.\<close>

definition created_row :: "create_env \<Rightarrow> db \<Rightarrow> string \<Rightarrow> int \<Rightarrow> CreateOptions \<Rightarrow> App" where
  "created_row env d name port opts =
     (create_row env d name port opts)\<lparr>a_CreatedAt := Some (ce_now env), a_CPUMilli := defaultCPUMilli\<rparr>"

lemma stamp_limits:
  assumes "app_tbl d = t @ [r]" and "a_Name r = name" and "\<forall>a \<in> set t. a_Name a \<noteq> name"
  shows "\<exists>d'. UpdateAppLimits d name 0 0 c = Inr d' \<and>
           app_tbl d' = t @ [r\<lparr>a_MemoryLimitMB := 0, a_DiskLimitMB := 0, a_CPUMilli := c\<rparr>]"
proof -
  have "map (\<lambda>a. if a_Name a = name then f a else a) t = t" for f
    using assms(3) by (induction t) auto
  then show ?thesis using assms
    by (auto simp: UpdateAppLimits_def upd_app_checked_def upd_app_def checkAffected_def Let_def affected_def tbl_update_def)
qed

lemma host_count_SetSetting [simp]: "host_count (SetSetting d k v) = host_count d"
  by (rule ext) (simp add: host_count_def Apps_def)

lemma create_row_SetSetting [simp]: "create_row env (SetSetting d k v) = create_row env d"
  by (intro ext) (simp add: create_row_def placeNode_def split: list.split)

lemma created_row_SetSetting [simp]: "created_row env (SetSetting d k v) = created_row env d"
  by (intro ext) (simp add: created_row_def)

lemma AddApp_row:
  assumes "AddApp now rid d (create_row env d0 name port opts) = Inr (d1, app)" and "ce_newID env \<noteq> ''''"
  shows "app_tbl d1 = app_tbl d @ [(create_row env d0 name port opts)\<lparr>a_CreatedAt := Some now\<rparr>]
    \<and> app = (create_row env d0 name port opts)\<lparr>a_CreatedAt := Some now\<rparr>"
  using assms by (auto simp: AddApp_def create_row_def Let_def tbl_insert_Inr split: sum.splits)

lemma RemoveApp_last_row:
  assumes "app_tbl d' = t @ [r]" and "a_Name r = name" and "\<forall>a \<in> set t. a_Name a \<noteq> name"
  shows "\<exists>d4. RemoveApp d' name = Inr d4 \<and> app_tbl d4 = t"
proof -
  have "tbl_find (\<lambda>a. a_Name a = name) (app_tbl d') = Some r"
    using assms tbl_find_None[of "\<lambda>a. a_Name a = name" t] by (simp add: tbl_find_append)
  then obtain d4 where d4: "RemoveApp d' name = Inr d4" by (auto simp: RemoveApp_def Store_App_def Let_def)
  have "tbl_delete (\<lambda>a. a_Name a = name) t = t"
    using assms(3) by (simp add: tbl_delete_def filter_id_conv)
  then have "app_tbl d4 = t"
    using RemoveApp_app_tbl[OF d4] assms(2) by (simp add: assms(1) tbl_delete_def)
  with d4 show ?thesis by blast
qed

text \<open>The tail of \<open>create\<close>, once a port is granted.\<close>

lemma create_registered:
  assumes fresh: "\<forall>a \<in> set (app_tbl d). a_Name a \<noteq> name" and i: "ce_newID env \<noteq> ''''"
    and add: "AddApp (ce_now env) (ce_newID env) d (create_row env d0 name port opts) = Inr (d1, app)"
    and d3: "d3 = (case UpdateAppLimits (SetAppKeys d1 name keys) name 0 0 defaultCPUMilli of
                     Inl _ \<Rightarrow> SetAppKeys d1 name keys | Inr d \<Rightarrow> d)"
  shows "app_tbl d3 = app_tbl d @ [created_row env d0 name port opts]
    \<and> (\<exists>d4. RemoveApp d3 name = Inr d4 \<and> app_tbl d4 = app_tbl d)"
proof -
  note row = AddApp_row[OF add i]
  have nm: "a_Name ((create_row env d0 name port opts)\<lparr>a_CreatedAt := Some (ce_now env)\<rparr>) = name"
    by (simp add: create_row_def)
  obtain d' where d': "UpdateAppLimits (SetAppKeys d1 name keys) name 0 0 defaultCPUMilli = Inr d'"
    "app_tbl d' = app_tbl d @ [((create_row env d0 name port opts)\<lparr>a_CreatedAt := Some (ce_now env)\<rparr>)
        \<lparr>a_MemoryLimitMB := 0, a_DiskLimitMB := 0, a_CPUMilli := defaultCPUMilli\<rparr>]"
    using stamp_limits[OF _ nm fresh, of "SetAppKeys d1 name keys" defaultCPUMilli] row by auto
  then have t: "app_tbl d3 = app_tbl d @ [created_row env d0 name port opts]"
    by (simp add: d3 created_row_def create_row_def)
  have cn: "a_Name (created_row env d0 name port opts) = name"
    by (simp add: created_row_def create_row_def)
  show ?thesis using t RemoveApp_last_row[OF t cn fresh] by blast
qed

lemma create_keys_failed:
  assumes fresh: "\<forall>a \<in> set (app_tbl d). a_Name a \<noteq> name" and i: "ce_newID env \<noteq> ''''"
    and add: "AddApp (ce_now env) (ce_newID env) d (create_row env d0 name port opts) = Inr (d1, app)"
  shows "\<exists>d4. RemoveApp (SetAppKeys_upto k d1 name keys) name = Inr d4 \<and> app_tbl d4 = app_tbl d"
proof -
  have "app_tbl (SetAppKeys_upto k d1 name keys) = app_tbl d @ [(create_row env d0 name port opts)\<lparr>a_CreatedAt := Some (ce_now env)\<rparr>]"
    using AddApp_row[OF add i] by (simp add: SetAppKeys_upto_def split: nat.split)
  then show ?thesis by (rule RemoveApp_last_row) (use fresh in \<open>simp_all add: create_row_def\<close>)
qed

lemma create_at_outcome:
  assumes fresh: "\<forall>a \<in> set (app_tbl (mg_db m)). a_Name a \<noteq> name" and i: "ce_newID env \<noteq> ''''"
    and c: "create_at env m name opts seed port = (m', r)"
  shows "mg_reserved m' = mg_reserved m - {port}
    \<and> (case r of
         Inl e \<Rightarrow> app_tbl (mg_db m') = app_tbl (mg_db m)
       | Inr app \<Rightarrow> a_Port app = port \<and> a_UID app = UIDFor port
           \<and> app_tbl (mg_db m') = app_tbl (mg_db m) @ [created_row env (mg_db m) name port opts])"
proof (cases "AddApp (ce_now env) (ce_newID env) (mg_db m) (create_row env (mg_db m) name port opts)")
  case (Inl e)
  then show ?thesis using c by (auto simp: create_at_def Let_def releasePort_def RecordLimits_def)
next
  case (Inr da)
  obtain d1 app where da: "da = (d1, app)" by fastforce
  define d3 where "d3 = (case UpdateAppLimits (SetAppKeys d1 name (co_RequestKeys opts)) name 0 0 defaultCPUMilli of
               Inl _ \<Rightarrow> SetAppKeys d1 name (co_RequestKeys opts) | Inr d \<Rightarrow> d)"
  note reg = create_registered[OF fresh i Inr[unfolded da] d3_def]
  have app: "a_Port app = port" "a_UID app = UIDFor port"
    using AddApp_row[OF Inr[unfolded da] i] by (simp_all add: create_row_def)
  let ?m2 = "RecordLimits m name (co_MemoryMB opts) (co_DiskMB opts) defaultCPUMilli"
  let ?spec = "create_spec env ?m2 (a_Host (create_row env (mg_db m) name port opts)) (ce_newID env) name port opts seed"
  have db2: "mg_db ?m2 = mg_db m" "mg_reserved ?m2 = mg_reserved m" by (simp_all add: RecordLimits_def)
  show ?thesis
  proof (cases "ce_keysFail env")
    case (Some ke)
    obtain k e where ke: "ke = (k, e)" by fastforce
    obtain d4 where "RemoveApp (SetAppKeys_upto k d1 name (co_RequestKeys opts)) name = Inr d4" "app_tbl d4 = app_tbl (mg_db m)"
      using create_keys_failed[OF fresh i Inr[unfolded da]] by blast
    then show ?thesis
      using c unfolding create_at_def Let_def db2 Inr da Some ke by (auto simp: releasePort_def db2)
  next
    case None
    have "create_at env m name opts seed port =
        (case ce_provision env ?spec of
           Inl e \<Rightarrow> (releasePort (?m2\<lparr>mg_db := (case RemoveApp d3 name of Inl _ \<Rightarrow> d3 | Inr d \<Rightarrow> d)\<rparr>) port, Inl e)
         | Inr _ \<Rightarrow> (releasePort (?m2\<lparr>mg_db := d3\<rparr>) port, Inr app))"
      unfolding create_at_def Let_def db2 Inr da d3_def None by simp
    with c have "mg_reserved m' = mg_reserved m - {port}" and out: "((\<exists>e. r = Inl e) \<and> mg_db m' = (case RemoveApp d3 name of Inl _ \<Rightarrow> d3 | Inr d \<Rightarrow> d) \<or> r = Inr app \<and> mg_db m' = d3)"
      by (cases "ce_provision env ?spec"; force simp: releasePort_def db2)+
    moreover obtain d4 where "RemoveApp d3 name = Inr d4" "app_tbl d4 = app_tbl (mg_db m)" using reg by blast
    ultimately show ?thesis using reg app out by (elim disjE conjE exE) simp_all
  qed
qed

text \<open>C4: creating an app is all or nothing. If \<open>create\<close> fails, for whatever reason and at whatever step (a bad or taken name, a bad key, no
  port, a conflict in the registry, keys that cannot be stored, a node that cannot provision), the registered apps and the reserved ports are what they were. If it
  succeeds, exactly one row was added: under the requested name, which is valid, not reserved and was free, on a port of the range that
  no app had, with the uid block of that port, the owner and visibility asked for and the default CPU cap; and the port is no
  longer reserved.\<close>

theorem create_all_or_nothing:
  assumes "ce_newID env \<noteq> ''''" and "create env m name opts seed = (m', r)"
  shows "mg_reserved m' = mg_reserved m
    \<and> (case r of
         Inl e \<Rightarrow> app_tbl (mg_db m') = app_tbl (mg_db m)
       | Inr app \<Rightarrow>
           ValidName name \<and> name \<notin> set reservedNames \<and> (\<forall>a \<in> set (app_tbl (mg_db m)). a_Name a \<noteq> name)
           \<and> PortMin \<le> a_Port app \<and> a_Port app \<le> PortMax \<and> a_UID app = UIDFor (a_Port app)
           \<and> a_Port app \<notin> a_Port ` set (app_tbl (mg_db m)) \<union> mg_reserved m
           \<and> app_tbl (mg_db m') = app_tbl (mg_db m) @ [created_row env (mg_db m) name (a_Port app) opts])"
proof (cases "(\<exists>u. validateName (ce_lookup env) (ce_appsDir env) (mg_db m) name = Inr u) \<and> ce_keysOk env (co_RequestKeys opts)")
  case False
  then show ?thesis using assms(2) by (auto simp: create_def split: sum.splits if_splits)
next
  case True
  then obtain u where valid: "validateName (ce_lookup env) (ce_appsDir env) (mg_db m) name = Inr u"
    and keys: "ce_keysOk env (co_RequestKeys opts)" by blast
  note ok = validateName_ok[OF valid]
  obtain m1 q where q: "allocatePort m = (m1, q)" by fastforce
  show ?thesis
  proof (cases q)
    case (Inl e)
    then show ?thesis using assms(2) valid keys q allocatePort_Inl[of m m1 e] by (auto simp: create_def)
  next
    case (Inr port)
    note a = allocatePort_Inr[OF q[unfolded Inr]]
    have c: "create_at env m1 name opts seed port = (m', r)"
      using assms(2) valid keys q Inr by (simp add: create_def)
    have m1: "app_tbl (mg_db m1) = app_tbl (mg_db m)" "mg_reserved m1 - {port} = mg_reserved m"
      "created_row env (mg_db m1) = created_row env (mg_db m)"
      using a by (auto simp: created_row_def[abs_def])
    have "\<forall>a \<in> set (app_tbl (mg_db m1)). a_Name a \<noteq> name" using ok m1(1) by simp
    from create_at_outcome[OF this assms(1) c] ok a show ?thesis
      by (auto simp: m1 split: sum.splits)
  qed
qed

definition env0 :: create_env where
  "env0 = \<lparr>ce_lookup = (\<lambda>_. None), ce_appsDir = '''', ce_keysOk = (\<lambda>_. True), ce_newID = ''app_9'', ce_now = 1767225600,
     ce_imageTag = ''v1'', ce_relayLine = '''', ce_nodes = [(''local'', 1)], ce_url = (\<lambda>n. n), ce_keysFail = None, ce_provision = (\<lambda>_. Inl NodeNotConnected)\<rparr>"

definition opts0 :: CreateOptions where
  "opts0 = \<lparr>co_OwnerID = ''usr_1'', co_RequestKeys = [], co_ProfileKeys = [], co_MemoryMB = 0, co_DiskMB = 0, co_Host = '''',
     co_Private = True\<rparr>"

lemma create_all_or_nothing_witness:
  "mg_reserved (fst (create env0 (NewManager empty_db) ''shop'' opts0 None)) = {}"
  using create_all_or_nothing[of env0 "NewManager empty_db" "''shop''" opts0 None
      "fst (create env0 (NewManager empty_db) ''shop'' opts0 None)" "snd (create env0 (NewManager empty_db) ''shop'' opts0 None)"]
  by (simp add: env0_def NewManager_def)

section \<open>Deleting and reaping\<close>

lemma delete_remove_Inr:
  "delete_remove m name = Inr (m', a) \<longleftrightarrow>
     Store_App (mg_db m) name = Inr a \<and> (\<exists>d. RemoveApp (mg_db m) name = Inr d \<and> m' = m\<lparr>mg_db := d\<rparr>)"
  by (auto simp: delete_remove_def split: sum.splits)

lemma DeleteApp_Inr:
  assumes "distinct (map a_Name (app_tbl (mg_db m)))" and "a \<in> set (app_tbl (mg_db m))"
  shows "\<exists>m'. DeleteApp m (a_Name a) = Inr m'
    \<and> app_tbl (mg_db m') = tbl_delete (\<lambda>b. a_Name b = a_Name a) (app_tbl (mg_db m))
    \<and> mg_reserved m' = insert (a_Port a) (mg_reserved m)"
proof -
  have s: "Store_App (mg_db m) (a_Name a) = Inr a"
    using tbl_find_unique[OF assms] by (simp add: Store_App_def)
  then obtain d where d: "RemoveApp (mg_db m) (a_Name a) = Inr d" by (auto simp: RemoveApp_def Let_def)
  show ?thesis
    using RemoveApp_app_tbl[OF d] by (simp add: DeleteApp_def delete_remove_def s d delete_reserve_def)
qed

lemma DropSession_simps [simp]:
  "app_tbl (mg_db (DropSession m name)) = app_tbl (mg_db m)" "mg_reserved (DropSession m name) = mg_reserved m"
  by (simp_all add: DropSession_def DeleteAssistantSession_def)

definition reap_one :: "bool \<Rightarrow> int \<Rightarrow> int \<Rightarrow> App \<Rightarrow> manager \<Rightarrow> manager" where
  "reap_one assistant grace now a m =
     (if past_grace grace now a
      then (case DeleteApp m (a_Name a) of Inl _ \<Rightarrow> m | Inr m' \<Rightarrow> if assistant then DropSession m' (a_Name a) else m')
      else m)"

lemma reap_loop:
  assumes "distinct (map a_Name (app_tbl (mg_db m)))" and "set as \<subseteq> set (app_tbl (mg_db m))" and "distinct (map a_Name as)"
  shows "app_tbl (mg_db (fold (reap_one s g now) as m)) =
           filter (\<lambda>b. \<not> (b \<in> set as \<and> past_grace g now b)) (app_tbl (mg_db m))
    \<and> mg_reserved (fold (reap_one s g now) as m) = mg_reserved m \<union> a_Port ` {b \<in> set as. past_grace g now b}"
  using assms
proof (induction as arbitrary: m)
  case Nil
  then show ?case by simp
next
  case (Cons a as)
  let ?m = "reap_one s g now a m"
  show ?case
  proof (cases "past_grace g now a")
    case False
    then have m: "?m = m" by (simp add: reap_one_def)
    have "filter (\<lambda>b. \<not> (b \<in> set as \<and> past_grace g now b)) (app_tbl (mg_db m)) =
        filter (\<lambda>b. \<not> (b \<in> set (a # as) \<and> past_grace g now b)) (app_tbl (mg_db m))"
      using False by (intro filter_cong) auto
    moreover have "{b \<in> set (a # as). past_grace g now b} = {b \<in> set as. past_grace g now b}" using False by auto
    ultimately show ?thesis using Cons m by simp
  next
    case True
    have a: "a \<in> set (app_tbl (mg_db m))" using Cons.prems(2) by simp
    obtain m1 where m1: "DeleteApp m (a_Name a) = Inr m1"
      "app_tbl (mg_db m1) = tbl_delete (\<lambda>b. a_Name b = a_Name a) (app_tbl (mg_db m))"
      "mg_reserved m1 = insert (a_Port a) (mg_reserved m)"
      using DeleteApp_Inr[OF Cons.prems(1) a] by blast
    then have m: "app_tbl (mg_db ?m) = filter (\<lambda>b. a_Name b \<noteq> a_Name a) (app_tbl (mg_db m))"
      "mg_reserved ?m = insert (a_Port a) (mg_reserved m)"
      using True by (simp_all add: reap_one_def tbl_delete_def)
    have same: "a_Name b = a_Name a \<longleftrightarrow> b = a" if "b \<in> set (app_tbl (mg_db m))" for b
      using distinct_key_eq[OF Cons.prems(1) that a] by blast
    have "a_Name b \<noteq> a_Name a" if "b \<in> set as" for b using Cons.prems(3) that by (metis distinct.simps(2) image_eqI list.map(2) set_map)
    then have sub: "set as \<subseteq> set (app_tbl (mg_db ?m))" using Cons.prems(2) unfolding m(1) by auto
    have dis: "distinct (map a_Name (app_tbl (mg_db ?m)))"
      unfolding m(1) using Cons.prems(1) by (rule distinct_map_filter)
    have "distinct (map a_Name as)" using Cons.prems(3) by simp
    note ih = Cons.IH[OF dis sub this]
    have "filter (\<lambda>b. \<not> (b \<in> set as \<and> past_grace g now b)) (app_tbl (mg_db ?m)) =
        filter (\<lambda>b. \<not> (b \<in> set (a # as) \<and> past_grace g now b)) (app_tbl (mg_db m))"
      unfolding m(1) filter_filter
    proof (rule filter_cong[OF refl])
      fix b
      assume "b \<in> set (app_tbl (mg_db m))"
      from same[OF this] True
      show "(a_Name b \<noteq> a_Name a \<and> \<not> (b \<in> set as \<and> past_grace g now b)) = (\<not> (b \<in> set (a # as) \<and> past_grace g now b))"
        by (cases "b = a") simp_all
    qed
    moreover have "{b \<in> set (a # as). past_grace g now b} = insert a {b \<in> set as. past_grace g now b}" using True by auto
    ultimately show ?thesis using ih m(2) by simp
  qed
qed

text \<open>The grace period. A reap removes exactly the apps that were soft-deleted at least a grace period ago: every live app and every
  app still within its grace stays, in place, and the ports of the removed ones stay reserved for their teardown.\<close>

lemma ReapSoftDeleted_respects_grace:
  assumes "db_unique (mg_db m)"
  shows "app_tbl (mg_db (ReapSoftDeleted assistant grace now m)) =
           filter (\<lambda>a. case a_SoftDeletedAt a of None \<Rightarrow> True | Some s \<Rightarrow> now < s * second + grace) (app_tbl (mg_db m))
    \<and> mg_reserved (ReapSoftDeleted assistant grace now m) =
        mg_reserved m \<union> {a_Port a | a s. a \<in> set (app_tbl (mg_db m)) \<and> a_SoftDeletedAt a = Some s \<and> s * second + grace \<le> now}"
proof -
  have u: "distinct (map a_Name (app_tbl (mg_db m)))"
    using assms by (simp add: db_unique_def app_unique_iff)
  have s: "set (Apps (mg_db m)) = set (app_tbl (mg_db m))" by (simp add: Apps_def)
  have ud: "distinct (map a_Name (Apps (mg_db m)))"
    using u by (metis Apps_def mset_map mset_sort mset_eq_imp_distinct_iff)
  have r: "ReapSoftDeleted assistant grace now m = fold (reap_one assistant grace now) (Apps (mg_db m)) m"
    by (simp add: ReapSoftDeleted_def reap_one_def[abs_def])
  have past: "past_grace grace now a \<longleftrightarrow> (\<exists>s. a_SoftDeletedAt a = Some s \<and> s * second + grace \<le> now)" for a
    by (auto simp: past_grace_def split: option.splits)
  have "filter (\<lambda>b. \<not> (b \<in> set (app_tbl (mg_db m)) \<and> past_grace grace now b)) (app_tbl (mg_db m)) =
      filter (\<lambda>a. case a_SoftDeletedAt a of None \<Rightarrow> True | Some s \<Rightarrow> now < s * second + grace) (app_tbl (mg_db m))"
    by (intro filter_cong) (auto simp: past split: option.splits)
  moreover have "a_Port ` {b \<in> set (app_tbl (mg_db m)). past_grace grace now b} =
      {a_Port a | a s. a \<in> set (app_tbl (mg_db m)) \<and> a_SoftDeletedAt a = Some s \<and> s * second + grace \<le> now}"
    by (auto simp: past)
  ultimately show ?thesis
    using reap_loop[OF u _ ud, of assistant grace now] unfolding r s by simp
qed

lemma ReapSoftDeleted_respects_grace_witness:
  "app_tbl (mg_db (ReapSoftDeleted True 0 (5 * second)
      (NewManager (empty_db\<lparr>app_tbl := [plain_app\<lparr>a_SoftDeletedAt := Some 5\<rparr>]\<rparr>)))) = []"
proof -
  let ?m = "NewManager (empty_db\<lparr>app_tbl := [plain_app\<lparr>a_SoftDeletedAt := Some 5\<rparr>]\<rparr>)"
  have "db_unique (mg_db ?m)" by (simp add: NewManager_def db_unique_def empty_db_def tbl_unique_def)
  from ReapSoftDeleted_respects_grace[OF this, of True 0 "5 * second"] show ?thesis
    by (simp add: NewManager_def)
qed

section \<open>Limits stay within the pool\<close>

lemma handleAppLimitsUpdate_cases:
  "handleAppLimitsUpdate m c name body =
     (case limits_update (mg_db m) c name body of
        (d, s) \<Rightarrow> if s \<noteq> 200 then (m, s) else (m\<lparr>mg_db := d, mg_limits := (mg_limits m)(name \<mapsto> appLimits d name)\<rparr>, 200))"
proof (cases "limits_update (mg_db m) c name body")
  case (Pair d s)
  show ?thesis
  proof (cases "s = 200")
    case False
    then have "d = mg_db m" using Pair limits_update_error by metis
    then show ?thesis using Pair False by (simp add: handleAppLimitsUpdate_def)
  next
    case True
    with Pair have ok: "limits_update (mg_db m) c name body = (d, 200)" by simp
    obtain x where "Store_App d name = Inr x"
    proof (rule limits_update_200[OF ok])
      fix a req mem disk cpu
      let ?f = "\<lambda>x. x\<lparr>a_MemoryLimitMB := mem, a_DiskLimitMB := disk, a_CPUMilli := cpu\<rparr>"
      assume a: "ownerApp (mg_db m) c name = Inr a"
        and d: "d = mg_db m\<lparr>app_tbl := tbl_update (\<lambda>x. a_Name x = a_Name a) ?f (app_tbl (mg_db m))\<rparr>"
      have "tbl_find (\<lambda>x. a_Name x = name) (app_tbl (mg_db m)) \<noteq> None"
        using ownerApp_Inr(1)[OF a] by (auto simp: Store_App_def split: option.splits)
      then have "tbl_find (\<lambda>x. a_Name x = name) (app_tbl d) \<noteq> None"
        unfolding d by (simp add: tbl_find_tbl_update)
      then show thesis using that by (auto simp: Store_App_def split: option.splits)
    qed
    then show ?thesis using ok by (simp add: handleAppLimitsUpdate_def RecordLimits_def Let_def split: prod.splits)
  qed
qed

text \<open>After a successful change of an app's limits the owner's live apps together stay within the owner's memory and disk pools, wherever the owner has one;
  the limits recorded for the app are its effective ones; nobody but an admin has changed the CPU cap. A refused change leaves everything as it was.\<close>

lemma handleAppLimitsUpdate_within_pool:
  assumes "db_unique (mg_db m)" and "ownerApp (mg_db m) c name = Inr a" and "Store_User (mg_db m) (a_OwnerID a) = Inr owner" and "a_OwnerID a \<noteq> ''''"
    and "handleAppLimitsUpdate m c name body = (m', s)"
  shows "if s = 200
    then (let l = User_Limits (mg_db m') owner; total = pool_total (mg_db m') l (a_OwnerID a)
          in (l_MemoryPoolMB l > 0 \<longrightarrow> fst total \<le> l_MemoryPoolMB l) \<and> (l_DiskPoolMB l > 0 \<longrightarrow> snd total \<le> l_DiskPoolMB l)
             \<and> mg_limits m' name = Some (appLimits (mg_db m') name)
             \<and> (\<exists>a'. Store_App (mg_db m') name = Inr a' \<and> (a_CPUMilli a' = a_CPUMilli a \<or> isAdmin c)))
    else m' = m"
proof (cases "s = 200")
  case False
  then show ?thesis using assms(5) by (auto simp: handleAppLimitsUpdate_cases split: prod.splits if_splits)
next
  case True
  with assms(5) obtain d where ok: "limits_update (mg_db m) c name body = (d, 200)"
    and m': "m' = m\<lparr>mg_db := d, mg_limits := (mg_limits m)(name \<mapsto> appLimits d name)\<rparr>"
    by (auto simp: handleAppLimitsUpdate_cases split: prod.splits if_splits)
  note pool = limits_update_pool[OF assms(1) ok assms(2,4,3)]
  have cpu: "\<exists>a'. Store_App d name = Inr a' \<and> (a_CPUMilli a' = a_CPUMilli a \<or> isAdmin c)"
    and lim: "User_Limits d owner = User_Limits (mg_db m) owner"
  proof (atomize (full), rule limits_update_200[OF ok])
    fix b req mem disk cpu
    let ?f = "\<lambda>x. x\<lparr>a_MemoryLimitMB := mem, a_DiskLimitMB := disk, a_CPUMilli := cpu\<rparr>"
    assume b: "ownerApp (mg_db m) c name = Inr b" "patch_limit (a_CPUMilli b) (lp_CPUMilli req) 100 = Some cpu" "lp_CPUMilli req = 0 \<or> isAdmin c"
      and d: "d = mg_db m\<lparr>app_tbl := tbl_update (\<lambda>x. a_Name x = a_Name b) ?f (app_tbl (mg_db m))\<rparr>"
    have "b = a" using b(1) assms(2) by simp
    have f: "tbl_find (\<lambda>x. a_Name x = name) (app_tbl (mg_db m)) = Some a" "a_Name a = name"
      using ownerApp_Inr(1)[OF assms(2)] Store_App_mem[OF ownerApp_Inr(1)[OF assms(2)]]
      by (simp_all add: Store_App_def split: option.splits)
    have "tbl_find (\<lambda>x. a_Name x = name) (app_tbl d) = Some (?f a)"
      unfolding d \<open>b = a\<close> using f by (simp add: tbl_find_tbl_update)
    moreover have "cpu = a_CPUMilli a \<or> isAdmin c" using b(2,3) \<open>b = a\<close> by (auto simp: patch_limit_def)
    moreover have "User_Limits d owner = User_Limits (mg_db m) owner" unfolding d by (simp add: User_Limits_def Defaults_def Settings_def)
    ultimately show "(\<exists>a'. Store_App d name = Inr a' \<and> (a_CPUMilli a' = a_CPUMilli a \<or> isAdmin c)) \<and> User_Limits d owner = User_Limits (mg_db m) owner"
      by (simp add: Store_App_def)
  qed
  have sel: "mg_db m' = d" "mg_limits m' name = Some (appLimits d name)" by (simp_all add: m')
  show ?thesis unfolding if_P[OF True] Let_def sel lim using pool[unfolded lim] cpu by blast
qed

lemma handleAppLimitsUpdate_within_pool_witness:
  "\<exists>m'. handleAppLimitsUpdate (NewManager viewer_db) owner_caller ''blog'' (Some \<lparr>lp_MemoryMB = 512, lp_DiskMB = 0, lp_CPUMilli = 0\<rparr>) = (m', 200)
     \<and> mg_limits m' ''blog'' = Some (appLimits (mg_db m') ''blog'')"
proof -
  let ?req = "\<lparr>lp_MemoryMB = 512, lp_DiskMB = 0, lp_CPUMilli = 0\<rparr>"
  have db: "mg_db (NewManager viewer_db) = viewer_db" by (simp add: NewManager_def)
  have own: "a_OwnerID plain_app = ''usr_1''" "a_Name plain_app = ''blog''" "a_DiskLimitMB plain_app = 0" "a_CPUMilli plain_app = 0"
    "a_MemoryLimitMB plain_app = 0" "a_SoftDeletedAt plain_app = None"
    by (simp_all add: plain_app_def)
  have us: "Store_User viewer_db ''usr_1'' = Inr plain_user" by (simp add: Store_User_def viewer_db_def plain_user_def)
  have dl: "Defaults viewer_db = \<lparr>l_AppLimit = 3, l_MemoryMB = 128, l_DiskMB = 256, l_MemoryPoolMB = 1024, l_DiskPoolMB = 4096\<rparr>"
    by (simp add: Defaults_def Settings_def viewer_db_def empty_db_def settingInt_def positiveOr_def)
  have ul: "User_Limits viewer_db plain_user = \<lparr>l_AppLimit = 3, l_MemoryMB = 128, l_DiskMB = 256, l_MemoryPoolMB = 1024, l_DiskPoolMB = 4096\<rparr>"
    by (simp add: User_Limits_def dl or_default_def plain_user_def)
  have ab: "AppsByOwner viewer_db ''usr_1'' = [plain_app]" by (simp add: AppsByOwner_def viewer_db_def own)
  have pr: "poolReserved viewer_db ''usr_1'' ''blog'' = Inr (0, 0)"
    by (simp add: poolReserved_def us ab own)
  have cp: "checkPoolFits viewer_db plain_app 512 0 = Inr ()"
    by (simp add: checkPoolFits_def own us pr ul EffectiveAppLimits_def)
  have af: "affected (\<lambda>a. a_Name a = ''blog'') (app_tbl viewer_db) = 1" by (simp add: affected_def viewer_db_def own)
  obtain d where "limits_update viewer_db owner_caller ''blog'' (Some ?req) = (d, 200)"
    by (simp add: limits_update_def owner_caller_def[THEN arg_cong[of _ _ cl_appScope]] ownerApp_sample own patch_limit_def cp UpdateAppLimits_def
        upd_app_checked_def af checkAffected_def)
  then obtain m' where m': "handleAppLimitsUpdate (NewManager viewer_db) owner_caller ''blog'' (Some ?req) = (m', 200)"
    by (simp add: handleAppLimitsUpdate_cases db)
  have "db_unique (mg_db (NewManager viewer_db))" "ownerApp (mg_db (NewManager viewer_db)) owner_caller ''blog'' = Inr plain_app"
    "Store_User (mg_db (NewManager viewer_db)) (a_OwnerID plain_app) = Inr plain_user" "a_OwnerID plain_app \<noteq> ''''"
    using viewer_db_unique ownerApp_sample us by (simp_all add: db own)
  from handleAppLimitsUpdate_within_pool[OF this m'] m' show ?thesis by (simp add: Let_def)
qed

end
