(* ===== verification/Lifecycle_Races.thy ===== *)
theory Lifecycle_Races
  imports App_Lifecycle
begin

text \<open>
  Ports across concurrent creates and deletes, and renames that lose a race. The step relation \<open>life_step\<close> interleaves the parts of
  \<open>create\<close> and \<open>DeleteApp\<close> of any number of requests, each part what the code does under one lock or in one statement of the
  registry: reading the used ports, granting a port under \<open>pmu\<close>, registering the row, taking it out again, releasing the port; and looking
  an app up, removing its row, reserving its port, releasing it when the teardown has ended. Ports of registered apps are distinct in every
  interleaving; the reservations are sound in every one that does not hit one of the windows the code leaves open, which the steps record
  (\<open>reservations_sound\<close>). The last sections show what happens in those windows.
\<close>

section \<open>Interleaved creates and deletes\<close>

text \<open>The requests under way, by the stage they have reached: the used ports a create has read, the name and port of a create that was granted
  one, the name and port of a delete that has looked its app up, and the ports of deletes whose row is gone and whose port is not yet reserved
  (\<open>w_removed\<close>) or is (\<open>w_dying\<close>). The history variable \<open>w_raced\<close> records that one of the windows was hit.\<close>

record world =
  w_m :: manager
  w_reading :: "int list list"
  w_creating :: "(string \<times> int) list"
  w_looked :: "(string \<times> int) list"
  w_removed :: "int list"
  w_dying :: "int list"
  w_raced :: bool

abbreviation used_ports :: "world \<Rightarrow> int set" where
  "used_ports w \<equiv> a_Port ` set (app_tbl (mg_db (w_m w)))"

text \<open>The windows. A granted port is registered or on its way out: the list of used ports was read before it was registered, or before its
  row was removed, and the reservation was missing when the grant was made. And a delete removes an app whose create has not returned, or another
  app than the one it looked up.\<close>

definition grant_raced :: "world \<Rightarrow> int \<Rightarrow> bool" where
  "grant_raced w p = (p \<in> used_ports w \<union> set (w_removed w))"

definition remove_raced :: "world \<Rightarrow> string \<Rightarrow> int \<Rightarrow> bool" where
  "remove_raced w name p =
     (p \<in> set (map snd (w_creating w)) \<or> (case Store_App (mg_db (w_m w)) name of Inl _ \<Rightarrow> False | Inr a \<Rightarrow> a_Port a \<noteq> p))"

inductive life_step :: "world \<Rightarrow> world \<Rightarrow> bool" where
  read_used: "life_step w (w\<lparr>w_reading := UsedPorts (mg_db (w_m w)) # w_reading w\<rparr>)"
| grant: "used \<in> set (w_reading w) \<Longrightarrow> grant_port used (w_m w) = (m', Inr p)
    \<Longrightarrow> life_step w (w\<lparr>w_m := m', w_reading := remove1 used (w_reading w), w_creating := (name, p) # w_creating w,
                      w_raced := w_raced w \<or> grant_raced w p\<rparr>)"
| no_port: "used \<in> set (w_reading w) \<Longrightarrow> grant_port used (w_m w) = (m', Inl e)
    \<Longrightarrow> life_step w (w\<lparr>w_m := m', w_reading := remove1 used (w_reading w)\<rparr>)"
| register: "(a_Name a, a_Port a) \<in> set (w_creating w) \<Longrightarrow> AddApp now i (mg_db (w_m w)) a = Inr (d', a')
    \<Longrightarrow> life_step w (w\<lparr>w_m := (w_m w)\<lparr>mg_db := d'\<rparr>\<rparr>)"
| undo_register: "(name, p) \<in> set (w_creating w) \<Longrightarrow> RemoveApp (mg_db (w_m w)) name = Inr d'
    \<Longrightarrow> life_step w (w\<lparr>w_m := (w_m w)\<lparr>mg_db := d'\<rparr>\<rparr>)"
| end_create: "(name, p) \<in> set (w_creating w) \<Longrightarrow>
    life_step w (w\<lparr>w_m := releasePort (w_m w) p, w_creating := remove1 (name, p) (w_creating w)\<rparr>)"
| look_up: "Store_App (mg_db (w_m w)) name = Inr a \<Longrightarrow> life_step w (w\<lparr>w_looked := (name, a_Port a) # w_looked w\<rparr>)"
| remove: "(name, p) \<in> set (w_looked w) \<Longrightarrow> RemoveApp (mg_db (w_m w)) name = Inr d'
    \<Longrightarrow> life_step w (w\<lparr>w_m := (w_m w)\<lparr>mg_db := d'\<rparr>, w_looked := remove1 (name, p) (w_looked w), w_removed := p # w_removed w,
                      w_raced := w_raced w \<or> remove_raced w name p\<rparr>)"
| remove_fails: "(name, p) \<in> set (w_looked w) \<Longrightarrow> RemoveApp (mg_db (w_m w)) name = Inl e
    \<Longrightarrow> life_step w (w\<lparr>w_looked := remove1 (name, p) (w_looked w)\<rparr>)"
| reserve: "p \<in> set (w_removed w) \<Longrightarrow>
    life_step w (w\<lparr>w_m := delete_reserve (w_m w) p, w_removed := remove1 p (w_removed w), w_dying := p # w_dying w\<rparr>)"
| torn_down: "p \<in> set (w_dying w) \<Longrightarrow>
    life_step w (w\<lparr>w_m := releasePort (w_m w) p, w_dying := remove1 p (w_dying w)\<rparr>)"
| other: "map a_Port (app_tbl d') = map a_Port (app_tbl (mg_db (w_m w))) \<Longrightarrow>
    life_step w (w\<lparr>w_m := (w_m w)\<lparr>mg_db := d'\<rparr>\<rparr>)"

definition world0 :: "db \<Rightarrow> world" where
  "world0 d = \<lparr>w_m = NewManager d, w_reading = [], w_creating = [], w_looked = [], w_removed = [], w_dying = [], w_raced = False\<rparr>"

inductive life_reach :: "world \<Rightarrow> bool" where
  start: "distinct (map a_Port (app_tbl d)) \<Longrightarrow> life_reach (world0 d)"
| step: "life_reach w \<Longrightarrow> life_step w w' \<Longrightarrow> life_reach w'"

inductive_cases life_step_cases: "life_step w w'"

abbreviation creating_ports :: "world \<Rightarrow> int list" where
  "creating_ports w \<equiv> map snd (w_creating w)"

abbreviation registered_distinct :: "world \<Rightarrow> bool" where
  "registered_distinct w \<equiv> distinct (map a_Port (app_tbl (mg_db (w_m w))))"

definition holders_ok :: "world \<Rightarrow> bool" where
  "holders_ok w \<longleftrightarrow>
     distinct (creating_ports w @ w_removed w @ w_dying w) \<and> set (creating_ports w) \<union> set (w_dying w) \<subseteq> mg_reserved (w_m w)
     \<and> (set (w_removed w) \<union> set (w_dying w)) \<inter> used_ports w = {}"

lemma AddApp_ports:
  assumes "AddApp now i d a = Inr (d', a')" and "distinct (map a_Port (app_tbl d))"
  shows "distinct (map a_Port (app_tbl d')) \<and> a_Port ` set (app_tbl d') = insert (a_Port a) (a_Port ` set (app_tbl d))"
  using assms by (fastforce simp: AddApp_def Let_def tbl_insert_Inr conflicts_with_iff app_conflict_def split: sum.splits)

lemma RemoveApp_ports:
  assumes "RemoveApp d name = Inr d'" and "Store_App d name = Inr a" and "distinct (map a_Port (app_tbl d))"
  shows "distinct (map a_Port (app_tbl d')) \<and> a_Port ` set (app_tbl d') \<subseteq> a_Port ` set (app_tbl d) - {a_Port a}"
proof -
  have a: "a \<in> set (app_tbl d)" "a_Name a = name"
    using assms(2) tbl_find_Some[of "\<lambda>a. a_Name a = name" "app_tbl d" a] by (auto simp: Store_App_def split: option.splits)
  have "a_Port b \<noteq> a_Port a" if "b \<in> set (app_tbl d)" "a_Name b \<noteq> name" for b
    using distinct_key_eq[OF assms(3) that(1) a(1)] that(2) a(2) by blast
  then show ?thesis using assms(3) RemoveApp_app_tbl[OF assms(1)] by (auto simp: distinct_tbl_delete)
qed

lemma grant_port_Inr:
  assumes "grant_port used m = (m', Inr p)"
  shows "p \<notin> mg_reserved m \<and> mg_reserved m' = insert p (mg_reserved m) \<and> app_tbl (mg_db m') = app_tbl (mg_db m)"
  using assms scan_ports_Some[of used "mg_reserved m" "start_port (mg_nextPort m)" 0]
  by (auto simp: grant_port_def port_free_def SetSetting_def Let_def split: option.splits)

lemma grant_port_Inl:
  assumes "grant_port used m = (m', Inl e)"
  shows "mg_reserved m' = mg_reserved m \<and> mg_db m' = mg_db m"
  using assms by (auto simp: grant_port_def Let_def split: option.splits)

lemma RemoveApp_registered:
  assumes "RemoveApp d name = Inr d'" and "distinct (map a_Port (app_tbl d))"
  shows "\<exists>a. Store_App d name = Inr a \<and> a_Port a \<in> a_Port ` set (app_tbl d) \<and> distinct (map a_Port (app_tbl d'))
    \<and> a_Port ` set (app_tbl d') \<subseteq> a_Port ` set (app_tbl d) - {a_Port a}"
proof -
  obtain a where a: "Store_App d name = Inr a" using assms(1) by (auto simp: RemoveApp_def split: sum.splits)
  then have "a \<in> set (app_tbl d)"
    using tbl_find_Some[of "\<lambda>a. a_Name a = name" "app_tbl d" a] by (auto simp: Store_App_def split: option.splits)
  then show ?thesis using a RemoveApp_ports[OF assms(1) a assms(2)] by blast
qed

text \<open>No interleaving breaks the \<open>UNIQUE\<close> index on the port.\<close>

lemma life_step_registered:
  assumes "life_step w w'" and "registered_distinct w"
  shows "registered_distinct w'"
  using assms
proof (cases rule: life_step.cases)
  case (register a now i d' a')
  then show ?thesis using AddApp_ports[OF register(3) assms(2)] by simp
next
  case (undo_register name p d')
  then show ?thesis using RemoveApp_registered[OF undo_register(3) assms(2)] by auto
next
  case (remove name p d')
  then show ?thesis using RemoveApp_registered[OF remove(3) assms(2)] by auto
qed (use assms(2) in \<open>simp_all add: grant_port_Inr grant_port_Inl releasePort_def delete_reserve_def\<close>)

lemma distinct_remove1_snd:
  assumes "(x, p) \<in> set xs" and "distinct (map snd xs @ ys)"
  shows "distinct (map snd (remove1 (x, p) xs) @ ys) \<and> set (map snd (remove1 (x, p) xs)) = set (map snd xs) - {p} \<and> p \<notin> set ys"
proof -
  have n: "p \<notin> set ys" "distinct (map snd xs)" using assms by force+
  have "distinct (map snd (remove1 (x, p) xs)) \<and> set (map snd (remove1 (x, p) xs)) = set (map snd xs) - {p}"
    using assms(1) n(2) by (induction xs) (fastforce simp: image_iff)+
  then show ?thesis using n assms(2) by auto
qed

lemma life_step_holders:
  assumes "life_step w w'" and "registered_distinct w" and "holders_ok w" and "\<not> w_raced w'"
  shows "holders_ok w'"
  using assms(1)
proof (cases rule: life_step.cases)
  case (grant used m' p name)
  then show ?thesis using assms(3,4) grant_port_Inr[OF grant(3)] by (auto simp: holders_ok_def grant_raced_def)
next
  case (no_port used m' e)
  then show ?thesis using assms(3) grant_port_Inl[OF no_port(3)] by (auto simp: holders_ok_def)
next
  case (register a now i d' a')
  then have "a_Port a \<in> set (creating_ports w)" by force
  then have "a_Port a \<notin> set (w_removed w) \<union> set (w_dying w)" using assms(3) by (auto simp: holders_ok_def)
  then show ?thesis using register AddApp_ports[OF register(3) assms(2)] assms(3) by (auto simp: holders_ok_def)
next
  case (undo_register name p d')
  then have "a_Port ` set (app_tbl d') \<subseteq> used_ports w" using RemoveApp_registered[OF undo_register(3) assms(2)] by blast
  then have "(set (w_removed w) \<union> set (w_dying w)) \<inter> a_Port ` set (app_tbl d') = {}"
    using assms(3) unfolding holders_ok_def by blast
  then show ?thesis using undo_register assms(3) by (simp add: holders_ok_def)
next
  case (end_create name p)
  then show ?thesis using assms(3) distinct_remove1_snd[OF end_create(2), of "w_removed w @ w_dying w"]
    by (auto simp: holders_ok_def releasePort_def)
next
  case (remove name p d')
  obtain a where a: "Store_App (mg_db (w_m w)) name = Inr a" "a_Port a \<in> used_ports w"
      "a_Port ` set (app_tbl d') \<subseteq> used_ports w - {a_Port a}"
    using RemoveApp_registered[OF remove(3) assms(2)] by blast
  have p: "a_Port a = p" "p \<notin> set (creating_ports w)" using assms(4) a(1) remove(1) by (auto simp: remove_raced_def)
  have "p \<notin> set (w_removed w) \<union> set (w_dying w)" using a(2) p(1) assms(3) unfolding holders_ok_def by blast
  moreover have "(set (p # w_removed w) \<union> set (w_dying w)) \<inter> (used_ports w - {p}) = {}"
    using assms(3) by (auto simp: holders_ok_def)
  then have "(set (p # w_removed w) \<union> set (w_dying w)) \<inter> a_Port ` set (app_tbl d') = {}"
    using a(3) p(1) by blast
  ultimately show ?thesis using remove(1) p(2) assms(3) by (simp add: holders_ok_def)
next
  case (reserve p)
  then show ?thesis using assms(3) by (auto simp: holders_ok_def delete_reserve_def set_remove1_eq)
next
  case (torn_down p)
  then show ?thesis using assms(3) by (auto simp: holders_ok_def releasePort_def set_remove1_eq)
next
  case (other d')
  then have "a_Port ` set (app_tbl d') = used_ports w" by (metis set_map)
  then show ?thesis using other assms(3) by (simp add: holders_ok_def)
qed (use assms(3) in \<open>simp_all add: holders_ok_def\<close>)

lemma life_step_raced: "life_step w w' \<Longrightarrow> w_raced w \<Longrightarrow> w_raced w'"
  by (erule life_step.cases) simp_all

lemma life_reach_inv: "life_reach w \<Longrightarrow> registered_distinct w \<and> (\<not> w_raced w \<longrightarrow> holders_ok w)"
proof (induction rule: life_reach.induct)
  case (start d)
  then show ?case by (simp add: holders_ok_def world0_def NewManager_def)
next
  case (step w w')
  then show ?case using life_step_registered life_step_holders life_step_raced by blast
qed

text \<open>C3: ports when any number of creates and deletes interleave, each in the steps the code makes atomic. In every reachable state the ports of
  registered apps, and with them their uid blocks, are pairwise distinct. And as long as none of the code's three windows was hit (\<open>w_raced\<close>: a port
  is granted from a list of used ports that misses it, because it was registered after the reading or because its row is removed and its
  reservation not yet made; an app is deleted before its own create returned; the name a delete looked up belongs to another app when the row is removed), no
  port is held by two creates or deletes at once, the port of a deleted app belongs to no registered app until its teardown has ended, and
  the port the allocator would grant next is used by no registered app, no create under way and no teardown.\<close>

theorem reservations_sound:
  assumes "life_reach w"
  shows "distinct (map a_Port (app_tbl (mg_db (w_m w))))
    \<and> (\<not> w_raced w \<longrightarrow>
        distinct (creating_ports w @ w_removed w @ w_dying w)
        \<and> (set (w_removed w) \<union> set (w_dying w)) \<inter> used_ports w = {}
        \<and> (\<forall>m' p. allocatePort (w_m w) = (m', Inr p) \<longrightarrow> p \<notin> used_ports w \<union> set (creating_ports w) \<union> set (w_dying w)))"
  using life_reach_inv[OF assms] allocatePort_Inr[of "w_m w"] unfolding holders_ok_def by blast

text \<open>Two apps, of which \<open>blog\<close> is deleted: its port is not granted while the teardown runs.\<close>

definition mid_delete :: world where
  "mid_delete = (world0 (empty_db\<lparr>app_tbl := [plain_app]\<rparr>))\<lparr>w_m := (NewManager empty_db)\<lparr>mg_reserved := {10000}\<rparr>, w_dying := [10000]\<rparr>"

lemma mid_delete_reach: "life_reach mid_delete \<and> \<not> w_raced mid_delete"
proof -
  let ?d = "empty_db\<lparr>app_tbl := [plain_app]\<rparr>"
  let ?w1 = "(world0 ?d)\<lparr>w_looked := [(''blog'', 10000)]\<rparr>"
  let ?w2 = "(world0 ?d)\<lparr>w_m := NewManager empty_db, w_removed := [10000]\<rparr>"
  have s: "Store_App ?d ''blog'' = Inr plain_app" by (simp add: Store_App_def plain_app_def)
  have r: "RemoveApp ?d ''blog'' = Inr empty_db"
    by (simp add: RemoveApp_def s Let_def) (simp add: empty_db_def plain_app_def tbl_delete_def RemoveTokensByApp_def)
  have "life_reach (world0 ?d)" by (rule life_reach.start) simp
  moreover have "life_step (world0 ?d) ?w1"
    using life_step.look_up[of "world0 ?d" "''blog''" plain_app] s by (simp add: world0_def NewManager_def plain_app_def)
  moreover have "life_step ?w1 ?w2"
    using life_step.remove[of "''blog''" 10000 ?w1 empty_db] r s
    by (simp add: world0_def NewManager_def remove_raced_def Setting_def) (simp add: plain_app_def empty_db_def)
  moreover have "life_step ?w2 mid_delete"
    using life_step.reserve[of 10000 ?w2] by (simp add: mid_delete_def world0_def NewManager_def delete_reserve_def)
  ultimately have "life_reach mid_delete" by (blast intro: life_reach.step)
  then show ?thesis by (simp add: mid_delete_def world0_def)
qed

lemma reservations_sound_witness:
  "life_reach mid_delete \<and> \<not> w_raced mid_delete \<and> w_dying mid_delete = [10000] \<and> snd (allocatePort (w_m mid_delete)) \<noteq> Inr 10000"
  using reservations_sound[of mid_delete] mid_delete_reach by (cases "allocatePort (w_m mid_delete)") (auto simp: mid_delete_def)

section \<open>What the code allows\<close>

lemma scan_first:
  assumes "PortMin \<le> p" "p \<le> PortMax" "mg_nextPort m = p" "p \<notin> a_Port ` set (app_tbl (mg_db m))" "p \<notin> mg_reserved m"
  shows "snd (allocatePort m) = Inr p"
proof (cases "allocatePort m")
  case (Pair m' r)
  show ?thesis
  proof (cases r)
    case (Inl e)
    then show ?thesis using allocatePort_Inl[of m m' e] Pair assms by auto
  next
    case (Inr q)
    have s: "start_port (mg_nextPort m) = p" using assms by (simp add: start_port_def)
    have "\<not> (p - p) mod 10000 < (q - p) mod 10000"
      using allocatePort_Inr[OF Pair[unfolded Inr]] assms unfolding s by blast
    moreover have "0 \<le> (q - p) mod 10000" by simp
    ultimately have "(q - p) mod 10000 = 0" by simp
    moreover have "PortMin \<le> q \<and> q \<le> PortMax" using allocatePort_Inr[OF Pair[unfolded Inr]] by blast
    ultimately have "q = p" using assms(1,2) cyc_offset[of q p] cyc_offset[of p p] by simp
    then show ?thesis using Pair Inr by simp
  qed
qed

text \<open>C39: a dying app's port can be handed to a new app while the old one is still being torn down, in two ways. \<open>DeleteApp\<close> takes the row
  out of the registry and reserves the port only afterwards: a create whose \<open>allocatePort\<close> runs in between, when the rotation has come
  round to that port, gets it. And an app can be deleted while its own create is still provisioning (\<open>create\<close> takes no lock on the
  name): the create's final \<open>releasePort\<close> then drops the reservation that the delete made, with the same effect.\<close>

theorem dying_port_reused:
  assumes "Store_App (mg_db m) name = Inr a" and "distinct (map a_Port (app_tbl (mg_db m)))"
    and "PortMin \<le> a_Port a" "a_Port a \<le> PortMax" "mg_nextPort m = a_Port a" "a_Port a \<notin> mg_reserved m"
  shows "\<exists>m1. delete_remove m name = Inr (m1, a) \<and> snd (allocatePort m1) = Inr (a_Port a)
    \<and> DeleteApp m name = Inr (delete_reserve m1 (a_Port a))
    \<and> snd (allocatePort (releasePort (delete_reserve m1 (a_Port a)) (a_Port a))) = Inr (a_Port a)"
proof -
  obtain d where d: "RemoveApp (mg_db m) name = Inr d" using assms(1) by (auto simp: RemoveApp_def Let_def)
  let ?m1 = "m\<lparr>mg_db := d\<rparr>"
  have rm: "delete_remove m name = Inr (?m1, a)" using assms(1) d by (simp add: delete_remove_def)
  have gone: "a_Port a \<notin> a_Port ` set (app_tbl d)" using RemoveApp_ports[OF d assms(1,2)] by blast
  have 1: "snd (allocatePort ?m1) = Inr (a_Port a)"
    using assms(3-6) gone by (intro scan_first) simp_all
  have 2: "snd (allocatePort (releasePort (delete_reserve ?m1 (a_Port a)) (a_Port a))) = Inr (a_Port a)"
    using assms(3-6) gone by (intro scan_first) (simp_all add: releasePort_def delete_reserve_def)
  have "DeleteApp m name = Inr (delete_reserve ?m1 (a_Port a))" by (simp add: DeleteApp_def rm)
  then show ?thesis using rm 1 2 by blast
qed

definition rotated :: manager where
  "rotated = \<lparr>mg_db = empty_db\<lparr>app_tbl := [plain_app]\<rparr>, mg_nextPort = 10000, mg_reserved = {}, mg_limits = Map.empty\<rparr>"

lemma dying_port_reused_witness:
  "\<exists>m1. delete_remove rotated ''blog'' = Inr (m1, plain_app) \<and> snd (allocatePort m1) = Inr 10000"
  using dying_port_reused[of rotated "''blog''" plain_app]
  by (auto simp: rotated_def Store_App_def plain_app_def)

section \<open>Renaming\<close>

lemma node_rename_simps:
  "dispatch reg d Node_Rename o' = Inr c \<Longrightarrow> node_rename reg ans d o' n i = ([(c, o', n, i)], ans (c, o', n, i))"
  "dispatch reg d Node_Rename o' = Inl e \<Longrightarrow> node_rename reg ans d o' n i = ([], Inl e)"
  by (simp_all add: node_rename_def)

text \<open>Without interference a rename keeps login and registry together. If it succeeds (between different names), the node hosting the app was
  told exactly once to rename the login, and the registry is the old one with the app renamed; if validation or the node refuses, the registry
  is untouched and no node was told anything but the refused request.\<close>

lemma rename_consistent:
  assumes "oldName \<noteq> newName" and "Manager_RenameApp lookup dir reg ans (\<lambda>d. d) d oldName newName = (d', calls, r)"
  shows "(\<forall>b. r = Inr b \<longrightarrow>
            (\<exists>a c. Store_App d oldName = Inr a \<and> Agent reg (hostOrLocal (a_Host a)) = Some c \<and> calls = [(c, oldName, newName, a_ID a)]
                \<and> ans (c, oldName, newName, a_ID a) = Inr () \<and> RenameApp d oldName newName = Inr d'
                \<and> Store_App d' newName = Inr b))
    \<and> (\<forall>e. r = Inl e \<longrightarrow> d' = d \<or> (RenameApp d oldName newName = Inr d' \<and> Store_App d' newName = Inl e))"
proof (cases "Store_App d oldName")
  case (Inl e)
  then show ?thesis using assms by (auto simp: Manager_RenameApp_def)
next
  case (Inr a)
  show ?thesis
  proof (cases "dispatch reg d Node_Rename oldName")
    case (Inl e)
    then show ?thesis using assms Inr
      by (auto simp: Manager_RenameApp_def node_rename_simps split: sum.splits)
  next
    case disp: (Inr c)
    then have "Agent reg (hostOrLocal (a_Host a)) = Some c"
      using Inr by (auto simp: dispatch_def route_def agentFor_def split: option.splits)
    then show ?thesis using assms Inr disp
      by (auto simp: Manager_RenameApp_def node_rename_simps(1)[OF disp] Let_def split: sum.splits)
  qed
qed

definition two_hosts :: db where
  "two_hosts = empty_db\<lparr>app_tbl := [plain_app, plain_app\<lparr>a_ID := ''app_2'', a_Name := ''wiki'', a_Port := 10001, a_Host := ''n2''\<rparr>]\<rparr>"

lemma rename_consistent_witness:
  "\<exists>d' b. Manager_RenameApp (\<lambda>_. None) '''' [(''local'', 1)] (\<lambda>_. Inr ()) (\<lambda>d. d) two_hosts ''blog'' ''shop'' =
            (d', [(1, ''blog'', ''shop'', ''app_1'')], Inr b) \<and> RenameApp two_hosts ''blog'' ''shop'' = Inr d'"
proof -
  let ?r = "Manager_RenameApp (\<lambda>_. None) '''' [(''local'', 1)] (\<lambda>_. Inr ()) (\<lambda>d. d) two_hosts ''blog'' ''shop''"
  have ok: "\<exists>b. snd (snd ?r) = Inr b"
    by (simp add: Manager_RenameApp_def two_hosts_def empty_db_def plain_app_def Store_App_def validateName_def ValidName_def
        is_lower_letter_def reservedNames_def node_rename_def dispatch_def route_def agentFor_def Agent_def hostOrLocal_def
        RenameApp_def tbl_update_checked_def tbl_update_def tbl_unique_def affected_def app_conflict_def Let_def app_id_of_def)
  obtain d' calls r where r: "?r = (d', calls, r)" by (metis prod_cases3)
  have "Store_App two_hosts ''blog'' = Inr plain_app"
    by (simp add: two_hosts_def Store_App_def plain_app_def)
  moreover have "Agent [(''local'', 1::nat)] (hostOrLocal (a_Host plain_app)) = Some 1" "a_ID plain_app = ''app_1''"
    by (simp_all add: Agent_def hostOrLocal_def plain_app_def)
  ultimately show ?thesis
    using rename_consistent[of "''blog''" "''shop''" "\<lambda>_. None" "''''" "[(''local'', 1)]" "\<lambda>_. Inr ()" two_hosts d' calls r] ok r
    by auto
qed

text \<open>The rename that undoes a lost race goes to the wrong node. When the registry flip fails because another app took the new name
  meanwhile, \<open>RenameApp\<close> asks for the login to be renamed back under the \<^emph>\<open>new\<close> name, and the routing agent resolves that
  name in the registry, where it belongs to the other app: the request is sent to the node hosting the other app, not to the one that renamed
  the login. If the new name is unknown in the registry the request is sent nowhere.\<close>

lemma rename_compensation_misrouted:
  assumes "oldName \<noteq> newName" and "Store_App d oldName = Inr a" and "validateName lookup dir d newName = Inr ()"
    and "dispatch reg d Node_Rename oldName = Inr c" and "ans (c, oldName, newName, a_ID a) = Inr ()"
    and "RenameApp (race d) oldName newName = Inl e"
  shows "fst (snd (Manager_RenameApp lookup dir reg ans race d oldName newName)) =
    (c, oldName, newName, a_ID a) #
    (case Store_App (race d) newName of
       Inl _ \<Rightarrow> []
     | Inr b \<Rightarrow> (case Agent reg (hostOrLocal (a_Host b)) of None \<Rightarrow> [] | Some c' \<Rightarrow> [(c', newName, oldName, a_ID a)]))"
proof -
  have "fst (node_rename reg ans (race d) newName oldName (a_ID a)) =
      (case Store_App (race d) newName of
         Inl _ \<Rightarrow> []
       | Inr b \<Rightarrow> (case Agent reg (hostOrLocal (a_Host b)) of None \<Rightarrow> [] | Some c' \<Rightarrow> [(c', newName, oldName, a_ID a)]))"
    by (auto simp: node_rename_def dispatch_def route_def agentFor_def split: sum.splits option.splits)
  then show ?thesis using assms(1-6)
    by (simp add: Manager_RenameApp_def node_rename_simps(1)[OF assms(4)] Let_def)
qed

definition shop_race :: "db \<Rightarrow> db" where
  "shop_race d = d\<lparr>app_tbl := app_tbl d @ [plain_app\<lparr>a_ID := ''app_3'', a_Name := ''shop'', a_Port := 10002, a_Host := ''n2''\<rparr>]\<rparr>"

lemma rename_compensation_misrouted_witness:
  "fst (snd (Manager_RenameApp (\<lambda>_. None) '''' [(''local'', 1), (''n2'', 2)] (\<lambda>_. Inr ()) shop_race two_hosts ''blog'' ''shop'')) =
     [(1, ''blog'', ''shop'', ''app_1''), (2, ''shop'', ''blog'', ''app_1'')]"
proof -
  have s: "Store_App two_hosts ''blog'' = Inr plain_app" by (simp add: two_hosts_def Store_App_def plain_app_def)
  have v: "validateName (\<lambda>_. None) '''' two_hosts ''shop'' = Inr ()"
    by (simp add: validateName_def ValidName_def is_lower_letter_def reservedNames_def two_hosts_def Store_App_def plain_app_def)
  have c: "dispatch [(''local'', 1), (''n2'', 2)] two_hosts Node_Rename ''blog'' = Inr 1"
    by (simp add: dispatch_def route_def s agentFor_def Agent_def hostOrLocal_def) (simp add: plain_app_def)
  have n: "Store_App (shop_race two_hosts) ''shop'' = Inr (plain_app\<lparr>a_ID := ''app_3'', a_Name := ''shop'', a_Port := 10002, a_Host := ''n2''\<rparr>)"
    by (simp add: shop_race_def two_hosts_def Store_App_def plain_app_def)
  have f: "RenameApp (shop_race two_hosts) ''blog'' ''shop'' = Inl ErrAppNameTaken"
    by (simp add: RenameApp_def shop_race_def two_hosts_def plain_app_def tbl_update_checked_def tbl_update_def tbl_unique_def app_conflict_def Let_def)
  show ?thesis
    using rename_compensation_misrouted[of "''blog''" "''shop''" two_hosts plain_app "\<lambda>_. None" "''''"
        "[(''local'', 1), (''n2'', 2)]" 1 "\<lambda>_. Inr ()" shop_race ErrAppNameTaken] s v c f
    by (simp add: n Agent_def hostOrLocal_def) (simp add: plain_app_def)
qed

end
