(* ===== verification/Custom_Domains.thy ===== *)
theory Custom_Domains
  imports App_Lifecycle
begin

text \<open>
  Custom domains and the grants delivered to them: \<open>control/server_handler_domains.go\<close>, control's front door
  (\<open>control/proxy.go\<close>) and the sign-in bounce for private apps (\<open>control/appaccess.go\<close>).

  The server's state is the manager's with the cache of active domains, which the front door and the return-URL check read instead of
  the registry, and the set of domains a certificate is being obtained for. A certificate order and the DNS lookup before it are answers of the
  outside world, and arguments. Goroutines that obtain certificates are operations of their own, run after the handler that starts them.
\<close>

section \<open>The server's state\<close>

record dserver =
  sv_m :: manager
  sv_domainCache :: "(string \<rightharpoonup> string) option"
  sv_issuing :: "string set"

abbreviation sv_db :: "dserver \<Rightarrow> db" where "sv_db s \<equiv> mg_db (sv_m s)"

abbreviation set_db :: "db \<Rightarrow> dserver \<Rightarrow> dserver" where "set_db d s \<equiv> s\<lparr>sv_m := (sv_m s)\<lparr>mg_db := d\<rparr>\<rparr>"

definition active_cache :: "db \<Rightarrow> string \<rightharpoonup> string" where
  "active_cache d =
     foldl (\<lambda>cache x. if d_Status x = DomainActive then cache(d_Domain x \<mapsto> d_AppName x) else cache) Map.empty (AllDomains d)"

definition reloadDomains :: "dserver \<Rightarrow> dserver" where
  "reloadDomains s = s\<lparr>sv_domainCache := Some (active_cache (sv_db s))\<rparr>"

text \<open>A lookup loads the cache when there is none yet.\<close>

definition appNameFromCustomDomain :: "dserver \<Rightarrow> string \<Rightarrow> dserver \<times> string option" where
  "appNameFromCustomDomain s host =
     (case sv_domainCache s of
        Some cache \<Rightarrow> (s, cache host)
      | None \<Rightarrow> let s1 = reloadDomains s in (s1, active_cache (sv_db s) host))"

section \<open>Which domains are accepted\<close>

text \<open>\<open>^(?:[a-z0-9](?:[a-z0-9-]{0,61}[a-z0-9])?\.)+[a-z]{2,63}$\<close>\<close>

definition host_label :: "string \<Rightarrow> bool" where
  "host_label s \<longleftrightarrow> is_label s \<and> length s \<le> 63"

definition hostnameRegex :: "string \<Rightarrow> bool" where
  "hostnameRegex s \<longleftrightarrow>
     (let parts = split_on (CHR ''.'') s
      in 2 \<le> length parts \<and> list_all host_label (butlast parts)
         \<and> list_all is_lower_letter (last parts) \<and> 2 \<le> length (last parts) \<and> length (last parts) \<le> 63)"

definition validateCustomDomain :: "config \<Rightarrow> string \<Rightarrow> unit res" where
  "validateCustomDomain cf domain =
     (if \<not> hostnameRegex domain then Inl ErrInvalidDomain
      else if IsWebHostname cf domain \<or> domain = cf_BaseDomain cf then Inl ErrInvalidDomain
      else if appNameFromHost cf domain \<noteq> None then Inl ErrInvalidDomain
      else if HasSuffix domain (CHR ''.'' # cf_BaseDomain cf) then Inl ErrInvalidDomain
      else Inr ())"

definition clean_domain :: "string \<Rightarrow> string" where
  "clean_domain domain = ToLower (TrimSpace (TrimSuffix domain ''.''))"

section \<open>Attaching and detaching\<close>

definition addAppDomain :: "config \<Rightarrow> int \<Rightarrow> dserver \<Rightarrow> string \<Rightarrow> string \<Rightarrow> dserver \<times> DomainRec res" where
  "addAppDomain cf now s appName domain0 =
     (let domain = clean_domain domain0
      in case validateCustomDomain cf domain of
           Inl e \<Rightarrow> (s, Inl e)
         | Inr _ \<Rightarrow>
             let x = \<lparr>d_Domain = domain, d_AppName = appName, d_Status = DomainPending, d_LastError = '''',
                      d_CreatedAt = Some (unix_ns now), d_ActiveAt = None\<rparr>
             in (case AddDomain (sv_db s) x of
                   Inl e \<Rightarrow> (s, Inl e)
                 | Inr d \<Rightarrow> (reloadDomains (set_db d s), Inr x)))"

definition ownedDomain :: "db \<Rightarrow> string \<Rightarrow> string \<Rightarrow> DomainRec res" where
  "ownedDomain d appName domain0 =
     (case Store_Domain d (clean_domain domain0) of
        Inl e \<Rightarrow> Inl e
      | Inr x \<Rightarrow> if d_AppName x \<noteq> appName then Inl ErrAppDomainNotFound else Inr x)"

definition removeAppDomain :: "dserver \<Rightarrow> string \<Rightarrow> string \<Rightarrow> dserver \<times> unit res" where
  "removeAppDomain s appName domain =
     (case ownedDomain (sv_db s) appName domain of
        Inl e \<Rightarrow> (s, Inl e)
      | Inr x \<Rightarrow> (reloadDomains (set_db (DeleteDomain (sv_db s) (d_Domain x)) s), Inr ()))"

definition maxDomainsPerApp :: nat where "maxDomainsPerApp = 10"

definition handleAppDomainAdd :: "config \<Rightarrow> int \<Rightarrow> dserver \<Rightarrow> caller \<Rightarrow> string \<Rightarrow> string option \<Rightarrow> dserver \<times> nat" where
  "handleAppDomainAdd cf now s c name body =
     (case ownedApp (sv_db s) c name of
        Inl e \<Rightarrow> (s, writeAppError e)
      | Inr a \<Rightarrow>
          (case body of
             None \<Rightarrow> (s, 400)
           | Some domain \<Rightarrow>
               if maxDomainsPerApp \<le> length (Domains (sv_db s) (a_Name a)) then (s, 403)
               else (case addAppDomain cf now s (a_Name a) domain of
                       (s1, Inl e) \<Rightarrow> (s1, writeAppError e)
                     | (s1, Inr _) \<Rightarrow>
                         (set_db (logAction now (sv_db s1) c (a_Name a) ''domain'' (''Added custom domain '' @ domain)) s1, 201))))"

text \<open>The answer names the domain a certificate is obtained for in the background.\<close>

definition handleAppDomainVerify :: "db \<Rightarrow> caller \<Rightarrow> string \<Rightarrow> string \<Rightarrow> string option \<times> nat" where
  "handleAppDomainVerify d c name domain =
     (case ownedApp d c name of
        Inl e \<Rightarrow> (None, writeAppError e)
      | Inr a \<Rightarrow> (case ownedDomain d (a_Name a) domain of Inl e \<Rightarrow> (None, writeAppError e) | Inr x \<Rightarrow> (Some (d_Domain x), 200)))"

definition handleAppDomainDelete :: "int \<Rightarrow> dserver \<Rightarrow> caller \<Rightarrow> string \<Rightarrow> string \<Rightarrow> dserver \<times> nat" where
  "handleAppDomainDelete now s c name domain =
     (case ownedApp (sv_db s) c name of
        Inl e \<Rightarrow> (s, writeAppError e)
      | Inr a \<Rightarrow>
          (case removeAppDomain s (a_Name a) domain of
             (s1, Inl e) \<Rightarrow> (s1, writeAppError e)
           | (s1, Inr _) \<Rightarrow>
               (set_db (logAction now (sv_db s1) c (a_Name a) ''domain'' (''Removed custom domain '' @ domain)) s1, 200)))"

section \<open>Certificates\<close>

text \<open>Whether certificates are managed at all, the DNS lookup, and the answer of a certificate order (the text of its error).\<close>

record cert_env =
  ct_magic :: bool
  ct_cname :: "string \<Rightarrow> string option"
  ct_order :: "string \<Rightarrow> string option"

definition markDomain :: "int \<Rightarrow> dserver \<Rightarrow> string \<Rightarrow> string \<Rightarrow> string \<Rightarrow> dserver" where
  "markDomain now s domain status lastErr =
     (let activeAt = (if status = DomainActive then Some (unix_ns now) else None)
      in reloadDomains (case SetDomainStatus (sv_db s) domain status lastErr activeAt of Inl _ \<Rightarrow> s | Inr d \<Rightarrow> set_db d s))"

definition domainChallengeName :: "config \<Rightarrow> string" where
  "domainChallengeName cf = ''_acme-challenge.acme.'' @ cf_BaseDomain cf"

definition delegationReady :: "config \<Rightarrow> cert_env \<Rightarrow> string \<Rightarrow> bool" where
  "delegationReady cf env domain =
     (case ct_cname env (''_acme-challenge.'' @ domain) of
        None \<Rightarrow> False
      | Some cname0 \<Rightarrow>
          let cname = ToLower (TrimSuffix cname0 ''.'')
          in cname = domainChallengeName cf \<or> HasSuffix cname (''.acme.'' @ ToLower (cf_BaseDomain cf)))"

text \<open>What \<open>issueDomainCert\<close> does between taking and dropping its in-flight mark.\<close>

definition issue_attempt :: "config \<Rightarrow> cert_env \<Rightarrow> int \<Rightarrow> dserver \<Rightarrow> string \<Rightarrow> dserver" where
  "issue_attempt cf env now s domain =
     (if WildcardTLS cf \<and> \<not> delegationReady cf env domain then
        markDomain now s domain DomainPending
          (''Waiting for the DNS record _acme-challenge.'' @ domain @ '' -> '' @ domainChallengeName cf)
      else case ct_order env domain of
             Some err \<Rightarrow>
               (case Store_Domain (sv_db s) domain of
                  Inr cur \<Rightarrow> if d_Status cur = DomainActive then s else markDomain now s domain DomainError err
                | Inl _ \<Rightarrow> markDomain now s domain DomainError err)
           | None \<Rightarrow> markDomain now s domain DomainActive '''')"

definition issueDomainCert :: "config \<Rightarrow> cert_env \<Rightarrow> int \<Rightarrow> dserver \<Rightarrow> string \<Rightarrow> dserver" where
  "issueDomainCert cf env now s domain =
     (if \<not> ct_magic env then markDomain now s domain DomainActive ''''
      else if domain \<in> sv_issuing s then s
      else let s1 = issue_attempt cf env now (s\<lparr>sv_issuing := insert domain (sv_issuing s)\<rparr>) domain
           in s1\<lparr>sv_issuing := sv_issuing s1 - {domain}\<rparr>)"

definition retryDomains :: "config \<Rightarrow> cert_env \<Rightarrow> int \<Rightarrow> dserver \<Rightarrow> dserver" where
  "retryDomains cf env now s =
     fold (\<lambda>x s'. if d_Status x \<noteq> DomainActive then issueDomainCert cf env now s' (d_Domain x) else s') (AllDomains (sv_db s)) s"

definition manageExistingDomains :: "config \<Rightarrow> cert_env \<Rightarrow> int \<Rightarrow> dserver \<Rightarrow> dserver" where
  "manageExistingDomains cf env now s =
     fold (\<lambda>x s'. if d_Status x = DomainActive then issueDomainCert cf env now s' (d_Domain x) else s') (AllDomains (sv_db s)) s"

section \<open>Renaming through the API\<close>

definition handleAppsRename ::
  "(string \<Rightarrow> string option) \<Rightarrow> string \<Rightarrow> agents \<Rightarrow> (rename_call \<Rightarrow> unit res) \<Rightarrow> (db \<Rightarrow> db) \<Rightarrow> int \<Rightarrow> dserver \<Rightarrow> caller \<Rightarrow> string \<Rightarrow> string option
     \<Rightarrow> dserver \<times> rename_call list \<times> nat" where
  "handleAppsRename lookup appsDir reg ans race now s c name body =
     (case ownerApp (sv_db s) c name of
        Inl e \<Rightarrow> (s, [], writeAppError e)
      | Inr a \<Rightarrow>
          (case body of
             None \<Rightarrow> (s, [], 400)
           | Some newName \<Rightarrow>
               (case Manager_RenameApp lookup appsDir reg ans race (sv_db s) (a_Name a) newName of
                  (d, calls, Inl e) \<Rightarrow> (set_db d s, calls, writeAppError e)
                | (d, calls, Inr renamed) \<Rightarrow>
                    let s1 = reloadDomains (set_db d s)
                    in (set_db (logAction now (sv_db s1) c (a_Name renamed) ''rename'' (''Renamed from '' @ a_Name a)) s1, calls, 200))))"

section \<open>The front door\<close>

text \<open>The host of \<open>net.SplitHostPort\<close>; \<open>None\<close> is an error: no port, too many colons, stray brackets.\<close>

definition SplitHostPort :: "string \<Rightarrow> string option" where
  "SplitHostPort h =
     (if CHR '':'' \<notin> set h then None
      else if hd h = CHR ''['' then
        (let host = takeWhile (\<lambda>c. c \<noteq> CHR '']'') (tl h); rest = drop (length host + 2) h
         in if CHR '']'' \<notin> set h then None
            else if rest = '''' \<or> hd rest \<noteq> CHR '':'' \<or> CHR '':'' \<in> set (tl rest) then None
            else if CHR ''['' \<in> set (tl h) \<or> CHR '']'' \<in> set rest then None
            else Some host)
      else
        (let host = takeWhile (\<lambda>c. c \<noteq> CHR '':'') h; rest = drop (length host + 1) h
         in if CHR '':'' \<in> set rest then None
            else if CHR ''['' \<in> set h \<or> CHR '']'' \<in> set h then None
            else Some host))"

definition hostOnly :: "string \<Rightarrow> string" where
  "hostOnly hostport = (case SplitHostPort hostport of Some host \<Rightarrow> host | None \<Rightarrow> hostport)"

datatype front_answer = ServeAPI | NothingHere | Answered gate_answer | ProxyTo string request

text \<open>\<open>proxyTo\<close>: the app's address on its node, and what is sent there. \<open>SetXForwarded\<close> states the scheme the client used.\<close>

definition proxyTo :: "config \<Rightarrow> db \<Rightarrow> string \<Rightarrow> request \<Rightarrow> App \<Rightarrow> front_answer" where
  "proxyTo cf d remote r a =
     ProxyTo (app_target d a)
       (r\<lparr>rq_cookies := filter (\<lambda>ck. fst ck \<noteq> cookieName cf GrantCookie) (rq_cookies r),
          rq_header := (\<lambda>h. if h = ''X-Forwarded-Proto'' then (if rq_tls r then ''https'' else ''http'')
                            else forward_headers remote r h)\<rparr>)"

definition serve_app ::
  "(string \<Rightarrow> string) \<Rightarrow> (string \<Rightarrow> string) \<Rightarrow> verify_fn \<Rightarrow> string \<Rightarrow> config \<Rightarrow> int \<Rightarrow> string \<Rightarrow> dserver \<Rightarrow> request \<Rightarrow> string \<Rightarrow> dserver \<times> front_answer" where
  "serve_app hash mac verify grantKey cf now remote s r name =
     (case Store_App (sv_db s) name of
        Inl _ \<Rightarrow> (s, NothingHere)
      | Inr a \<Rightarrow>
          if a_Private a then
            (case allowPrivateRequest hash mac verify grantKey cf now (sv_db s) r a of
               (d, Allow) \<Rightarrow> (set_db d s, proxyTo cf d remote r a)
             | (d, ans) \<Rightarrow> (set_db d s, Answered ans))
          else (s, proxyTo cf (sv_db s) remote r a))"

definition newProxyHandler ::
  "(string \<Rightarrow> string) \<Rightarrow> (string \<Rightarrow> string) \<Rightarrow> verify_fn \<Rightarrow> string \<Rightarrow> config \<Rightarrow> int \<Rightarrow> string \<Rightarrow> dserver \<Rightarrow> request \<Rightarrow> dserver \<times> front_answer" where
  "newProxyHandler hash mac verify grantKey cf now remote s r =
     (let host = hostOnly (rq_host r)
      in if IsWebHostname cf host then (s, ServeAPI)
         else case appNameFromHost cf host of
                Some name \<Rightarrow> serve_app hash mac verify grantKey cf now remote s r name
              | None \<Rightarrow>
                  (case appNameFromCustomDomain s host of
                     (s1, None) \<Rightarrow> (s1, NothingHere)
                   | (s1, Some name) \<Rightarrow> serve_app hash mac verify grantKey cf now remote s1 r name))"

section \<open>Picking up a grant\<close>

text \<open>What the code reads of a parsed URL, and the parser.\<close>

record parsed_url =
  pu_IsAbs :: bool
  pu_Scheme :: string
  pu_Host :: string
  pu_Path :: string
  pu_RequestURI :: string

type_synonym parse_url_fn = "string \<Rightarrow> parsed_url option"

definition scheme :: "config \<Rightarrow> string" where
  "scheme cf = (if cf_TLSOff cf then ''http'' else ''https'')"

definition appReturnURL :: "parse_url_fn \<Rightarrow> config \<Rightarrow> dserver \<Rightarrow> App \<Rightarrow> string \<Rightarrow> dserver \<times> parsed_url option" where
  "appReturnURL parse_url cf s a target =
     (case parse_url target of
        None \<Rightarrow> (s, None)
      | Some u \<Rightarrow>
          if \<not> pu_IsAbs u \<or> pu_Host u = '''' then (s, None)
          else if pu_Scheme u \<noteq> scheme cf then (s, None)
          else
            let host = hostOnly (pu_Host u)
            in if host = a_Name a @ CHR ''.'' # cf_BaseDomain cf then (s, Some u)
               else (case appNameFromCustomDomain s host of
                       (s1, Some name) \<Rightarrow> (s1, if name = a_Name a then Some u else None)
                     | (s1, None) \<Rightarrow> (s1, None)))"

definition loopLimit :: int where "loopLimit = 3"

text \<open>\<open>mintCount\<close> of the loop cookie, read at one app: \<open>strings.Cut\<close> splits at the first colon.\<close>

definition mintCount :: "string option \<Rightarrow> string \<Rightarrow> int" where
  "mintCount cookie app =
     (case cookie of
        None \<Rightarrow> 0
      | Some v \<Rightarrow>
          let before = takeWhile (\<lambda>c. c \<noteq> CHR '':'') v
          in if CHR '':'' \<notin> set v then 0
             else (case parse_int (drop (length before + 1) v) of
                     None \<Rightarrow> 0
                   | Some n \<Rightarrow> if before = app then n else 0))"

text \<open>Where the visitor goes: a grant is delivered to a scheme and host, with the path to return to and the loop cookie.\<close>

datatype access_answer = AccessNothing | SignIn | AccessPrivate | Deliver string string string string string

definition handleAppAccess ::
  "(string \<Rightarrow> string) \<Rightarrow> (string \<Rightarrow> string) \<Rightarrow> (string \<Rightarrow> string \<Rightarrow> string res) \<Rightarrow> parse_url_fn \<Rightarrow> config \<Rightarrow> int \<Rightarrow> dserver \<Rightarrow> request \<Rightarrow> string \<Rightarrow> string
     \<Rightarrow> dserver \<times> access_answer" where
  "handleAppAccess hash mac sign parse_url cf now s r name target =
     (case Store_App (sv_db s) name of
        Inl _ \<Rightarrow> (s, AccessNothing)
      | Inr a \<Rightarrow>
          if \<not> a_Private a then (s, AccessNothing)
          else (case authenticate hash mac cf now (sv_db s) r of
                  (d, Inl _) \<Rightarrow> (set_db d s, if \<not> WebEnabled cf then AccessNothing else SignIn)
                | (d, Inr c) \<Rightarrow>
                    let s1 = set_db d s
                    in if \<not> mayViewApp d c a then (s1, AccessPrivate)
                       else (case appReturnURL parse_url cf s1 a target of
                               (s2, None) \<Rightarrow> (s2, AccessNothing)
                             | (s2, Some back) \<Rightarrow>
                                 let minted = mintCount (get_cookie r (cookieName cf ''hostit_minting'')) (a_Name a)
                                 in if loopLimit \<le> minted then (s2, AccessPrivate)
                                    else (case sign (a_Name a) (userID c) of
                                            Inl _ \<Rightarrow> (s2, AccessNothing)
                                          | Inr grant \<Rightarrow>
                                              (s2, Deliver (pu_Scheme back) (pu_Host back) grant (pu_RequestURI back)
                                                     (a_Name a @ CHR '':'' # itoa (minted + 1)))))))"

definition localPath :: "parse_url_fn \<Rightarrow> string \<Rightarrow> string" where
  "localPath parse_url target =
     (if set target \<inter> {CHR 0x5C, CHR 0x09, CHR 0x0D, CHR 0x0A} \<noteq> {} then ''/''
      else case parse_url target of
             None \<Rightarrow> ''/''
           | Some u \<Rightarrow> if pu_IsAbs u \<or> pu_Host u \<noteq> '''' \<or> \<not> HasPrefix (pu_Path u) ''/'' then ''/'' else pu_RequestURI u)"

text \<open>\<open>handleAppGranted\<close>: the cookie that is set and the path the visitor is sent on to, or the refusal.\<close>

definition handleAppGranted ::
  "verify_fn \<Rightarrow> string \<Rightarrow> parse_url_fn \<Rightarrow> config \<Rightarrow> request \<Rightarrow> App \<Rightarrow> string \<Rightarrow> string \<Rightarrow> ((string \<times> string) \<times> string) option" where
  "handleAppGranted verify grantKey parse_url cf r a grant target =
     (let site = rq_header r ''Sec-Fetch-Site''
      in if site \<noteq> '''' \<and> site \<noteq> ''same-site'' \<and> site \<noteq> ''same-origin'' \<and> site \<noteq> ''none'' then None
         else case verify grantKey grant of
                Inl _ \<Rightarrow> None
              | Inr (app, uid) \<Rightarrow>
                  if app \<noteq> a_Name a then None
                  else Some ((cookieName cf GrantCookie, grant), localPath parse_url target))"

section \<open>Certificates for hostnames\<close>

definition allowTLSHost :: "config \<Rightarrow> db \<Rightarrow> string \<Rightarrow> bool" where
  "allowTLSHost cf d name =
     (if IsWebHostname cf name then True
      else case appNameFromHost cf name of
             Some appName \<Rightarrow> is_ok (Store_App d appName)
           | None \<Rightarrow> is_ok (Store_Domain d name))"

section \<open>The cache of active domains\<close>

definition cache_ok :: "dserver \<Rightarrow> bool" where
  "cache_ok s \<longleftrightarrow> (case sv_domainCache s of None \<Rightarrow> True | Some cache \<Rightarrow> cache = active_cache (sv_db s))"

lemma domain_key: "db_unique d \<Longrightarrow> distinct (map d_Domain (app_domain_tbl d))"
  by (rule tbl_unique_distinct[OF db_uniqueD(8)]) (simp_all add: domain_conflict_def)

lemma active_fold:
  assumes "distinct (map d_Domain t)"
  shows "foldl (\<lambda>cache x. if d_Status x = DomainActive then cache(d_Domain x \<mapsto> d_AppName x) else cache) m (map (scanDomain d) t) h =
    (case tbl_find (\<lambda>r. d_Domain r = h \<and> d_Status r = DomainActive) t of
       None \<Rightarrow> m h
     | Some r \<Rightarrow> Some (app_name_of_id d (d_app_id r) (d_AppName r)))"
  using assms
proof (induction t arbitrary: m)
  case (Cons r t)
  have "tbl_find (\<lambda>r. d_Domain r = h \<and> d_Status r = DomainActive) t = None" if "d_Domain r = h"
    using that Cons.prems by (force simp: tbl_find_None image_iff)
  with Cons show ?case by (auto simp: scanDomain_def split: option.splits)
qed simp

lemma active_cache_Some:
  assumes "db_unique d"
  shows "active_cache d h = Some n \<longleftrightarrow>
    (\<exists>r \<in> set (app_domain_tbl d). d_Domain r = h \<and> d_Status r = DomainActive \<and> app_name_of_id d (d_app_id r) (d_AppName r) = n)"
proof -
  let ?P = "\<lambda>r :: domain_row. d_Domain r = h \<and> d_Status r = DomainActive"
  have eq: "active_cache d h = map_option (\<lambda>r. app_name_of_id d (d_app_id r) (d_AppName r)) (tbl_find ?P (app_domain_tbl d))"
    unfolding active_cache_def AllDomains_def using active_fold[OF domain_key[OF assms]] by (simp split: option.splits)
  have "tbl_find ?P (app_domain_tbl d) = Some r \<longleftrightarrow> r \<in> set (app_domain_tbl d) \<and> ?P r" for r
  proof
    assume r: "r \<in> set (app_domain_tbl d) \<and> ?P r"
    then obtain x where x: "tbl_find ?P (app_domain_tbl d) = Some x" using tbl_find_exists[of r "app_domain_tbl d" ?P] by auto
    with r tbl_find_Some[OF x] distinct_key_eq[OF domain_key[OF assms], of x r] show "tbl_find ?P (app_domain_tbl d) = Some r" by auto
  qed (rule tbl_find_Some)
  then show ?thesis unfolding eq by auto
qed

lemma active_cache_None:
  assumes "db_unique d" "\<And>r. r \<in> set (app_domain_tbl d) \<Longrightarrow> d_Domain r \<noteq> h \<or> d_Status r \<noteq> DomainActive"
  shows "active_cache d h = None"
  using active_cache_Some[OF assms(1)] assms(2) by (metis not_None_eq)

lemma active_cache_cong:
  assumes "app_tbl d' = app_tbl d" "app_domain_tbl d' = app_domain_tbl d"
  shows "active_cache d' = active_cache d"
proof -
  have "scanDomain d' = scanDomain d" using assms(1) by (intro ext) (simp add: scanDomain_def app_name_of_id_def)
  then show ?thesis using assms(2) by (simp add: active_cache_def AllDomains_def)
qed

lemma cache_ok_reload [simp]: "cache_ok (reloadDomains s)"
  by (simp add: cache_ok_def reloadDomains_def)

lemma logAction_domains [simp]: "app_domain_tbl (logAction now d c app action detail) = app_domain_tbl d"
  by (simp add: logAction_def recordEvent_def AddEvent_def Let_def)

lemma cache_ok_set_db: "active_cache d = active_cache (sv_db s) \<Longrightarrow> cache_ok (set_db d s) = cache_ok s"
  by (simp add: cache_ok_def split: option.splits)

lemma cache_ok_log [simp]: "cache_ok (set_db (logAction now (sv_db s) c app action detail) s) = cache_ok s"
  by (rule cache_ok_set_db, rule active_cache_cong) simp_all

lemma cache_ok_mark [simp]: "cache_ok (markDomain now s domain status err)"
  by (simp add: markDomain_def Let_def)

lemma cache_ok_issuing [simp]: "cache_ok (s\<lparr>sv_issuing := x\<rparr>) = cache_ok s"
  by (simp add: cache_ok_def split: option.splits)

lemma issue_attempt_cases: "issue_attempt cf env now s domain = s \<or> (\<exists>st err. issue_attempt cf env now s domain = markDomain now s domain st err)"
  by (auto simp: issue_attempt_def split: option.splits sum.splits)

lemma cache_ok_issue: "cache_ok s \<Longrightarrow> cache_ok (issueDomainCert cf env now s domain)"
  using issue_attempt_cases[of cf env now "s\<lparr>sv_issuing := insert domain (sv_issuing s)\<rparr>" domain]
  by (auto simp: issueDomainCert_def Let_def)

lemma cache_ok_issue_all: "cache_ok s \<Longrightarrow> cache_ok (fold (\<lambda>x s'. if P x then issueDomainCert cf env now s' (f x) else s') xs s)"
  by (induction xs arbitrary: s) (simp_all add: cache_ok_issue)

lemma cache_ok_lookup: "cache_ok s \<Longrightarrow> cache_ok (fst (appNameFromCustomDomain s host)) \<and> snd (appNameFromCustomDomain s host) = active_cache (sv_db s) host"
  by (auto simp: appNameFromCustomDomain_def cache_ok_def Let_def reloadDomains_def split: option.splits)

lemma cache_ok_add: "cache_ok s \<Longrightarrow> cache_ok (fst (addAppDomain cf now s app domain))"
  by (auto simp: addAppDomain_def Let_def split: sum.splits)

lemma cache_ok_remove: "cache_ok s \<Longrightarrow> cache_ok (fst (removeAppDomain s app domain))"
  by (auto simp: removeAppDomain_def split: sum.splits)

lemma RenameApp_found:
  assumes "RenameApp d old new = Inr d'"
  shows "Store_App d' new \<noteq> Inl e"
proof -
  obtain a where "a \<in> set (app_tbl d)" "a_Name a = old" using RenameApp_tables(3)[OF assms] by blast
  then have "a\<lparr>a_Name := new\<rparr> \<in> set (app_tbl d')"
    unfolding RenameApp_tables(1)[OF assms] tbl_update_def by (force simp: image_iff)
  then show ?thesis by (force simp: Store_App_Inl)
qed

lemma cache_ok_rename:
  assumes "cache_ok s" "\<And>d. active_cache (race d) = active_cache d"
  shows "cache_ok (fst (handleAppsRename lookup appsDir reg ans race now s c name body))"
proof -
  have "active_cache d = active_cache (sv_db s)"
    if "Manager_RenameApp lookup appsDir reg ans race (sv_db s) old new = (d, calls, Inl e)" for old new d calls e
    using that assms(2) RenameApp_found by (auto simp: Manager_RenameApp_def Let_def split: if_splits sum.splits prod.splits)
  then have "cache_ok (set_db d s)"
    if "Manager_RenameApp lookup appsDir reg ans race (sv_db s) old new = (d, calls, Inl e)" for old new d calls e
    using that assms(1) cache_ok_set_db by blast
  then show ?thesis using assms(1)
    by (auto simp: handleAppsRename_def Let_def split: sum.splits option.splits prod.splits)
qed

section \<open>What an attempt at a certificate changes\<close>

lemma markDomain_rows:
  assumes "r \<in> set (app_domain_tbl (sv_db s))" "d_Domain r = domain"
  shows "app_domain_tbl (sv_db (markDomain now s domain status err)) =
      tbl_update (\<lambda>r. d_Domain r = domain)
        (\<lambda>r. r\<lparr>d_Status := status, d_LastError := err, d_ActiveAt := (if status = DomainActive then Some (unix_ns now) else None)\<rparr>)
        (app_domain_tbl (sv_db s))"
    and "app_tbl (sv_db (markDomain now s domain status err)) = app_tbl (sv_db s)"
    and "sv_issuing (markDomain now s domain status err) = sv_issuing s"
  using assms by (auto simp: markDomain_def Let_def SetDomainStatus_def checkAffected_def reloadDomains_def)

lemma tbl_update_hit: "r \<in> set t \<Longrightarrow> P r \<Longrightarrow> f r \<in> set (tbl_update P f t)"
  by (force simp: tbl_update_def image_iff)

lemma tbl_update_other:
  "(\<And>r. k (f r) = k r) \<Longrightarrow> k x \<noteq> v \<Longrightarrow> x \<in> set (tbl_update (\<lambda>r. k r = v) f t) \<longleftrightarrow> x \<in> set t"
  by (auto simp: tbl_update_def)

text \<open>One domain has the status, for the app it belonged to, and every other domain is as it was.\<close>

definition domain_becomes :: "db \<Rightarrow> domain_row \<Rightarrow> string \<Rightarrow> db \<Rightarrow> bool" where
  "domain_becomes d r status d' \<longleftrightarrow>
     (\<exists>x \<in> set (app_domain_tbl d'). d_Domain x = d_Domain r \<and> d_app_id x = d_app_id r \<and> d_Status x = status)
     \<and> (\<forall>x. d_Domain x \<noteq> d_Domain r \<longrightarrow> (x \<in> set (app_domain_tbl d') \<longleftrightarrow> x \<in> set (app_domain_tbl d)))"

lemma markDomain_becomes:
  assumes "r \<in> set (app_domain_tbl (sv_db s))"
  shows "domain_becomes (sv_db s) r status (sv_db (markDomain now s (d_Domain r) status err))"
  unfolding domain_becomes_def markDomain_rows(1)[OF assms refl]
proof (intro conjI allI impI, goal_cases)
  case 1
  show ?case by (rule bexI[OF _ tbl_update_hit[OF assms]]) simp_all
next
  case (2 x)
  then show ?case by (intro tbl_update_other) simp_all
qed

lemma markDomain_unique: "db_unique (sv_db s) \<Longrightarrow> db_unique (sv_db (markDomain now s domain status err))"
  using SetDomainStatus_unique[of "sv_db s"] by (auto simp: markDomain_def Let_def reloadDomains_def split: sum.splits)

lemma Store_Domain_row:
  assumes "db_unique d" "r \<in> set (app_domain_tbl d)"
  shows "Store_Domain d (d_Domain r) = Inr (scanDomain d r)"
  using tbl_find_unique[OF domain_key[OF assms(1)] assms(2)] by (simp add: Store_Domain_def)

text \<open>The status an attempt at a certificate leaves a domain with.\<close>

definition attempt_status :: "config \<Rightarrow> cert_env \<Rightarrow> domain_row \<Rightarrow> string" where
  "attempt_status cf env r =
     (if WildcardTLS cf \<and> \<not> delegationReady cf env (d_Domain r) then DomainPending
      else if ct_order env (d_Domain r) = None \<or> d_Status r = DomainActive then DomainActive
      else DomainError)"

lemma issue_attempt_eq:
  assumes "db_unique (sv_db s)" "r \<in> set (app_domain_tbl (sv_db s))"
  shows "(issue_attempt cf env now s (d_Domain r) = s \<and> attempt_status cf env r = d_Status r)
    \<or> (\<exists>err. issue_attempt cf env now s (d_Domain r) = markDomain now s (d_Domain r) (attempt_status cf env r) err)"
  using Store_Domain_row[OF assms] unfolding issue_attempt_def attempt_status_def
  by (auto simp: scanDomain_def split: option.splits)

lemma domain_becomes_refl: "r \<in> set (app_domain_tbl d) \<Longrightarrow> domain_becomes d r (d_Status r) d"
  by (auto simp: domain_becomes_def)

lemma issue_attempt_becomes:
  assumes "db_unique (sv_db s)" "r \<in> set (app_domain_tbl (sv_db s))"
  shows "domain_becomes (sv_db s) r (attempt_status cf env r) (sv_db (issue_attempt cf env now s (d_Domain r)))"
    and "db_unique (sv_db (issue_attempt cf env now s (d_Domain r)))"
    and "sv_issuing (issue_attempt cf env now s (d_Domain r)) = sv_issuing s"
  using issue_attempt_eq[OF assms, of cf env now] markDomain_becomes[OF assms(2)] domain_becomes_refl[OF assms(2)]
    markDomain_unique[OF assms(1)] markDomain_rows(3)[OF assms(2) refl] assms(1)
  by (metis, metis, metis)

lemma domain_becomes_routed:
  assumes "db_unique d'" "domain_becomes d r status d'"
  shows "active_cache d' (d_Domain r) \<noteq> None \<longleftrightarrow> status = DomainActive"
proof -
  obtain x where x: "x \<in> set (app_domain_tbl d')" "d_Domain x = d_Domain r" "d_Status x = status"
    using assms(2) unfolding domain_becomes_def by blast
  then have "y = x" if "y \<in> set (app_domain_tbl d')" "d_Domain y = d_Domain r" for y
    using distinct_key_eq[OF domain_key[OF assms(1)] that(1) x(1)] that(2) by simp
  then show ?thesis using x active_cache_Some[OF assms(1), of "d_Domain r"] by (metis not_None_eq)
qed

text \<open>The life of a custom domain. An attempt to get a certificate for a registered domain leaves it active when the order succeeds; a failed
  order marks it as failed unless it was serving already, in which case it goes on serving. But when the platform validates through DNS and the owner's
  delegation record is not seen, the domain becomes pending and stops being routed, even if it was serving: a lookup that fails for a moment, on a
  restart or when the owner presses verify, takes a working domain down. Other domains, and what is in flight, are not affected.\<close>

lemma issueDomainCert_outcome:
  assumes "db_unique (sv_db s)" and "r \<in> set (app_domain_tbl (sv_db s))" and "d_Domain r \<notin> sv_issuing s" and "ct_magic env" and "cache_ok s"
  shows "let s' = issueDomainCert cf env now s (d_Domain r);
             status = (if WildcardTLS cf \<and> \<not> delegationReady cf env (d_Domain r) then DomainPending
                       else if ct_order env (d_Domain r) = None \<or> d_Status r = DomainActive then DomainActive else DomainError)
    in domain_becomes (sv_db s) r status (sv_db s')
       \<and> (snd (appNameFromCustomDomain s' (d_Domain r)) \<noteq> None \<longleftrightarrow> status = DomainActive)
       \<and> sv_issuing s' = sv_issuing s"
proof -
  let ?s1 = "s\<lparr>sv_issuing := insert (d_Domain r) (sv_issuing s)\<rparr>"
  define s' where "s' = issueDomainCert cf env now s (d_Domain r)"
  have s'_eq: "s' = (issue_attempt cf env now ?s1 (d_Domain r))\<lparr>sv_issuing := sv_issuing s\<rparr>"
    using issue_attempt_becomes(3)[of ?s1 r cf env now] assms(1-4) by (simp add: s'_def issueDomainCert_def Let_def)
  have b: "domain_becomes (sv_db s) r (attempt_status cf env r) (sv_db s')" and u: "db_unique (sv_db s')"
    using issue_attempt_becomes(1,2)[of ?s1 r cf env now] assms(1,2) unfolding s'_eq by simp_all
  have "snd (appNameFromCustomDomain s' (d_Domain r)) = active_cache (sv_db s') (d_Domain r)"
    using cache_ok_lookup[OF cache_ok_issue[OF assms(5)]] unfolding s'_def by blast
  then have "snd (appNameFromCustomDomain s' (d_Domain r)) \<noteq> None \<longleftrightarrow> attempt_status cf env r = DomainActive"
    using domain_becomes_routed[OF u b] by simp
  moreover have "sv_issuing s' = sv_issuing s" unfolding s'_eq by simp
  ultimately show ?thesis using b unfolding s'_def attempt_status_def Let_def by blast
qed

section \<open>Delivering a grant\<close>

lemma authenticate_tables:
  assumes "authenticate hash mac cf now d r = (d', res)"
  shows "app_tbl d' = app_tbl d" "app_domain_tbl d' = app_domain_tbl d" "user_tbl d' = user_tbl d"
    "app_collaborator_tbl d' = app_collaborator_tbl d" "app_viewer_tbl d' = app_viewer_tbl d"
  using assms
  by (auto simp: authenticate_def UserAndScopeByToken_def TouchToken_def Let_def split: if_splits sum.splits option.splits)

lemma appReturnURL_Some:
  assumes "appReturnURL parse_url cf s a target = (s', Some u)"
  shows "parse_url target = Some u" "pu_Scheme u = scheme cf"
    "hostOnly (pu_Host u) = a_Name a @ CHR ''.'' # cf_BaseDomain cf \<or> snd (appNameFromCustomDomain s (hostOnly (pu_Host u))) = Some (a_Name a)"
  using assms by (auto simp: appReturnURL_def Let_def split: option.splits if_splits prod.splits)

lemma handleAppAccess_Deliver:
  assumes "handleAppAccess hash mac sign parse_url cf now s r name target = (s', Deliver sch host grant uri marker)"
  obtains a d c ret where "Store_App (sv_db s) name = Inr a" "a_Private a" "authenticate hash mac cf now (sv_db s) r = (d, Inr c)" "mayViewApp d c a"
    "appReturnURL parse_url cf (set_db d s) a target = (s', Some ret)" "sign (a_Name a) (userID c) = Inr grant"
    "sch = pu_Scheme ret" "host = pu_Host ret" "uri = pu_RequestURI ret"
    "mintCount (get_cookie r (cookieName cf ''hostit_minting'')) (a_Name a) < loopLimit"
    "marker = a_Name a @ CHR '':'' # itoa (mintCount (get_cookie r (cookieName cf ''hostit_minting'')) (a_Name a) + 1)"
  using assms by (auto simp: handleAppAccess_def Let_def split: sum.splits if_splits prod.splits option.splits)

lemma mintCount_fits: "fits64 (mintCount cookie app)"
  by (auto simp: mintCount_def parse_int_def fits64_def Let_def split: option.splits)

lemma mintCount_marker:
  assumes "CHR '':'' \<notin> set app" "fits64 n"
  shows "mintCount (Some (app @ CHR '':'' # itoa n)) app = n"
proof -
  have "takeWhile (\<lambda>c. c \<noteq> CHR '':'') (app @ CHR '':'' # itoa n) = app"
    using assms(1) by (subst takeWhile_append2) auto
  then show ?thesis using assms(2) by (simp add: mintCount_def Let_def)
qed

lemma mayViewApp_cong:
  assumes "app_collaborator_tbl d' = app_collaborator_tbl d" "app_viewer_tbl d' = app_viewer_tbl d"
  shows "mayViewApp d' c a = mayViewApp d c a"
  using assms by (simp add: mayViewApp_def IsAppCollaborator_def IsAppViewer_def cong: option.case_cong)

text \<open>C26: where a grant goes. When the web host hands out a grant for a private app, the visitor is authenticated and may view the app, the grant is
  signed for exactly that app and visitor, and it is delivered over the platform's scheme to the app's own hostname or to a hostname that the server's domain
  cache holds for that app: the return URL of the request cannot send it anywhere else. When that cache was not built yet or agrees with the registry (\<open>cache_ok\<close>; the operations on domains keep
  it so, deleting an app does not, see \<open>deleted_domain_still_trusted\<close>), such a hostname is a custom domain registered and active for the app. The marker set beside the grant counts one more
  mint and never beyond the limit, so a browser that does not keep its grants is stopped.\<close>

theorem grant_delivered_to_own_host:
  assumes "handleAppAccess hash mac sign parse_url cf now s r name target = (s', Deliver sch host grant uri marker)"
    and "db_unique (sv_db s)" and "CHR '':'' \<notin> set name"
  shows "\<exists>a d c. Store_App (sv_db s) name = Inr a \<and> a_Name a = name \<and> a_Private a
     \<and> authenticate hash mac cf now (sv_db s) r = (d, Inr c) \<and> mayViewApp (sv_db s) c a
     \<and> sign name (userID c) = Inr grant \<and> sch = scheme cf
     \<and> (hostOnly host = name @ CHR ''.'' # cf_BaseDomain cf
        \<or> snd (appNameFromCustomDomain s (hostOnly host)) = Some name
          \<and> (cache_ok s \<longrightarrow>
              (\<exists>row \<in> set (app_domain_tbl (sv_db s)). d_Domain row = hostOnly host \<and> d_Status row = DomainActive
                 \<and> app_name_of_id (sv_db s) (d_app_id row) (d_AppName row) = name)))
     \<and> mintCount (Some marker) name = mintCount (get_cookie r (cookieName cf ''hostit_minting'')) name + 1
     \<and> mintCount (Some marker) name \<le> loopLimit"
  using assms(1)
proof (rule handleAppAccess_Deliver)
  fix a :: App and d c ret
  let ?n = "mintCount (get_cookie r (cookieName cf ''hostit_minting'')) (a_Name a)"
  assume a: "Store_App (sv_db s) name = Inr a" "a_Private a" and au: "authenticate hash mac cf now (sv_db s) r = (d, Inr c)"
    and may: "mayViewApp d c a" and ret: "appReturnURL parse_url cf (set_db d s) a target = (s', Some ret)"
    and g: "sign (a_Name a) (userID c) = Inr grant" and u: "sch = pu_Scheme ret" "host = pu_Host ret" "uri = pu_RequestURI ret"
    and n: "?n < loopLimit" and marker: "marker = a_Name a @ CHR '':'' # itoa (?n + 1)"
  have name: "a_Name a = name" using a(1) assms(2) by (simp add: Store_App_Inr)
  have ac: "active_cache d = active_cache (sv_db s)" using active_cache_cong[OF authenticate_tables(1,2)[OF au]] .
  have lookup: "snd (appNameFromCustomDomain (set_db d s) h) = snd (appNameFromCustomDomain s h)" for h
    using ac by (simp add: appNameFromCustomDomain_def Let_def split: option.splits)
  have host: "hostOnly host = name @ CHR ''.'' # cf_BaseDomain cf \<or> snd (appNameFromCustomDomain s (hostOnly host)) = Some name"
    using appReturnURL_Some(3)[OF ret] u(2) name by (simp add: lookup)
  have row: "\<exists>row \<in> set (app_domain_tbl (sv_db s)). d_Domain row = h \<and> d_Status row = DomainActive
      \<and> app_name_of_id (sv_db s) (d_app_id row) (d_AppName row) = name"
    if "snd (appNameFromCustomDomain s h) = Some name" "cache_ok s" for h
    using that cache_ok_lookup[OF that(2), of h] active_cache_Some[OF assms(2), of h name] by simp
  have "fits64 (?n + 1)" using mintCount_fits[of "get_cookie r (cookieName cf ''hostit_minting'')" "a_Name a"] n by (simp add: fits64_def loopLimit_def)
  then have cnt: "mintCount (Some marker) name = ?n + 1" using mintCount_marker assms(3) name marker by simp
  have "mayViewApp (sv_db s) c a" using may mayViewApp_cong[OF authenticate_tables(4,5)[OF au]] by blast
  moreover have "sch = scheme cf" using appReturnURL_Some(2)[OF ret] u(1) by simp
  moreover have "mintCount (Some marker) name \<le> loopLimit" using n cnt by simp
  ultimately show ?thesis
    using a name au g host row cnt by blast
qed

lemma appReturnURL_db: "sv_db (fst (appReturnURL parse_url cf s a target)) = sv_db s"
  by (auto simp: appReturnURL_def appNameFromCustomDomain_def reloadDomains_def Let_def split: option.splits if_splits prod.splits)


text \<open>Deleting an app does not forget its custom domains. The registry has no row of the domain any more, but the cache that control's front door and
  the return-URL check read is only rebuilt by the domain handlers and by a rename; until one of them runs, the deleted app's domain still counts as a
  hostname of whatever app takes that name next, and a grant for the new app may be sent there.\<close>

lemma deleted_domain_still_trusted:
  assumes "db_unique (sv_db s)" and "row \<in> set (app_domain_tbl (sv_db s))" and "d_Status row = DomainActive"
    and "a \<in> set (app_tbl (sv_db s))" and "d_app_id row = a_ID a" and "cache_ok s" and "sv_domainCache s \<noteq> None" and "a_ID a \<noteq> ''''"
  shows "\<exists>m'. DeleteApp (sv_m s) (a_Name a) = Inr m'
     \<and> (\<forall>x \<in> set (app_domain_tbl (mg_db m')). d_Domain x \<noteq> d_Domain row)
     \<and> (\<forall>b parse_url cf target u. a_Name b = a_Name a \<and> parse_url target = Some u \<and> pu_IsAbs u \<and> pu_Scheme u = scheme cf \<and> pu_Host u \<noteq> ''''
          \<and> hostOnly (pu_Host u) = d_Domain row
          \<longrightarrow> snd (appReturnURL parse_url cf (s\<lparr>sv_m := m'\<rparr>) b target) = Some u)"
proof -
  have name: "app_name_of_id (sv_db s) (d_app_id row) (d_AppName row) = a_Name a"
    using find_by_id[OF assms(1,8), of a] assms(4,5) by (simp add: app_name_of_id_def)
  have c: "active_cache (sv_db s) (d_Domain row) = Some (a_Name a)"
    using active_cache_Some[OF assms(1)] assms(2,3) name by blast
  obtain cache where cache: "sv_domainCache s = Some cache" "cache (d_Domain row) = Some (a_Name a)"
    using c assms(6,7) by (auto simp: cache_ok_def)
  have sa: "Store_App (sv_db s) (a_Name a) = Inr a" using assms(1,4) by (simp add: Store_App_Inr)
  obtain m' where m': "DeleteApp (sv_m s) (a_Name a) = Inr m'"
    "app_domain_tbl (mg_db m') = tbl_delete (\<lambda>r. app_row_sel (a_ID a) (a_Name a) (d_app_id r) (d_AppName r)) (app_domain_tbl (sv_db s))"
    using sa RemoveApp_tables[OF sa] by (simp add: DeleteApp_def delete_remove_def delete_reserve_def Let_def)
  have "d_Domain x \<noteq> d_Domain row" if "x \<in> set (app_domain_tbl (mg_db m'))" for x
    using that distinct_key_eq[OF domain_key[OF assms(1)] _ assms(2), of x] assms(5) by (auto simp: m'(2) tbl_delete_def app_row_sel_def)
  then show ?thesis using m'(1) cache
    by (auto simp: appReturnURL_def appNameFromCustomDomain_def Let_def)
qed

section \<open>A server with one custom domain\<close>

definition sample_domain :: domain_row where
  "sample_domain = \<lparr>d_Domain = ''blog.com'', d_AppName = ''blog'', d_Status = DomainActive, d_LastError = '''', d_CreatedAt = Some 0,
     d_ActiveAt = Some 0, d_app_id = ''app_1''\<rparr>"

definition domain_db :: db where "domain_db = solo_db\<lparr>app_domain_tbl := [sample_domain]\<rparr>"

definition domain_server :: dserver where
  "domain_server = \<lparr>sv_m = \<lparr>mg_db = domain_db, mg_nextPort = 0, mg_reserved = {}, mg_limits = Map.empty\<rparr>,
     sv_domainCache = Some (active_cache domain_db), sv_issuing = {}\<rparr>"

definition sample_cert_env :: cert_env where
  "sample_cert_env = \<lparr>ct_magic = True, ct_cname = (\<lambda>_. None), ct_order = (\<lambda>_. None)\<rparr>"

definition browser_request :: request where
  "browser_request = \<lparr>rq_peer = None, rq_method = ''GET'', rq_host = ''example.org'', rq_path = ''/auth/app'', rq_tls = True,
     rq_header = (\<lambda>_. ''''), rq_cookies = [(''__Host-hostit_session'', ''usr_1|9|m'')]\<rparr>"

definition sample_url :: parsed_url where
  "sample_url = \<lparr>pu_IsAbs = True, pu_Scheme = ''https'', pu_Host = ''blog.com'', pu_Path = ''/'', pu_RequestURI = ''/''\<rparr>"

lemma domain_db_unique: "db_unique domain_db"
  by (simp add: db_unique_def domain_db_def solo_db_def empty_db_def tbl_unique_def)

lemma domain_server_simps [simp]:
  "sv_db domain_server = domain_db" "sv_issuing domain_server = {}" "cache_ok domain_server" "sv_domainCache domain_server \<noteq> None"
  "app_domain_tbl domain_db = [sample_domain]" "app_tbl domain_db = [plain_app\<lparr>a_Private := True\<rparr>]" "user_tbl domain_db = [plain_user]"
  by (simp_all add: domain_server_def cache_ok_def domain_db_def solo_db_def)

lemma sample_domain_simps [simp]:
  "d_Domain sample_domain = ''blog.com''" "d_Status sample_domain = DomainActive" "d_app_id sample_domain = ''app_1''"
  by (simp_all add: sample_domain_def)

lemma issueDomainCert_outcome_witness:
  "snd (appNameFromCustomDomain domain_server ''blog.com'') \<noteq> None
   \<and> snd (appNameFromCustomDomain (issueDomainCert bare_config sample_cert_env 0 domain_server ''blog.com'') ''blog.com'') = None"
proof -
  have "WildcardTLS bare_config" "\<not> delegationReady bare_config sample_cert_env ''blog.com''" "DomainPending \<noteq> DomainActive"
    by (simp_all add: WildcardTLS_def bare_config_def delegationReady_def sample_cert_env_def)
  then have "snd (appNameFromCustomDomain (issueDomainCert bare_config sample_cert_env 0 domain_server ''blog.com'') ''blog.com'') = None"
    using issueDomainCert_outcome[of domain_server sample_domain sample_cert_env bare_config 0] domain_db_unique
    by (simp add: Let_def sample_cert_env_def)
  moreover have "active_cache domain_db ''blog.com'' \<noteq> None"
    using active_cache_Some[OF domain_db_unique, of "''blog.com''"] by auto
  ultimately show ?thesis using cache_ok_lookup[of domain_server "''blog.com''"] by simp
qed

lemma domain_db_cached: "active_cache domain_db ''blog.com'' = Some ''blog''"
  using active_cache_Some[OF domain_db_unique, of "''blog.com''" "''blog''"] by (simp add: app_name_of_id_def plain_app_def)

lemma sample_deliver:
  "\<exists>s' grant marker. handleAppAccess (\<lambda>s. s) (\<lambda>_. ''m'') (Sign tally_enc rev 3600000000000 0) (\<lambda>_. Some sample_url) bare_config 0 domain_server
     browser_request ''blog'' ''t'' = (s', Deliver ''https'' ''blog.com'' grant ''/'' marker)"
proof -
  have a: "Store_App domain_db ''blog'' = Inr (plain_app\<lparr>a_Private := True\<rparr>)" by (simp add: Store_App_def plain_app_def)
  have "session_decode (\<lambda>_. ''m'') 0 ''usr_1|9|m'' = Inr ''usr_1''"
    by (simp add: session_decode_def parse_int_def is_digit_def digits_val_def fits64_def is_after_def)
  moreover have "Store_User domain_db ''usr_1'' = Inr plain_user" by (simp add: Store_User_def plain_user_def)
  ultimately have au: "authenticate (\<lambda>s. s) (\<lambda>_. ''m'') bare_config 0 domain_db browser_request =
      (domain_db, Inr \<lparr>cl_user = Some plain_user, cl_globalAdmin = False, cl_appScope = '''', cl_viaCookie = True\<rparr>)"
    by (simp add: authenticate_def browser_request_def bare_config_def cookieName_def get_cookie_def TrimPrefix_def HasPrefix_def)
  have sel: "a_Name plain_app = ''blog''" "pu_Scheme sample_url = ''https''" "pu_Host sample_url = ''blog.com''" "pu_RequestURI sample_url = ''/''"
    "userID \<lparr>cl_user = Some plain_user, cl_globalAdmin = False, cl_appScope = '''', cl_viaCookie = True\<rparr> = ''usr_1''"
    by (simp_all add: plain_app_def sample_url_def userID_def plain_user_def)
  have v: "mayViewApp domain_db \<lparr>cl_user = Some plain_user, cl_globalAdmin = False, cl_appScope = '''', cl_viaCookie = True\<rparr> (plain_app\<lparr>a_Private := True\<rparr>)"
    by (simp add: mayViewApp_def isActive_def plain_user_def plain_app_def)
  have "set_db domain_db domain_server = domain_server" by (simp add: domain_server_def)
  moreover have "hostOnly ''blog.com'' = ''blog.com''" by (simp add: hostOnly_def SplitHostPort_def)
  moreover have "sv_domainCache domain_server = Some (active_cache domain_db)" by (simp add: domain_server_def)
  ultimately have ret: "appReturnURL (\<lambda>_. Some sample_url) bare_config (set_db domain_db domain_server) (plain_app\<lparr>a_Private := True\<rparr>) ''t''
      = (domain_server, Some sample_url)"
    by (simp add: appReturnURL_def sample_url_def scheme_def bare_config_def appNameFromCustomDomain_def domain_db_cached plain_app_def)
  have m: "mintCount (get_cookie browser_request (cookieName bare_config ''hostit_minting'')) ''blog'' = 0"
    by (simp add: mintCount_def get_cookie_def browser_request_def cookieName_def bare_config_def)
  obtain grant where "Sign tally_enc rev 3600000000000 0 ''blog'' ''usr_1'' = Inr grant" by (simp add: Sign_def Let_def)
  then show ?thesis
    unfolding handleAppAccess_def using m by (simp add: a au v ret sel loopLimit_def)
qed

theorem grant_delivered_to_own_host_witness:
  "\<exists>s' grant marker. handleAppAccess (\<lambda>s. s) (\<lambda>_. ''m'') (Sign tally_enc rev 3600000000000 0) (\<lambda>_. Some sample_url) bare_config 0 domain_server
     browser_request ''blog'' ''t'' = (s', Deliver ''https'' ''blog.com'' grant ''/'' marker) \<and> mintCount (Some marker) ''blog'' \<le> 3"
proof -
  from sample_deliver obtain s' grant marker where
    "handleAppAccess (\<lambda>s. s) (\<lambda>_. ''m'') (Sign tally_enc rev 3600000000000 0) (\<lambda>_. Some sample_url) bare_config 0 domain_server
       browser_request ''blog'' ''t'' = (s', Deliver ''https'' ''blog.com'' grant ''/'' marker)" by blast
  moreover from grant_delivered_to_own_host[OF this] have "mintCount (Some marker) ''blog'' \<le> loopLimit" using domain_db_unique by auto
  ultimately show ?thesis unfolding loopLimit_def by blast
qed


lemma deleted_domain_still_trusted_witness:
  "\<exists>m'. DeleteApp (sv_m domain_server) ''blog'' = Inr m'
     \<and> (\<forall>x \<in> set (app_domain_tbl (mg_db m')). d_Domain x \<noteq> ''blog.com'')
     \<and> snd (appReturnURL (\<lambda>_. Some sample_url) bare_config (domain_server\<lparr>sv_m := m'\<rparr>) plain_app ''t'') = Some sample_url"
proof -
  have sel: "a_Name plain_app = ''blog''" "a_ID plain_app = ''app_1''" "pu_IsAbs sample_url" "pu_Scheme sample_url = scheme bare_config"
    "pu_Host sample_url = ''blog.com''" "hostOnly ''blog.com'' = ''blog.com''"
    by (simp_all add: plain_app_def sample_url_def scheme_def bare_config_def hostOnly_def SplitHostPort_def)
  show ?thesis
    using deleted_domain_still_trusted[of domain_server sample_domain "plain_app\<lparr>a_Private := True\<rparr>"] domain_db_unique sel by force
qed

end
