(* ===== verification/App_Config.thy ===== *)
theory App_Config
  imports Prelude
begin

text \<open>The tenant's \<open>hostit.yml\<close> (\<open>src/app/config.go\<close>, \<open>src/app/snapshotwrite.go\<close>, \<open>src/app/types.go\<close>): the record, its
  validation, the command the in-container agent runs, the snapshot interval with Go's \<open>time.ParseDuration\<close>, and the
  line surgery that writes a description or the \<open>snapshot:\<close> block back into a document somebody else wrote. The YAML decoder is
  third-party code and an argument (\<open>yaml\<close>) of the two parsers.

  The lemmas show that the surgery edits one block and nothing else, that each key is
  found again with the value written, and where that is not enough: a hook written as a YAML block scalar.\<close>

section \<open>The document\<close>

record SnapshotHooks =
  sh_Pre :: string
  sh_Post :: string
  sh_Interval :: string

record Config =
  hc_Description :: string
  hc_Prepare :: string
  hc_Mode :: string
  hc_Run :: string
  hc_Env :: "(string \<times> string) list"
  hc_Snapshot :: SnapshotHooks

definition ModeApp :: string where "ModeApp = ''app''"
definition ModeStatic :: string where "ModeStatic = ''static''"

text \<open>The values the agent writes to \<open>log/state\<close> and the daemon reads back.\<close>

definition StateRunning :: string where "StateRunning = ''running''"
definition StateStopped :: string where "StateStopped = ''stopped''"
definition StateCrashed :: string where "StateCrashed = ''crashed''"
definition StateFailed :: string where "StateFailed = ''failed''"
definition StateIdle :: string where "StateIdle = ''idle''"

lemmas state_names = StateRunning_def StateStopped_def StateCrashed_def StateFailed_def StateIdle_def

datatype config_error = ErrNoModeConfigured | ErrUnknownMode | ErrNoRunCommand | ErrRunWithoutApp | ErrBadSnapshotInterval
  | ErrYaml

section \<open>Durations\<close>

text \<open>\<open>time.ParseDuration\<close>, in nanoseconds. \<open>leadingInt\<close> refuses a value over \<open>2^63\<close>; \<open>leadingFraction\<close>
  stops accumulating instead. The contribution of a fraction goes through \<open>float64\<close>; \<open>frac f unit scale\<close>
  is that product, truncated.\<close>

fun leadingInt :: "nat \<Rightarrow> string \<Rightarrow> (nat \<times> string) option" where
  "leadingInt v [] = Some (v, [])"
| "leadingInt v (c # s) =
     (if \<not> is_digit c then Some (v, c # s)
      else if v > 2 ^ 63 div 10 then None
      else let v' = v * 10 + (of_char c - 48) in if v' > 2 ^ 63 then None else leadingInt v' s)"

fun leadingFraction :: "bool \<Rightarrow> nat \<Rightarrow> nat \<Rightarrow> string \<Rightarrow> nat \<times> nat \<times> string" where
  "leadingFraction ov f scale [] = (f, scale, [])"
| "leadingFraction ov f scale (c # s) =
     (if \<not> is_digit c then (f, scale, c # s)
      else if ov \<or> f > (2 ^ 63 - 1) div 10 then leadingFraction True f scale s
      else let y = f * 10 + (of_char c - 48)
           in if y > 2 ^ 63 then leadingFraction True f scale s else leadingFraction False y (scale * 10) s)"

definition unitMap :: "string \<Rightarrow> nat option" where
  "unitMap u = map_of [(''ns'', 1), (''us'', 1000), ([CHR 0xC2, CHR 0xB5, CHR ''s''], 1000), ([CHR 0xCE, CHR 0xBC, CHR ''s''], 1000),
     (''ms'', 1000000), (''s'', 1000000000), (''m'', 60000000000), (''h'', 3600000000000)] u"

definition is_unit_char :: "char \<Rightarrow> bool" where
  "is_unit_char c = (c \<noteq> CHR ''.'' \<and> \<not> is_digit c)"

text \<open>One round of the loop: a number, its fraction, its unit; the value and the rest of the string.\<close>

definition duration_item :: "(nat \<Rightarrow> nat \<Rightarrow> nat \<Rightarrow> nat) \<Rightarrow> string \<Rightarrow> (nat \<times> string) option" where
  "duration_item frac s =
     (if s = [] \<or> is_unit_char (hd s) then None
      else case leadingInt 0 s of None \<Rightarrow> None
      | Some (v, s1) \<Rightarrow>
          let pre = (length s \<noteq> length s1);
              dot = (s1 \<noteq> [] \<and> hd s1 = CHR ''.'');
              (f, scale, s2) = (if dot then leadingFraction False 0 1 (tl s1) else (0, 1, s1));
              post = (dot \<and> length (tl s1) \<noteq> length s2);
              u = takeWhile is_unit_char s2
          in if \<not> pre \<and> \<not> post \<or> u = [] then None
             else case unitMap u of None \<Rightarrow> None
             | Some unit \<Rightarrow>
                 if v > 2 ^ 63 div unit then None
                 else let w = v * unit + (if f > 0 then frac f unit scale else 0)
                      in if f > 0 \<and> w > 2 ^ 63 then None else Some (w, dropWhile is_unit_char s2))"

function duration_items :: "(nat \<Rightarrow> nat \<Rightarrow> nat \<Rightarrow> nat) \<Rightarrow> nat \<Rightarrow> string \<Rightarrow> nat option" where
  "duration_items frac d s =
     (if s = [] then Some d
      else case duration_item frac s of None \<Rightarrow> None
      | Some (v, s') \<Rightarrow> if d + v > 2 ^ 63 then None else if length s' < length s then duration_items frac (d + v) s' else None)"
  by pat_completeness auto
termination by (relation "measure (\<lambda>(_, _, s). length s)") auto

declare duration_items.simps [simp del]

definition ParseDuration :: "(nat \<Rightarrow> nat \<Rightarrow> nat \<Rightarrow> nat) \<Rightarrow> string \<Rightarrow> int option" where
  "ParseDuration frac s0 =
     (let signed = (s0 \<noteq> [] \<and> hd s0 \<in> {CHR ''-'', CHR ''+''});
          neg = (s0 \<noteq> [] \<and> hd s0 = CHR ''-'');
          s = (if signed then tl s0 else s0)
      in if s = ''0'' then Some 0 else if s = [] then None
         else case duration_items frac 0 s of None \<Rightarrow> None
         | Some d \<Rightarrow> if neg then Some (- int d) else if d > 2 ^ 63 - 1 then None else Some (int d))"

definition DefaultSnapshotInterval :: int where "DefaultSnapshotInterval = 3 * 3600000000000"

definition SnapshotInterval :: "(nat \<Rightarrow> nat \<Rightarrow> nat \<Rightarrow> nat) \<Rightarrow> Config \<Rightarrow> config_error + int" where
  "SnapshotInterval frac c =
     (let raw = TrimSpace (sh_Interval (hc_Snapshot c))
      in if raw = [] then Inr DefaultSnapshotInterval
         else case ParseDuration frac raw of
           None \<Rightarrow> if raw = ''0'' then Inr 0 else Inl ErrBadSnapshotInterval
         | Some d \<Rightarrow> if d < 0 then Inl ErrBadSnapshotInterval else Inr d)"

section \<open>Validation and the command\<close>

definition Validate :: "(nat \<Rightarrow> nat \<Rightarrow> nat \<Rightarrow> nat) \<Rightarrow> Config \<Rightarrow> config_error + unit" where
  "Validate frac c =
     (let mode_err = (if hc_Mode c = [] then Some ErrNoModeConfigured
                      else if hc_Mode c = ModeStatic then (if hc_Run c \<noteq> [] then Some ErrRunWithoutApp else None)
                      else if hc_Mode c = ModeApp then (if hc_Run c = [] then Some ErrNoRunCommand else None)
                      else Some ErrUnknownMode)
      in case mode_err of Some e \<Rightarrow> Inl e
         | None \<Rightarrow> (case SnapshotInterval frac c of Inl e \<Rightarrow> Inl e | Inr _ \<Rightarrow> Inr ()))"

definition Command :: "string \<Rightarrow> Config \<Rightarrow> string" where
  "Command hostitBin c = (if hc_Mode c = ModeStatic then hostitBin @ '' static'' else hc_Run c)"

text \<open>\<open>yaml strict b\<close> is the decoder's result: \<open>None\<close> where it reports an error. An empty document decodes to the zero record
  in both modes.\<close>

definition ParseConfig :: "(bool \<Rightarrow> string \<Rightarrow> Config option) \<Rightarrow> string \<Rightarrow> Config option" where
  "ParseConfig yaml b = yaml False b"

definition ParseConfigStrict :: "(bool \<Rightarrow> string \<Rightarrow> Config option) \<Rightarrow> string \<Rightarrow> Config option" where
  "ParseConfigStrict yaml b = yaml True b"

definition LoadConfig :: "(nat \<Rightarrow> nat \<Rightarrow> nat \<Rightarrow> nat) \<Rightarrow> (bool \<Rightarrow> string \<Rightarrow> Config option) \<Rightarrow> string \<Rightarrow> config_error + Config" where
  "LoadConfig frac yaml b =
     (case ParseConfigStrict yaml b of None \<Rightarrow> Inl ErrYaml
      | Some c \<Rightarrow> (case Validate frac c of Inl e \<Rightarrow> Inl e | Inr _ \<Rightarrow> Inr c))"

section \<open>Writing into a document\<close>

abbreviation nl :: char where "nl \<equiv> CHR 0x0A"

fun ReplaceChar :: "char \<Rightarrow> string \<Rightarrow> string \<Rightarrow> string" where
  "ReplaceChar c r [] = []"
| "ReplaceChar c r (x # xs) = (if x = c then r else [x]) @ ReplaceChar c r xs"

definition yamlQuote :: "string \<Rightarrow> string" where
  "yamlQuote s =
     (let s1 = ReplaceChar (CHR 0x5C) [CHR 0x5C, CHR 0x5C] s;
          s2 = ReplaceChar (CHR 0x22) [CHR 0x5C, CHR 0x22] s1
      in CHR 0x22 # s2 @ [CHR 0x22])"

definition key_line :: "string \<Rightarrow> string \<Rightarrow> bool" where
  "key_line key l = HasPrefix (TrimSpace l) key"

fun replace_first :: "('a \<Rightarrow> bool) \<Rightarrow> 'a \<Rightarrow> 'a list \<Rightarrow> 'a list option" where
  "replace_first P y [] = None"
| "replace_first P y (x # xs) = (if P x then Some (y # xs) else map_option ((#) x) (replace_first P y xs))"

definition SetDescription :: "string \<Rightarrow> string \<Rightarrow> string" where
  "SetDescription content desc =
     (let line = ''description: '' @ yamlQuote desc
      in case replace_first (key_line ''description:'') line (split_on nl content) of
           Some ls \<Rightarrow> join_with nl ls
         | None \<Rightarrow> if TrimSpace content = [] then line @ [nl] else line @ nl # content)"

subsection \<open>The snapshot block\<close>

definition snapshotKey :: string where "snapshotKey = ''snapshot:''"

fun is_infix :: "string \<Rightarrow> string \<Rightarrow> bool" where
  "is_infix p [] = (p = [])"
| "is_infix p (x # xs) = (HasPrefix (x # xs) p \<or> is_infix p xs)"

definition yamlScalar :: "string \<Rightarrow> string" where
  "yamlScalar s =
     (if s = [] then [CHR 0x22, CHR 0x22]
      else if hd s \<in> set (''-?:,[]{}#&*!|>'' @ [CHR 0x27, CHR 0x22] @ ''%@'' @ [CHR 0x60])
        \<or> is_infix '': '' s \<or> is_infix '' #'' s \<or> TrimSpace s \<noteq> s
      then yamlQuote s else s)"

definition block_header :: "string \<Rightarrow> bool" where
  "block_header l = (HasPrefix (TrimSpace l) snapshotKey \<and> \<not> HasPrefix l '' '')"

definition blank :: "string \<Rightarrow> bool" where
  "blank l = (TrimSpace l = [])"

definition in_block :: "string \<Rightarrow> bool" where
  "in_block l = (blank l \<or> HasPrefix l '' '' \<or> HasPrefix l [CHR 0x09])"

text \<open>The index of the header and of the first line after the block: the block runs to the next line that starts
  in column zero, less the blank lines at its end.\<close>

fun find_index :: "('a \<Rightarrow> bool) \<Rightarrow> 'a list \<Rightarrow> nat option" where
  "find_index P [] = None"
| "find_index P (x # xs) = (if P x then Some 0 else map_option Suc (find_index P xs))"

definition block_lines :: "string list \<Rightarrow> string list" where
  "block_lines ls = rev (dropWhile blank (rev (takeWhile in_block ls)))"

definition snapshotBlock :: "string list \<Rightarrow> (nat \<times> nat) option" where
  "snapshotBlock lines =
     (case find_index block_header lines of None \<Rightarrow> None
      | Some start \<Rightarrow> Some (start, start + 1 + length (block_lines (drop (start + 1) lines))))"

fun setBlockKey :: "string list \<Rightarrow> string \<Rightarrow> string \<Rightarrow> string list" where
  "setBlockKey [] key value = (if value = [] then [] else [''  '' @ key @ '': '' @ yamlScalar value])"
| "setBlockKey (l # ls) key value =
     (if key_line (key @ '':'') l
      then (if value = [] then ls else (''  '' @ key @ '': '' @ yamlScalar value) # ls)
      else l # setBlockKey ls key value)"

definition nonBlank :: "string list \<Rightarrow> string list" where
  "nonBlank lines = filter (\<lambda>l. \<not> blank l) lines"

definition TrimRight :: "char \<Rightarrow> string \<Rightarrow> string" where
  "TrimRight c s = rev (dropWhile (\<lambda>x. x = c) (rev s))"

definition set_fields :: "SnapshotHooks \<Rightarrow> string list \<Rightarrow> string list" where
  "set_fields hooks block =
     setBlockKey (setBlockKey (setBlockKey block ''interval'' (sh_Interval hooks)) ''pre'' (sh_Pre hooks)) ''post'' (sh_Post hooks)"

definition SetSnapshotConfig :: "string \<Rightarrow> SnapshotHooks \<Rightarrow> string" where
  "SetSnapshotConfig content hooks =
     (let lines = split_on nl content
      in case snapshotBlock lines of
        None \<Rightarrow>
          (let block = set_fields hooks []
           in if nonBlank block = [] then content
              else let trimmed = TrimRight nl content; rebuilt = snapshotKey # block
                   in if trimmed = [] then join_with nl rebuilt @ [nl] else trimmed @ nl # join_with nl rebuilt @ [nl])
      | Some (start, end_) \<Rightarrow>
          (let block = set_fields hooks (take (end_ - (start + 1)) (drop (start + 1) lines))
           in if nonBlank block = [] then join_with nl (take start lines @ drop end_ lines)
              else join_with nl (take start lines @ (snapshotKey # block) @ drop end_ lines)))"

section \<open>Durations and validation\<close>

lemma ParseDuration_zero: "ParseDuration frac ''0'' = Some 0"
  by (simp add: ParseDuration_def)

text \<open>The special case for a bare \<open>0\<close> in \<open>SnapshotInterval\<close> is never taken: \<open>time.ParseDuration\<close> accepts it itself.\<close>

lemma SnapshotInterval_plain:
  "SnapshotInterval frac c =
     (let raw = TrimSpace (sh_Interval (hc_Snapshot c))
      in if raw = [] then Inr DefaultSnapshotInterval
         else case ParseDuration frac raw of None \<Rightarrow> Inl ErrBadSnapshotInterval
         | Some d \<Rightarrow> if d < 0 then Inl ErrBadSnapshotInterval else Inr d)"
  by (auto simp: SnapshotInterval_def Let_def ParseDuration_zero split: option.splits)

lemma ParseDuration_bound: "ParseDuration frac s = Some d \<Longrightarrow> d < 2 ^ 63"
  by (auto simp: ParseDuration_def Let_def split: option.splits if_splits)

lemma SnapshotInterval_bounds: "SnapshotInterval frac c = Inr d \<Longrightarrow> 0 \<le> d \<and> d < 2 ^ 63"
  by (auto simp: SnapshotInterval_plain Let_def DefaultSnapshotInterval_def dest: ParseDuration_bound
      split: option.splits if_splits)

text \<open>A document that a deploy accepts is one the agent runs: \<open>Command\<close> is empty for no validated configuration.\<close>

lemma LoadConfig_runs:
  "LoadConfig frac yaml b = Inr c \<Longrightarrow> yaml True b = Some c \<and> Command bin c \<noteq> [] \<and> isl (SnapshotInterval frac c) = False"
  by (auto simp: LoadConfig_def ParseConfigStrict_def Validate_def Command_def Let_def
      split: option.splits sum.splits if_splits)

section \<open>The surgery edits its block only\<close>

definition hook_keys :: "string list" where
  "hook_keys = [''interval'', ''pre'', ''post'']"

definition hook_fields :: "SnapshotHooks \<Rightarrow> (string \<times> string) list" where
  "hook_fields h = [(''interval'', sh_Interval h), (''pre'', sh_Pre h), (''post'', sh_Post h)]"

definition other_line :: "string \<Rightarrow> bool" where
  "other_line l = (\<forall>k \<in> set hook_keys. \<not> key_line (k @ '':'') l)"

definition field_line :: "string \<Rightarrow> string \<Rightarrow> string" where
  "field_line k v = ''  '' @ k @ '': '' @ yamlScalar v"

definition key_count :: "string \<Rightarrow> string list \<Rightarrow> nat" where
  "key_count k ls = length (filter (key_line (k @ '':'')) ls)"

lemma TrimSpace_keeps_prefix:
  assumes "p \<noteq> []" and "\<not> is_space (hd p)" and "\<not> is_space (last p)"
  shows "HasPrefix (TrimSpace ('' '' @ '' '' @ p @ y)) p"
proof -
  have "dropWhile is_space ('' '' @ '' '' @ p @ y) = p @ y"
    using assms(1,2) by (cases p) (auto simp: is_space_def)
  moreover have "dropWhile is_space (rev p) = rev p"
    using assms(1,3) by (cases "rev p") (auto simp: hd_rev[symmetric] simp del: hd_rev)
  ultimately show ?thesis
    by (auto simp: TrimSpace_def dropWhile_append HasPrefix_def)
qed

lemma field_line_key: "k \<in> set hook_keys \<Longrightarrow> key_line (k @ '':'') (field_line k v)"
  using TrimSpace_keeps_prefix[of "k @ '':''" "'' '' @ yamlScalar v"]
  by (auto simp: key_line_def field_line_def hook_keys_def is_space_def)

lemma key_line_unique:
  "key_line (j @ '':'') l \<Longrightarrow> key_line (k @ '':'') l \<Longrightarrow> j \<in> set hook_keys \<Longrightarrow> k \<in> set hook_keys \<Longrightarrow> j = k"
  by (auto simp: key_line_def HasPrefix_iff hook_keys_def)

lemma setBlockKey_step:
  "setBlockKey (l # ls) k v = (if key_line (k @ '':'') l then (if v = [] then ls else field_line k v # ls) else l # setBlockKey ls k v)"
  "setBlockKey [] k v = (if v = [] then [] else [field_line k v])"
  by (simp_all add: field_line_def)

declare setBlockKey.simps [simp del]

lemma setBlockKey_others:
  "k \<in> set hook_keys \<Longrightarrow> filter other_line (setBlockKey ls k v) = filter other_line ls"
  by (induction ls) (auto simp: setBlockKey_step other_line_def dest: field_line_key)

lemma setBlockKey_finds:
  "k \<in> set hook_keys \<Longrightarrow> v \<noteq> [] \<Longrightarrow> List.find (key_line (k @ '':'')) (setBlockKey ls k v) = Some (field_line k v)"
  by (induction ls) (auto simp: setBlockKey_step field_line_key)

lemma setBlockKey_finds_other:
  assumes "j \<in> set hook_keys" "k \<in> set hook_keys" "j \<noteq> k"
  shows "List.find (key_line (j @ '':'')) (setBlockKey ls k v) = List.find (key_line (j @ '':'')) ls"
  using assms by (induction ls) (auto simp: setBlockKey_step dest: key_line_unique field_line_key)

lemma setBlockKey_removes: "key_count k (setBlockKey ls k []) = key_count k ls - 1"
  by (induction ls) (auto simp: setBlockKey_step key_count_def)

lemma setBlockKey_count_other:
  assumes "j \<in> set hook_keys" "k \<in> set hook_keys" "j \<noteq> k"
  shows "key_count j (setBlockKey ls k v) = key_count j ls"
  using assms by (induction ls) (auto simp: setBlockKey_step key_count_def dest: key_line_unique field_line_key)

lemma hook_keys_facts:
  "''interval'' \<in> set hook_keys" "''pre'' \<in> set hook_keys" "''post'' \<in> set hook_keys"
  "''interval'' \<noteq> ''pre''" "''interval'' \<noteq> ''post''" "''pre'' \<noteq> ''interval''" "''pre'' \<noteq> ''post''" "''post'' \<noteq> ''interval''" "''post'' \<noteq> ''pre''"
  by (simp_all add: hook_keys_def)

lemma hook_fields_cases:
  assumes "(k, v) \<in> set (hook_fields h)"
  obtains "k = ''interval''" "v = sh_Interval h" | "k = ''pre''" "v = sh_Pre h" | "k = ''post''" "v = sh_Post h"
  using assms by (auto simp: hook_fields_def)

lemma set_fields_others: "filter other_line (set_fields h ls) = filter other_line ls"
  by (simp add: set_fields_def setBlockKey_others hook_keys_def)

lemma set_fields_finds:
  "(k, v) \<in> set (hook_fields h) \<Longrightarrow> v \<noteq> [] \<Longrightarrow> List.find (key_line (k @ '':'')) (set_fields h ls) = Some (field_line k v)"
  by (erule hook_fields_cases) (simp only: set_fields_def setBlockKey_finds setBlockKey_finds_other hook_keys_facts not_False_eq_True)+

lemma set_fields_removes:
  "(k, v) \<in> set (hook_fields h) \<Longrightarrow> v = [] \<Longrightarrow> key_count k (set_fields h ls) = key_count k ls - 1"
  by (erule hook_fields_cases) (simp only: set_fields_def setBlockKey_removes setBlockKey_count_other hook_keys_facts not_False_eq_True)+

text \<open>Writing the snapshot settings into a \<open>hostit.yml\<close> that has a \<open>snapshot:\<close> block rewrites that block and nothing else. The lines
  before and after it are the old ones, in order; of the block every line that is not one of the three settings is kept, in order; a
  setting with a value is read back as that value; a setting without one loses its line; and the
  whole block goes exactly when only blank lines would be left of it.\<close>

lemma SetSnapshotConfig_edits_block:
  assumes "snapshotBlock (split_on nl content) = Some (s, e)"
  shows "\<exists>block.
     SetSnapshotConfig content h =
       join_with nl (take s (split_on nl content) @ (if \<forall>l \<in> set block. blank l then [] else snapshotKey # block)
         @ drop e (split_on nl content)) \<and>
     filter other_line block = filter other_line (take (e - (s + 1)) (drop (s + 1) (split_on nl content))) \<and>
     (\<forall>(k, v) \<in> set (hook_fields h).
        if v = [] then key_count k block = key_count k (take (e - (s + 1)) (drop (s + 1) (split_on nl content))) - 1
        else List.find (key_line (k @ '':'')) block = Some (field_line k v))"
proof -
  let ?old = "take (e - (s + 1)) (drop (s + 1) (split_on nl content))"
  have "SetSnapshotConfig content h =
       join_with nl (take s (split_on nl content) @ (if \<forall>l \<in> set (set_fields h ?old). blank l then [] else snapshotKey # set_fields h ?old)
         @ drop e (split_on nl content))"
    using assms by (simp add: SetSnapshotConfig_def Let_def nonBlank_def filter_empty_conv)
  then show ?thesis
    using set_fields_others[of h ?old] set_fields_finds[of _ _ h ?old] set_fields_removes[of _ _ h ?old]
    by (intro exI[of _ "set_fields h ?old"]) auto
qed

lemma SetSnapshotConfig_edits_block_witness:
  "\<exists>block. SetSnapshotConfig (''mode: app'' @ nl # ''snapshot:'' @ nl # ''  interval: 1h'' @ nl # ''run: serve'')
       \<lparr>sh_Pre = ''sync'', sh_Post = [], sh_Interval = ''3h''\<rparr> =
     join_with nl ([''mode: app''] @ (if \<forall>l \<in> set block. blank l then [] else snapshotKey # block) @ [''run: serve'']) \<and>
     List.find (key_line ''pre:'') block = Some ''  pre: sync'' \<and> List.find (key_line ''interval:'') block = Some ''  interval: 3h''"
proof -
  let ?c = "''mode: app'' @ nl # ''snapshot:'' @ nl # ''  interval: 1h'' @ nl # ''run: serve''"
  let ?h = "\<lparr>sh_Pre = ''sync'', sh_Post = [], sh_Interval = ''3h''\<rparr>"
  have l: "split_on nl ?c = [''mode: app'', ''snapshot:'', ''  interval: 1h'', ''run: serve'']"
    by simp
  have s: "snapshotBlock (split_on nl ?c) = Some (1, 3)"
    unfolding l by (simp add: snapshotBlock_def block_header_def block_lines_def in_block_def blank_def snapshotKey_def
        HasPrefix_def TrimSpace_def is_space_def)
  have f: "field_line ''pre'' ''sync'' = ''  pre: sync''" "field_line ''interval'' ''3h'' = ''  interval: 3h''"
    by (simp_all add: field_line_def yamlScalar_def HasPrefix_def TrimSpace_def is_space_def)
  obtain block where "SetSnapshotConfig ?c ?h =
       join_with nl (take 1 (split_on nl ?c) @ (if \<forall>l \<in> set block. blank l then [] else snapshotKey # block) @ drop 3 (split_on nl ?c))"
    and "\<forall>(k, v) \<in> set (hook_fields ?h). if v = [] then key_count k block = key_count k (take (3 - (1 + 1)) (drop (1 + 1) (split_on nl ?c))) - 1
        else List.find (key_line (k @ '':'')) block = Some (field_line k v)"
    using SetSnapshotConfig_edits_block[OF s, of ?h] by blast
  then show ?thesis
    unfolding l by (intro exI[of _ block]) (simp add: hook_fields_def f)
qed

text \<open>A hook written as a YAML block scalar is cleared by half. For a document whose only setting is \<open>pre: |\<close> followed by indented
  lines, clearing the snapshot settings removes the line \<open>pre: |\<close> and leaves the indented lines under \<open>snapshot:\<close>, so
  what was the script of the hook is now the value of \<open>snapshot\<close> itself.\<close>

lemma block_scalar_hook_left_behind:
  assumes "ks \<noteq> []" and "\<forall>l \<in> set ks. HasPrefix l ''    '' \<and> \<not> blank l \<and> other_line l \<and> nl \<notin> set l"
  shows "SetSnapshotConfig (join_with nl (''snapshot:'' # ''  pre: |'' # ks)) \<lparr>sh_Pre = [], sh_Post = [], sh_Interval = []\<rparr> =
     join_with nl (''snapshot:'' # ks)"
proof -
  let ?ls = "''snapshot:'' # ''  pre: |'' # ks"
  have inb: "in_block l" if "l \<in> set ks" for l
    using assms(2) that by (auto simp: in_block_def HasPrefix_iff)
  have tw: "takeWhile in_block ks = ks"
    using inb by (simp add: takeWhile_eq_all_conv)
  have "dropWhile blank (rev ks) = rev ks"
    using assms by (cases "rev ks") (auto dest: arg_cong[of _ _ set])
  then have dw: "dropWhile blank (rev ks @ [x]) = rev ks @ [x]" for x
    using assms by (auto simp: dropWhile_append)
  have l: "split_on nl (join_with nl ?ls) = ?ls"
    by (rule split_join) (use assms(2) in auto)
  have b: "snapshotBlock ?ls = Some (0, 2 + length ks)"
    by (simp add: snapshotBlock_def block_header_def block_lines_def snapshotKey_def HasPrefix_def TrimSpace_def is_space_def
        tw dw) (simp add: in_block_def HasPrefix_def)
  have keep: "setBlockKey ks k [] = ks" if "k \<in> set hook_keys" for k
    using assms(2) that by (induction ks) (auto simp: setBlockKey_step other_line_def)
  have f: "set_fields \<lparr>sh_Pre = [], sh_Post = [], sh_Interval = []\<rparr> (''  pre: |'' # ks) = ks"
    using keep by (simp add: set_fields_def setBlockKey_step key_line_def HasPrefix_def TrimSpace_def is_space_def hook_keys_def)
  show ?thesis
    unfolding SetSnapshotConfig_def Let_def l b
    using assms f by (auto simp: nonBlank_def filter_empty_conv snapshotKey_def)
qed

lemma block_scalar_hook_left_behind_witness:
  "SetSnapshotConfig (join_with nl [''snapshot:'', ''  pre: |'', ''    sqlite3 data/app.db .backup'']) \<lparr>sh_Pre = [], sh_Post = [], sh_Interval = []\<rparr> =
     join_with nl [''snapshot:'', ''    sqlite3 data/app.db .backup'']"
  using block_scalar_hook_left_behind[of "[''    sqlite3 data/app.db .backup'']"]
  by (simp add: HasPrefix_def blank_def other_line_def hook_keys_def key_line_def TrimSpace_def is_space_def)

end
