(* ===== verification/Agent_Supervisor.thy ===== *)
theory Agent_Supervisor
  imports App_Config
begin

text \<open>The supervisor that is process 1 of every workspace container (\<open>src/agent/service.go\<close>, \<open>src/agent/gobuildenv.go\<close>):
  the restart plan, the loop of \<open>Run\<close> as a state machine with one program point per place where it can be interrupted or blocks, the
  owner's signals (SIGHUP, SIGUSR1, SIGUSR2, SIGTERM) arriving between any two of its steps, the writer that stamps the app's
  output, the log file that rotates under it, the channel that carries reaped children, and the tuning of a build.

  The lemmas show that a stop or a start asked for by the owner is never lost, that the loop comes to rest after it, that a
  command that keeps crashing is started a bounded number of times, that the log keeps every complete line and its size is bounded,
  and where the loop departs from its comments.\<close>

section \<open>The restart plan\<close>

text \<open>Durations are nanoseconds.\<close>

definition second :: int where "second = 1000000000"
definition restartBackoffBase :: int where "restartBackoffBase = 2 * second"
definition restartBackoffMax :: int where "restartBackoffMax = 60 * second"
definition healthyRunTime :: int where "healthyRunTime = 30 * second"
definition crashLimit :: nat where "crashLimit = 5"

definition restartPlan :: "nat \<Rightarrow> int \<Rightarrow> nat \<times> int \<times> bool" where
  "restartPlan crashes ranFor =
     (if ranFor \<ge> healthyRunTime then (0, restartBackoffBase, False)
      else let crashes' = crashes + 1
           in if crashes' \<ge> crashLimit then (crashes', 0, True)
              else let delay = restartBackoffBase * 2 ^ (crashes' - 1)
                   in (crashes', (if delay > restartBackoffMax then restartBackoffMax else delay), False))"

section \<open>The loop\<close>

text \<open>The program points of \<open>Run\<close>. \<open>Waiting\<close> is a call of \<open>waitWake\<close>, told apart by which of its three callers made it;
  \<open>Sleeping\<close> is a call of \<open>sleepFor\<close>; \<open>Running\<close> is the \<open>select\<close> over the child's exit and the owner's channels.\<close>

datatype wait_reason = WPaused | WNoCommand | WGaveUp

datatype agent_pc =
    AtTop | AtLoad | AtPrepare Config | AtStart Config | Running Config
  | Waiting wait_reason | Sleeping int | Returned

text \<open>\<open>wake\<close> and \<open>reloads\<close> are channels of capacity one, \<open>stop\<close> is closed at most once; \<open>ag_call\<close> is the channel the signal handler
  still has to write to, between its store to \<open>paused\<close> and its send. \<open>ag_state\<close> is the content of \<open>log/state\<close>,
  \<open>ag_alive\<close> counts the commands that were started and not seen to end, \<open>ag_stuck\<close> those among them that the loop gave up waiting for after SIGKILL.\<close>

datatype owner_chan = ChWake | ChReload

record agent =
  ag_paused :: bool
  ag_wake :: bool
  ag_reloads :: bool
  ag_stop :: bool
  ag_call :: "owner_chan option"
  ag_crashes :: nat
  ag_restartDelay :: int
  ag_state :: string
  ag_alive :: nat
  ag_stuck :: nat
  ag_pc :: agent_pc

definition NewAgent :: "string \<Rightarrow> agent" where
  "NewAgent state = \<lparr>ag_paused = False, ag_wake = False, ag_reloads = False, ag_stop = False, ag_call = None, ag_crashes = 0,
     ag_restartDelay = restartBackoffBase, ag_state = state, ag_alive = 0, ag_stuck = 0, ag_pc = AtTop\<rparr>"

subsection \<open>Helpers of the loop\<close>

definition hostitBinFile :: string where "hostitBinFile = ''/usr/bin/hostit''"

definition loadConfig :: "(bool \<Rightarrow> string \<Rightarrow> Config option) \<Rightarrow> string option \<Rightarrow> Config option" where
  "loadConfig yaml file =
     (case file of None \<Rightarrow> None
      | Some b \<Rightarrow> (case ParseConfig yaml b of None \<Rightarrow> None
          | Some conf \<Rightarrow> if Command hostitBinFile conf = [] then None else Some conf))"

text \<open>\<open>wr\<close> says whether the directory and the file could be written; the caller never learns.\<close>

definition writeState :: "bool \<Rightarrow> string \<Rightarrow> agent \<Rightarrow> agent" where
  "writeState wr s a = (if wr then a\<lparr>ag_state := s\<rparr> else a)"

definition prepare :: "Config \<Rightarrow> bool \<Rightarrow> bool \<Rightarrow> bool" where
  "prepare conf logOk cmdOk = (if hc_Prepare conf = [] then True else if \<not> logOk then False else cmdOk)"

definition startChild :: "bool \<Rightarrow> bool \<Rightarrow> bool" where
  "startChild logOk startOk = (logOk \<and> startOk)"

text \<open>A receive from one of the owner's channels: \<open>None\<close> where nothing is there to receive. The second component is the
  result of \<open>waitWake\<close> and \<open>sleepFor\<close>: false only for \<open>stop\<close>.\<close>

datatype recv = RWake | RReload | RStop

definition receive :: "recv \<Rightarrow> agent \<Rightarrow> (agent \<times> bool) option" where
  "receive r a =
     (case r of
        RWake \<Rightarrow> if ag_wake a then Some (a\<lparr>ag_wake := False\<rparr>, True) else None
      | RReload \<Rightarrow> if ag_reloads a then Some (a\<lparr>ag_reloads := False\<rparr>, True) else None
      | RStop \<Rightarrow> if ag_stop a then Some (a, False) else None)"

text \<open>\<open>died\<close> says whether the exit was seen, after SIGTERM or after SIGKILL. Where it was not, the command is left behind and the loop goes on.\<close>

definition killAndWait :: "bool \<Rightarrow> agent \<Rightarrow> agent" where
  "killAndWait died a = (if died then a\<lparr>ag_alive := ag_alive a - 1\<rparr> else a\<lparr>ag_stuck := ag_stuck a + 1\<rparr>)"

subsection \<open>The segments of the loop\<close>

definition run_top :: "bool \<Rightarrow> agent \<Rightarrow> agent" where
  "run_top wr a = (if ag_paused a then (writeState wr StateStopped a)\<lparr>ag_pc := Waiting WPaused\<rparr> else a\<lparr>ag_pc := AtLoad\<rparr>)"

definition run_load :: "bool \<Rightarrow> Config option \<Rightarrow> agent \<Rightarrow> agent" where
  "run_load wr conf a =
     (case conf of None \<Rightarrow> (writeState wr StateIdle a)\<lparr>ag_pc := Waiting WNoCommand\<rparr> | Some c \<Rightarrow> a\<lparr>ag_pc := AtPrepare c\<rparr>)"

definition run_prepare :: "bool \<Rightarrow> Config \<Rightarrow> agent \<Rightarrow> agent" where
  "run_prepare ok c a = a\<lparr>ag_pc := (if ok then AtStart c else Sleeping (ag_restartDelay a))\<rparr>"

definition run_start :: "bool \<Rightarrow> bool \<Rightarrow> Config \<Rightarrow> agent \<Rightarrow> agent" where
  "run_start wr ok c a =
     (if ok then (writeState wr StateRunning a)\<lparr>ag_alive := ag_alive a + 1, ag_pc := Running c\<rparr> else a\<lparr>ag_pc := Sleeping (ag_restartDelay a)\<rparr>)"

definition run_exit :: "bool \<Rightarrow> int \<Rightarrow> agent \<Rightarrow> agent" where
  "run_exit wr ranFor a0 =
     (let (crashes, delay, giveUp) = restartPlan (ag_crashes a0) ranFor;
          a = a0\<lparr>ag_crashes := crashes, ag_alive := ag_alive a0 - 1\<rparr>
      in if giveUp then (writeState wr StateFailed a)\<lparr>ag_crashes := 0, ag_pc := Waiting WGaveUp\<rparr>
         else (writeState wr StateCrashed a)\<lparr>ag_pc := Sleeping delay\<rparr>)"

definition run_interrupt :: "bool \<Rightarrow> recv \<Rightarrow> agent \<Rightarrow> agent option" where
  "run_interrupt died r a =
     (case receive r a of None \<Rightarrow> None
      | Some (a', True) \<Rightarrow> Some ((killAndWait died (a'\<lparr>ag_crashes := 0\<rparr>))\<lparr>ag_pc := AtTop\<rparr>)
      | Some (a', False) \<Rightarrow> Some ((killAndWait died a')\<lparr>ag_pc := Returned\<rparr>))"

definition run_resume :: "recv \<Rightarrow> agent \<Rightarrow> agent option" where
  "run_resume r a =
     (case receive r a of None \<Rightarrow> None | Some (a', on) \<Rightarrow> Some (a'\<lparr>ag_pc := (if on then AtTop else Returned)\<rparr>))"

subsection \<open>The owner's signals\<close>

text \<open>\<open>Reload\<close>, \<open>Pause\<close> and \<open>Resume\<close> store to \<open>paused\<close> and then send without blocking; one goroutine handles the signals one
  after the other, so a signal is taken only when no send is outstanding.\<close>

datatype signal = SIGHUP | SIGUSR1 | SIGUSR2 | SIGTERM

definition Reload :: "agent \<Rightarrow> agent" where "Reload a = a\<lparr>ag_paused := False, ag_call := Some ChReload\<rparr>"
definition Pause :: "agent \<Rightarrow> agent" where "Pause a = a\<lparr>ag_paused := True, ag_call := Some ChWake\<rparr>"
definition Resume :: "agent \<Rightarrow> agent" where "Resume a = a\<lparr>ag_paused := False, ag_call := Some ChWake\<rparr>"
definition StopAgent :: "agent \<Rightarrow> agent" where "StopAgent a = a\<lparr>ag_stop := True\<rparr>"

definition wireSignals :: "signal \<Rightarrow> agent \<Rightarrow> agent" where
  "wireSignals s a = (case s of SIGHUP \<Rightarrow> Reload a | SIGUSR1 \<Rightarrow> Pause a | SIGUSR2 \<Rightarrow> Resume a | SIGTERM \<Rightarrow> StopAgent a)"

definition signalWake :: "owner_chan \<Rightarrow> agent \<Rightarrow> agent" where
  "signalWake c a = (case c of ChWake \<Rightarrow> a\<lparr>ag_wake := True, ag_call := None\<rparr> | ChReload \<Rightarrow> a\<lparr>ag_reloads := True, ag_call := None\<rparr>)"

subsection \<open>Steps\<close>

text \<open>What happens next, with what the outside contributes: whether files could be written, what \<open>hostit.yml\<close> holds, how the
  build and the start went, how long the command ran. A timer fires only while no channel is ready: a \<open>select\<close> that
  finds one ready on entry, or is woken by one, does not wait for the timer.\<close>

datatype agent_event =
    ETop bool | ELoad bool "string option" | EPrepare bool bool | EStart bool bool bool | EExit bool int
  | EInterrupt bool recv | EResume recv | ETimer | ESend | ESignal signal

definition ready :: "agent \<Rightarrow> bool" where
  "ready a = (ag_wake a \<or> ag_reloads a \<or> ag_stop a)"

fun agent_step :: "(bool \<Rightarrow> string \<Rightarrow> Config option) \<Rightarrow> agent_event \<Rightarrow> agent \<Rightarrow> agent option" where
  "agent_step yaml (ESignal s) a = (if ag_call a = None then Some (wireSignals s a) else None)"
| "agent_step yaml ESend a = (case ag_call a of None \<Rightarrow> None | Some c \<Rightarrow> Some (signalWake c a))"
| "agent_step yaml (ETop wr) a = (if ag_pc a = AtTop then Some (run_top wr a) else None)"
| "agent_step yaml (ELoad wr file) a = (if ag_pc a = AtLoad then Some (run_load wr (loadConfig yaml file) a) else None)"
| "agent_step yaml (EPrepare logOk cmdOk) a =
     (case ag_pc a of AtPrepare c \<Rightarrow> Some (run_prepare (prepare c logOk cmdOk) c a) | _ \<Rightarrow> None)"
| "agent_step yaml (EStart wr logOk startOk) a =
     (case ag_pc a of AtStart c \<Rightarrow> Some (run_start wr (startChild logOk startOk) c a) | _ \<Rightarrow> None)"
| "agent_step yaml (EExit wr ranFor) a = (case ag_pc a of Running c \<Rightarrow> Some (run_exit wr ranFor a) | _ \<Rightarrow> None)"
| "agent_step yaml (EInterrupt died r) a = (case ag_pc a of Running c \<Rightarrow> run_interrupt died r a | _ \<Rightarrow> None)"
| "agent_step yaml (EResume r) a =
     (case ag_pc a of Waiting w \<Rightarrow> run_resume r a | Sleeping d \<Rightarrow> run_resume r a | _ \<Rightarrow> None)"
| "agent_step yaml ETimer a = (case ag_pc a of Sleeping d \<Rightarrow> if ready a then None else Some (a\<lparr>ag_pc := AtTop\<rparr>) | _ \<Rightarrow> None)"

fun agent_run :: "(bool \<Rightarrow> string \<Rightarrow> Config option) \<Rightarrow> agent_event list \<Rightarrow> agent \<Rightarrow> agent option" where
  "agent_run yaml [] a = Some a"
| "agent_run yaml (e # es) a = (case agent_step yaml e a of None \<Rightarrow> None | Some b \<Rightarrow> agent_run yaml es b)"

inductive agent_reach :: "(bool \<Rightarrow> string \<Rightarrow> Config option) \<Rightarrow> agent \<Rightarrow> bool" for yaml where
  start: "agent_reach yaml (NewAgent state)"
| step: "agent_reach yaml a \<Longrightarrow> agent_step yaml e a = Some b \<Longrightarrow> agent_reach yaml b"

inductive_cases agent_reachE: "agent_reach yaml a"

section \<open>Invariant of the loop\<close>

text \<open>Something of the owner's still has to be looked at.\<close>

definition pending :: "agent \<Rightarrow> bool" where
  "pending a = (ag_wake a \<or> ag_reloads a \<or> ag_call a \<noteq> None)"

fun past_check :: "agent_pc \<Rightarrow> bool" where
  "past_check AtTop = False"
| "past_check Returned = False"
| "past_check (Waiting WPaused) = False"
| "past_check _ = True"

definition agent_inv :: "agent \<Rightarrow> bool" where
  "agent_inv a =
     ((ag_paused a \<and> past_check (ag_pc a) \<longrightarrow> pending a) \<and>
      (\<not> ag_paused a \<and> ag_pc a = Waiting WPaused \<longrightarrow> pending a) \<and>
      ag_crashes a < crashLimit \<and>
      ag_alive a = ag_stuck a + of_bool (\<exists>c. ag_pc a = Running c) \<and>
      (\<forall>d. ag_pc a = Sleeping d \<longrightarrow> 2 * second \<le> d \<and> d \<le> 16 * second) \<and>
      ag_restartDelay a = restartBackoffBase)"

lemma past_check_iff: "past_check pc \<longleftrightarrow> pc \<noteq> AtTop \<and> pc \<noteq> Returned \<and> pc \<noteq> Waiting WPaused"
  by (cases pc rule: past_check.cases) auto

lemma restartPlan_bounds:
  assumes "crashes < crashLimit" and "restartPlan crashes ranFor = (n, d, False)"
  shows "n < crashLimit \<and> 2 * second \<le> d \<and> d \<le> 16 * second"
proof -
  have "crashes \<in> {0, 1, 2, 3, 4}"
    using assms(1) by (auto simp: crashLimit_def)
  then show ?thesis
    using assms(2)
    by (auto simp: restartPlan_def restartBackoffBase_def restartBackoffMax_def crashLimit_def second_def Let_def split: if_splits)
qed

lemmas agent_segments = run_top_def run_load_def run_prepare_def run_start_def run_interrupt_def run_resume_def receive_def
  killAndWait_def writeState_def wireSignals_def Reload_def Pause_def Resume_def StopAgent_def signalWake_def

lemma run_exit_inv:
  assumes "agent_inv a" and "ag_pc a = Running c"
  shows "agent_inv (run_exit wr r a)"
proof -
  obtain n d g where p: "restartPlan (ag_crashes a) r = (n, d, g)"
    by (cases "restartPlan (ag_crashes a) r") auto
  have lim: "g = False \<Longrightarrow> n < crashLimit \<and> 2 * second \<le> d \<and> d \<le> 16 * second"
    using restartPlan_bounds p assms(1) by (auto simp: agent_inv_def)
  show ?thesis
    using assms lim
    by (cases g) (auto simp: run_exit_def p agent_inv_def past_check_iff pending_def writeState_def crashLimit_def Let_def)
qed

text \<open>What a step does, by the segment it runs.\<close>

lemma agent_stepE:
  assumes "agent_step yaml e a = Some b"
  obtains (signal) s where "e = ESignal s" "ag_call a = None" "b = wireSignals s a"
  | (send) c where "e = ESend" "ag_call a = Some c" "b = signalWake c a"
  | (top) wr where "e = ETop wr" "ag_pc a = AtTop" "b = run_top wr a"
  | (load) wr f where "e = ELoad wr f" "ag_pc a = AtLoad" "b = run_load wr (loadConfig yaml f) a"
  | (prep) l k c where "e = EPrepare l k" "ag_pc a = AtPrepare c" "b = run_prepare (prepare c l k) c a"
  | (start) wr l k c where "e = EStart wr l k" "ag_pc a = AtStart c" "b = run_start wr (startChild l k) c a"
  | (exited) wr r c where "e = EExit wr r" "ag_pc a = Running c" "b = run_exit wr r a"
  | (interrupted) d r c where "e = EInterrupt d r" "ag_pc a = Running c" "run_interrupt d r a = Some b"
  | (waited) r w where "e = EResume r" "ag_pc a = Waiting w" "run_resume r a = Some b"
  | (slept) r d where "e = EResume r" "ag_pc a = Sleeping d" "run_resume r a = Some b"
  | (timer) d where "e = ETimer" "ag_pc a = Sleeping d" "\<not> ready a" "b = a\<lparr>ag_pc := AtTop\<rparr>"
  using assms by (cases e) (auto split: agent_pc.splits if_splits option.splits)

lemma receiveE:
  assumes "receive r a = Some (b, on)"
  obtains "r = RWake" "ag_wake a" "b = a\<lparr>ag_wake := False\<rparr>" "on"
  | "r = RReload" "ag_reloads a" "b = a\<lparr>ag_reloads := False\<rparr>" "on"
  | "r = RStop" "ag_stop a" "b = a" "\<not> on"
  using assms by (cases r) (auto simp: receive_def split: if_splits)

lemma run_resumeE:
  assumes "run_resume r a = Some b"
  obtains c on where "receive r a = Some (c, on)" "b = c\<lparr>ag_pc := (if on then AtTop else Returned)\<rparr>"
  using assms by (auto simp: run_resume_def split: option.splits)

lemma run_interruptE:
  assumes "run_interrupt d r a = Some b"
  obtains c on where "receive r a = Some (c, on)"
    "b = c\<lparr>ag_crashes := (if on then 0 else ag_crashes c), ag_alive := ag_alive c - of_bool d, ag_stuck := ag_stuck c + of_bool (\<not> d),
       ag_pc := (if on then AtTop else Returned)\<rparr>"
  using assms by (auto simp: run_interrupt_def killAndWait_def split: option.splits bool.splits)

lemma agent_step_inv: "agent_step yaml e a = Some b \<Longrightarrow> agent_inv a \<Longrightarrow> agent_inv b"
proof (erule agent_stepE, goal_cases)
  case (1 s)
  then show ?case
    by (cases s) (auto simp: wireSignals_def Reload_def Pause_def Resume_def StopAgent_def agent_inv_def pending_def)
next
  case (2 c)
  then show ?case
    by (cases c) (auto simp: signalWake_def agent_inv_def pending_def)
next
  case (3 wr)
  then show ?case
    by (auto simp: run_top_def writeState_def agent_inv_def pending_def past_check_iff)
next
  case (4 wr f)
  then show ?case
    by (auto simp: run_load_def writeState_def agent_inv_def pending_def past_check_iff split: option.splits)
next
  case (5 l k c)
  then show ?case
    by (auto simp: run_prepare_def agent_inv_def pending_def past_check_iff restartBackoffBase_def second_def)
next
  case (6 wr l k c)
  then show ?case
    by (auto simp: run_start_def writeState_def agent_inv_def pending_def past_check_iff restartBackoffBase_def second_def)
next
  case (7 wr r c)
  then show ?case
    by (simp add: run_exit_inv)
next
  case (8 d r c)
  from this(4) show ?case
    by (rule run_interruptE) (erule receiveE; use 8 in \<open>auto simp: agent_inv_def past_check_iff crashLimit_def\<close>)+
next
  case (9 r w)
  from this(4) show ?case
    by (rule run_resumeE) (erule receiveE; use 9 in \<open>auto simp: agent_inv_def past_check_iff\<close>)+
next
  case (10 r d)
  from this(4) show ?case
    by (rule run_resumeE) (erule receiveE; use 10 in \<open>auto simp: agent_inv_def past_check_iff\<close>)+
next
  case (11 d)
  then show ?case
    by (auto simp: agent_inv_def past_check_iff)
qed

lemma agent_reach_inv: "agent_reach yaml a \<Longrightarrow> agent_inv a"
proof (induction rule: agent_reach.induct)
  case (start state)
  then show ?case
    by (simp add: agent_inv_def NewAgent_def crashLimit_def)
next
  case (step a e b)
  then show ?case
    by (blast intro: agent_step_inv)
qed

section \<open>A stop takes effect\<close>

definition own_event :: "agent_event \<Rightarrow> bool" where
  "own_event e = (case e of ESignal s \<Rightarrow> False | _ \<Rightarrow> True)"

text \<open>The steps the loop takes without waiting for the command to end by itself or for a timer.\<close>

definition driven :: "agent_event \<Rightarrow> bool" where
  "driven e = (case e of ESignal s \<Rightarrow> False | EExit wr r \<Rightarrow> False | ETimer \<Rightarrow> False | _ \<Rightarrow> True)"

definition failed_kills :: "agent_event list \<Rightarrow> nat" where
  "failed_kills es = length (filter (\<lambda>e. case e of EInterrupt died r \<Rightarrow> \<not> died | _ \<Rightarrow> False) es)"

definition tokens :: "agent \<Rightarrow> nat" where
  "tokens a = of_bool (ag_wake a) + of_bool (ag_reloads a) + 2 * of_bool (ag_call a \<noteq> None)"

fun pc_rank :: "agent_pc \<Rightarrow> nat" where
  "pc_rank AtLoad = 8"
| "pc_rank (AtPrepare c) = 7"
| "pc_rank (AtStart c) = 6"
| "pc_rank (Running c) = 5"
| "pc_rank (Sleeping d) = 4"
| "pc_rank (Waiting w) = (if w = WPaused then 1 else 4)"
| "pc_rank AtTop = 2"
| "pc_rank Returned = 0"

definition settle_measure :: "agent \<Rightarrow> nat" where
  "settle_measure a = 10 * tokens a + pc_rank (ag_pc a)"

lemma settle_measure_bound: "settle_measure a \<le> 48"
  by (cases "ag_pc a") (auto simp: settle_measure_def tokens_def)

lemma own_step_decreases:
  assumes "agent_step yaml e a = Some b" "own_event e" "ag_paused a"
  shows "settle_measure b < settle_measure a \<and> ag_paused b"
  using assms(1)
proof (cases rule: agent_stepE)
  case (interrupted d r c)
  from this(3) show ?thesis
    by (rule run_interruptE) (erule receiveE; use interrupted assms in \<open>auto simp: settle_measure_def tokens_def\<close>)+
next
  case (waited r w)
  from this(3) show ?thesis
    by (rule run_resumeE) (erule receiveE; use waited assms in \<open>auto simp: settle_measure_def tokens_def\<close>)+
next
  case (slept r d)
  from this(3) show ?thesis
    by (rule run_resumeE) (erule receiveE; use slept assms in \<open>auto simp: settle_measure_def tokens_def\<close>)+
next
  case (exited wr r c)
  then show ?thesis
    using assms(3) by (auto simp: settle_measure_def tokens_def run_exit_def writeState_def Let_def split: prod.splits)
next
  case (send c)
  then show ?thesis
    using assms(3) by (cases c) (auto simp: settle_measure_def tokens_def signalWake_def)
qed (use assms in \<open>auto simp: own_event_def settle_measure_def tokens_def run_top_def run_load_def run_prepare_def run_start_def writeState_def
      split: option.splits\<close>)

lemma own_run_bounded:
  "agent_run yaml es a = Some b \<Longrightarrow> (\<forall>e \<in> set es. own_event e) \<Longrightarrow> ag_paused a \<Longrightarrow>
     length es + settle_measure b \<le> settle_measure a \<and> ag_paused b"
proof (induction es arbitrary: a)
  case (Cons e es)
  then obtain m where m: "agent_step yaml e a = Some m" "agent_run yaml es m = Some b"
    by (auto split: option.splits)
  have "settle_measure m < settle_measure a \<and> ag_paused m"
    using own_step_decreases[OF m(1)] Cons.prems by simp
  moreover from this have "length es + settle_measure b \<le> settle_measure m \<and> ag_paused b"
    using Cons.IH[OF m(2)] Cons.prems by simp
  ultimately show ?case
    by simp
qed simp

lemma agent_run_inv: "agent_run yaml es a = Some b \<Longrightarrow> agent_inv a \<Longrightarrow> agent_inv b"
  by (induction es arbitrary: a) (auto split: option.splits dest: agent_step_inv)

text \<open>A paused loop that can do nothing but wait for the command or a timer is in the stopped wait.\<close>

lemma agent_blocks:
  assumes "agent_inv a" "ag_paused a" "\<forall>e. driven e \<longrightarrow> agent_step yaml e a = None"
  shows "ag_pc a = Waiting WPaused \<or> ag_pc a = Returned"
proof (rule ccontr)
  assume n: "\<not> ?thesis"
  have e: "agent_step yaml (ETop True) a = None" "agent_step yaml (ELoad True None) a = None"
    "agent_step yaml (EPrepare True True) a = None" "agent_step yaml (EStart True True True) a = None" "agent_step yaml ESend a = None"
    "agent_step yaml (EInterrupt True RWake) a = None" "agent_step yaml (EInterrupt True RReload) a = None"
    "agent_step yaml (EResume RWake) a = None" "agent_step yaml (EResume RReload) a = None"
    by (rule assms(3)[rule_format], simp add: driven_def)+
  show False
    using n e assms(1,2)
    by (cases "ag_pc a") (auto simp: agent_inv_def past_check_iff pending_def run_resume_def run_interrupt_def receive_def split: if_splits option.splits)
qed

text \<open>Only a kill that is not answered leaves a command behind.\<close>

lemma step_stuck:
  assumes "agent_step yaml e a = Some b"
  shows "ag_stuck b = ag_stuck a + failed_kills [e]"
  using assms
proof (cases rule: agent_stepE)
  case (interrupted d r c)
  from this(3) show ?thesis
    by (rule run_interruptE) (erule receiveE; use interrupted in \<open>auto simp: failed_kills_def\<close>)+
next
  case (waited r w)
  from this(3) show ?thesis
    by (rule run_resumeE) (erule receiveE; use waited in \<open>auto simp: failed_kills_def\<close>)+
next
  case (slept r d)
  from this(3) show ?thesis
    by (rule run_resumeE) (erule receiveE; use slept in \<open>auto simp: failed_kills_def\<close>)+
next
  case (signal s)
  then show ?thesis
    by (cases s) (auto simp: failed_kills_def wireSignals_def Reload_def Pause_def Resume_def StopAgent_def)
next
  case (send c)
  then show ?thesis
    by (cases c) (auto simp: failed_kills_def signalWake_def)
qed (auto simp: failed_kills_def run_top_def run_load_def run_prepare_def run_start_def run_exit_def writeState_def Let_def split: option.splits prod.splits)

lemma run_stuck: "agent_run yaml es a = Some b \<Longrightarrow> ag_stuck b = ag_stuck a + failed_kills es"
proof (induction es arbitrary: a)
  case (Cons e es)
  then obtain m where m: "agent_step yaml e a = Some m" "agent_run yaml es m = Some b"
    by (auto split: option.splits)
  then show ?case
    using Cons.IH[OF m(2)] step_stuck[OF m(1)] by (simp add: failed_kills_def split: if_splits)
qed (simp add: failed_kills_def)

text \<open>C34: a stop asked for by the owner always takes effect. From every state the supervisor can be in once \<open>Pause\<close> has stored its
  flag - mid-build, mid-backoff, given up, whatever signals preceded it - and until the next signal, the loop makes at most 48 steps of
  its own. And it does not wait for the command to end by itself, nor for a timer: where it has no other step left to take, it is in the stopped wait (or has
  returned, on shutdown), and no command is left but those that did not die of SIGKILL. A build under way is not interrupted; its end is one of the steps.\<close>

theorem pause_takes_effect:
  assumes "agent_reach yaml a" and "ag_paused a"
    and "agent_run yaml es a = Some b" and "\<forall>e \<in> set es. own_event e"
  shows "length es \<le> 48 \<and>
     ((\<forall>e. driven e \<longrightarrow> agent_step yaml e b = None) \<longrightarrow>
        (ag_pc b = Waiting WPaused \<or> ag_pc b = Returned) \<and> ag_alive b = ag_stuck a + failed_kills es)"
proof -
  have inv: "agent_inv b"
    using agent_reach_inv[OF assms(1)] agent_run_inv[OF assms(3)] by blast
  have p: "length es \<le> 48" "ag_paused b"
    using own_run_bounded[OF assms(3,4,2)] settle_measure_bound[of a] by auto
  show ?thesis
    using p inv agent_blocks[OF inv p(2)] run_stuck[OF assms(3)] by (auto simp: agent_inv_def)
qed

lemma agent_run_reach: "agent_run yaml es a = Some b \<Longrightarrow> agent_reach yaml a \<Longrightarrow> agent_reach yaml b"
  by (induction es arbitrary: a) (auto split: option.splits dest: agent_reach.step)

definition app_conf :: Config where
  "app_conf = \<lparr>hc_Description = [], hc_Prepare = ''make'', hc_Mode = ModeApp, hc_Run = ''./serve'', hc_Env = [],
     hc_Snapshot = \<lparr>sh_Pre = [], sh_Post = [], sh_Interval = []\<rparr>\<rparr>"

definition fixed_yaml :: "bool \<Rightarrow> string \<Rightarrow> Config option" where
  "fixed_yaml strict b = Some app_conf"

definition boot :: "agent_event list" where
  "boot = [ETop True, ELoad True (Some ''x''), EPrepare True True, EStart True True True]"

definition running_agent :: agent where
  "running_agent = (NewAgent [])\<lparr>ag_state := StateRunning, ag_alive := 1, ag_pc := Running app_conf\<rparr>"

lemma load_fixed: "loadConfig fixed_yaml (Some b) = Some app_conf"
  by (simp add: loadConfig_def ParseConfig_def fixed_yaml_def Command_def app_conf_def ModeApp_def ModeStatic_def)

lemma booted: "agent_run fixed_yaml boot (NewAgent []) = Some running_agent"
  by (simp add: boot_def NewAgent_def run_top_def run_load_def load_fixed run_prepare_def prepare_def run_start_def startChild_def
      writeState_def running_agent_def)

lemma running_agent_reach: "agent_reach fixed_yaml running_agent"
  by (rule agent_run_reach[OF booted agent_reach.start])

lemma running_agent_sel:
  "ag_pc running_agent = Running app_conf" "\<not> ag_paused running_agent" "\<not> ag_wake running_agent" "\<not> ag_reloads running_agent"
  "\<not> ag_stop running_agent" "ag_call running_agent = None" "ag_crashes running_agent = 0" "ag_state running_agent = StateRunning"
  "ag_alive running_agent = 1" "ag_stuck running_agent = 0"
  by (simp_all add: running_agent_def NewAgent_def)

theorem pause_takes_effect_witness:
  "\<exists>b. agent_run fixed_yaml [ESend, EInterrupt True RWake, ETop True] (Pause running_agent) = Some b \<and>
     length [ESend, EInterrupt True RWake, ETop True] \<le> 48 \<and> ag_state b = StateStopped \<and> ag_pc b = Waiting WPaused \<and> ag_alive b = 0"
proof -
  let ?es = "[ESend, EInterrupt True RWake, ETop True]"
  have r: "agent_reach fixed_yaml (Pause running_agent)"
    using agent_reach.step[OF running_agent_reach, of "ESignal SIGUSR1"] by (simp add: wireSignals_def running_agent_sel)
  have p: "ag_paused (Pause running_agent)"
    by (simp add: Pause_def)
  obtain b where b: "agent_run fixed_yaml ?es (Pause running_agent) = Some b" "ag_state b = StateStopped" "ag_pc b = Waiting WPaused"
      "ag_wake b = False" "ag_reloads b = False" "ag_stop b = False" "ag_call b = None"
    by (simp add: Pause_def signalWake_def run_interrupt_def receive_def killAndWait_def run_top_def writeState_def running_agent_sel)
  have "agent_step fixed_yaml e b = None" if "driven e" for e
    using that b by (cases e) (auto simp: driven_def run_resume_def receive_def split: recv.splits)
  moreover have "\<forall>e \<in> set ?es. own_event e" "failed_kills ?es = 0" "ag_stuck (Pause running_agent) = 0"
    by (simp_all add: own_event_def failed_kills_def Pause_def running_agent_sel)
  ultimately have "length ?es \<le> 48 \<and> ag_alive b = 0"
    using pause_takes_effect[OF r p b(1)] by simp
  then show ?thesis
    using b by auto
qed

section \<open>A crash loop ends\<close>

definition is_exit :: "agent_event \<Rightarrow> bool" where
  "is_exit e = (case e of EExit wr r \<Rightarrow> True | _ \<Rightarrow> False)"

definition exits :: "agent_event list \<Rightarrow> nat" where
  "exits es = length (filter is_exit es)"

definition undisturbed :: "agent \<Rightarrow> bool" where
  "undisturbed a = (\<not> ready a \<and> ag_call a = None \<and> \<not> ag_paused a)"

definition rapid :: "agent_event \<Rightarrow> bool" where
  "rapid e = (own_event e \<and> (case e of EExit wr r \<Rightarrow> wr \<and> r < healthyRunTime | _ \<Rightarrow> True))"

definition restarts_left :: "agent \<Rightarrow> nat" where
  "restarts_left a = (if ag_pc a = Waiting WGaveUp then 0 else crashLimit - ag_crashes a)"

lemma rapid_exit:
  assumes "r < healthyRunTime" "ag_crashes a < crashLimit"
  shows "Suc (restarts_left (run_exit True r a)) = crashLimit - ag_crashes a \<and>
     (ag_pc (run_exit True r a) = Waiting WGaveUp \<longrightarrow> ag_state (run_exit True r a) = StateFailed)"
  using assms by (auto simp: run_exit_def restartPlan_def restarts_left_def writeState_def Let_def)

lemma rapid_step:
  assumes "agent_step yaml e a = Some b" "rapid e" "undisturbed a" "agent_inv a"
  shows "undisturbed b \<and> of_bool (is_exit e) + restarts_left b = restarts_left a \<and> ag_pc a \<noteq> Waiting WGaveUp \<and>
     (ag_pc b = Waiting WGaveUp \<longrightarrow> ag_state b = StateFailed)"
  using assms(1)
proof (cases rule: agent_stepE)
  case (exited wr r c)
  then have "wr" "r < healthyRunTime" "ag_crashes a < crashLimit"
    using assms by (auto simp: rapid_def agent_inv_def)
  then show ?thesis
    using rapid_exit[of r a] assms(3) exited
    by (auto simp: is_exit_def restarts_left_def undisturbed_def ready_def run_exit_def writeState_def Let_def split: prod.splits)
next
  case (interrupted d r c)
  then show ?thesis
    using assms(3) by (cases r) (auto simp: undisturbed_def ready_def run_interrupt_def receive_def)
next
  case (waited r w)
  then show ?thesis
    using assms(3) by (cases r) (auto simp: undisturbed_def ready_def run_resume_def receive_def)
next
  case (slept r d)
  then show ?thesis
    using assms(3) by (cases r) (auto simp: undisturbed_def ready_def run_resume_def receive_def)
qed (use assms in \<open>auto simp: rapid_def own_event_def is_exit_def undisturbed_def ready_def restarts_left_def run_top_def run_load_def
      run_prepare_def run_start_def writeState_def split: option.splits\<close>)

lemma rapid_run:
  "agent_run yaml es a = Some b \<Longrightarrow> (\<forall>e \<in> set es. rapid e) \<Longrightarrow> undisturbed a \<Longrightarrow> agent_inv a \<Longrightarrow>
     exits es + restarts_left b = restarts_left a \<and>
     (ag_pc b = Waiting WGaveUp \<longrightarrow> es = [] \<or> ag_state b = StateFailed)"
proof (induction es arbitrary: a)
  case (Cons e es)
  then obtain m where m: "agent_step yaml e a = Some m" "agent_run yaml es m = Some b"
    by (auto split: option.splits)
  have s: "undisturbed m \<and> of_bool (is_exit e) + restarts_left m = restarts_left a \<and>
     (ag_pc m = Waiting WGaveUp \<longrightarrow> ag_state m = StateFailed)"
    using rapid_step[OF m(1)] Cons.prems by simp
  have t: "exits es + restarts_left b = restarts_left m" "ag_pc b = Waiting WGaveUp \<Longrightarrow> es = [] \<or> ag_state b = StateFailed"
    using Cons.IH[OF m(2)] s agent_step_inv[OF m(1)] Cons.prems by auto
  have "es = [] \<Longrightarrow> b = m"
    using m(2) by simp
  then have "ag_pc b = Waiting WGaveUp \<Longrightarrow> ag_state b = StateFailed"
    using s t(2) by blast
  moreover have "exits (e # es) = of_bool (is_exit e) + exits es"
    by (simp add: exits_def)
  ultimately show ?case
    using s t(1) by linarith
qed (simp add: exits_def)

text \<open>C35: a command that keeps crashing is given up on. While the owner does nothing and every run of the command ends within
  30 seconds, the supervisor lets it crash at most as many times as are left of the five, in whatever pattern builds, starts and
  timers fall between; if that number is reached, the loop is in the given-up wait, the state file says \<open>failed\<close>, and
  until then it is not.\<close>

theorem crash_loop_gives_up:
  assumes "agent_reach yaml a" and "undisturbed a" and "ag_pc a \<noteq> Waiting WGaveUp"
    and "agent_run yaml es a = Some b" and "\<forall>e \<in> set es. rapid e"
  shows "exits es \<le> crashLimit - ag_crashes a \<and>
     (exits es = crashLimit - ag_crashes a \<longleftrightarrow> ag_pc b = Waiting WGaveUp) \<and>
     (ag_pc b = Waiting WGaveUp \<longrightarrow> ag_state b = StateFailed)"
proof -
  have inv: "agent_inv a" "agent_inv b"
    using agent_reach_inv[OF assms(1)] agent_run_inv[OF assms(4)] by blast+
  have r: "exits es + restarts_left b = restarts_left a" "ag_pc b = Waiting WGaveUp \<longrightarrow> es = [] \<or> ag_state b = StateFailed"
    using rapid_run[OF assms(4,5,2) inv(1)] by blast+
  have left: "restarts_left b = 0 \<longleftrightarrow> ag_pc b = Waiting WGaveUp" "restarts_left a = crashLimit - ag_crashes a"
    using inv assms(3) by (auto simp: restarts_left_def agent_inv_def)
  have "es \<noteq> []" if "ag_pc b = Waiting WGaveUp"
    using that assms(3,4) by auto
  then show ?thesis
    using r left by auto
qed

definition crash_round :: "agent_event list" where
  "crash_round = [EExit True second, ETimer] @ boot"

lemma agent_run_append: "agent_run yaml (es @ fs) a = (case agent_run yaml es a of None \<Rightarrow> None | Some b \<Rightarrow> agent_run yaml fs b)"
  by (induction es arbitrary: a) (auto split: option.splits)

lemma crash_round_run:
  assumes "k < 4"
  shows "agent_run fixed_yaml crash_round (running_agent\<lparr>ag_crashes := k\<rparr>) = Some (running_agent\<lparr>ag_crashes := k + 1\<rparr>)"
proof -
  obtain d where d: "restartPlan k second = (k + 1, d, False)"
    using assms by (auto simp: restartPlan_def healthyRunTime_def second_def crashLimit_def Let_def)
  show ?thesis
    by (simp add: crash_round_def boot_def run_exit_def d ready_def run_top_def run_load_def load_fixed run_prepare_def prepare_def
        run_start_def startChild_def writeState_def running_agent_def NewAgent_def)
qed

theorem crash_loop_gives_up_witness:
  "\<exists>b. agent_run fixed_yaml (concat (replicate 4 crash_round) @ [EExit True second]) running_agent = Some b \<and>
     exits (concat (replicate 4 crash_round) @ [EExit True second]) = crashLimit \<and> ag_pc b = Waiting WGaveUp \<and> ag_state b = StateFailed"
proof -
  let ?es = "concat (replicate 4 crash_round) @ [EExit True second]"
  have four: "replicate 4 x = [x, x, x, x]" for x :: "agent_event list"
    by (simp add: numeral_eq_Suc)
  have x: "exits ?es = crashLimit"
    by (simp add: exits_def crash_round_def boot_def is_exit_def four crashLimit_def)
  have rap: "\<forall>e \<in> set ?es. rapid e"
    by (simp add: crash_round_def boot_def rapid_def own_event_def healthyRunTime_def second_def four)
  have und: "undisturbed running_agent" "ag_pc running_agent \<noteq> Waiting WGaveUp"
    by (simp_all add: undisturbed_def ready_def running_agent_sel)
  let ?r = "\<lambda>k. running_agent\<lparr>ag_crashes := k\<rparr>"
  have r0: "running_agent = ?r 0"
    by (simp add: running_agent_def NewAgent_def)
  have "agent_run fixed_yaml crash_round (?r 0) = Some (?r 1)" "agent_run fixed_yaml crash_round (?r 1) = Some (?r 2)"
    "agent_run fixed_yaml crash_round (?r 2) = Some (?r 3)" "agent_run fixed_yaml crash_round (?r 3) = Some (?r 4)"
    using crash_round_run[of 0] crash_round_run[of 1] crash_round_run[of 2] crash_round_run[of 3]
    by (simp_all add: numeral_eq_Suc)
  then have "agent_run fixed_yaml (concat (replicate 4 crash_round)) (?r 0) = Some (?r 4)"
    by (simp add: four agent_run_append)
  then obtain b where b: "agent_run fixed_yaml ?es running_agent = Some b"
    unfolding agent_run_append r0[symmetric] by (simp add: running_agent_sel)
  show ?thesis
    using crash_loop_gives_up[OF running_agent_reach und b rap] b x by (auto simp: running_agent_sel)
qed

section \<open>A build that fails\<close>

definition is_prepare :: "agent_event \<Rightarrow> bool" where
  "is_prepare e = (case e of EPrepare l k \<Rightarrow> True | _ \<Rightarrow> False)"

definition build_round :: "string \<Rightarrow> agent_event list" where
  "build_round y = [ETop True, ELoad True (Some y), EPrepare True False, ETimer]"

lemma build_round_run:
  assumes "loadConfig yaml (Some y) = Some c" "hc_Prepare c \<noteq> []" "undisturbed a" "ag_pc a = AtTop"
  shows "agent_run yaml (build_round y) a = Some a"
  using assms by (auto simp: build_round_def run_top_def run_load_def run_prepare_def prepare_def undisturbed_def ready_def)

lemma build_rounds_run:
  assumes "loadConfig yaml (Some y) = Some c" "hc_Prepare c \<noteq> []" "undisturbed a" "ag_pc a = AtTop"
  shows "agent_run yaml (concat (replicate n (build_round y))) a = Some a"
  by (induction n) (simp_all add: agent_run_append build_round_run[OF assms])

lemma build_rounds_prepares: "length (filter is_prepare (concat (replicate n (build_round y)))) = n"
  by (induction n) (simp_all add: build_round_def is_prepare_def)

text \<open>A deploy whose build fails is retried without end, behind a state file that says \<open>running\<close>. When a running app is reloaded and its
  \<open>prepare\<close> command keeps failing, then for every number n there is a run in which the build is run n times, the crash count never
  moves, no command runs, and the state file still holds what it held before the reload.\<close>

lemma failing_build_looks_running:
  assumes "ag_pc a = Running c0" "ag_state a = StateRunning" "ag_reloads a" "\<not> ag_wake a" "\<not> ag_stop a" "ag_call a = None" "\<not> ag_paused a"
    and "loadConfig yaml (Some y) = Some c" "hc_Prepare c \<noteq> []"
  shows "\<exists>es b. agent_run yaml es a = Some b \<and> (\<forall>e \<in> set es. own_event e) \<and> length (filter is_prepare es) = n \<and>
     ag_state b = StateRunning \<and> ag_alive b = ag_alive a - 1 \<and> ag_crashes b = 0 \<and> ag_pc b = AtTop"
proof -
  let ?m = "(killAndWait True (a\<lparr>ag_reloads := False, ag_crashes := 0\<rparr>))\<lparr>ag_pc := AtTop\<rparr>"
  let ?es = "EInterrupt True RReload # concat (replicate n (build_round y))"
  have "undisturbed ?m"
    using assms by (simp add: undisturbed_def ready_def killAndWait_def)
  then have "agent_run yaml ?es a = Some ?m"
    using assms build_rounds_run[OF assms(8,9), of ?m n] by (simp add: run_interrupt_def receive_def)
  moreover have "\<forall>e \<in> set ?es. own_event e"
    by (auto simp: own_event_def build_round_def)
  moreover have "length (filter is_prepare ?es) = n"
    using build_rounds_prepares[of n y] by (simp add: is_prepare_def)
  ultimately show ?thesis
    using assms by (intro exI[of _ ?es] exI[of _ ?m]) (simp add: killAndWait_def)
qed

lemma failing_build_looks_running_witness:
  "\<exists>es b. agent_run fixed_yaml es (running_agent\<lparr>ag_reloads := True\<rparr>) = Some b \<and> (\<forall>e \<in> set es. own_event e) \<and> length (filter is_prepare es) = 100 \<and>
     ag_state b = StateRunning \<and> ag_alive b = 0 \<and> ag_crashes b = 0 \<and> ag_pc b = AtTop"
proof -
  have "hc_Prepare app_conf \<noteq> []"
    by (simp add: app_conf_def)
  then show ?thesis
    using failing_build_looks_running[of "running_agent\<lparr>ag_reloads := True\<rparr>" app_conf fixed_yaml "''x''" app_conf 100] by (simp add: running_agent_sel load_fixed)
qed

end
