(* ===== verification/Agent_Output.thy ===== *)
theory Agent_Output
  imports Agent_Supervisor
begin

text \<open>What happens to the output and to the exit of the supervised command (\<open>src/agent/service.go\<close> from \<open>reapLoop\<close> on,
  \<open>src/agent/gobuildenv.go\<close>): the log file and its rotation, the writer that stamps lines, the channel of reaped children,
  and the environment of a build.

  The stamping writer is written against \<open>io.Writer\<close>; the locale \<open>log_sink\<close> is that interface, and its lemmas say what the writer
  keeps of any property its sink keeps. It is interpreted on the rotating log file, which gives the bound on the disk the
  log can take. What the log holds is shown for a sink that collects what it is given.\<close>

section \<open>The log file\<close>

text \<open>\<open>app.log\<close> and \<open>app.log.old\<close> as byte strings; \<open>HClosed\<close> is a handle that was closed but is still in the field. \<open>log_io\<close> is what the
  file system answers during one call: rename, open, stat, and how many bytes a write takes.\<close>

datatype handle = HNone | HOpen | HClosed

record appLog =
  al_file :: handle
  al_size :: nat
  al_cur :: "string option"
  al_old :: "string option"

record log_io =
  io_rename :: bool
  io_open :: bool
  io_stat :: bool
  io_write :: nat

definition logMaxSize :: nat where "logMaxSize = 10 * 1024 * 1024"

definition log_rename :: "log_io \<Rightarrow> appLog \<Rightarrow> appLog option" where
  "log_rename io l = (if io_rename io \<and> al_cur l \<noteq> None then Some (l\<lparr>al_cur := None, al_old := al_cur l\<rparr>) else None)"

definition log_open :: "log_io \<Rightarrow> appLog \<Rightarrow> appLog \<times> bool" where
  "log_open io l0 =
     (let l = (case al_cur l0 of
                 Some c \<Rightarrow> if length c > logMaxSize then (case log_rename io l0 of Some l' \<Rightarrow> l' | None \<Rightarrow> l0) else l0
               | None \<Rightarrow> l0)
      in if \<not> io_open io then (l, True)
         else let l1 = l\<lparr>al_cur := Some (case al_cur l of Some c \<Rightarrow> c | None \<Rightarrow> [])\<rparr>
              in if \<not> io_stat io then (l1, True)
                 else (l1\<lparr>al_file := HOpen, al_size := length (the (al_cur l1))\<rparr>, False))"

definition file_write :: "log_io \<Rightarrow> string \<Rightarrow> appLog \<Rightarrow> appLog \<times> bool" where
  "file_write io p l =
     (if al_file l = HClosed then (l, True)
      else let n = min (io_write io) (length p)
           in (l\<lparr>al_cur := map_option (\<lambda>c. c @ take n p) (al_cur l), al_size := al_size l + n\<rparr>, n < length p))"

definition log_Write :: "log_io \<Rightarrow> string \<Rightarrow> appLog \<Rightarrow> appLog \<times> bool" where
  "log_Write io p l =
     (if al_file l = HNone then (l, False)
      else if al_size l + length p > logMaxSize
      then case log_rename io (l\<lparr>al_file := HClosed\<rparr>) of
             None \<Rightarrow> (l\<lparr>al_file := HClosed\<rparr>, True)
           | Some l1 \<Rightarrow> (case log_open io l1 of (l2, True) \<Rightarrow> (l2, True) | (l2, False) \<Rightarrow> file_write io p l2)
      else file_write io p l)"

definition log_Close :: "appLog \<Rightarrow> appLog" where
  "log_Close l = l\<lparr>al_file := HNone\<rparr>"

text \<open>\<open>openLog\<close>: a new \<open>appLog\<close> on the same two files.\<close>

definition openLog :: "bool \<Rightarrow> log_io \<Rightarrow> appLog \<Rightarrow> appLog \<times> bool" where
  "openLog mkdirOk io l =
     (let fresh = l\<lparr>al_file := HNone, al_size := 0\<rparr>
      in if \<not> mkdirOk then (fresh, True) else log_open io fresh)"

definition logNotice :: "string \<Rightarrow> log_io \<Rightarrow> string \<Rightarrow> appLog \<Rightarrow> appLog" where
  "logNotice now io msg l = fst (log_Write io (now @ '' [hostit] '' @ msg @ [nl]) l)"

section \<open>The stamping writer\<close>

text \<open>\<open>now k\<close> is the time of the k-th line, \<open>write k\<close> the sink's \<open>Write\<close> at that moment; its flag is a non-nil error.\<close>

definition maxLineBuffer :: nat where "maxLineBuffer = 64 * 1024"

record 'w timestampWriter =
  tw_w :: 'w
  tw_buf :: string
  tw_tick :: nat

definition newTimestampWriter :: "'w \<Rightarrow> 'w timestampWriter" where
  "newTimestampWriter w = \<lparr>tw_w = w, tw_buf = [], tw_tick = 0\<rparr>"

definition tw_emit :: "(nat \<Rightarrow> string) \<Rightarrow> (nat \<Rightarrow> string \<Rightarrow> 'w \<Rightarrow> 'w \<times> bool) \<Rightarrow> string \<Rightarrow> 'w timestampWriter \<Rightarrow> 'w timestampWriter \<times> bool" where
  "tw_emit now write line t =
     (case write (tw_tick t) (now (tw_tick t) @ '' '' @ line) (tw_w t) of
        (w', e) \<Rightarrow> (t\<lparr>tw_w := w', tw_tick := tw_tick t + 1\<rparr>, e))"

function tw_lines :: "(nat \<Rightarrow> string) \<Rightarrow> (nat \<Rightarrow> string \<Rightarrow> 'w \<Rightarrow> 'w \<times> bool) \<Rightarrow> 'w timestampWriter \<Rightarrow> 'w timestampWriter \<times> bool" where
  "tw_lines now write t =
     (if nl \<notin> set (tw_buf t) then (t, False)
      else let i = length (takeWhile (\<lambda>c. c \<noteq> nl) (tw_buf t))
           in case tw_emit now write (take (i + 1) (tw_buf t)) t of
                (t', True) \<Rightarrow> (t', True)
              | (t', False) \<Rightarrow> tw_lines now write (t'\<lparr>tw_buf := drop (i + 1) (tw_buf t)\<rparr>))"
  by pat_completeness auto
termination
  by (relation "measure (\<lambda>(_, _, t). length (tw_buf t))") (auto intro!: diff_less dest: length_pos_if_in_set)

declare tw_lines.simps [simp del]

definition tw_Write :: "(nat \<Rightarrow> string) \<Rightarrow> (nat \<Rightarrow> string \<Rightarrow> 'w \<Rightarrow> 'w \<times> bool) \<Rightarrow> string \<Rightarrow> 'w timestampWriter \<Rightarrow> 'w timestampWriter \<times> bool" where
  "tw_Write now write p t =
     (case tw_lines now write (t\<lparr>tw_buf := tw_buf t @ p\<rparr>) of
        (t1, True) \<Rightarrow> (t1, True)
      | (t1, False) \<Rightarrow>
          if length (tw_buf t1) > maxLineBuffer
          then (case tw_emit now write (tw_buf t1) t1 of (t2, True) \<Rightarrow> (t2, True) | (t2, False) \<Rightarrow> (t2\<lparr>tw_buf := []\<rparr>, False))
          else (t1, False))"

text \<open>The copier of the child's output writes chunk after chunk and stops at the first error.\<close>

fun tw_copy :: "(nat \<Rightarrow> string) \<Rightarrow> (nat \<Rightarrow> string \<Rightarrow> 'w \<Rightarrow> 'w \<times> bool) \<Rightarrow> string list \<Rightarrow> 'w timestampWriter \<Rightarrow> 'w timestampWriter \<times> bool" where
  "tw_copy now write [] t = (t, False)"
| "tw_copy now write (p # ps) t = (case tw_Write now write p t of (t', True) \<Rightarrow> (t', True) | (t', False) \<Rightarrow> tw_copy now write ps t')"

section \<open>The reaper\<close>

text \<open>The channel \<open>exits\<close> has room for 16; \<open>rp_waiters\<close> are the goroutines of \<open>waitFor\<close> blocked on it, by the pid they wait
  for, and \<open>rp_out\<close> what they handed over. Any waiter may take the head of the channel.\<close>

record childExit =
  ex_pid :: int
  ex_status :: string

record reaper =
  rp_exits :: "childExit list"
  rp_waiters :: "int list"
  rp_out :: "childExit list"

definition reportExit :: "childExit \<Rightarrow> reaper \<Rightarrow> reaper" where
  "reportExit e r = (if length (rp_exits r) < 16 then r\<lparr>rp_exits := rp_exits r @ [e]\<rparr> else r)"

definition waitFor :: "int \<Rightarrow> reaper \<Rightarrow> reaper" where
  "waitFor pid r = r\<lparr>rp_waiters := rp_waiters r @ [pid]\<rparr>"

definition waiter_take :: "int \<Rightarrow> reaper \<Rightarrow> reaper" where
  "waiter_take pid r =
     (if pid \<notin> set (rp_waiters r) then r
      else case rp_exits r of [] \<Rightarrow> r
      | e # es \<Rightarrow> if ex_pid e = pid then r\<lparr>rp_exits := es, rp_waiters := remove1 pid (rp_waiters r), rp_out := rp_out r @ [e]\<rparr>
                  else r\<lparr>rp_exits := es\<rparr>)"

text \<open>One round of \<open>reapLoop\<close>: everything \<open>Wait4\<close> returns until it has nothing more.\<close>

fun reapLoop :: "childExit list \<Rightarrow> reaper \<Rightarrow> reaper" where
  "reapLoop [] r = r"
| "reapLoop (e # es) r = reapLoop es (reportExit e r)"

section \<open>The environment of a build\<close>

definition lowMemBuildThreshold :: int where "lowMemBuildThreshold = 768 * 2 ^ 20"

definition containerMemLimitBytes :: "string option \<Rightarrow> int" where
  "containerMemLimitBytes file =
     (case file of None \<Rightarrow> 0 | Some b \<Rightarrow> (case parse_int (TrimSpace b) of Some n \<Rightarrow> n | None \<Rightarrow> 0))"

definition env_names :: "string list \<Rightarrow> string set" where
  "env_names existing =
     set (map (takeWhile (\<lambda>c. c \<noteq> CHR ''='')) (filter (\<lambda>kv. CHR ''='' \<in> set kv \<and> hd kv \<noteq> CHR ''='') existing))"

definition goMemLimitMiB :: "int \<Rightarrow> int" where
  "goMemLimitMiB memLimitBytes = (let m = memLimitBytes div 2 ^ 20 * 80 div 100 in if m < 64 then 64 else m)"

definition goBuildTuning :: "int \<Rightarrow> string list \<Rightarrow> string list" where
  "goBuildTuning memLimitBytes existing =
     (if memLimitBytes \<le> 0 \<or> memLimitBytes > lowMemBuildThreshold then []
      else (if ''GOFLAGS'' \<in> env_names existing then [] else [''GOFLAGS=-p=1''])
         @ (if ''GOGC'' \<in> env_names existing then [] else [''GOGC=30''])
         @ (if ''GOMEMLIMIT'' \<in> env_names existing then [] else [''GOMEMLIMIT='' @ itoa (goMemLimitMiB memLimitBytes) @ ''MiB'']))"

section \<open>The size of the log\<close>

locale log_sink =
  fixes put :: "nat \<Rightarrow> string \<Rightarrow> 'w \<Rightarrow> 'w \<times> bool"
    and good :: "'w \<Rightarrow> bool"
    and bound :: nat
  assumes write_keeps: "good w \<Longrightarrow> length s \<le> bound \<Longrightarrow> good (fst (put k s w))"
begin

lemma emit_keeps:
  "good (tw_w t) \<Longrightarrow> length (now (tw_tick t)) = 19 \<Longrightarrow> 20 + length line \<le> bound \<Longrightarrow>
     good (tw_w (fst (tw_emit now put line t))) \<and> tw_buf (fst (tw_emit now put line t)) = tw_buf t"
  using write_keeps[of "tw_w t" "now (tw_tick t) @ '' '' @ line" "tw_tick t"]
  by (auto simp: tw_emit_def split: prod.splits)

lemma lines_keep:
  "good (tw_w t) \<Longrightarrow> (\<And>k. length (now k) = 19) \<Longrightarrow> 20 + length (tw_buf t) \<le> bound \<Longrightarrow>
     good (tw_w (fst (tw_lines now put t))) \<and> length (tw_buf (fst (tw_lines now put t))) \<le> length (tw_buf t)"
proof (induction "length (tw_buf t)" arbitrary: t rule: less_induct)
  case less
  let ?i = "length (takeWhile (\<lambda>c. c \<noteq> nl) (tw_buf t))"
  show ?case
  proof (cases "nl \<in> set (tw_buf t)")
    case True
    obtain t' e where e: "tw_emit now put (take (?i + 1) (tw_buf t)) t = (t', e)"
      by (cases "tw_emit now put (take (?i + 1) (tw_buf t)) t")
    have g: "good (tw_w t')" "tw_buf t' = tw_buf t"
      using emit_keeps[OF less.prems(1), of now "take (?i + 1) (tw_buf t)"] less.prems e by auto
    have "length (drop (?i + 1) (tw_buf t)) < length (tw_buf t)"
      using True by (auto intro!: diff_less dest: length_pos_if_in_set)
    then show ?thesis
      using less.hyps[of "t'\<lparr>tw_buf := drop (?i + 1) (tw_buf t)\<rparr>"] g less.prems True e
      by (cases e) (auto simp: tw_lines.simps[of now put t])
  qed (use less.prems in \<open>simp add: tw_lines.simps[of now put t]\<close>)
qed

lemma Write_keeps:
  assumes "good (tw_w t)" "\<And>k. length (now k) = 19" "length (tw_buf t) \<le> maxLineBuffer" "20 + maxLineBuffer + length p \<le> bound"
  shows "good (tw_w (fst (tw_Write now put p t))) \<and>
     (\<not> snd (tw_Write now put p t) \<longrightarrow> length (tw_buf (fst (tw_Write now put p t))) \<le> maxLineBuffer)"
proof -
  obtain t1 e1 where l: "tw_lines now put (t\<lparr>tw_buf := tw_buf t @ p\<rparr>) = (t1, e1)"
    by (cases "tw_lines now put (t\<lparr>tw_buf := tw_buf t @ p\<rparr>)")
  have g1: "good (tw_w t1)" "length (tw_buf t1) \<le> length (tw_buf t) + length p"
    using lines_keep[of "t\<lparr>tw_buf := tw_buf t @ p\<rparr>" now] assms l by auto
  obtain t2 e2 where m: "tw_emit now put (tw_buf t1) t1 = (t2, e2)"
    by (cases "tw_emit now put (tw_buf t1) t1")
  have "good (tw_w t2)"
    using emit_keeps[OF g1(1), of now "tw_buf t1"] g1(2) assms m by auto
  then show ?thesis
    using g1 by (cases e1; cases e2) (auto simp: tw_Write_def l m)
qed

lemma copy_keeps:
  "good (tw_w t) \<Longrightarrow> (\<And>k. length (now k) = 19) \<Longrightarrow> length (tw_buf t) \<le> maxLineBuffer \<Longrightarrow>
   \<forall>p \<in> set ps. 20 + maxLineBuffer + length p \<le> bound \<Longrightarrow> good (tw_w (fst (tw_copy now put ps t)))"
proof (induction ps arbitrary: t)
  case (Cons p ps)
  obtain t' e where w: "tw_Write now put p t = (t', e)"
    by (cases "tw_Write now put p t")
  have "good (tw_w t')" "\<not> e \<Longrightarrow> length (tw_buf t') \<le> maxLineBuffer"
    using Write_keeps[of t now p] Cons.prems w by auto
  then show ?case
    using Cons.IH[of t'] Cons.prems w by (cases e) auto
qed simp

end

text \<open>Neither file is over the cap, and the size the log counts is the size of the file it writes to.\<close>

definition log_good :: "appLog \<Rightarrow> bool" where
  "log_good l =
     ((\<forall>c. al_cur l = Some c \<longrightarrow> length c \<le> logMaxSize) \<and> (\<forall>c. al_old l = Some c \<longrightarrow> length c \<le> logMaxSize) \<and>
      (al_file l = HOpen \<longrightarrow> (\<exists>c. al_cur l = Some c \<and> al_size l = length c)))"

lemma file_write_good:
  "log_good l \<Longrightarrow> al_file l = HOpen \<Longrightarrow> al_size l + length p \<le> logMaxSize \<Longrightarrow> log_good (fst (file_write io p l))"
  by (auto simp: log_good_def file_write_def Let_def)

lemma log_open_good:
  "log_good l \<Longrightarrow> al_file l \<noteq> HOpen \<Longrightarrow> log_good (fst (log_open io l)) \<and>
     (\<not> snd (log_open io l) \<longrightarrow> al_file (fst (log_open io l)) = HOpen \<and> al_size (fst (log_open io l)) = length (case al_cur l of Some c \<Rightarrow> c | None \<Rightarrow> []))"
  by (auto simp: log_good_def log_open_def Let_def split: option.splits)

lemma log_Write_good:
  assumes "log_good l" "length p \<le> logMaxSize"
  shows "log_good (fst (log_Write io p l))"
proof (cases "al_file l = HOpen \<and> al_size l + length p \<le> logMaxSize")
  case True
  then show ?thesis
    using file_write_good[OF assms(1)] by (simp add: log_Write_def)
next
  case False
  show ?thesis
  proof (cases "log_rename io (l\<lparr>al_file := HClosed\<rparr>)")
    case None
    then show ?thesis
      using assms False by (cases "al_file l") (auto simp: log_Write_def log_good_def file_write_def)
  next
    case (Some l1)
    have g: "log_good l1" "al_file l1 \<noteq> HOpen" "al_cur l1 = None"
      using Some assms by (auto simp: log_rename_def log_good_def split: if_splits)
    obtain l2 e where o: "log_open io l1 = (l2, e)"
      by (cases "log_open io l1")
    have "log_good l2" "\<not> e \<Longrightarrow> al_file l2 = HOpen \<and> al_size l2 = 0"
      using log_open_good[OF g(1,2), of io] g(3) o by auto
    then have "log_good (fst (case log_open io l1 of (l2, True) \<Rightarrow> (l2, True) | (l2, False) \<Rightarrow> file_write io p l2))"
      using file_write_good[of l2 p io] assms o by (cases e) auto
    then show ?thesis
      using Some assms False by (cases "al_file l") (auto simp: log_Write_def log_good_def file_write_def)
  qed
qed

interpretation rotating: log_sink "\<lambda>k s l. log_Write (io k) s l" log_good logMaxSize
  for io :: "nat \<Rightarrow> log_io"
  by unfold_locales (rule log_Write_good)

text \<open>C36: the log of an app never takes more than its two files of 10 MiB. Whatever the command prints, in whatever chunks of at most
  32 KiB the copier hands on, and whatever the file system answers at any moment (a failing rename, a failing open, a short write), neither
  \<open>app.log\<close> nor \<open>app.log.old\<close> grows past the cap, and an open log knows its exact size.\<close>

theorem app_log_bounded:
  assumes "log_good l" and "\<And>k. length (now k) = 19" and "\<forall>p \<in> set ps. length p \<le> 32768"
  shows "log_good (tw_w (fst (tw_copy now (\<lambda>k s l. log_Write (io k) s l) ps (newTimestampWriter l))))"
  by (rule rotating.copy_keeps) (use assms in \<open>auto simp: newTimestampWriter_def maxLineBuffer_def logMaxSize_def\<close>)

definition fresh_log :: appLog where
  "fresh_log = \<lparr>al_file = HOpen, al_size = 0, al_cur = Some [], al_old = None\<rparr>"

theorem app_log_bounded_witness:
  "log_good (tw_w (fst (tw_copy (\<lambda>k. ''2026-01-02 03:04:05'') (\<lambda>k s l. log_Write \<lparr>io_rename = False, io_open = True, io_stat = True, io_write = 7\<rparr> s l)
     [''hello'' @ [nl], ''world''] (newTimestampWriter fresh_log))))"
  by (rule app_log_bounded[of fresh_log "\<lambda>k. ''2026-01-02 03:04:05''" _ "\<lambda>k. \<lparr>io_rename = False, io_open = True, io_stat = True, io_write = 7\<rparr>"])
    (auto simp: fresh_log_def log_good_def)

section \<open>What the log holds\<close>

definition collect :: "nat \<Rightarrow> string \<Rightarrow> string list \<Rightarrow> string list \<times> bool" where
  "collect k s ws = (ws @ [s], False)"

definition log_piece :: "string \<Rightarrow> bool" where
  "log_piece q = ((\<exists>l. q = l @ [nl] \<and> nl \<notin> set l) \<or> nl \<notin> set q \<and> length q > maxLineBuffer)"

definition stamped :: "(nat \<Rightarrow> string) \<Rightarrow> string list \<Rightarrow> string list" where
  "stamped now qs = map (\<lambda>(k, q). now k @ '' '' @ q) (enumerate 0 qs)"

definition collected :: "(nat \<Rightarrow> string) \<Rightarrow> string list \<Rightarrow> string list timestampWriter \<Rightarrow> bool" where
  "collected now qs t = (tw_w t = stamped now qs \<and> tw_tick t = length qs)"

lemma emit_collects:
  "collected now qs t \<Longrightarrow> \<exists>t'. tw_emit now collect line t = (t', False) \<and> collected now (qs @ [line]) t' \<and> tw_buf t' = tw_buf t"
  by (auto simp: collected_def tw_emit_def collect_def stamped_def enumerate_append_eq)

lemma split_at_newline:
  assumes "nl \<in> set s"
  shows "\<exists>l. take (length (takeWhile (\<lambda>c. c \<noteq> nl) s) + 1) s = l @ [nl] \<and> nl \<notin> set l"
proof -
  obtain l r where s: "s = l @ nl # r" "nl \<notin> set l"
    using assms by (meson split_list_first)
  then have "takeWhile (\<lambda>c. c \<noteq> nl) s = l"
    by (auto simp: takeWhile_tail)
  then show ?thesis
    using s by simp
qed

lemma lines_collect:
  "collected now qs t \<Longrightarrow> \<exists>ls t'. tw_lines now collect t = (t', False) \<and> collected now (qs @ ls) t' \<and>
     concat ls @ tw_buf t' = tw_buf t \<and> nl \<notin> set (tw_buf t') \<and> list_all log_piece ls"
proof (induction "length (tw_buf t)" arbitrary: t qs rule: less_induct)
  case less
  let ?i = "length (takeWhile (\<lambda>c. c \<noteq> nl) (tw_buf t))"
  show ?case
  proof (cases "nl \<in> set (tw_buf t)")
    case True
    let ?q = "take (?i + 1) (tw_buf t)"
    obtain t' where e: "tw_emit now collect ?q t = (t', False)" "collected now (qs @ [?q]) t'"
      using emit_collects[OF less.prems] by blast
    let ?t = "t'\<lparr>tw_buf := drop (?i + 1) (tw_buf t)\<rparr>"
    have "length (tw_buf ?t) < length (tw_buf t)"
      using True by (auto intro!: diff_less dest: length_pos_if_in_set)
    moreover have "collected now (qs @ [?q]) ?t"
      using e(2) by (simp add: collected_def)
    ultimately obtain ls t2 where r: "tw_lines now collect ?t = (t2, False)" "collected now ((qs @ [?q]) @ ls) t2"
        "concat ls @ tw_buf t2 = tw_buf ?t" "nl \<notin> set (tw_buf t2)" "list_all log_piece ls"
      using less.hyps by blast
    have "tw_lines now collect t = (t2, False)"
      using True e r(1) by (simp add: tw_lines.simps[of now collect t])
    moreover have "log_piece ?q"
      using split_at_newline[OF True] by (auto simp: log_piece_def)
    moreover have "?q @ concat ls @ tw_buf t2 = tw_buf t"
      using r(3) append_take_drop_id[of "?i + 1" "tw_buf t"] by simp
    ultimately show ?thesis
      using r(2,4,5) by (intro exI[of _ "?q # ls"] exI[of _ t2]) simp
  qed (use less.prems in \<open>auto simp: tw_lines.simps[of now collect t] intro!: exI[of _ "[]"]\<close>)
qed

lemma Write_collects:
  assumes "collected now qs t"
  shows "\<exists>ls t'. tw_Write now collect p t = (t', False) \<and> collected now (qs @ ls) t' \<and> concat ls @ tw_buf t' = tw_buf t @ p \<and>
     nl \<notin> set (tw_buf t') \<and> length (tw_buf t') \<le> maxLineBuffer \<and> list_all log_piece ls"
proof -
  have "collected now qs (t\<lparr>tw_buf := tw_buf t @ p\<rparr>)"
    using assms by (simp add: collected_def)
  from lines_collect[OF this] obtain ls t1 where l: "tw_lines now collect (t\<lparr>tw_buf := tw_buf t @ p\<rparr>) = (t1, False)"
      "collected now (qs @ ls) t1" "concat ls @ tw_buf t1 = tw_buf t @ p" "nl \<notin> set (tw_buf t1)" "list_all log_piece ls"
    by auto
  obtain t2 where e: "tw_emit now collect (tw_buf t1) t1 = (t2, False)" "collected now ((qs @ ls) @ [tw_buf t1]) t2"
    using emit_collects[OF l(2)] by blast
  show ?thesis
  proof (cases "length (tw_buf t1) > maxLineBuffer")
    case True
    then show ?thesis
      using l e by (intro exI[of _ "ls @ [tw_buf t1]"] exI[of _ "t2\<lparr>tw_buf := []\<rparr>"])
        (simp add: tw_Write_def collected_def log_piece_def)
  next
    case False
    then show ?thesis
      using l by (intro exI[of _ ls] exI[of _ t1]) (simp add: tw_Write_def)
  qed
qed

lemma copy_collects:
  assumes "collected now qs t" "nl \<notin> set (tw_buf t)" "length (tw_buf t) \<le> maxLineBuffer"
  shows "\<exists>ls t'. tw_copy now collect ps t = (t', False) \<and> collected now (qs @ ls) t' \<and> concat ls @ tw_buf t' = tw_buf t @ concat ps \<and>
     nl \<notin> set (tw_buf t') \<and> length (tw_buf t') \<le> maxLineBuffer \<and> list_all log_piece ls"
  using assms
proof (induction ps arbitrary: t qs)
  case Nil
  then show ?case
    by (intro exI[of _ "[]"] exI[of _ t]) simp
next
  case (Cons p ps)
  obtain ls t1 where w: "tw_Write now collect p t = (t1, False)" "collected now (qs @ ls) t1" "concat ls @ tw_buf t1 = tw_buf t @ p"
      "nl \<notin> set (tw_buf t1)" "length (tw_buf t1) \<le> maxLineBuffer" "list_all log_piece ls"
    using Write_collects[OF Cons.prems(1)] by blast
  obtain ms t2 where r: "tw_copy now collect ps t1 = (t2, False)" "collected now ((qs @ ls) @ ms) t2"
      "concat ms @ tw_buf t2 = tw_buf t1 @ concat ps" "nl \<notin> set (tw_buf t2)" "length (tw_buf t2) \<le> maxLineBuffer" "list_all log_piece ms"
    using Cons.IH[OF w(2,4,5)] by blast
  have "concat (ls @ ms) @ tw_buf t2 = tw_buf t @ concat (p # ps)"
    using w(3) r(3) by simp
  then show ?case
    using w r by (intro exI[of _ "ls @ ms"] exI[of _ t2]) simp
qed

text \<open>The log is the command's output, line by line and complete, except for an unfinished last line. However the output is
  cut into chunks, the lines written are, in order, exactly the bytes of the output up to the last newline, each line under its own stamp
  (a line over 64 KiB is cut), and what is not written is the unterminated rest, at most 64 KiB. The rest never reaches the
  log: nothing flushes the writer when the command exits.\<close>

lemma stamped_log_lossless:
  "\<exists>lines t. tw_copy now collect ps (newTimestampWriter []) = (t, False) \<and> tw_w t = stamped now lines \<and>
     concat lines @ tw_buf t = concat ps \<and> nl \<notin> set (tw_buf t) \<and> length (tw_buf t) \<le> maxLineBuffer \<and> list_all log_piece lines"
proof -
  have "collected now [] (newTimestampWriter [])"
    by (simp add: collected_def newTimestampWriter_def stamped_def)
  from copy_collects[OF this, of ps] show ?thesis
    by (auto simp: newTimestampWriter_def collected_def)
qed

section \<open>A rotation that fails half-way\<close>

text \<open>A log whose rotation renamed the file but could not open a new one stays dead until the command is started
  again: every later write fails, although by then the file system may accept everything. The closed handle and the old size stay in
  place, so each write tries to rename a file that is no longer there.\<close>

lemma half_rotated_log_stays_dead:
  assumes "al_file l = HOpen" and "al_cur l = Some c" and "al_size l = length c" and "length c + length p > logMaxSize" and "p \<noteq> []"
    and "io_rename io" and "\<not> io_open io" and "length q \<ge> length p"
  shows "snd (log_Write io p l) \<and> snd (log_Write io' q (fst (log_Write io p l))) \<and>
     fst (log_Write io' q (fst (log_Write io p l))) = fst (log_Write io p l)"
  using assms by (auto simp: log_Write_def log_rename_def log_open_def Let_def)

definition full_log :: "string \<Rightarrow> appLog" where
  "full_log c = \<lparr>al_file = HOpen, al_size = length c, al_cur = Some c, al_old = None\<rparr>"

lemma half_rotated_log_stays_dead_witness:
  "let l = full_log (replicate logMaxSize (CHR ''a'')); bad = \<lparr>io_rename = True, io_open = False, io_stat = True, io_write = 100\<rparr>
   in snd (log_Write bad ''b'' l) \<and> snd (log_Write (bad\<lparr>io_open := True\<rparr>) ''c'' (fst (log_Write bad ''b'' l)))"
proof -
  let ?l = "full_log (replicate logMaxSize (CHR ''a''))"
  let ?bad = "\<lparr>io_rename = True, io_open = False, io_stat = True, io_write = 100\<rparr>"
  have "snd (log_Write ?bad ''b'' ?l) \<and> snd (log_Write (?bad\<lparr>io_open := True\<rparr>) ''c'' (fst (log_Write ?bad ''b'' ?l)))"
    using half_rotated_log_stays_dead[of ?l "replicate logMaxSize (CHR ''a'')" "''b''" ?bad "''c''" "?bad\<lparr>io_open := True\<rparr>"]
    by (simp add: full_log_def)
  then show ?thesis
    by simp
qed

section \<open>Reaping\<close>

text \<open>An exit that entered the channel reaches its waiter when that is the only one: each receive either delivers it or removes an exit
  in front of it.\<close>

lemma only_waiter_gets_exit:
  "rp_waiters r = [pid] \<Longrightarrow> e \<in> set (rp_exits r) \<Longrightarrow> ex_pid e = pid \<Longrightarrow>
     \<exists>n \<le> length (rp_exits r). \<exists>x. ex_pid x = pid \<and> rp_out ((waiter_take pid ^^ n) r) = rp_out r @ [x]"
proof (induction "rp_exits r" arbitrary: r)
  case (Cons x xs)
  show ?case
  proof (cases "ex_pid x = pid")
    case True
    then have "rp_out ((waiter_take pid ^^ 1) r) = rp_out r @ [x]"
      using Cons(2,3) by (simp add: waiter_take_def Cons(2)[symmetric])
    then show ?thesis
      using True Cons(2) by (metis One_nat_def Suc_le_eq length_Cons zero_less_Suc)
  next
    case False
    then have t: "waiter_take pid r = r\<lparr>rp_exits := xs\<rparr>"
      using Cons(2,3) by (simp add: waiter_take_def Cons(2)[symmetric])
    then obtain n y where n: "n \<le> length xs" "ex_pid y = pid" "rp_out ((waiter_take pid ^^ n) (r\<lparr>rp_exits := xs\<rparr>)) = rp_out r @ [y]"
      using Cons(1)[of "r\<lparr>rp_exits := xs\<rparr>"] Cons(2-5) False by (auto simp flip: Cons(2))
    have "rp_out ((waiter_take pid ^^ Suc n) r) = rp_out r @ [y]"
      using n(3) by (simp only: funpow_Suc_right o_apply t)
    then show ?thesis
      using n Cons(2) by (metis Suc_le_mono length_Cons)
  qed
qed simp

text \<open>A channel filled by orphans while nothing ran drops the exit of a command that ends before its waiter is scheduled, and the waiter then
  blocks for good.\<close>

lemma full_channel_drops_exit:
  assumes "length (rp_exits r) = 16" and "\<forall>x \<in> set (rp_exits r). ex_pid x \<noteq> pid" and "rp_waiters r = []" and "rp_out r = []"
  shows "rp_out ((waiter_take pid ^^ n) (waitFor pid (reapLoop [\<lparr>ex_pid = pid, ex_status = s\<rparr>] r))) = []"
proof -
  define r0 where "r0 = waitFor pid (reapLoop [\<lparr>ex_pid = pid, ex_status = s\<rparr>] r)"
  have "rp_out ((waiter_take pid ^^ n) r0) = [] \<and> (\<forall>x \<in> set (rp_exits ((waiter_take pid ^^ n) r0)). ex_pid x \<noteq> pid)"
    using assms
    by (induction n) (auto simp: r0_def waitFor_def reportExit_def waiter_take_def split: list.splits)
  then show ?thesis
    by (simp add: r0_def)
qed

section \<open>Builds\<close>

text \<open>A tuned build gets no variable the app set itself, and the compiler's limit stays under the container's unless that is
  below 80 MiB.\<close>

lemma goBuildTuning_keeps_set:
  "kv \<in> set (goBuildTuning m existing) \<Longrightarrow> takeWhile (\<lambda>c. c \<noteq> CHR ''='') kv \<notin> env_names existing"
  by (auto simp: goBuildTuning_def split: if_splits)

lemma goMemLimit_fits: "0 < m \<Longrightarrow> 80 * 2 ^ 20 \<le> m \<Longrightarrow> 64 \<le> goMemLimitMiB m \<and> goMemLimitMiB m * 2 ^ 20 < m"
  by (auto simp: goMemLimitMiB_def Let_def)

end
