(* ===== verification/Home_Files.thy ===== *)
theory Home_Files
  imports App_Config "HOL-Library.Word"
begin

text \<open>File I/O inside an app's home (\<open>src/homefs/service.go\<close>, \<open>src/node/machine_files.go\<close>): the check every client-supplied path goes
  through, the atomic upload, read, delete, move, mkdir, listing and the unpacking of an archive. A home is a map from
  paths to files and directories; a path is the list of its segments and the home itself is the empty path. What the operating system
  refuses is an argument (\<open>home_io\<close>) of each operation. Homes with symbolic links are not modelled: the code resolves every path through
  \<open>os.Root\<close>, which refuses those that leave the home and follows those that stay inside.

  The lemmas show what a path that passed the check looks like, that no operation touches hostit's own directories by such a path, that an upload
  is all or nothing, and what an archive that was accepted leaves behind.\<close>

unbundle bit_operations_syntax

section \<open>Paths\<close>

definition maxUploadSize :: nat where "maxUploadSize = 64 * 1024 * 1024"
definition defaultFileMode :: "32 word" where "defaultFileMode = 0x1A4"
definition tempPrefix :: string where "tempPrefix = ''.hostit-upload-''"
definition maxListEntries :: nat where "maxListEntries = 500"

definition protectedDirs :: "string list" where
  "protectedDirs = [''.hostit/'', ''.ssh/'', ''.config/'', ''.local/'', ''.cache/'']"

definition skippedDirs :: "string list" where
  "skippedDirs = [''node_modules'', ''vendor'', ''__pycache__'', ''.git'', ''.venv'', ''venv'', ''target'']"

abbreviation slash :: char where "slash \<equiv> CHR ''/''"

text \<open>\<open>path.Clean\<close> of a rooted path, on its segments: empty ones and dots go, a double dot takes the segment before it along.\<close>

fun clean_segs :: "string list \<Rightarrow> string list \<Rightarrow> string list" where
  "clean_segs acc [] = acc"
| "clean_segs acc (s # ss) =
     (if s = [] \<or> s = ''.'' then clean_segs acc ss
      else if s = ''..'' then clean_segs (butlast acc) ss
      else clean_segs (acc @ [s]) ss)"

definition Clean_rooted :: "string \<Rightarrow> string" where
  "Clean_rooted p = slash # join_with slash (clean_segs [] (split_on slash p))"

definition path_Base :: "string \<Rightarrow> string" where
  "path_Base p = last (split_on slash p)"

definition isProtected :: "string \<Rightarrow> bool" where
  "isProtected rel = list_ex (\<lambda>prefix. HasPrefix rel prefix \<or> rel = TrimSuffix prefix ''/'') protectedDirs"

definition isHiddenFromListing :: "string \<Rightarrow> bool" where
  "isHiddenFromListing rel =
     (isProtected rel \<or> list_ex (\<lambda>seg. HasPrefix seg ''.'' \<or> seg \<in> set skippedDirs) (split_on slash (TrimSuffix rel ''/'')))"

definition safeRel :: "string \<Rightarrow> string res" where
  "safeRel relPath =
     (let raw = TrimSpace (ReplaceChar (CHR 0x5C) ''/'' relPath)
      in if raw = [] \<or> HasPrefix raw ''/'' then Inl ErrInvalid
         else if ''..'' \<in> set (split_on slash raw) then Inl ErrInvalid
         else let cleaned = TrimPrefix (Clean_rooted (slash # raw)) ''/''
              in if cleaned = [] \<or> cleaned = ''.'' then Inl ErrInvalid
                 else if isProtected cleaned then Inl ErrInvalid
                 else if HasPrefix (path_Base cleaned) tempPrefix then Inl ErrInvalid
                 else Inr cleaned)"

text \<open>Permissions are the low nine bits; the constants are the octal 777, 600 and 022.\<close>

definition fileMode :: "32 word \<Rightarrow> 32 word" where
  "fileMode mode = (if mode = 0 then defaultFileMode else ((mode AND 0x1FF) OR 0x180) AND NOT 0x012)"

section \<open>The home\<close>

type_synonym fpath = "string list"

datatype fnode = FFile string "32 word" | FDir

type_synonym fs = "fpath \<rightharpoonup> fnode"

definition segs :: "string \<Rightarrow> fpath" where
  "segs rel = split_on slash rel"

definition path_Dir :: "fpath \<Rightarrow> fpath" where
  "path_Dir p = butlast p"

definition fs_Stat :: "fs \<Rightarrow> fpath \<Rightarrow> fnode option" where
  "fs_Stat fs p = (if p = [] then Some FDir else fs p)"

definition under :: "fpath \<Rightarrow> fpath \<Rightarrow> bool" where
  "under p q = (take (length p) q = p)"

definition is_file :: "fnode option \<Rightarrow> bool" where
  "is_file n = (case n of Some (FFile c m) \<Rightarrow> True | _ \<Rightarrow> False)"

text \<open>What the operating system grants: how many directories may still be created, whether a file can be opened, written, closed, given
  its mode, renamed, removed, and which entries a failing \<open>RemoveAll\<close> got to.\<close>

record home_io =
  hio_mkdirs :: nat
  hio_open :: bool
  hio_write :: bool
  hio_close :: bool
  hio_chmod :: bool
  hio_rename :: bool
  hio_remove :: bool
  hio_gone :: "fpath \<Rightarrow> bool"

fun mkdir_steps :: "nat \<Rightarrow> fs \<Rightarrow> fpath \<Rightarrow> fpath \<Rightarrow> fs \<times> bool" where
  "mkdir_steps n fs pre [] = (fs, True)"
| "mkdir_steps n fs pre (s # rest) =
     (case fs (pre @ [s]) of
        Some FDir \<Rightarrow> mkdir_steps n fs (pre @ [s]) rest
      | Some (FFile _ _) \<Rightarrow> (fs, False)
      | None \<Rightarrow> if n = 0 then (fs, False) else mkdir_steps (n - 1) (fs(pre @ [s] \<mapsto> FDir)) (pre @ [s]) rest)"

definition MkdirAll :: "home_io \<Rightarrow> fs \<Rightarrow> fpath \<Rightarrow> fs \<times> bool" where
  "MkdirAll io fs p = mkdir_steps (hio_mkdirs io) fs [] p"

text \<open>A rename onto an existing directory does not arise: the upload renames a file, and the move refuses a destination that exists.\<close>

definition fs_Rename :: "home_io \<Rightarrow> fs \<Rightarrow> fpath \<Rightarrow> fpath \<Rightarrow> fs res" where
  "fs_Rename io fs from to =
     (if \<not> hio_rename io \<or> fs_Stat fs (path_Dir to) \<noteq> Some FDir then Inl (ErrText ''rename'')
      else case fs from of
        None \<Rightarrow> Inl ErrNotExist
      | Some (FFile c m) \<Rightarrow>
          if fs_Stat fs to = Some FDir then Inl (ErrText ''is a directory'')
          else if from = to then Inr fs else Inr (fs(from := None, to \<mapsto> FFile c m))
      | Some FDir \<Rightarrow>
          if under from to \<or> fs_Stat fs to \<noteq> None then Inl (ErrText ''rename'')
          else Inr (\<lambda>q. if under to q then fs (from @ drop (length to) q) else if under from q then None else fs q))"

definition RemoveAll :: "home_io \<Rightarrow> fs \<Rightarrow> fpath \<Rightarrow> fs \<times> err option" where
  "RemoveAll io fs p =
     (if list_ex (\<lambda>k. is_file (fs (take k p))) [1..<length p] then (fs, Some (ErrText ''not a directory''))
      else if \<not> hio_remove io then ((\<lambda>q. if under p q \<and> hio_gone io q then None else fs q), Some (ErrText ''remove''))
      else ((\<lambda>q. if under p q then None else fs q), None))"

text \<open>The app's subvolume and the files directory in it. \<open>OpenRoot\<close> makes a missing files directory, never a missing subvolume.\<close>

record volume =
  sv_exists :: bool
  sv_files :: "fs option"

definition OpenRoot :: "volume \<Rightarrow> (volume \<times> fs) res" where
  "OpenRoot v =
     (if \<not> sv_exists v then Inl ErrNotExist
      else case sv_files v of Some fs \<Rightarrow> Inr (v, fs) | None \<Rightarrow> Inr (v\<lparr>sv_files := Some (\<lambda>_. None)\<rparr>, \<lambda>_. None))"

definition home_of :: "volume \<Rightarrow> fs" where
  "home_of v = (case sv_files v of Some fs \<Rightarrow> fs | None \<Rightarrow> (\<lambda>_. None))"

section \<open>Operations\<close>

text \<open>An operation returns the home it leaves and its error. \<open>with_root\<close> is the prologue they share: check the path, open the root.\<close>

definition with_root :: "volume \<Rightarrow> string \<Rightarrow> (fpath \<Rightarrow> fs \<Rightarrow> fs \<times> err option) \<Rightarrow> volume \<times> err option" where
  "with_root v relPath f =
     (case safeRel relPath of Inl e \<Rightarrow> (v, Some e)
      | Inr rel \<Rightarrow> (case OpenRoot v of Inl e \<Rightarrow> (v, Some e)
          | Inr (v', fs) \<Rightarrow> (case f (segs rel) fs of (fs', r) \<Rightarrow> (v'\<lparr>sv_files := Some fs'\<rparr>, r))))"

text \<open>A body is the bytes the reader yields and whether it then fails instead of ending.\<close>

type_synonym body = "string \<times> bool"

definition write_body :: "home_io \<Rightarrow> string \<Rightarrow> body \<Rightarrow> 32 word \<Rightarrow> fpath \<Rightarrow> fs \<Rightarrow> fs \<times> err option" where
  "write_body io suffix bd mode rel fs0 =
     (case MkdirAll io fs0 (path_Dir rel) of
        (fs1, False) \<Rightarrow> (fs1, Some (ErrText ''mkdir''))
      | (fs1, True) \<Rightarrow>
          let tmpRel = path_Dir rel @ [tempPrefix @ suffix]
          in if \<not> hio_open io \<or> fs_Stat fs1 tmpRel \<noteq> None then (fs1, Some (ErrText ''open''))
             else let written = take (maxUploadSize + 1) (fst bd);
                      fs2 = fs1(tmpRel \<mapsto> FFile written (fileMode mode));
                      cleanup = (if hio_remove io then fs2(tmpRel := None) else fs2)
                  in if \<not> hio_write io \<or> snd bd \<and> length (fst bd) \<le> maxUploadSize then (cleanup, Some (ErrText ''copy''))
                     else if \<not> hio_close io then (cleanup, Some (ErrText ''close''))
                     else if length written > maxUploadSize then (cleanup, Some ErrInvalid)
                     else if \<not> hio_chmod io then (cleanup, Some (ErrText ''chmod''))
                     else case fs_Rename io fs2 tmpRel rel of Inl e \<Rightarrow> (cleanup, Some e) | Inr fs3 \<Rightarrow> (fs3, None))"

definition WriteFileFrom :: "home_io \<Rightarrow> string \<Rightarrow> volume \<Rightarrow> string \<Rightarrow> body \<Rightarrow> 32 word \<Rightarrow> volume \<times> err option" where
  "WriteFileFrom io suffix v relPath bd mode = with_root v relPath (write_body io suffix bd mode)"

definition WriteFile :: "home_io \<Rightarrow> string \<Rightarrow> volume \<Rightarrow> string \<Rightarrow> string \<Rightarrow> 32 word \<Rightarrow> volume \<times> err option" where
  "WriteFile io suffix v relPath content mode = WriteFileFrom io suffix v relPath (content, False) mode"

definition read_node :: "fs \<Rightarrow> fpath \<Rightarrow> string res" where
  "read_node fs rel =
     (case fs_Stat fs rel of None \<Rightarrow> Inl ErrNotExist | Some FDir \<Rightarrow> Inl (ErrText ''is a directory'') | Some (FFile c _) \<Rightarrow> Inr c)"

definition ReadFile :: "volume \<Rightarrow> string \<Rightarrow> string res" where
  "ReadFile v relPath =
     (case safeRel relPath of Inl e \<Rightarrow> Inl e
      | Inr rel \<Rightarrow> (case OpenRoot v of Inl e \<Rightarrow> Inl e | Inr (_, fs) \<Rightarrow> read_node fs (segs rel)))"

definition ReadCapped :: "fs \<Rightarrow> fpath \<Rightarrow> nat \<Rightarrow> string res" where
  "ReadCapped fs rel cap =
     (case read_node fs rel of Inl e \<Rightarrow> Inl e | Inr c \<Rightarrow> if length c > cap then Inl ErrInvalid else Inr (take cap c))"

definition ReadFileMax :: "volume \<Rightarrow> string \<Rightarrow> nat \<Rightarrow> string res" where
  "ReadFileMax v relPath cap =
     (case safeRel relPath of Inl e \<Rightarrow> Inl e
      | Inr rel \<Rightarrow> (case OpenRoot v of Inl e \<Rightarrow> Inl e | Inr (_, fs) \<Rightarrow> ReadCapped fs (segs rel) cap))"

definition FileExists :: "volume \<Rightarrow> string \<Rightarrow> bool" where
  "FileExists v relPath =
     (case safeRel relPath of Inl e \<Rightarrow> False
      | Inr rel \<Rightarrow> (case OpenRoot v of Inl e \<Rightarrow> False | Inr (_, fs) \<Rightarrow> fs_Stat fs (segs rel) \<noteq> None))"

definition DeleteFile :: "home_io \<Rightarrow> volume \<Rightarrow> string \<Rightarrow> volume \<times> err option" where
  "DeleteFile io v relPath = with_root v relPath (\<lambda>rel fs. RemoveAll io fs rel)"

definition move_body :: "home_io \<Rightarrow> fpath \<Rightarrow> fpath \<Rightarrow> fs \<Rightarrow> fs \<times> err option" where
  "move_body io to from fs =
     (if fs_Stat fs to \<noteq> None then (fs, Some (ErrText ''a file already exists there''))
      else case MkdirAll io fs (path_Dir to) of
        (fs1, False) \<Rightarrow> (fs1, Some (ErrText ''mkdir''))
      | (fs1, True) \<Rightarrow> (case fs_Rename io fs1 from to of Inl e \<Rightarrow> (fs1, Some e) | Inr fs2 \<Rightarrow> (fs2, None)))"

definition MoveFile :: "home_io \<Rightarrow> volume \<Rightarrow> string \<Rightarrow> string \<Rightarrow> volume \<times> err option" where
  "MoveFile io v fromRel toRel =
     (case safeRel fromRel of Inl e \<Rightarrow> (v, Some e)
      | Inr from \<Rightarrow> with_root v toRel (\<lambda>to. move_body io to (segs from)))"

definition mkdir_body :: "home_io \<Rightarrow> fpath \<Rightarrow> fs \<Rightarrow> fs \<times> err option" where
  "mkdir_body io rel fs =
     (if fs_Stat fs rel \<noteq> None then (fs, Some ErrInvalid)
      else case MkdirAll io fs rel of (fs1, ok) \<Rightarrow> (fs1, if ok then None else Some (ErrText ''mkdir'')))"

definition MakeDir :: "home_io \<Rightarrow> volume \<Rightarrow> string \<Rightarrow> volume \<times> err option" where
  "MakeDir io v relPath = with_root v relPath (mkdir_body io)"

subsection \<open>Listing\<close>

text \<open>An entry of \<open>fs.ReadDir\<close>: its name, whether it is a directory, and its size unless it vanished before \<open>Info\<close>.\<close>

record FileInfo =
  fi_Path :: string
  fi_Dir :: bool
  fi_Size :: nat

fun list_entries :: "string \<Rightarrow> FileInfo list \<Rightarrow> (string \<times> bool \<times> nat option) list \<Rightarrow> FileInfo list \<times> bool" where
  "list_entries rel acc [] = (acc, False)"
| "list_entries rel acc ((name, dir, info) # es) =
     (let child = (if rel \<noteq> [] then rel @ ''/'' @ name else name)
      in if isHiddenFromListing child \<or> dir \<and> isHiddenFromListing (child @ ''/'') then list_entries rel acc es
         else if length acc \<ge> maxListEntries then (acc, True)
         else case info of None \<Rightarrow> list_entries rel acc es
         | Some sz \<Rightarrow> list_entries rel (acc @ [\<lparr>fi_Path = child, fi_Dir = dir, fi_Size = (if dir then 0 else sz)\<rparr>]) es)"

definition trim_dots :: "string \<Rightarrow> string" where
  "trim_dots s = (let drop_dots = dropWhile (\<lambda>c. c = CHR ''.'' \<or> c = slash) in rev (drop_dots (rev (drop_dots s))))"

definition ListFiles :: "(string \<Rightarrow> (string \<times> bool \<times> nat option) list res) \<Rightarrow> volume \<Rightarrow> string \<Rightarrow> (string \<times> FileInfo list \<times> bool) res" where
  "ListFiles readDir v dir =
     (case (if TrimSpace dir \<noteq> [] \<and> trim_dots dir \<noteq> [] then safeRel dir else Inr []) of
        Inl e \<Rightarrow> Inl e
      | Inr rel \<Rightarrow> (case OpenRoot v of Inl e \<Rightarrow> Inl e
          | Inr _ \<Rightarrow> (case readDir (if rel = [] then ''.'' else rel) of Inl e \<Rightarrow> Inl e
              | Inr es \<Rightarrow> Inr (rel, list_entries rel [] es))))"

definition StatFile :: "volume \<Rightarrow> string \<Rightarrow> FileInfo res" where
  "StatFile v relPath =
     (case safeRel relPath of Inl e \<Rightarrow> Inl e
      | Inr rel \<Rightarrow> (case OpenRoot v of Inl e \<Rightarrow> Inl e
          | Inr (_, fs) \<Rightarrow> (case fs_Stat fs (segs rel) of None \<Rightarrow> Inl ErrNotExist
              | Some FDir \<Rightarrow> Inr \<lparr>fi_Path = rel, fi_Dir = True, fi_Size = 0\<rparr>
              | Some (FFile c m) \<Rightarrow> Inr \<lparr>fi_Path = rel, fi_Dir = False, fi_Size = length c\<rparr>)))"

subsection \<open>Archives\<close>

text \<open>The entries of an archive as the tar reader yields them. A regular entry that delivers fewer bytes than its header says is a read
  error; an archive ends or is broken.\<close>

datatype tar_entry = TarDir string | TarReg string nat "32 word" string | TarOther string

definition extract_reg :: "home_io \<Rightarrow> string \<Rightarrow> nat \<Rightarrow> 32 word \<Rightarrow> string \<Rightarrow> fs \<Rightarrow> fs \<times> string res" where
  "extract_reg io name sz mode content fs =
     (case safeRel name of Inl e \<Rightarrow> (fs, Inl e)
      | Inr rel \<Rightarrow>
          if sz > maxUploadSize then (fs, Inl ErrInvalid)
          else case MkdirAll io fs (path_Dir (segs rel)) of
            (fs1, False) \<Rightarrow> (fs1, Inl (ErrText ''mkdir''))
          | (fs1, True) \<Rightarrow>
              if \<not> hio_open io \<or> fs_Stat fs1 (segs rel) = Some FDir then (fs1, Inl (ErrText ''open''))
              else let fs2 = fs1(segs rel \<mapsto> FFile (take maxUploadSize (take sz content)) (fileMode mode))
                   in if \<not> hio_write io \<or> length content < sz then (fs2, Inl (ErrText ''copy''))
                      else if \<not> hio_close io then (fs2, Inl (ErrText ''close''))
                      else if \<not> hio_chmod io then (fs2, Inl (ErrText ''chmod''))
                      else (fs2, Inr rel))"

fun extract_entries :: "(nat \<Rightarrow> home_io) \<Rightarrow> bool \<Rightarrow> string list \<Rightarrow> tar_entry list \<Rightarrow> fs \<Rightarrow> fs \<times> string list res" where
  "extract_entries io broken written [] fs = (fs, if broken then Inl ErrInvalid else Inr written)"
| "extract_entries io broken written (e # es) fs =
     (case e of
        TarDir name \<Rightarrow> (case safeRel name of Inl er \<Rightarrow> (fs, Inl er) | Inr _ \<Rightarrow> extract_entries io broken written es fs)
      | TarReg name sz mode content \<Rightarrow>
          (case extract_reg (io (length es)) name sz mode content fs of
             (fs', Inl er) \<Rightarrow> (fs', Inl er)
           | (fs', Inr rel) \<Rightarrow> extract_entries io broken (written @ [rel]) es fs')
      | TarOther name \<Rightarrow> (fs, Inl ErrInvalid))"

definition ExtractTar :: "(nat \<Rightarrow> home_io) \<Rightarrow> volume \<Rightarrow> tar_entry list \<Rightarrow> bool \<Rightarrow> volume \<times> string list res" where
  "ExtractTar io v es broken =
     (case OpenRoot v of Inl e \<Rightarrow> (v, Inl e)
      | Inr (v', fs) \<Rightarrow> (case extract_entries io broken [] es fs of (fs', r) \<Rightarrow> (v'\<lparr>sv_files := Some fs'\<rparr>, r)))"

section \<open>What a checked path looks like\<close>

definition protected_names :: "string list" where
  "protected_names = [''.hostit'', ''.ssh'', ''.config'', ''.local'', ''.cache'']"

lemma protectedDirs_names: "protectedDirs = map (\<lambda>d. d @ ''/'') protected_names"
  by (simp add: protectedDirs_def protected_names_def)

definition seg_ok :: "string \<Rightarrow> bool" where
  "seg_ok s = (s \<noteq> [] \<and> s \<noteq> ''.'' \<and> s \<noteq> ''..'' \<and> slash \<notin> set s)"

definition path_ok :: "fpath \<Rightarrow> bool" where
  "path_ok p = (p \<noteq> [] \<and> list_all seg_ok p \<and> hd p \<notin> set protected_names \<and> \<not> HasPrefix (last p) tempPrefix)"

lemma clean_segs_plain: "''..'' \<notin> set ss \<Longrightarrow> clean_segs acc ss = acc @ filter (\<lambda>s. s \<noteq> [] \<and> s \<noteq> ''.'') ss"
  by (induction ss arbitrary: acc) auto

lemma isProtected_hd:
  assumes "p \<noteq> []" "hd p \<in> set protected_names"
  shows "isProtected (join_with slash p)"
proof (cases "tl p = []")
  case True
  then have "join_with slash p = hd p"
    using assms(1) by (cases p) auto
  then show ?thesis
    using assms(2) unfolding isProtected_def protectedDirs_names list_ex_iff
    by (intro bexI[of _ "hd p @ ''/''"]) auto
next
  case False
  then have "join_with slash p = (hd p @ ''/'') @ join_with slash (tl p)"
    using assms(1) join_with_Cons[of "tl p" slash "hd p"] by (cases p) auto
  then have "HasPrefix (join_with slash p) (hd p @ ''/'')"
    by (metis HasPrefix_append)
  then show ?thesis
    using assms(2) unfolding isProtected_def protectedDirs_names list_ex_iff by auto
qed

lemma safeRel_path_ok:
  assumes "safeRel p = Inr rel"
  shows "path_ok (segs rel) \<and> rel = join_with slash (segs rel)"
proof -
  let ?raw = "TrimSpace (ReplaceChar (CHR 0x5C) ''/'' p)"
  let ?ss = "filter (\<lambda>s. s \<noteq> [] \<and> s \<noteq> ''.'') (split_on slash ?raw)"
  have nd: "''..'' \<notin> set (split_on slash ?raw)"
    using assms by (auto simp: safeRel_def Let_def split: if_splits)
  have "clean_segs [] (split_on slash (slash # ?raw)) = ?ss"
    using nd by (simp add: clean_segs_plain)
  then have "Clean_rooted (slash # ?raw) = ''/'' @ join_with slash ?ss"
    by (simp add: Clean_rooted_def)
  then have rel: "rel = join_with slash ?ss" and r: "rel \<noteq> []" "\<not> isProtected rel" "\<not> HasPrefix (path_Base rel) tempPrefix"
    using assms TrimPrefix_append[of "''/''" "join_with slash ?ss"] unfolding safeRel_def Let_def by (auto split: if_splits)
  have ne: "?ss \<noteq> []"
    using r(1) rel by (metis join_with.simps(1))
  have ok: "\<forall>s \<in> set ?ss. seg_ok s"
    using nd split_on_parts[of _ slash ?raw] by (auto simp: seg_ok_def)
  have s: "segs rel = ?ss"
    unfolding segs_def rel by (rule split_join[OF ne]) (use ok in \<open>auto simp: seg_ok_def\<close>)
  have "hd ?ss \<notin> set protected_names"
    using isProtected_hd[OF ne] r(2) rel by metis
  moreover have "\<not> HasPrefix (last ?ss) tempPrefix"
    using r(3) s by (simp add: path_Base_def segs_def)
  ultimately show ?thesis
    unfolding path_ok_def s using ne ok rel by (auto simp: list_all_iff)
qed

text \<open>C31: a path that passes the check is a proper path inside the home. Whatever string a client sends, what \<open>safeRel\<close> accepts is a
  non-empty list of segments joined by single slashes, none of them empty, a dot or a double dot, the first not one of hostit's
  own directories, the last not a scratch name; so it is relative, it names no parent, and it is not the home itself.\<close>

theorem safeRel_confined:
  "case safeRel p of Inl e \<Rightarrow> e = ErrInvalid
   | Inr rel \<Rightarrow> path_ok (segs rel) \<and> rel = join_with slash (segs rel) \<and> \<not> HasPrefix rel ''/''"
proof (cases "safeRel p")
  case (Inl e)
  then show ?thesis
    by (auto simp: safeRel_def Let_def split: if_splits)
next
  case (Inr rel)
  then have k: "path_ok (segs rel)" "rel = join_with slash (segs rel)"
    using safeRel_path_ok by blast+
  obtain s ss where s: "segs rel = s # ss" "seg_ok s"
    using k(1) by (cases "segs rel") (auto simp: path_ok_def)
  have "rel = join_with slash (s # ss)"
    using k(2) s(1) by simp
  then have "\<not> HasPrefix rel ''/''"
    using s(2) by (cases ss; cases s) (auto simp: HasPrefix_def seg_ok_def)
  then show ?thesis
    using Inr k by simp
qed

text \<open>Uploaded permissions: the owner can read and write, nobody else can write, and nothing beyond permission bits gets through.\<close>

lemma fileMode_sane:
  "fileMode m AND 0x180 = 0x180" "fileMode m AND 0x012 = 0" "fileMode m AND NOT 0x1FF = 0"
proof -
  have "((m AND 0x1FF) OR 0x180) AND NOT 0x012 = (m AND 0x1ED) OR 0x180"
    by (simp add: bit.conj_disj_distrib2 and.assoc)
  then show "fileMode m AND 0x180 = 0x180" "fileMode m AND 0x012 = 0" "fileMode m AND NOT 0x1FF = 0"
    by (simp_all add: fileMode_def defaultFileMode_def bit.conj_disj_distrib2 and.assoc)
qed

section \<open>Frames\<close>

lemma mkdir_steps_frame:
  "mkdir_steps n fs pre ps = (fs', ok) \<Longrightarrow>
     fs' q = fs q \<or> (\<exists>k. 0 < k \<and> k \<le> length ps \<and> q = pre @ take k ps) \<and> fs q = None \<and> fs' q = Some FDir"
proof (induction n fs pre ps arbitrary: fs' ok rule: mkdir_steps.induct)
  case (2 n fs pre s rest)
  have ext: "\<exists>k>0. k \<le> length (s # rest) \<and> q = pre @ take k (s # rest)"
    if "\<exists>k>0. k \<le> length rest \<and> q = (pre @ [s]) @ take k rest"
    using that by (metis Suc_le_mono append.assoc append_Cons append_Nil length_Cons take_Suc_Cons zero_less_Suc)
  show ?case
  proof (cases "fs (pre @ [s])")
    case None
    show ?thesis
    proof (cases "n = 0")
      case False
      then have run: "mkdir_steps (n - 1) (fs(pre @ [s] \<mapsto> FDir)) (pre @ [s]) rest = (fs', ok)"
        using "2.prems" None by simp
      note "2.IH"(1)[OF None False run]
      moreover have "\<exists>k>0. k \<le> length (s # rest) \<and> pre @ [s] = pre @ take k (s # rest)"
        by (intro exI[of _ 1]) simp
      ultimately show ?thesis
        using None ext by (cases "q = pre @ [s]") auto
    qed (use "2.prems" None in simp)
  next
    case (Some n')
    then show ?thesis
      using "2.IH"(2)[OF Some, of fs' ok] "2.prems" ext by (cases n') auto
  qed
qed simp

lemma MkdirAll_frame:
  assumes "MkdirAll io fs p = (fs', ok)"
  shows "fs' q = fs q \<or> (\<exists>k. 0 < k \<and> k \<le> length p \<and> q = take k p) \<and> fs q = None \<and> fs' q = Some FDir"
  using mkdir_steps_frame[OF assms[unfolded MkdirAll_def], of q] by simp

text \<open>The paths below hostit's own directories.\<close>

definition managed :: "fpath \<Rightarrow> bool" where
  "managed q = (q \<noteq> [] \<and> hd q \<in> set protected_names)"

lemma hd_take: "0 < k \<Longrightarrow> hd (take k p) = hd p"
  by (cases p; cases k) auto

lemma MkdirAll_managed:
  assumes "MkdirAll io fs p = (fs', ok)" "managed q" "\<not> managed p"
  shows "fs' q = fs q"
  using MkdirAll_frame[OF assms(1), of q] assms(2,3) by (auto simp: managed_def hd_take)

lemma path_ok_not_managed: "path_ok p \<Longrightarrow> \<not> managed p" "path_ok p \<Longrightarrow> \<not> managed (path_Dir p)"
  by (cases p; auto simp: path_ok_def managed_def path_Dir_def)+

lemma tmp_not_managed: "path_ok p \<Longrightarrow> \<not> managed (path_Dir p @ [tempPrefix @ sfx])"
  by (cases p) (auto simp: path_ok_def managed_def path_Dir_def protected_names_def tempPrefix_def)

lemma under_managed: "under p q \<Longrightarrow> p \<noteq> [] \<Longrightarrow> managed q \<Longrightarrow> managed p"
  by (metis hd_take length_greater_0_conv managed_def under_def)

section \<open>Hostit's own directories\<close>

lemma fs_Rename_managed:
  assumes "fs_Rename io fs from to = Inr fs'" "managed q" "\<not> managed from" "\<not> managed to" "from \<noteq> []" "to \<noteq> []"
  shows "fs' q = fs q"
  using assms under_managed[of to q] under_managed[of "from" q]
  by (auto simp: fs_Rename_def split: option.splits fnode.splits if_splits)

lemma write_body_managed:
  assumes "path_ok rel" "managed q"
  shows "fst (write_body io sfx bd mode rel fs) q = fs q"
proof -
  let ?tmp = "path_Dir rel @ [tempPrefix @ sfx]"
  obtain fs1 ok where m: "MkdirAll io fs (path_Dir rel) = (fs1, ok)"
    by (cases "MkdirAll io fs (path_Dir rel)")
  have k: "fs1 q = fs q" "q \<noteq> ?tmp" "rel \<noteq> []"
    using MkdirAll_managed[OF m assms(2) path_ok_not_managed(2)[OF assms(1)]] tmp_not_managed[OF assms(1), of sfx] assms
    by (auto simp: path_ok_def)
  have r: "f q = fs q" if "fs_Rename io (fs1(?tmp \<mapsto> x)) ?tmp rel = Inr f" for f x
    using fs_Rename_managed[OF that assms(2) tmp_not_managed[OF assms(1)] path_ok_not_managed(1)[OF assms(1)]] k by simp
  show ?thesis
    using k by (cases ok) (auto simp: write_body_def m Let_def split: sum.splits dest: r)
qed

lemma move_body_managed:
  assumes "path_ok to" "path_ok from" "managed q"
  shows "fst (move_body io to from fs) q = fs q"
proof -
  obtain fs1 ok where m: "MkdirAll io fs (path_Dir to) = (fs1, ok)"
    by (cases "MkdirAll io fs (path_Dir to)")
  have k: "fs1 q = fs q" "to \<noteq> []" "from \<noteq> []"
    using MkdirAll_managed[OF m assms(3) path_ok_not_managed(2)[OF assms(1)]] assms(1,2) by (auto simp: path_ok_def)
  have r: "f q = fs q" if "fs_Rename io fs1 from to = Inr f" for f
    using fs_Rename_managed[OF that assms(3) path_ok_not_managed(1)[OF assms(2)] path_ok_not_managed(1)[OF assms(1)]] k by simp
  show ?thesis
    using k by (cases ok) (auto simp: move_body_def m split: sum.splits dest: r)
qed

lemma mkdir_body_managed:
  assumes "path_ok rel" "managed q"
  shows "fst (mkdir_body io rel fs) q = fs q"
proof -
  obtain fs1 ok where m: "MkdirAll io fs rel = (fs1, ok)"
    by (cases "MkdirAll io fs rel")
  show ?thesis
    using MkdirAll_managed[OF m assms(2) path_ok_not_managed(1)[OF assms(1)]] by (simp add: mkdir_body_def m)
qed

lemma RemoveAll_managed: "path_ok rel \<Longrightarrow> managed q \<Longrightarrow> fst (RemoveAll io fs rel) q = fs q"
  using under_managed[of rel q] path_ok_not_managed(1)[of rel] by (auto simp: RemoveAll_def path_ok_def)

lemma extract_reg_managed:
  assumes "managed q"
  shows "fst (extract_reg io name sz mode content fs) q = fs q"
proof (cases "safeRel name")
  case (Inr rel)
  then have k: "path_ok (segs rel)"
    using safeRel_path_ok by blast
  obtain fs1 ok where m: "MkdirAll io fs (path_Dir (segs rel)) = (fs1, ok)"
    by (cases "MkdirAll io fs (path_Dir (segs rel))")
  have "fs1 q = fs q" "q \<noteq> segs rel"
    using MkdirAll_managed[OF m assms path_ok_not_managed(2)[OF k]] path_ok_not_managed(1)[OF k] assms by auto
  then show ?thesis
    using Inr by (cases ok) (auto simp: extract_reg_def m Let_def)
qed (simp add: extract_reg_def)

lemma extract_entries_managed: "managed q \<Longrightarrow> fst (extract_entries io broken ws es fs) q = fs q"
proof (induction es arbitrary: ws fs)
  case (Cons e es)
  show ?case
  proof (cases e)
    case (TarReg name sz mode content)
    obtain fs' r where x: "extract_reg (io (length es)) name sz mode content fs = (fs', r)"
      by (cases "extract_reg (io (length es)) name sz mode content fs")
    then show ?thesis
      using TarReg Cons extract_reg_managed[OF Cons.prems, of "io (length es)" name sz mode content fs]
      by (auto split: sum.splits)
  qed (use Cons in \<open>auto split: sum.splits\<close>)
qed simp

lemma OpenRoot_home: "OpenRoot v = Inr (v', fs) \<Longrightarrow> fs = home_of v"
  by (auto simp: OpenRoot_def home_of_def split: if_splits option.splits)

lemma with_root_frame:
  assumes "\<And>rel fs. path_ok rel \<Longrightarrow> fst (f rel fs) q = fs q"
  shows "home_of (fst (with_root v p f)) q = home_of v q"
  using assms[of "segs _" "home_of v"] safeRel_path_ok[of p] OpenRoot_home[of v]
  by (fastforce simp: with_root_def home_of_def split: sum.splits prod.splits)

datatype file_op =
    OpWrite home_io string string body "32 word" | OpDelete home_io string | OpMove home_io string string
  | OpMkdir home_io string | OpExtract "nat \<Rightarrow> home_io" "tar_entry list" bool

fun apply_op :: "file_op \<Rightarrow> volume \<Rightarrow> volume" where
  "apply_op (OpWrite io sfx p bd mode) v = fst (WriteFileFrom io sfx v p bd mode)"
| "apply_op (OpDelete io p) v = fst (DeleteFile io v p)"
| "apply_op (OpMove io from to) v = fst (MoveFile io v from to)"
| "apply_op (OpMkdir io p) v = fst (MakeDir io v p)"
| "apply_op (OpExtract io es broken) v = fst (ExtractTar io v es broken)"

lemma apply_op_managed: "managed q \<Longrightarrow> home_of (apply_op op v) q = home_of v q"
proof (cases op)
  case (OpMove io src dst)
  moreover assume "managed q"
  ultimately show ?thesis
    by (auto simp: MoveFile_def dest!: safeRel_path_ok intro!: with_root_frame move_body_managed split: sum.splits)
next
  case (OpExtract io es broken)
  moreover assume "managed q"
  ultimately show ?thesis
    using extract_entries_managed[of q io broken "[]" es "home_of v"] OpenRoot_home[of v]
    by (fastforce simp: ExtractTar_def home_of_def split: sum.splits prod.splits)
qed (auto simp: WriteFileFrom_def DeleteFile_def MakeDir_def intro!: with_root_frame write_body_managed mkdir_body_managed RemoveAll_managed)

text \<open>In a home without symbolic links no request to the file API reaches hostit's own directories. After any sequence of uploads, deletes, moves, new folders
  and archives, with any paths, bodies and archive entries and whatever the operating system refuses half-way, everything below
  \<open>.hostit\<close>, \<open>.ssh\<close>, \<open>.config\<close>, \<open>.local\<close> and \<open>.cache\<close> (the account's keys among it) is what it was. (The code's \<open>os.Root\<close>
  follows a link that stays inside the home, so an app that plants a link to \<open>.ssh\<close> in its own home redirects a request into it; homes with links are not modelled.)\<close>

lemma managed_dirs_untouched:
  assumes "q \<noteq> []" and "hd q \<in> set protected_names"
  shows "home_of (fold apply_op ops v) q = home_of v q"
proof -
  have "managed q"
    using assms by (simp add: managed_def)
  then show ?thesis
    by (induction ops arbitrary: v) (simp_all add: apply_op_managed)
qed

definition grants :: home_io where
  "grants = \<lparr>hio_mkdirs = 9, hio_open = True, hio_write = True, hio_close = True, hio_chmod = True, hio_rename = True, hio_remove = True,
     hio_gone = (\<lambda>_. False)\<rparr>"

definition keyed_home :: volume where
  "keyed_home = \<lparr>sv_exists = True, sv_files = Some [[''.ssh''] \<mapsto> FDir, [''.ssh'', ''authorized_keys''] \<mapsto> FFile ''key'' 0x180]\<rparr>"

lemma managed_dirs_untouched_witness:
  "home_of (fold apply_op [OpDelete grants ''a/../.ssh'', OpMove grants ''./.ssh'' ''x'', OpExtract (\<lambda>_. grants) [TarReg ''.ssh/authorized_keys'' 1 0 ''e''] False]
     keyed_home) [''.ssh'', ''authorized_keys''] = Some (FFile ''key'' 0x180)"
proof -
  have "home_of keyed_home [''.ssh'', ''authorized_keys''] = Some (FFile ''key'' 0x180)"
    by (simp add: keyed_home_def home_of_def)
  then show ?thesis
    by (subst managed_dirs_untouched) (simp_all add: protected_names_def)
qed

section \<open>Uploads\<close>

definition parent_of :: "fpath \<Rightarrow> fpath \<Rightarrow> bool" where
  "parent_of q p = (\<exists>k. 0 < k \<and> k < length p \<and> q = take k p)"

lemma MkdirAll_parents:
  assumes "MkdirAll io fs (path_Dir p) = (fs', ok)"
  shows "fs' q = fs q \<or> parent_of q p \<and> fs q = None \<and> fs' q = Some FDir"
proof -
  have "parent_of (take k (path_Dir p)) p" if "0 < k" "k \<le> length (path_Dir p)" for k
    using that unfolding parent_of_def path_Dir_def
    by (intro exI[of _ k]) (auto simp: butlast_conv_take min_def split: if_splits)
  then show ?thesis
    using MkdirAll_frame[OF assms, of q] by blast
qed

lemma parent_of_length: "parent_of q p \<Longrightarrow> length q < length p"
  by (auto simp: parent_of_def)

lemma parent_of_simps: "\<not> parent_of p p" "\<not> parent_of (path_Dir p @ [s]) p"
  using parent_of_length[of p p] parent_of_length[of "path_Dir p @ [s]" p] by (auto simp: path_Dir_def)

lemma write_body_cases:
  assumes "path_ok rel" and "write_body io sfx bd mode rel fs = (fs', r)" and "rel \<noteq> path_Dir rel @ [tempPrefix @ sfx]"
  shows "(r = None \<longrightarrow> fs' rel = Some (FFile (fst bd) (fileMode mode)) \<and> length (fst bd) \<le> maxUploadSize \<and> \<not> snd bd) \<and>
     (r \<noteq> None \<longrightarrow> fs' rel = fs rel) \<and>
     (q \<noteq> rel \<longrightarrow> fs' q = fs q \<or> parent_of q rel \<and> fs q = None \<and> fs' q = Some FDir \<or>
        q = path_Dir rel @ [tempPrefix @ sfx] \<and> fs q = None \<and> r \<noteq> None \<and> \<not> hio_remove io)"
proof -
  let ?tmp = "path_Dir rel @ [tempPrefix @ sfx]"
  obtain fs1 ok where m: "MkdirAll io fs (path_Dir rel) = (fs1, ok)"
    by (cases "MkdirAll io fs (path_Dir rel)")
  have f: "fs1 x = fs x \<or> parent_of x rel \<and> fs x = None \<and> fs1 x = Some FDir" for x
    using MkdirAll_parents[OF m] by blast
  have k: "fs1 rel = fs rel" "fs1 ?tmp = fs ?tmp" "rel \<noteq> []"
    using f[of rel] f[of ?tmp] parent_of_simps[of rel] assms(1) by (auto simp: path_ok_def)
  have r: "g = fs1(?tmp := None, rel \<mapsto> FFile c d)"
    if "fs_Rename io (fs1(?tmp \<mapsto> FFile c d)) ?tmp rel = Inr g" for g c d
    using that assms(3) by (auto simp: fs_Rename_def fun_eq_iff split: if_splits)
  show ?thesis
  proof (cases "ok \<and> hio_open io \<and> fs1 ?tmp = None")
    case False
    then have "fs' = fs1 \<and> r \<noteq> None"
      using assms(2) by (cases ok) (auto simp: write_body_def m Let_def fs_Stat_def split: if_splits)
    then show ?thesis
      using f[of q] k by blast
  next
    case True
    let ?w = "FFile (take (maxUploadSize + 1) (fst bd)) (fileMode mode)"
    consider "r \<noteq> None" "fs' = (if hio_remove io then fs1(?tmp := None) else fs1(?tmp \<mapsto> ?w))"
      | "r = None" "fs' = fs1(?tmp := None, rel \<mapsto> ?w)" "length (fst bd) \<le> maxUploadSize" "\<not> snd bd"
      using assms(2) True by (auto simp: write_body_def m Let_def fs_Stat_def split: if_splits sum.splits dest!: r)
    then show ?thesis
      using f[of q] k True assms(3) by cases (auto split: if_splits)
  qed
qed

lemma WriteFileFrom_cases:
  assumes "safeRel p = Inr rel" and "sv_exists v" and "WriteFileFrom io sfx v p bd mode = (v', r)"
  shows "(r = None \<longrightarrow> home_of v' (segs rel) = Some (FFile (fst bd) (fileMode mode)) \<and> length (fst bd) \<le> maxUploadSize \<and> \<not> snd bd) \<and>
     (r \<noteq> None \<longrightarrow> home_of v' (segs rel) = home_of v (segs rel)) \<and>
     (q \<noteq> segs rel \<longrightarrow> home_of v' q = home_of v q \<or> parent_of q (segs rel) \<and> home_of v q = None \<and> home_of v' q = Some FDir \<or>
        q = path_Dir (segs rel) @ [tempPrefix @ sfx] \<and> home_of v q = None \<and> r \<noteq> None \<and> \<not> hio_remove io)"
proof -
  have k: "path_ok (segs rel)"
    using safeRel_path_ok[OF assms(1)] by blast
  then have d: "segs rel \<noteq> path_Dir (segs rel) @ [tempPrefix @ sfx]"
    unfolding path_ok_def path_Dir_def by (metis HasPrefix_append last_snoc)
  obtain v1 where o: "OpenRoot v = Inr (v1, home_of v)"
    using assms(2) by (cases "sv_files v") (auto simp: OpenRoot_def home_of_def)
  obtain fs' where b: "write_body io sfx bd mode (segs rel) (home_of v) = (fs', r)" "home_of v' = fs'"
    using assms(1,3) o by (auto simp: WriteFileFrom_def with_root_def home_of_def split: prod.splits)
  show ?thesis
    using write_body_cases[OF k b(1) d, of q] unfolding b(2) .
qed

text \<open>C33: an upload is all or nothing. When it succeeds the file holds exactly the body that was sent, with the requested
  permissions; when it fails - a body over 64 MiB, a connection that breaks, a full disk, a refused rename - the file, or its absence, is what it was
  before. Either way no other file changes: at most missing parent directories appear, and a scratch file is left only
  when removing it failed too.\<close>

theorem upload_all_or_nothing:
  assumes "safeRel p = Inr rel" and "sv_exists v" and "WriteFileFrom io sfx v p bd mode = (v', r)"
  shows "(r = None \<longrightarrow> home_of v' (segs rel) = Some (FFile (fst bd) (fileMode mode)) \<and> length (fst bd) \<le> maxUploadSize \<and> \<not> snd bd) \<and>
     (r \<noteq> None \<longrightarrow> home_of v' (segs rel) = home_of v (segs rel)) \<and>
     (q \<noteq> segs rel \<longrightarrow> home_of v' q = home_of v q \<or> parent_of q (segs rel) \<and> home_of v q = None \<and> home_of v' q = Some FDir \<or>
        q = path_Dir (segs rel) @ [tempPrefix @ sfx] \<and> home_of v q = None \<and> r \<noteq> None \<and> \<not> hio_remove io)"
  by (rule WriteFileFrom_cases[OF assms])

definition empty_home :: volume where
  "empty_home = \<lparr>sv_exists = True, sv_files = Some (\<lambda>_. None)\<rparr>"

lemma safeRel_index: "safeRel ''public/index.html'' = Inr ''public/index.html''"
  by (simp add: safeRel_def Clean_rooted_def isProtected_def protectedDirs_def path_Base_def tempPrefix_def HasPrefix_def TrimPrefix_def
      TrimSuffix_def HasSuffix_def TrimSpace_def is_space_def)

theorem upload_all_or_nothing_witness:
  "\<exists>v'. WriteFileFrom grants ''ab'' empty_home ''public/index.html'' (''hi'', False) 0 = (v', None) \<and>
     home_of v' [''public'', ''index.html''] = Some (FFile ''hi'' defaultFileMode)"
proof -
  let ?w = "WriteFileFrom grants ''ab'' empty_home ''public/index.html'' (''hi'', False) 0"
  have s: "segs ''public/index.html'' = [''public'', ''index.html'']"
    by (simp add: segs_def)
  have n: "snd ?w = None"
    by (simp add: WriteFileFrom_def with_root_def safeRel_index OpenRoot_def empty_home_def s write_body_def MkdirAll_def path_Dir_def
        grants_def fs_Stat_def maxUploadSize_def fs_Rename_def Let_def tempPrefix_def)
  have "sv_exists empty_home"
    by (simp add: empty_home_def)
  then have "home_of (fst ?w) [''public'', ''index.html''] = Some (FFile ''hi'' defaultFileMode)"
    using upload_all_or_nothing[OF safeRel_index _ prod.collapse[symmetric, of ?w], of "[]"] n by (simp add: s fileMode_def)
  then show ?thesis
    using n by (metis prod.collapse)
qed

section \<open>Archives and listings\<close>

text \<open>What an archive says the home should hold: later entries win.\<close>

fun tar_files :: "tar_entry list \<Rightarrow> fs \<Rightarrow> fs" where
  "tar_files [] m = m"
| "tar_files (TarReg name sz mode content # es) m =
     tar_files es (case safeRel name of Inr rel \<Rightarrow> m(segs rel \<mapsto> FFile (take sz content) (fileMode mode)) | Inl _ \<Rightarrow> m)"
| "tar_files (e # es) m = tar_files es m"

lemma extract_reg_ok:
  assumes "extract_reg io name sz mode content fs = (fs', Inr rel)" and "m \<subseteq>\<^sub>m fs"
  shows "safeRel name = Inr rel \<and> m(segs rel \<mapsto> FFile (take sz content) (fileMode mode)) \<subseteq>\<^sub>m fs'"
proof -
  obtain fs1 where x: "safeRel name = Inr rel" "MkdirAll io fs (path_Dir (segs rel)) = (fs1, True)" "sz \<le> maxUploadSize"
      "fs' = fs1(segs rel \<mapsto> FFile (take maxUploadSize (take sz content)) (fileMode mode))"
    using assms(1) by (auto simp: extract_reg_def Let_def split: sum.splits prod.splits if_splits bool.splits)
  have "m \<subseteq>\<^sub>m fs1"
    using assms(2) MkdirAll_frame[OF x(2)] unfolding map_le_def by (metis domIff)
  then show ?thesis
    using x by (auto simp: map_le_def min_def)
qed

lemma extract_entries_ok:
  "extract_entries io broken ws es fs = (fs', Inr out) \<Longrightarrow> m \<subseteq>\<^sub>m fs \<Longrightarrow>
     \<not> broken \<and> tar_files es m \<subseteq>\<^sub>m fs' \<and> (\<forall>name. TarOther name \<notin> set es)"
proof (induction es arbitrary: ws fs m)
  case (Cons e es)
  show ?case
  proof (cases e)
    case (TarReg name sz mode content)
    obtain fs1 rel where x: "extract_reg (io (length es)) name sz mode content fs = (fs1, Inr rel)"
        "extract_entries io broken (ws @ [rel]) es fs1 = (fs', Inr out)"
      using Cons.prems(1) TarReg by (auto split: prod.splits sum.splits)
    show ?thesis
      using Cons.IH[OF x(2)] extract_reg_ok[OF x(1) Cons.prems(2)] TarReg by auto
  qed (use Cons in \<open>auto split: sum.splits\<close>)
qed (auto split: if_splits)

text \<open>An archive that is accepted is unpacked completely. If \<open>ExtractTar\<close> reports success, the archive was read to its end, held
  nothing but directories and regular files, and every regular entry is in the home with its bytes and
  permissions, the last entry for a path winning.\<close>

lemma ExtractTar_complete:
  assumes "ExtractTar io v es broken = (v', Inr out)"
  shows "\<not> broken \<and> (\<forall>name. TarOther name \<notin> set es) \<and> tar_files es Map.empty \<subseteq>\<^sub>m home_of v'"
proof -
  obtain v1 fs fs' where o: "OpenRoot v = Inr (v1, fs)" "extract_entries io broken [] es fs = (fs', Inr out)" "v' = v1\<lparr>sv_files := Some fs'\<rparr>"
    using assms by (auto simp: ExtractTar_def split: sum.splits prod.splits)
  then show ?thesis
    using extract_entries_ok[OF o(2), of Map.empty] by (simp add: home_of_def)
qed

lemma ExtractTar_complete_witness:
  "\<exists>v'. ExtractTar (\<lambda>_. grants) empty_home [TarReg ''public/index.html'' 2 0 ''hi''] False = (v', Inr [''public/index.html'']) \<and>
     home_of v' [''public'', ''index.html''] = Some (FFile ''hi'' defaultFileMode)"
proof -
  let ?e = "[TarReg ''public/index.html'' 2 0 ''hi'']"
  let ?x = "ExtractTar (\<lambda>_. grants) empty_home ?e False"
  have s: "segs ''public/index.html'' = [''public'', ''index.html'']"
    by (simp add: segs_def)
  have n: "snd ?x = Inr [''public/index.html'']"
    by (simp add: ExtractTar_def OpenRoot_def empty_home_def extract_reg_def safeRel_index s MkdirAll_def path_Dir_def grants_def
        maxUploadSize_def fs_Stat_def Let_def)
  then have "?x = (fst ?x, Inr [''public/index.html''])"
    by (metis prod.collapse)
  then have "tar_files ?e Map.empty \<subseteq>\<^sub>m home_of (fst ?x)"
    using ExtractTar_complete by blast
  then have "home_of (fst ?x) [''public'', ''index.html''] = Some (FFile ''hi'' defaultFileMode)"
    by (simp add: safeRel_index s map_le_def fileMode_def)
  then show ?thesis
    using n by (metis prod.collapse)
qed

lemma list_entries_bounds:
  "list_entries rel acc es = (fs, tr) \<Longrightarrow> length acc \<le> maxListEntries \<Longrightarrow> list_all (\<lambda>f. \<not> isHiddenFromListing (fi_Path f)) acc \<Longrightarrow>
     length fs \<le> maxListEntries \<and> list_all (\<lambda>f. \<not> isHiddenFromListing (fi_Path f)) fs \<and> (tr \<longrightarrow> length fs = maxListEntries)"
  by (induction rel acc es rule: list_entries.induct) (auto simp: Let_def split: if_splits option.splits)

text \<open>A listing has at most 500 entries, shows nothing hidden, and says so when it was cut.\<close>

lemma ListFiles_bounds:
  "ListFiles readDir v dir = Inr (rel, fs, tr) \<Longrightarrow>
     length fs \<le> maxListEntries \<and> list_all (\<lambda>f. \<not> isHiddenFromListing (fi_Path f)) fs \<and> (tr \<longrightarrow> length fs = maxListEntries)"
  by (auto simp: ListFiles_def split: sum.splits dest!: list_entries_bounds)

end
