(* ===== verification/Account_Admin.thy ===== *)
theory Account_Admin
  imports App_Lifecycle
begin

text \<open>
  Accounts and their administration: \<open>control/tabs.go\<close>, \<open>control/server_handler_account.go\<close>, \<open>control/server_handler_admin.go\<close> and the create,
  fork, tabs, keys and token handlers of \<open>control/server_handler_apps.go\<close>. A handler takes the decoded body (\<open>None\<close> when it does not
  decode) and returns the new state with the HTTP status. Writing keys on a node is the argument \<open>set_keys\<close>; telling a node about limits
  repeats what the manager records and is left out.
\<close>

section \<open>Tabs\<close>

definition toggleableTabs :: "string list" where
  "toggleableTabs = [''assistant'', ''files'', ''terminal'', ''logs'']"

definition normalizeTabs :: "string \<Rightarrow> bool \<Rightarrow> string" where
  "normalizeTabs csv assistantEnabled =
     (let keys = map TrimSpace (split_on (CHR '','') csv)
      in if \<not> list_ex (\<lambda>key. key \<noteq> '''') keys then ''''
         else let out = filter (\<lambda>key. key \<in> set keys \<and> \<not> (key = ''assistant'' \<and> \<not> assistantEnabled)) toggleableTabs;
                  hasPrimary = (assistantEnabled \<and> ''assistant'' \<in> set out \<or> ''files'' \<in> set out)
              in join_with (CHR '','') (if hasPrimary then out else ''files'' # out))"

section \<open>Keys and tokens of an account\<close>

primrec resync_all :: "set_keys_fn \<Rightarrow> string \<Rightarrow> db \<Rightarrow> App list \<Rightarrow> unit res" where
  "resync_all set_keys relay d [] = Inr ()"
| "resync_all set_keys relay d (a # apps) =
     (case resyncAppKeys set_keys relay d a of Inl e \<Rightarrow> Inl e | Inr _ \<Rightarrow> resync_all set_keys relay d apps)"

definition syncUserAppKeys :: "set_keys_fn \<Rightarrow> string \<Rightarrow> db \<Rightarrow> string \<Rightarrow> unit res" where
  "syncUserAppKeys set_keys relay d uid =
     (if uid = '''' then Inr () else resync_all set_keys relay d (AppsByOwner d uid @ AppsByCollaborator d uid))"

definition handleKeysAdd ::
  "(string \<Rightarrow> string option) \<Rightarrow> set_keys_fn \<Rightarrow> string \<Rightarrow> int \<Rightarrow> string \<Rightarrow> db \<Rightarrow> caller \<Rightarrow> (string \<times> string) option \<Rightarrow> db \<times> nat" where
  "handleKeysAdd parse_key set_keys relay now rid d c body =
     (case body of
        None \<Rightarrow> (d, 400)
      | Some (label, key) \<Rightarrow>
          (case cl_user c of
             None \<Rightarrow> (d, 400)
           | Some u \<Rightarrow>
               (case AddKey parse_key (unix_ns now) rid d (u_ID u) label key of
                  Inl e \<Rightarrow> (d, writeAppError e)
                | Inr (d1, _) \<Rightarrow>
                    (case syncUserAppKeys set_keys relay d1 (u_ID u) of Inl e \<Rightarrow> (d1, writeAppError e) | Inr _ \<Rightarrow> (d1, 201)))))"

definition handleKeysRename :: "db \<Rightarrow> caller \<Rightarrow> string \<Rightarrow> string option \<Rightarrow> db \<times> nat" where
  "handleKeysRename d c i body =
     (case body of
        None \<Rightarrow> (d, 400)
      | Some label \<Rightarrow> (case RenameKey d (userID c) i label of Inl e \<Rightarrow> (d, writeAppError e) | Inr d1 \<Rightarrow> (d1, 200)))"

definition handleKeysDelete :: "set_keys_fn \<Rightarrow> string \<Rightarrow> db \<Rightarrow> caller \<Rightarrow> string \<Rightarrow> db \<times> nat" where
  "handleKeysDelete set_keys relay d c i =
     (case RemoveUserKey d (userID c) i of
        Inl e \<Rightarrow> (d, writeAppError e)
      | Inr d1 \<Rightarrow> (case syncUserAppKeys set_keys relay d1 (userID c) of Inl e \<Rightarrow> (d1, writeAppError e) | Inr _ \<Rightarrow> (d1, 200)))"

definition handleTokensList :: "db \<Rightarrow> caller \<Rightarrow> Token list" where
  "handleTokensList d c = filter (\<lambda>tk. tk_AppName tk = '''') (TokensByUser d (userID c))"

text \<open>The answer of a created token carries the token itself, once.\<close>

definition handleTokensAdd ::
  "(string \<Rightarrow> string) \<Rightarrow> int \<Rightarrow> string \<Rightarrow> string \<Rightarrow> db \<Rightarrow> caller \<Rightarrow> (string \<times> string) option \<Rightarrow> db \<times> nat \<times> string" where
  "handleTokensAdd hash now rid bytes d c body =
     (case body of
        None \<Rightarrow> (d, 400, '''')
      | Some (label, appName) \<Rightarrow>
          (case cl_user c of
             None \<Rightarrow> (d, 400, '''')
           | Some u \<Rightarrow>
               (case (if appName \<noteq> '''' then map_sum id (\<lambda>_. ()) (ownedApp d c appName) else Inr ()) of
                  Inl e \<Rightarrow> (d, writeAppError e, '''')
                | Inr _ \<Rightarrow>
                    (case CreateAppToken hash (unix_ns now) rid bytes d (u_ID u) appName label of
                       Inl e \<Rightarrow> (d, writeAppError e, '''')
                     | Inr (d1, token, _) \<Rightarrow> (d1, 201, token)))))"

definition handleTokensDelete :: "db \<Rightarrow> caller \<Rightarrow> string \<Rightarrow> db \<times> nat" where
  "handleTokensDelete d c i = (case RemoveToken d (userID c) i of Inl e \<Rightarrow> (d, writeAppError e) | Inr d1 \<Rightarrow> (d1, 200))"

section \<open>The account page\<close>

record apiUsage =
  us_Apps :: nat
  us_DiskMB :: int
  us_PoolMemoryMB :: int
  us_PoolDiskMB :: int

record apiAccountResponse =
  ar_Email :: string
  ar_Name :: string
  ar_Role :: string
  ar_Status :: string
  ar_Limits :: "Limits option"
  ar_Usage :: "apiUsage option"
  ar_ConnectionsNeedReconnect :: nat
  ar_AssistantEnabled :: bool
  ar_AppListingEnabled :: bool
  ar_TechLevel :: string
  ar_AssistantPrompt :: string
  ar_DefaultTabs :: string
  ar_Onboarded :: bool

definition accountResponse :: "config \<Rightarrow> bool \<Rightarrow> db \<Rightarrow> caller \<Rightarrow> apiAccountResponse res" where
  "accountResponse cf assistant d c =
     (if cl_globalAdmin c then
        Inr \<lparr>ar_Email = ''admin-token'', ar_Name = ''Global admin token'', ar_Role = RoleAdmin, ar_Status = StatusActive, ar_Limits = None,
             ar_Usage = None, ar_ConnectionsNeedReconnect = 0, ar_AssistantEnabled = False, ar_AppListingEnabled = appListingEnabled cf d,
             ar_TechLevel = '''', ar_AssistantPrompt = '''', ar_DefaultTabs = '''', ar_Onboarded = True\<rparr>
      else case cl_user c of
             None \<Rightarrow> Inl (ErrText ''this token has no account behind it'')
           | Some u \<Rightarrow>
               let apps = liveApps (AppsByOwner d (u_ID u))
               in (case poolReserved d (u_ID u) '''' of
                     Inl e \<Rightarrow> Inl e
                   | Inr (poolMemory, poolDisk) \<Rightarrow>
                       Inr \<lparr>ar_Email = u_Email u, ar_Name = u_Name u, ar_Role = u_Role u, ar_Status = u_Status u,
                            ar_Limits = Some (User_Limits d u),
                            ar_Usage = Some \<lparr>us_Apps = length apps, us_DiskMB = sum_list (map a_DiskMB apps),
                                             us_PoolMemoryMB = poolMemory, us_PoolDiskMB = poolDisk\<rparr>,
                            ar_ConnectionsNeedReconnect = length (filter (\<lambda>x. c_Status x = ''needs_reconnect'') (Connections d (u_ID u))),
                            ar_AssistantEnabled = assistant, ar_AppListingEnabled = appListingEnabled cf d, ar_TechLevel = u_TechLevel u,
                            ar_AssistantPrompt = u_AssistantPrompt u, ar_DefaultTabs = u_DefaultTabs u, ar_Onboarded = u_Onboarded u\<rparr>))"

definition handleAccount :: "config \<Rightarrow> bool \<Rightarrow> db \<Rightarrow> caller \<Rightarrow> nat" where
  "handleAccount cf assistant d c = (case accountResponse cf assistant d c of Inl e \<Rightarrow> writeAppError e | Inr _ \<Rightarrow> 200)"

record apiUpdateAccountRequest =
  ua_TechLevel :: "string option"
  ua_AssistantPrompt :: "string option"
  ua_DefaultTabs :: "string option"
  ua_Onboarded :: "bool option"

definition patch_field :: "('a \<Rightarrow> 'b) \<Rightarrow> 'a option \<Rightarrow> 'b \<Rightarrow> 'b" where
  "patch_field f v old = (case v of None \<Rightarrow> old | Some x \<Rightarrow> f x)"

definition handleAccountUpdate :: "config \<Rightarrow> bool \<Rightarrow> db \<Rightarrow> caller \<Rightarrow> apiUpdateAccountRequest option \<Rightarrow> db \<times> nat" where
  "handleAccountUpdate cf assistant d c body =
     (case cl_user c of
        None \<Rightarrow> (d, 400)
      | Some u0 \<Rightarrow>
          (case body of
             None \<Rightarrow> (d, 400)
           | Some req \<Rightarrow>
               let u = u0\<lparr>u_TechLevel := patch_field TrimSpace (ua_TechLevel req) (u_TechLevel u0),
                          u_AssistantPrompt := patch_field TrimSpace (ua_AssistantPrompt req) (u_AssistantPrompt u0),
                          u_DefaultTabs := patch_field (\<lambda>t. normalizeTabs t assistant) (ua_DefaultTabs req) (u_DefaultTabs u0),
                          u_Onboarded := patch_field id (ua_Onboarded req) (u_Onboarded u0)\<rparr>
               in (case UpdateUserProfile d u of
                     Inl e \<Rightarrow> (d, writeAppError e)
                   | Inr d1 \<Rightarrow> (d1, handleAccount cf assistant d1 (c\<lparr>cl_user := Some u\<rparr>)))))"

section \<open>Administration\<close>

definition handleUsersInvite :: "int \<Rightarrow> string \<Rightarrow> db \<Rightarrow> (string \<times> string) option \<Rightarrow> db \<times> nat" where
  "handleUsersInvite now rid d body =
     (case body of
        None \<Rightarrow> (d, 400)
      | Some (email, role0) \<Rightarrow>
          let role = (if role0 = '''' then RoleUser else role0)
          in (case Invite (unix_ns now) rid d email role of Inl e \<Rightarrow> (d, writeUserError e) | Inr (d1, _) \<Rightarrow> (d1, 201)))"

definition handleDomainsAdd :: "int \<Rightarrow> db \<Rightarrow> string option \<Rightarrow> db \<times> nat" where
  "handleDomainsAdd now d body =
     (case body of
        None \<Rightarrow> (d, 400)
      | Some domain \<Rightarrow> (case AllowDomain (unix_ns now) d domain of Inl e \<Rightarrow> (d, writeUserError e) | Inr (d1, _) \<Rightarrow> (d1, 201)))"

definition handleDomainsDelete :: "db \<Rightarrow> string \<Rightarrow> db \<times> nat" where
  "handleDomainsDelete d domain = (case DisallowDomain d domain of Inl e \<Rightarrow> (d, writeUserError e) | Inr d1 \<Rightarrow> (d1, 200))"

text \<open>An absent limit is \<open>None\<close>, an explicit null \<open>Some None\<close>.\<close>

record apiUpdateUserRequest =
  uu_Role :: "string option"
  uu_Status :: "string option"
  uu_AppLimit :: "int option option"
  uu_MemoryMB :: "int option option"
  uu_DiskMB :: "int option option"
  uu_MemoryPoolMB :: "int option option"
  uu_DiskPoolMB :: "int option option"

definition applyUserLimits :: "manager \<Rightarrow> User \<Rightarrow> manager" where
  "applyUserLimits m u =
     (let limits = User_Limits (mg_db m) u
      in fold (\<lambda>a m'. let (memoryMB, diskMB, cpuMilli) = EffectiveAppLimits limits (a_MemoryLimitMB a) (a_DiskLimitMB a) (a_CPUMilli a)
                      in RecordLimits m' (a_Name a) memoryMB diskMB cpuMilli)
           (AppsByOwner (mg_db m) (u_ID u)) m)"

text \<open>The row \<open>handleUsersUpdate\<close> writes, or that it refuses the request.\<close>

definition user_patch :: "caller \<Rightarrow> User \<Rightarrow> apiUpdateUserRequest \<Rightarrow> User option" where
  "user_patch c u req =
     (if (case uu_Role req of
            None \<Rightarrow> False
          | Some role \<Rightarrow> role \<notin> {RoleAdmin, RoleUser, RoleViewer} \<or> (u_ID u = userID c \<and> role \<noteq> RoleAdmin)) then None
      else if (case uu_Status req of None \<Rightarrow> False | Some st \<Rightarrow> st \<notin> {StatusPending, StatusActive, StatusDenied}) then None
      else Some (u\<lparr>u_Role := patch_field id (uu_Role req) (u_Role u), u_Status := patch_field id (uu_Status req) (u_Status u),
                   u_AppLimit := patch_field id (uu_AppLimit req) (u_AppLimit u), u_MemoryMB := patch_field id (uu_MemoryMB req) (u_MemoryMB u),
                   u_DiskMB := patch_field id (uu_DiskMB req) (u_DiskMB u), u_MemoryPoolMB := patch_field id (uu_MemoryPoolMB req) (u_MemoryPoolMB u),
                   u_DiskPoolMB := patch_field id (uu_DiskPoolMB req) (u_DiskPoolMB u)\<rparr>))"

definition handleUsersUpdate :: "manager \<Rightarrow> caller \<Rightarrow> string \<Rightarrow> apiUpdateUserRequest option \<Rightarrow> manager \<times> nat" where
  "handleUsersUpdate m c i body =
     (case body of
        None \<Rightarrow> (m, 400)
      | Some req \<Rightarrow>
          (case Store_User (mg_db m) i of
             Inl e \<Rightarrow> (m, writeAppError e)
           | Inr u0 \<Rightarrow>
               (case user_patch c u0 req of
                  None \<Rightarrow> (m, 400)
                | Some u \<Rightarrow>
                    (case UpdateUser (mg_db m) u of
                       Inl e \<Rightarrow> (m, writeAppError e)
                     | Inr d \<Rightarrow>
                         let m1 = m\<lparr>mg_db := d\<rparr>
                         in (if uu_MemoryMB req \<noteq> None \<or> uu_DiskMB req \<noteq> None then applyUserLimits m1 u else m1, 200)))))"

definition transferTarget :: "db \<Rightarrow> string \<Rightarrow> string \<Rightarrow> User res" where
  "transferTarget d i leavingID =
     (if i = '''' then Inl (ErrText ''transfer_to is required when apps=transfer'')
      else if i = leavingID then Inl (ErrText ''cannot transfer a user's apps to themselves'')
      else case Store_User d i of
             Inl _ \<Rightarrow> Inl (ErrText ''no such user to transfer to'')
           | Inr target \<Rightarrow> if u_Status target \<noteq> StatusActive then Inl (ErrText ''not an active account'') else Inr target)"

primrec delete_all :: "manager \<Rightarrow> App list \<Rightarrow> manager \<times> unit res" where
  "delete_all m [] = (m, Inr ())"
| "delete_all m (a # apps) = (case DeleteApp m (a_Name a) of Inl e \<Rightarrow> (m, Inl e) | Inr m' \<Rightarrow> delete_all m' apps)"

definition delete_user :: "manager \<Rightarrow> string \<Rightarrow> manager \<times> nat" where
  "delete_user m i = (case RemoveUser (mg_db m) i of Inl e \<Rightarrow> (m, writeAppError e) | Inr d \<Rightarrow> (m\<lparr>mg_db := d\<rparr>, 200))"

text \<open>Updating the keys on the nodes after a transfer may fail; that is only logged.\<close>

definition handleUsersDelete :: "manager \<Rightarrow> caller \<Rightarrow> string \<Rightarrow> string \<Rightarrow> string \<Rightarrow> manager \<times> nat" where
  "handleUsersDelete m c i apps transfer_to =
     (if i = userID c then (m, 400)
      else case Store_User (mg_db m) i of
             Inl e \<Rightarrow> (m, writeAppError e)
           | Inr u \<Rightarrow>
               if apps = ''transfer'' then
                 (case transferTarget (mg_db m) transfer_to (u_ID u) of
                    Inl _ \<Rightarrow> (m, 400)
                  | Inr target \<Rightarrow> delete_user (m\<lparr>mg_db := fst (TransferApps (mg_db m) (u_ID u) (u_ID target))\<rparr>) (u_ID u))
               else if apps = ''delete'' then
                 (case delete_all m (AppsByOwner (mg_db m) (u_ID u)) of
                    (m', Inl e) \<Rightarrow> (m', writeAppError e)
                  | (m', Inr _) \<Rightarrow> delete_user m' (u_ID u))
               else (m, 400))"

record apiUpdateSettingsRequest =
  sr_DefaultAppLimit :: "int option"
  sr_DefaultMemoryMB :: "int option"
  sr_DefaultDiskMB :: "int option"
  sr_DefaultMemoryPoolMB :: "int option"
  sr_DefaultDiskPoolMB :: "int option"
  sr_InfoPrompt :: "string option"
  sr_DefaultAssistantModel :: "string option"
  sr_AppListing :: "bool option"

definition set_if :: "string \<Rightarrow> string option \<Rightarrow> db \<Rightarrow> db" where
  "set_if key v d = (case v of None \<Rightarrow> d | Some x \<Rightarrow> SetSetting d key x)"

definition handleSettingsUpdate :: "db \<Rightarrow> apiUpdateSettingsRequest option \<Rightarrow> db \<times> nat" where
  "handleSettingsUpdate d body =
     (case body of
        None \<Rightarrow> (d, 400)
      | Some req \<Rightarrow>
          let l0 = Defaults d;
              l = \<lparr>l_AppLimit = patch_field id (sr_DefaultAppLimit req) (l_AppLimit l0), l_MemoryMB = patch_field id (sr_DefaultMemoryMB req) (l_MemoryMB l0),
                   l_DiskMB = patch_field id (sr_DefaultDiskMB req) (l_DiskMB l0),
                   l_MemoryPoolMB = patch_field id (sr_DefaultMemoryPoolMB req) (l_MemoryPoolMB l0),
                   l_DiskPoolMB = patch_field id (sr_DefaultDiskPoolMB req) (l_DiskPoolMB l0)\<rparr>
          in (case SetDefaults d l of
                Inl e \<Rightarrow> (d, writeAppError e)
              | Inr d1 \<Rightarrow>
                  (set_if ''app_listing'' (map_option (\<lambda>b. if b then ''true'' else ''false'') (sr_AppListing req))
                    (set_if ''default_assistant_model'' (map_option TrimSpace (sr_DefaultAssistantModel req))
                      (set_if ''info_prompt'' (map_option TrimSpace (sr_InfoPrompt req)) d1)), 200)))"

definition infoPrompt :: "string \<Rightarrow> db \<Rightarrow> string" where
  "infoPrompt configured d = (let v = Setting d ''info_prompt'' in if v \<noteq> '''' then v else configured)"

section \<open>Creating and forking through the API\<close>

definition writeSnapshotError :: "err \<Rightarrow> nat" where
  "writeSnapshotError e = (if e = ErrSnapshotNotFound then 404 else writeAppError e)"

text \<open>The randomness and clock a new token needs.\<close>

record token_env =
  te_hash :: "string \<Rightarrow> string"
  te_now :: int
  te_rid :: string
  te_bytes :: string

definition agentToken :: "token_env \<Rightarrow> db \<Rightarrow> App \<Rightarrow> db \<times> string" where
  "agentToken te d a =
     (case AppToken (te_hash te) (unix_ns (te_now te)) (te_rid te) (te_bytes te) d (a_OwnerID a) (a_Name a) of
        Inl _ \<Rightarrow> (d, '''')
      | Inr (d', token) \<Rightarrow> (d', token))"

text \<open>What follows a successful create: the event and the agent token.\<close>

definition created :: "token_env \<Rightarrow> manager \<Rightarrow> caller \<Rightarrow> App \<Rightarrow> string \<Rightarrow> manager" where
  "created te m c a detail =
     m\<lparr>mg_db := fst (agentToken te (logAction (te_now te) (mg_db m) c (a_Name a) ''created'' detail) a)\<rparr>"

record apiCreateAppRequest =
  ca_Name :: string
  ca_SSHKeys :: "string list"
  ca_Private :: bool

definition handleAppsCreate :: "create_env \<Rightarrow> token_env \<Rightarrow> manager \<Rightarrow> caller \<Rightarrow> apiCreateAppRequest option \<Rightarrow> manager \<times> nat" where
  "handleAppsCreate env te m c body =
     (if (case cl_user c of None \<Rightarrow> False | Some u \<Rightarrow> u_Role u = RoleViewer) then (m, 403)
      else case body of
             None \<Rightarrow> (m, 400)
           | Some req \<Rightarrow>
               (case checkAppLimit (mg_db m) c of
                  Inl e \<Rightarrow> (m, writeAppError e)
                | Inr _ \<Rightarrow>
                    let opts = \<lparr>co_OwnerID = userID c, co_RequestKeys = ca_SSHKeys req, co_ProfileKeys = KeyStrings (mg_db m) (userID c),
                                co_MemoryMB = callerMemoryLimit (mg_db m) c, co_DiskMB = callerDiskLimit (mg_db m) c,
                                co_Host = '''', co_Private = ca_Private req\<rparr>
                    in (case CreateApp env m (ca_Name req) opts of
                          (m1, Inl e) \<Rightarrow> (m1, writeAppError e)
                        | (m1, Inr a) \<Rightarrow> (created te m1 c a ''App created'', 201))))"

text \<open>The body of a fork is the new name and a snapshot id, empty for the current state.\<close>

definition handleAppsFork :: "create_env \<Rightarrow> token_env \<Rightarrow> manager \<Rightarrow> caller \<Rightarrow> string \<Rightarrow> (string \<times> string) option \<Rightarrow> manager \<times> nat" where
  "handleAppsFork env te m c name body =
     (case ownedApp (mg_db m) c name of
        Inl e \<Rightarrow> (m, writeAppError e)
      | Inr source \<Rightarrow>
          (case body of
             None \<Rightarrow> (m, 400)
           | Some (newName, snapshotID) \<Rightarrow>
               (case checkAppLimit (mg_db m) c of
                  Inl e \<Rightarrow> (m, writeAppError e)
                | Inr _ \<Rightarrow>
                    let opts = \<lparr>co_OwnerID = userID c, co_RequestKeys = [], co_ProfileKeys = KeyStrings (mg_db m) (userID c),
                                co_MemoryMB = callerMemoryLimit (mg_db m) c, co_DiskMB = callerDiskLimit (mg_db m) c,
                                co_Host = '''', co_Private = False\<rparr>
                    in (case Fork env m (a_Name source) newName snapshotID opts of
                          (m1, Inl e) \<Rightarrow> (m1, writeSnapshotError e)
                        | (m1, Inr a) \<Rightarrow> (created te m1 c a (''Forked from '' @ a_Name source), 201)))))"

section \<open>Tabs, keys and the token of an app\<close>

definition handleAppsSetTabs :: "bool \<Rightarrow> int \<Rightarrow> db \<Rightarrow> caller \<Rightarrow> string \<Rightarrow> string option \<Rightarrow> db \<times> nat" where
  "handleAppsSetTabs assistant now d c name body =
     (case ownerApp d c name of
        Inl e \<Rightarrow> (d, writeAppError e)
      | Inr a \<Rightarrow>
          (case body of
             None \<Rightarrow> (d, 400)
           | Some tabs \<Rightarrow>
               (case SetAppTabs d (a_Name a) (normalizeTabs tabs assistant) of
                  Inl e \<Rightarrow> (d, writeAppError e)
                | Inr d1 \<Rightarrow> (logAction now d1 c (a_Name a) ''tabs'' ''Changed which tabs are shown'', 200))))"

definition handleAppsSetKeys :: "set_keys_fn \<Rightarrow> string \<Rightarrow> db \<Rightarrow> caller \<Rightarrow> string \<Rightarrow> string list option \<Rightarrow> db \<times> nat" where
  "handleAppsSetKeys set_keys relay d c name body =
     (case body of
        None \<Rightarrow> (d, 400)
      | Some keys \<Rightarrow>
          (case ownedApp d c name of
             Inl e \<Rightarrow> (d, writeAppError e)
           | Inr a \<Rightarrow>
               let d1 = SetAppKeys d (a_Name a) keys
               in (case set_keys (a_Name a) keys (appendRelayKey relay (a_Host a) (appProfileKeys d a)) of
                     Inl e \<Rightarrow> (d1, writeAppError e)
                   | Inr _ \<Rightarrow> (d1, 200))))"

text \<open>Only the owner and admins read the agent token; reading it may create it.\<close>

definition handleAppsGet :: "token_env \<Rightarrow> db \<Rightarrow> caller \<Rightarrow> string \<Rightarrow> db \<times> nat \<times> string" where
  "handleAppsGet te d c name =
     (case ownedApp d c name of
        Inl e \<Rightarrow> (d, writeAppError e, '''')
      | Inr a \<Rightarrow>
          if isAdmin c \<or> a_OwnerID a = userID c then (case agentToken te d a of (d1, token) \<Rightarrow> (d1, 200, token))
          else (d, 200, ''''))"

definition handleAppsRotateToken :: "token_env \<Rightarrow> db \<Rightarrow> caller \<Rightarrow> string \<Rightarrow> db \<times> nat \<times> string" where
  "handleAppsRotateToken te d c name =
     (case ownerApp d c name of
        Inl e \<Rightarrow> (d, writeAppError e, '''')
      | Inr a \<Rightarrow>
          (case RotateAppToken (te_hash te) (unix_ns (te_now te)) (te_rid te) (te_bytes te) d (a_OwnerID a) (a_Name a) of
             (d1, Inl e) \<Rightarrow> (d1, writeAppError e, '''')
           | (d1, Inr token) \<Rightarrow> (logAction (te_now te) d1 c (a_Name a) ''token'' ''Regenerated the API token'', 200, token)))"

section \<open>Tabs are canonical\<close>

lemma filter_tabs:
  "filter P toggleableTabs =
     (if P ''assistant'' then [''assistant''] else []) @ (if P ''files'' then [''files''] else [])
     @ (if P ''terminal'' then [''terminal''] else []) @ (if P ''logs'' then [''logs''] else [])"
  by (simp add: toggleableTabs_def)

text \<open>The tab sets \<open>normalizeTabs\<close> can produce.\<close>

definition tab_sets :: "bool \<Rightarrow> string list set" where
  "tab_sets en = {ts. ts = filter (\<lambda>k. k \<in> set ts) toggleableTabs \<and> (''files'' \<in> set ts \<or> en \<and> ''assistant'' \<in> set ts) \<and> (\<not> en \<longrightarrow> ''assistant'' \<notin> set ts)}"

lemma normalizeTabs_in:
  assumes "list_ex (\<lambda>key. key \<noteq> '''') (map TrimSpace (split_on (CHR '','') csv))"
  shows "\<exists>ts \<in> tab_sets en. normalizeTabs csv en = join_with (CHR '','') ts"
proof -
  define P where "P key \<longleftrightarrow> key \<in> set (map TrimSpace (split_on (CHR '','') csv)) \<and> \<not> (key = ''assistant'' \<and> \<not> en)" for key
  let ?out = "filter P toggleableTabs"
  let ?ts = "if en \<and> ''assistant'' \<in> set ?out \<or> ''files'' \<in> set ?out then ?out else ''files'' # ?out"
  have "normalizeTabs csv en = join_with (CHR '','') ?ts" using assms unfolding normalizeTabs_def P_def by (simp add: Let_def)
  moreover have "\<not> en \<Longrightarrow> \<not> P ''assistant''" by (simp add: P_def)
  then have "?ts \<in> tab_sets en" unfolding tab_sets_def by (auto simp: filter_tabs)
  ultimately show ?thesis by blast
qed

lemma tab_set_parts:
  assumes "ts \<in> tab_sets en"
  shows "ts \<noteq> []" "set ts \<subseteq> {''assistant'', ''files'', ''terminal'', ''logs''}" "split_on (CHR '','') (join_with (CHR '','') ts) = ts"
    "map TrimSpace ts = ts" "filter (\<lambda>k. k \<in> set ts \<and> \<not> (k = ''assistant'' \<and> \<not> en)) toggleableTabs = ts"
    "en \<and> ''assistant'' \<in> set ts \<or> ''files'' \<in> set ts"
proof -
  have canon: "ts = filter (\<lambda>k. k \<in> set ts) toggleableTabs" and p: "''files'' \<in> set ts \<or> en \<and> ''assistant'' \<in> set ts"
    and en: "\<not> en \<Longrightarrow> ''assistant'' \<notin> set ts"
    using assms unfolding tab_sets_def by blast+
  show "ts \<noteq> []" using p by auto
  have "set ts = {k \<in> set toggleableTabs. k \<in> set ts}" using arg_cong[OF canon, of set] by simp
  then show sub: "set ts \<subseteq> {''assistant'', ''files'', ''terminal'', ''logs''}" by (auto simp: toggleableTabs_def)
  then show "split_on (CHR '','') (join_with (CHR '','') ts) = ts" using \<open>ts \<noteq> []\<close> by (intro split_join) auto
  have "TrimSpace k = k" if "k \<in> {''assistant'', ''files'', ''terminal'', ''logs''}" for k
    using that by (auto simp: TrimSpace_def is_space_def)
  then show "map TrimSpace ts = ts" using sub by (intro map_idI) blast
  have "filter (\<lambda>k. k \<in> set ts \<and> \<not> (k = ''assistant'' \<and> \<not> en)) toggleableTabs = filter (\<lambda>k. k \<in> set ts) toggleableTabs"
    using en by (intro filter_cong) auto
  then show "filter (\<lambda>k. k \<in> set ts \<and> \<not> (k = ''assistant'' \<and> \<not> en)) toggleableTabs = ts" using canon by simp
  show "en \<and> ''assistant'' \<in> set ts \<or> ''files'' \<in> set ts" using p by blast
qed

lemma normalizeTabs_fixed:
  assumes "ts \<in> tab_sets en"
  shows "normalizeTabs (join_with (CHR '','') ts) en = join_with (CHR '','') ts"
proof -
  note p = tab_set_parts[OF assms]
  have "list_ex (\<lambda>key. key \<noteq> '''') ts" using p(1,2) by (cases ts) auto
  then show ?thesis unfolding normalizeTabs_def p(3,4) Let_def p(5) using p(6) by simp
qed

text \<open>Tab sets are canonical. \<open>normalizeTabs\<close> answers the empty string exactly for an input that names nothing; any other answer lists known tabs
  once each in the canonical order, always has a primary pane (the files, or the assistant when there is one), never names an assistant the
  instance does not have, and is left alone by a second normalisation.\<close>

lemma normalizeTabs_canonical:
  "let t = normalizeTabs csv en; parts = split_on (CHR '','') t
   in (t = '''' \<longleftrightarrow> (\<forall>p \<in> set (split_on (CHR '','') csv). TrimSpace p = ''''))
      \<and> (t \<noteq> '''' \<longrightarrow> parts = filter (\<lambda>k. k \<in> set parts) toggleableTabs \<and> (''files'' \<in> set parts \<or> en \<and> ''assistant'' \<in> set parts)
            \<and> (\<not> en \<longrightarrow> ''assistant'' \<notin> set parts))
      \<and> normalizeTabs t en = t"
proof (cases "list_ex (\<lambda>key. key \<noteq> '''') (map TrimSpace (split_on (CHR '','') csv))")
  case True
  then obtain ts where ts: "ts \<in> tab_sets en" "normalizeTabs csv en = join_with (CHR '','') ts" using normalizeTabs_in by blast
  note p = tab_set_parts[OF ts(1)]
  have "join_with (CHR '','') ts \<noteq> ''''" using p(1,2) by (cases ts; cases "tl ts") auto
  then show ?thesis
    using ts True p(3) normalizeTabs_fixed[OF ts(1)] by (auto simp: Let_def list_ex_iff tab_sets_def)
next
  case False
  then have "normalizeTabs csv en = ''''" by (simp add: normalizeTabs_def Let_def)
  moreover have "normalizeTabs '''' en = ''''" by (simp add: normalizeTabs_def TrimSpace_def)
  ultimately show ?thesis using False by (auto simp: Let_def list_ex_iff)
qed

lemma normalizeTabs_canonical_witness:
  "normalizeTabs '' logs,nope,files'' True = ''files,logs'' \<and> normalizeTabs ''files,logs'' True = ''files,logs''"
proof -
  have "normalizeTabs '' logs,nope,files'' True = ''files,logs''"
    by (simp add: normalizeTabs_def TrimSpace_def is_space_def toggleableTabs_def)
  then show ?thesis using normalizeTabs_canonical[of "'' logs,nope,files''" True] by (simp add: Let_def)
qed

section \<open>Deleting an account\<close>

lemma DeleteApp_app:
  assumes "db_unique (mg_db m)" "a \<in> set (app_tbl (mg_db m))"
  obtains m' where "DeleteApp m (a_Name a) = Inr m'" "db_unique (mg_db m')" "app_tbl (mg_db m') = filter (\<lambda>b. b \<noteq> a) (app_tbl (mg_db m))"
    "user_tbl (mg_db m') = user_tbl (mg_db m)"
proof -
  have s: "Store_App (mg_db m) (a_Name a) = Inr a" using assms by (simp add: Store_App_Inr)
  obtain d where d: "RemoveApp (mg_db m) (a_Name a) = Inr d" using RemoveApp_tables[OF s] by blast
  have "app_tbl d = filter (\<lambda>b. b \<noteq> a) (app_tbl (mg_db m))"
    unfolding RemoveApp_app_tbl[OF d] tbl_delete_def using name_eq_iff[OF assms] by (intro filter_cong) auto
  moreover have "user_tbl d = user_tbl (mg_db m)" using d RemoveApp_tables[OF s] by (auto simp: Let_def)
  moreover have "DeleteApp m (a_Name a) = Inr (delete_reserve (m\<lparr>mg_db := d\<rparr>) (a_Port a))" using s d by (simp add: DeleteApp_def delete_remove_def)
  ultimately show ?thesis using RemoveApp_unique[OF d assms(1)] that by (simp add: delete_reserve_def)
qed

lemma delete_all_ok:
  assumes "db_unique (mg_db m)" "set apps \<subseteq> set (app_tbl (mg_db m))" "distinct apps"
  shows "\<exists>m'. delete_all m apps = (m', Inr ()) \<and> db_unique (mg_db m') \<and> app_tbl (mg_db m') = filter (\<lambda>a. a \<notin> set apps) (app_tbl (mg_db m))
    \<and> user_tbl (mg_db m') = user_tbl (mg_db m)"
  using assms
proof (induction apps arbitrary: m)
  case (Cons a apps)
  from Cons.prems(2) have "a \<in> set (app_tbl (mg_db m))" by simp
  with Cons.prems(1) obtain m1 where m1: "DeleteApp m (a_Name a) = Inr m1" "db_unique (mg_db m1)"
      "app_tbl (mg_db m1) = filter (\<lambda>b. b \<noteq> a) (app_tbl (mg_db m))" "user_tbl (mg_db m1) = user_tbl (mg_db m)"
    by (rule DeleteApp_app)
  have "set apps \<subseteq> set (app_tbl (mg_db m1))" using Cons.prems(2,3) m1(3) by auto
  from Cons.IH[OF m1(2) this] Cons.prems(3) m1 show ?case by (auto simp: conj_commute)
qed simp

lemma AppsByOwner_distinct: "db_unique d \<Longrightarrow> distinct (AppsByOwner d uid)"
  unfolding AppsByOwner_def using tbl_unique_distinct[OF db_uniqueD(1), of d a_Name]
  by (auto simp: app_conflict_def distinct_map)

lemma fold_transfer_tables [simp]:
  "app_tbl (fold (transfer_one uid) apps d) = app_tbl d" "user_tbl (fold (transfer_one uid) apps d) = user_tbl d"
  by (induction apps arbitrary: d) (simp_all add: transfer_one_def)

lemma delete_user_200:
  assumes "delete_user m i = (m', 200)"
  shows "app_tbl (mg_db m') = app_tbl (mg_db m)" "user_tbl (mg_db m') = filter (\<lambda>u. u_ID u \<noteq> i) (user_tbl (mg_db m))"
    "\<forall>t \<in> set (token_tbl (mg_db m')). tk_UserID t \<noteq> i" "\<forall>g \<in> set (app_collaborator_tbl (mg_db m')). g_who g \<noteq> i"
    "\<forall>g \<in> set (app_viewer_tbl (mg_db m')). g_who g \<noteq> i"
  using assms by (auto simp: delete_user_def RemoveUser_def tbl_delete_def writeAppError_def writeUserError_def split: sum.splits if_splits)

lemma delete_user_found: "\<exists>u \<in> set (user_tbl (mg_db m)). u_ID u = i \<Longrightarrow> \<exists>m'. delete_user m i = (m', 200)"
  by (auto simp: delete_user_def RemoveUser_def)

lemma TransferApps_tables:
  "app_tbl (fst (TransferApps d i j)) = map (\<lambda>a. if a_OwnerID a = i then a\<lparr>a_OwnerID := j\<rparr> else a) (app_tbl d)"
  "user_tbl (fst (TransferApps d i j)) = user_tbl d"
  by (simp_all add: TransferApps_def Let_def tbl_update_def)

lemma transferTarget_Inr:
  "transferTarget d j i = Inr t \<Longrightarrow> j \<noteq> i \<and> t \<in> set (user_tbl d) \<and> u_ID t = j \<and> u_Status t = StatusActive"
  by (auto simp: transferTarget_def Store_User_def split: if_splits sum.splits option.splits dest: tbl_find_Some)

lemma handleUsersDelete_cases:
  assumes "db_unique (mg_db m)" "handleUsersDelete m c i apps j = (m', s)"
  obtains (refused) "s \<noteq> 200" "m' = m" "\<not> (apps = ''delete'' \<and> i \<noteq> userID c \<and> (\<exists>u \<in> set (user_tbl (mg_db m)). u_ID u = i))"
  | (transferred) t m1 where "apps = ''transfer''" "i \<noteq> userID c" "transferTarget (mg_db m) j i = Inr t" "delete_user m1 i = (m', 200)" "s = 200"
      "m1 = m\<lparr>mg_db := fst (TransferApps (mg_db m) i j)\<rparr>"
  | (deleted) m1 where "apps = ''delete''" "i \<noteq> userID c" "delete_user m1 i = (m', 200)" "s = 200" "user_tbl (mg_db m1) = user_tbl (mg_db m)"
      "app_tbl (mg_db m1) = filter (\<lambda>a. a_OwnerID a \<noteq> i) (app_tbl (mg_db m))"
proof (cases "i = userID c \<or> \<not> (\<exists>u \<in> set (user_tbl (mg_db m)). u_ID u = i)")
  case True
  moreover have "Store_User (mg_db m) i = Inl ErrUserNotFound" if "\<forall>u \<in> set (user_tbl (mg_db m)). u_ID u \<noteq> i"
    using that by (auto simp: Store_User_def tbl_find_None split: option.splits)
  ultimately have "s \<noteq> 200 \<and> m' = m" using assms(2) by (auto simp: handleUsersDelete_def writeAppError_def writeUserError_def split: if_splits)
  with True show ?thesis using refused by blast
next
  case False
  then obtain u0 where "u0 \<in> set (user_tbl (mg_db m))" "u_ID u0 = i" by blast
  then obtain u where find: "tbl_find (\<lambda>u. u_ID u = i) (user_tbl (mg_db m)) = Some u"
    using tbl_find_exists[of u0 "user_tbl (mg_db m)" "\<lambda>u. u_ID u = i"] by blast
  then have u: "Store_User (mg_db m) i = Inr u" "u_ID u = i" using tbl_find_Some[OF find] by (simp_all add: Store_User_def)
  have found: "\<exists>m'. delete_user m1 i = (m', 200)" if "user_tbl (mg_db m1) = user_tbl (mg_db m)" for m1
    using delete_user_found[of m1 i] that False by auto
  consider "apps = ''transfer''" | "apps = ''delete''" | "apps \<noteq> ''transfer''" "apps \<noteq> ''delete''" by blast
  then show ?thesis
  proof cases
    case 1
    show ?thesis
    proof (cases "transferTarget (mg_db m) j i")
      case (Inl e)
      then show ?thesis using 1 assms(2) False u refused by (auto simp: handleUsersDelete_def)
    next
      case (Inr t)
      let ?m1 = "m\<lparr>mg_db := fst (TransferApps (mg_db m) i j)\<rparr>"
      have "delete_user ?m1 i = (m', s)" using 1 assms(2) False u Inr transferTarget_Inr[OF Inr] by (simp add: handleUsersDelete_def)
      then show ?thesis using 1 False Inr found[of ?m1] transferred[of t ?m1] by (auto simp: TransferApps_tables)
    qed
  next
    case 2
    have "set (AppsByOwner (mg_db m) i) \<subseteq> set (app_tbl (mg_db m))" by (auto simp: AppsByOwner_def)
    from delete_all_ok[OF assms(1) this AppsByOwner_distinct[OF assms(1)]]
    obtain m1 where m1: "delete_all m (AppsByOwner (mg_db m) i) = (m1, Inr ())" "user_tbl (mg_db m1) = user_tbl (mg_db m)"
      "app_tbl (mg_db m1) = filter (\<lambda>a. a \<notin> set (AppsByOwner (mg_db m) i)) (app_tbl (mg_db m))" by blast
    have "filter (\<lambda>a. a \<notin> set (AppsByOwner (mg_db m) i)) (app_tbl (mg_db m)) = filter (\<lambda>a. a_OwnerID a \<noteq> i) (app_tbl (mg_db m))"
      by (intro filter_cong) (auto simp: AppsByOwner_def)
    moreover have "delete_user m1 i = (m', s)" using 2 assms(2) False u m1(1) by (simp add: handleUsersDelete_def)
    ultimately show ?thesis using 2 False found[OF m1(2)] m1 deleted[of m1] by auto
  next
    case 3
    then show ?thesis using assms(2) False u refused by (auto simp: handleUsersDelete_def)
  qed
qed

text \<open>C28: deleting an account. Unless it is refused, and then nothing at all has changed, nobody and nothing is left of the account: no user row, token, collaborator or
  viewer grant, and no app without an owner. The apps are gone when the caller asked for that, which always succeeds for an existing other
  account, or belong to the named person, who exists and is active; all other apps are as they were.\<close>

theorem handleUsersDelete_complete:
  assumes "db_unique (mg_db m)" and "handleUsersDelete m c i apps j = (m', s)"
  shows "if s = 200
    then (\<forall>u \<in> set (user_tbl (mg_db m')). u_ID u \<noteq> i) \<and> (\<forall>a \<in> set (app_tbl (mg_db m')). a_OwnerID a \<noteq> i)
       \<and> (\<forall>t \<in> set (token_tbl (mg_db m')). tk_UserID t \<noteq> i)
       \<and> (\<forall>g \<in> set (app_collaborator_tbl (mg_db m')) \<union> set (app_viewer_tbl (mg_db m')). g_who g \<noteq> i)
       \<and> (apps = ''delete'' \<and> app_tbl (mg_db m') = filter (\<lambda>a. a_OwnerID a \<noteq> i) (app_tbl (mg_db m))
          \<or> apps = ''transfer'' \<and> app_tbl (mg_db m') = map (\<lambda>a. if a_OwnerID a = i then a\<lparr>a_OwnerID := j\<rparr> else a) (app_tbl (mg_db m))
             \<and> (\<exists>t \<in> set (user_tbl (mg_db m')). u_ID t = j \<and> u_Status t = StatusActive))
    else m' = m \<and> \<not> (apps = ''delete'' \<and> i \<noteq> userID c \<and> (\<exists>u \<in> set (user_tbl (mg_db m)). u_ID u = i))"
  using assms
proof (cases rule: handleUsersDelete_cases)
  case (transferred t m1)
  note del = delete_user_200[OF transferred(4)] and t = transferTarget_Inr[OF transferred(3)]
  show ?thesis using transferred(1,5) t del by (auto simp: transferred(6) TransferApps_tables)
next
  case (deleted m1)
  then show ?thesis using delete_user_200[OF deleted(3)] by auto
qed simp

theorem handleUsersDelete_complete_witness:
  "let (m', s) = handleUsersDelete (NewManager small_db) \<lparr>cl_user = None, cl_globalAdmin = True, cl_appScope = '''', cl_viaCookie = False\<rparr> ''usr_2'' ''delete'' ''''
   in s = 200 \<and> app_tbl (mg_db m') = [plain_app\<lparr>a_Private := True\<rparr>]"
proof -
  let ?c = "\<lparr>cl_user = None, cl_globalAdmin = True, cl_appScope = '''', cl_viaCookie = False\<rparr>"
  obtain m' s where h: "handleUsersDelete (NewManager small_db) ?c ''usr_2'' ''delete'' '''' = (m', s)" by fastforce
  have sel: "mg_db (NewManager small_db) = small_db" "userID ?c = ''''"
    "user_tbl small_db = [plain_user, second_user]" "u_ID second_user = ''usr_2''"
    "app_tbl small_db = [plain_app\<lparr>a_Private := True\<rparr>, second_app\<lparr>a_Private := True\<rparr>]" "a_OwnerID plain_app = ''usr_1''" "a_OwnerID second_app = ''usr_2''"
    by (simp_all add: NewManager_def userID_def small_db_def sample_defs)
  from handleUsersDelete_complete[OF _ h] small_db_unique have "s = 200 \<and> app_tbl (mg_db m') = [plain_app\<lparr>a_Private := True\<rparr>]"
    by (simp add: sel split: if_splits)
  then show ?thesis using h by simp
qed

section \<open>Creating within the limits\<close>

text \<open>What a successful \<open>create\<close> leaves of the tables the limits are computed from.\<close>

lemma create_at_keeps:
  assumes "create_at env m name opts seed port = (m', Inr a)"
  shows "user_tbl (mg_db m') = user_tbl (mg_db m)" "setting_tbl (mg_db m') = setting_tbl (mg_db m)"
proof -
  have keys: "user_tbl (SetAppKeys d n ks) = user_tbl d" "setting_tbl (SetAppKeys d n ks) = setting_tbl d" for d n ks
  proof -
    have "P (fold (\<lambda>key d'. d'\<lparr>app_key_tbl := app_key_tbl d' @ [\<lparr>ak_app_name = n, ak_app_id = app_id_or_empty d' n, ak_key = key\<rparr>]\<rparr>) ks d) = P d"
      if "\<And>d t. P (d\<lparr>app_key_tbl := t\<rparr>) = P d" for P :: "db \<Rightarrow> 'b" and d
      by (induction ks arbitrary: d) (simp_all add: that)
    from this[of user_tbl] this[of setting_tbl] show "user_tbl (SetAppKeys d n ks) = user_tbl d" "setting_tbl (SetAppKeys d n ks) = setting_tbl d"
      by (simp_all add: SetAppKeys_def Let_def)
  qed
  show "user_tbl (mg_db m') = user_tbl (mg_db m)" "setting_tbl (mg_db m') = setting_tbl (mg_db m)"
    using assms unfolding create_at_def Let_def
    by (auto simp: keys releasePort_def RecordLimits_def AddApp_def UpdateAppLimits_def upd_app_checked_def upd_app_def checkAffected_def Let_def
        split: sum.splits if_splits option.splits prod.splits)
qed

lemma create_adds:
  assumes "create env m name opts seed = (m', Inr a)" "ce_newID env \<noteq> ''''"
  shows "app_tbl (mg_db m') = app_tbl (mg_db m) @ [created_row env (mg_db m) name (a_Port a) opts]"
    "user_tbl (mg_db m') = user_tbl (mg_db m)" "\<And>k. k \<noteq> ''next_port'' \<Longrightarrow> setting_tbl (mg_db m') k = setting_tbl (mg_db m) k"
proof -
  obtain u m1 port where valid: "validateName (ce_lookup env) (ce_appsDir env) (mg_db m) name = Inr u"
    and port: "allocatePort m = (m1, Inr port)" and c: "create_at env m1 name opts seed port = (m', Inr a)"
    using assms(1) by (auto simp: create_def split: sum.splits if_splits prod.splits)
  have m1: "mg_db m1 = SetSetting (mg_db m) ''next_port'' (itoa (port + 1))"
    using port by (auto simp: allocatePort_def grant_port_def Let_def split: option.splits)
  have "\<forall>b \<in> set (app_tbl (mg_db m1)). a_Name b \<noteq> name" using validateName_ok[OF valid] m1 by (simp add: SetSetting_def)
  from create_at_outcome[OF this assms(2) c] show "app_tbl (mg_db m') = app_tbl (mg_db m) @ [created_row env (mg_db m) name (a_Port a) opts]"
    by (simp add: m1)
  show "user_tbl (mg_db m') = user_tbl (mg_db m)" "\<And>k. k \<noteq> ''next_port'' \<Longrightarrow> setting_tbl (mg_db m') k = setting_tbl (mg_db m) k"
    using create_at_keeps[OF c] by (simp_all add: m1 SetSetting_def)
qed

lemma created_tables [simp]:
  "app_tbl (mg_db (created te m c a detail)) = app_tbl (mg_db m)" "user_tbl (mg_db (created te m c a detail)) = user_tbl (mg_db m)"
  "setting_tbl (mg_db (created te m c a detail)) = setting_tbl (mg_db m)"
  by (auto simp: created_def agentToken_def AppToken_def CreateAppToken_def AddToken_def logAction_def recordEvent_def AddEvent_def Let_def
      split: option.splits sum.splits)

lemma Defaults_cong: "(\<And>k. k \<noteq> ''next_port'' \<Longrightarrow> setting_tbl d' k = setting_tbl d k) \<Longrightarrow> Defaults d' = Defaults d"
  by (simp add: Defaults_def settingInt_def Settings_def Let_def)

lemma checkAppLimit_ok:
  assumes "checkAppLimit d c = Inr x" "cl_user c = Some u" "Store_User d (u_ID u) = Inr u"
    and tables: "app_tbl d' = app_tbl d @ [a]" "user_tbl d' = user_tbl d" "\<And>k. k \<noteq> ''next_port'' \<Longrightarrow> setting_tbl d' k = setting_tbl d k"
    and a: "a_OwnerID a = u_ID u" "a_SoftDeletedAt a = None" "a_MemoryLimitMB a = 0" "a_DiskLimitMB a = 0" "a_Name a \<noteq> ''''"
  shows "AppCountByOwner d' (u_ID u) = AppCountByOwner d (u_ID u) + 1" "AppCountByOwner d' (u_ID u) \<le> l_AppLimit (User_Limits d' u)"
    "\<exists>mem disk. poolReserved d' (u_ID u) '''' = Inr (mem, disk)
       \<and> (0 < l_MemoryPoolMB (User_Limits d' u) \<longrightarrow> mem \<le> l_MemoryPoolMB (User_Limits d' u))
       \<and> (0 < l_DiskPoolMB (User_Limits d' u) \<longrightarrow> disk \<le> l_DiskPoolMB (User_Limits d' u))"
proof -
  have lim: "User_Limits d' u = User_Limits d u" using Defaults_cong[OF tables(3)] by (simp add: User_Limits_def)
  show cnt: "AppCountByOwner d' (u_ID u) = AppCountByOwner d (u_ID u) + 1" using a by (simp add: AppCountByOwner_def tables(1) affected_def)
  show "AppCountByOwner d' (u_ID u) \<le> l_AppLimit (User_Limits d' u)"
    using assms(1,2) unfolding cnt lim by (simp add: checkAppLimit_def Let_def split: if_splits)
  let ?eff = "\<lambda>a :: App. EffectiveAppLimits (User_Limits d u) (a_MemoryLimitMB a) (a_DiskLimitMB a) (a_CPUMilli a)"
  let ?live = "\<lambda>d. filter (\<lambda>a. a_Name a \<noteq> '''' \<and> a_SoftDeletedAt a = None) (AppsByOwner d (u_ID u))"
  have su: "Store_User d' (u_ID u) = Inr u" using assms(3) tables(2) by (simp add: Store_User_def)
  have pool: "poolReserved d (u_ID u) '''' = Inr (sum_list (map (fst \<circ> ?eff) (?live d)), sum_list (map (fst \<circ> snd \<circ> ?eff) (?live d)))"
    "poolReserved d' (u_ID u) '''' = Inr (sum_list (map (fst \<circ> ?eff) (?live d')), sum_list (map (fst \<circ> snd \<circ> ?eff) (?live d')))"
    using assms(3) su lim by (simp_all add: poolReserved_def Let_def comp_def)
  have "mset (?live d') = mset (?live d) + {#a#}"
    using a by (simp add: AppsByOwner_def tables(1))
  then have sums: "sum_list (map f (?live d')) = sum_list (map f (?live d)) + f a" for f :: "App \<Rightarrow> int"
    by (metis (no_types, lifting) add_mset_add_single image_mset_add_mset mset_map sum_mset.add_mset sum_mset_sum_list add.commute)
  have "fst (?eff a) = l_MemoryMB (User_Limits d u)" "fst (snd (?eff a)) = l_DiskMB (User_Limits d u)" using a by (simp_all add: EffectiveAppLimits_def)
  then show "\<exists>mem disk. poolReserved d' (u_ID u) '''' = Inr (mem, disk)
       \<and> (0 < l_MemoryPoolMB (User_Limits d' u) \<longrightarrow> mem \<le> l_MemoryPoolMB (User_Limits d' u))
       \<and> (0 < l_DiskPoolMB (User_Limits d' u) \<longrightarrow> disk \<le> l_DiskPoolMB (User_Limits d' u))"
    using assms(1,2) pool(1) unfolding pool(2) lim sums by (auto simp: checkAppLimit_def Let_def split: if_splits)
qed

text \<open>C29: creating an app stays within what the account was given. When \<open>handleAppsCreate\<close> answers 201 to a person, that person is not a viewer, owns exactly one live app
  more than before and not more than allowed, and the memory and disk their apps reserve, the new one at its default size included,
  still fit their pools. The app has the requested name and visibility from its first moment, and no other app changed.\<close>

theorem handleAppsCreate_within_limits:
  assumes "handleAppsCreate env te m c (Some req) = (m', 201)" and "cl_user c = Some u" and "Store_User (mg_db m) (u_ID u) = Inr u"
    and "ce_newID env \<noteq> ''''"
  shows "u_Role u \<noteq> RoleViewer
    \<and> AppCountByOwner (mg_db m') (u_ID u) = AppCountByOwner (mg_db m) (u_ID u) + 1
    \<and> AppCountByOwner (mg_db m') (u_ID u) \<le> l_AppLimit (User_Limits (mg_db m') u)
    \<and> (\<exists>mem disk. poolReserved (mg_db m') (u_ID u) '''' = Inr (mem, disk)
         \<and> (0 < l_MemoryPoolMB (User_Limits (mg_db m') u) \<longrightarrow> mem \<le> l_MemoryPoolMB (User_Limits (mg_db m') u))
         \<and> (0 < l_DiskPoolMB (User_Limits (mg_db m') u) \<longrightarrow> disk \<le> l_DiskPoolMB (User_Limits (mg_db m') u)))
    \<and> (\<exists>a. app_tbl (mg_db m') = app_tbl (mg_db m) @ [a] \<and> a_Name a = ca_Name req \<and> a_OwnerID a = u_ID u \<and> a_Private a = ca_Private req)"
proof -
  let ?opts = "\<lparr>co_OwnerID = userID c, co_RequestKeys = ca_SSHKeys req, co_ProfileKeys = KeyStrings (mg_db m) (userID c),
     co_MemoryMB = callerMemoryLimit (mg_db m) c, co_DiskMB = callerDiskLimit (mg_db m) c, co_Host = '''', co_Private = ca_Private req\<rparr>"
  have no201: "writeAppError e \<noteq> 201" for e by (auto simp: writeAppError_def writeUserError_def)
  obtain x m1 b where lim: "checkAppLimit (mg_db m) c = Inr x" and b: "create env m (ca_Name req) ?opts None = (m1, Inr b)"
    and m': "m' = created te m1 c b ''App created''" and role: "u_Role u \<noteq> RoleViewer"
    using assms(1,2) unfolding handleAppsCreate_def CreateApp_def Let_def by (auto simp: no201 split: if_splits sum.splits prod.splits)
  note t = create_adds[OF b assms(4)]
  let ?a = "created_row env (mg_db m) (ca_Name req) (a_Port b) ?opts"
  have a: "a_OwnerID ?a = u_ID u" "a_SoftDeletedAt ?a = None" "a_MemoryLimitMB ?a = 0" "a_DiskLimitMB ?a = 0" "a_Name ?a = ca_Name req"
    "a_Private ?a = ca_Private req"
    using assms(2) by (simp_all add: created_row_def create_row_def userID_def)
  have "ca_Name req \<noteq> ''''"
  proof -
    obtain y where "validateName (ce_lookup env) (ce_appsDir env) (mg_db m) (ca_Name req) = Inr y"
      using b by (auto simp: create_def split: sum.splits)
    from validateName_ok[OF this] show ?thesis by (auto simp: ValidName_def is_label_def)
  qed
  with a(5) have ne: "a_Name ?a \<noteq> ''''" by simp
  have tables: "app_tbl (mg_db m') = app_tbl (mg_db m) @ [?a]" "user_tbl (mg_db m') = user_tbl (mg_db m)"
    "\<And>k. k \<noteq> ''next_port'' \<Longrightarrow> setting_tbl (mg_db m') k = setting_tbl (mg_db m) k"
    using t by (simp_all add: m')
  note ok = checkAppLimit_ok[OF lim assms(2,3) tables a(1-4) ne]
  show ?thesis using role ok tables(1) a(1,5,6) by blast
qed

text \<open>Forking a private app publishes a copy of it. A successful fork, which any collaborator may make, adds an app with the contents of the source that
  is public whatever the visibility of the source: the options of the new app do not carry it over.\<close>

lemma fork_of_private_app_is_public:
  assumes "handleAppsFork env te m c name (Some (newName, snapshotID)) = (m', 201)" and "ce_newID env \<noteq> ''''"
  shows "\<exists>a. app_tbl (mg_db m') = app_tbl (mg_db m) @ [a] \<and> a_Name a = newName \<and> \<not> a_Private a"
proof -
  have no201: "writeAppError e \<noteq> 201" "writeSnapshotError e \<noteq> 201" for e
    by (auto simp: writeAppError_def writeUserError_def writeSnapshotError_def)
  obtain m1 b opts seed detail where b: "create env m newName opts seed = (m1, Inr b)" "\<not> co_Private opts" and m': "m' = created te m1 c b detail"
    using assms(1) unfolding handleAppsFork_def Fork_def Let_def by (auto simp: no201 split: sum.splits prod.splits if_splits)
  then show ?thesis using create_adds(1)[OF b(1) assms(2)] by (simp add: created_row_def create_row_def)
qed

section \<open>A create that succeeds\<close>

definition env1 :: create_env where "env1 = env0\<lparr>ce_provision := (\<lambda>_. Inr ())\<rparr>"

definition tokens1 :: token_env where "tokens1 = \<lparr>te_hash = (\<lambda>s. CHR ''#'' # s), te_now = 0, te_rid = ''9'', te_bytes = ''ab''\<rparr>"

lemma solo_manager [simp]: "mg_db (NewManager solo_db) = solo_db" "mg_reserved (NewManager solo_db) = {}"
  by (simp_all add: NewManager_def)

lemma sample_port: "\<exists>m1 p. allocatePort (NewManager solo_db) = (m1, Inr p)"
proof (cases "allocatePort (NewManager solo_db)")
  case (Pair m1 q)
  show ?thesis
  proof (cases q)
    case (Inl e)
    from allocatePort_Inl[OF Pair[unfolded Inl]] have "\<forall>q. PortMin \<le> q \<and> q \<le> PortMax \<longrightarrow> q \<in> a_Port ` set (app_tbl solo_db)" by simp
    from spec[OF this, of 10001] show ?thesis by (simp add: solo_db_def plain_app_def)
  qed (use Pair in blast)
qed

lemma sample_create: "\<exists>m1 a. create env1 (NewManager solo_db) ''shop'' opts seed = (m1, Inr a)"
proof -
  obtain m1 p where p: "allocatePort (NewManager solo_db) = (m1, Inr p)" using sample_port by blast
  note ok = allocatePort_Inr[OF p]
  have tbl: "app_tbl solo_db = [plain_app\<lparr>a_Private := True\<rparr>]" by (simp add: solo_db_def)
  have v: "validateName (ce_lookup env1) (ce_appsDir env1) solo_db ''shop'' = Inr ()"
    by (simp add: validateName_def env1_def env0_def ValidName_def reservedNames_def Store_App_def tbl plain_app_def is_lower_letter_def)
  have "p \<noteq> 10000" using ok by (auto simp: tbl plain_app_def)
  moreover have "app_tbl (mg_db m1) = app_tbl solo_db" using ok by (simp add: SetSetting_def)
  ultimately have "is_ok (AddApp (ce_now env1) (ce_newID env1) (mg_db m1) (create_row env1 (mg_db m1) ''shop'' p opts))"
    by (simp add: AddApp_def tbl_insert_def create_row_def env1_def env0_def conflicts_with_iff app_conflict_def tbl plain_app_def Let_def)
  then obtain x where "AddApp (ce_now env1) (ce_newID env1) (mg_db m1) (create_row env1 (mg_db m1) ''shop'' p opts) = Inr x"
    by (auto simp: is_ok_iff)
  then show ?thesis
    using v p by (cases x) (simp add: create_def create_at_def Let_def RecordLimits_def env1_def env0_def)
qed

lemma solo_facts:
  "Store_User solo_db ''usr_1'' = Inr plain_user" "u_ID plain_user = ''usr_1''" "userID owner_caller = ''usr_1''" "cl_user owner_caller = Some plain_user"
  "ownedApp solo_db owner_caller ''blog'' = Inr (plain_app\<lparr>a_Private := True\<rparr>)" "u_Role plain_user \<noteq> RoleViewer"
  "Store_App solo_db ''blog'' = Inr (plain_app\<lparr>a_Private := True\<rparr>)" "a_Name plain_app = ''blog''" "ce_newID env1 = ''app_9''"
  by (simp_all add: Store_User_def solo_db_def plain_user_def userID_def owner_caller_def ownedApp_def Store_App_def plain_app_def env1_def env0_def isAdmin_def)

lemma solo_limits: "checkAppLimit solo_db owner_caller = Inr ()"
  by (simp add: checkAppLimit_def poolReserved_def solo_facts User_Limits_def Defaults_def settingInt_def Settings_def AppCountByOwner_def
      AppsByOwner_def EffectiveAppLimits_def positiveOr_def affected_def Let_def)
    (simp add: solo_db_def empty_db_def plain_user_def plain_app_def or_default_def)

theorem handleAppsCreate_within_limits_witness:
  "\<exists>m'. handleAppsCreate env1 tokens1 (NewManager solo_db) owner_caller (Some \<lparr>ca_Name = ''shop'', ca_SSHKeys = [], ca_Private = True\<rparr>) = (m', 201)
     \<and> AppCountByOwner (mg_db m') ''usr_1'' = AppCountByOwner solo_db ''usr_1'' + 1"
proof -
  let ?req = "\<lparr>ca_Name = ''shop'', ca_SSHKeys = [], ca_Private = True\<rparr>"
  let ?opts = "\<lparr>co_OwnerID = userID owner_caller, co_RequestKeys = [], co_ProfileKeys = KeyStrings solo_db (userID owner_caller),
     co_MemoryMB = callerMemoryLimit solo_db owner_caller, co_DiskMB = callerDiskLimit solo_db owner_caller, co_Host = '''', co_Private = True\<rparr>"
  obtain m1 a where "create env1 (NewManager solo_db) ''shop'' ?opts None = (m1, Inr a)" using sample_create by blast
  then have "handleAppsCreate env1 tokens1 (NewManager solo_db) owner_caller (Some ?req) = (created tokens1 m1 owner_caller a ''App created'', 201)"
    by (simp add: handleAppsCreate_def CreateApp_def solo_facts solo_limits)
  with handleAppsCreate_within_limits[OF this, of plain_user] show ?thesis by (simp add: solo_facts)
qed

lemma fork_of_private_app_is_public_witness:
  "\<exists>m' a. handleAppsFork env1 tokens1 (NewManager solo_db) owner_caller ''blog'' (Some (''shop'', '''')) = (m', 201)
     \<and> app_tbl (mg_db m') = [plain_app\<lparr>a_Private := True\<rparr>, a] \<and> a_Name a = ''shop'' \<and> \<not> a_Private a"
proof -
  obtain m' where l: "handleAppsFork env1 tokens1 (NewManager solo_db) owner_caller ''blog'' (Some (''shop'', '''')) = (m', 201)"
  proof -
    let ?opts = "\<lparr>co_OwnerID = userID owner_caller, co_RequestKeys = [], co_ProfileKeys = KeyStrings solo_db (userID owner_caller),
       co_MemoryMB = callerMemoryLimit solo_db owner_caller, co_DiskMB = callerDiskLimit solo_db owner_caller,
       co_Host = hostOrLocal (a_Host (plain_app\<lparr>a_Private := True\<rparr>)), co_Private = False\<rparr>"
    obtain m1 a where "create env1 (NewManager solo_db) ''shop'' ?opts (Some (a_ID (plain_app\<lparr>a_Private := True\<rparr>), '''')) = (m1, Inr a)"
      using sample_create by blast
    then show ?thesis using that by (simp add: handleAppsFork_def Fork_def solo_facts solo_limits)
  qed
  have "app_tbl solo_db = [plain_app\<lparr>a_Private := True\<rparr>]" by (simp add: solo_db_def)
  with fork_of_private_app_is_public[OF l] l show ?thesis by (simp add: solo_facts)
qed

section \<open>What a revoked collaborator keeps\<close>

text \<open>C40: a token outlives the grant it was made under. A collaborator may mint a token for the app. Removing the collaborator takes the grant away but not the
  token, and a token for an app is let through to it without asking whether its user still has access: the person who was removed keeps
  opening the private app with the old token.\<close>

theorem revoked_collaborator_keeps_viewing:
  assumes "handleCollaboratorsRemove set_keys relay now d c name uid = (d', 200)" and "Store_App d name = Inr a" and "a_Name a = name" and "name \<noteq> ''''"
    and "TokenByHash d (hash token) = Inr tk" and "tk_UserID tk = uid" and "tk_AppName tk = name"
    and "Store_User d uid = Inr u" and "u_Status u = StatusActive" and "uid \<noteq> ''''"
    and "token \<noteq> ''''" and "token \<noteq> cf_AdminToken cf" and "rq_header r ''Authorization'' = ''Bearer '' @ token" and "rq_peer r \<noteq> Some 0"
    and "rq_path r \<notin> {''/hostit/granted'', ''/hostit/logout'', ''/hostit/auth''}"
  shows "\<not> IsAppCollaborator d' (a_ID a) uid \<and> snd (allowPrivateRequest hash mac verify key cf now' d' r a) = Allow"
proof -
  have a: "ownedApp d c name = Inr a"
    using assms(1,2) by (auto simp: handleCollaboratorsRemove_def ownedApp_def writeAppError_def writeUserError_def split: sum.splits if_splits)
  have no200: "writeAppError e \<noteq> 200" for e by (auto simp: writeAppError_def writeUserError_def)
  have d': "d' = logAction now (RemoveAppCollaborator d (a_ID a) uid) c (a_Name a) ''collaborator-removed'' ''Removed a collaborator''"
    using assms(1) a by (auto simp: handleCollaboratorsRemove_def Let_def no200 split: sum.splits if_splits)
  have tables: "app_collaborator_tbl d' = tbl_delete (\<lambda>g. g_app_id g = a_ID a \<and> g_who g = uid) (app_collaborator_tbl d)"
    "token_tbl d' = token_tbl d" "user_tbl d' = user_tbl d" "app_tbl d' = app_tbl d"
    by (simp_all add: d' logAction_def recordEvent_def AddEvent_def RemoveAppCollaborator_def Let_def)
  have "TokenByHash d' (hash token) = Inr tk" "Store_User d' uid = Inr u"
    using assms(5,8) scanToken_cong[OF tables(4)] by (simp_all add: TokenByHash_def Store_User_def tables split: option.splits)
  then have "UserAndScopeByToken hash (unix_ns now') d' token = Inr (TouchToken (unix_ns now') d' (tk_ID tk), Some u, name)"
    using assms(6,7,9,10) by (simp add: UserAndScopeByToken_def)
  moreover have "TrimPrefix (''Bearer '' @ token) ''Bearer '' = token" by (simp add: TrimPrefix_def HasPrefix_iff)
  ultimately have "authenticate hash mac cf now' d' r = (TouchToken (unix_ns now') d' (tk_ID tk),
      Inr \<lparr>cl_user = Some u, cl_globalAdmin = False, cl_appScope = name, cl_viaCookie = False\<rparr>)"
    using assms(11-14) by (simp add: authenticate_def Let_def)
  then have "snd (allowPrivateRequest hash mac verify key cf now' d' r a) = Allow"
    using assms(3,4,13,15) by (simp add: allowPrivateRequest_def mayViewApp_def)
  moreover have "\<not> IsAppCollaborator d' (a_ID a) uid" by (simp add: IsAppCollaborator_def tables(1) affected_def tbl_delete_def)
  ultimately show ?thesis by blast
qed

definition bob_token :: token_row where
  "bob_token = \<lparr>tk_ID = ''tk_1'', tk_UserID = ''usr_2'', tk_Hash = ''#old'', tk_Prefix = '''', tk_Label = ''mine'', tk_AppName = ''blog'',
     tk_Secret = ''old'', tk_CreatedAt = Some 0, tk_LastUsed = None, tk_app_id = ''app_1''\<rparr>"

text \<open>Bob collaborates on Ann's private app and has a token for it.\<close>

definition shared_db :: db where
  "shared_db = small_db\<lparr>app_collaborator_tbl := [\<lparr>g_app_id = ''app_1'', g_who = ''usr_2'', g_created_at = 0\<rparr>], token_tbl := [bob_token]\<rparr>"

theorem revoked_collaborator_keeps_viewing_witness:
  "\<exists>d' a. handleCollaboratorsRemove (\<lambda>_ _ _. Inr ()) '''' 0 shared_db owner_caller ''blog'' ''usr_2'' = (d', 200)
     \<and> IsAppCollaborator shared_db (a_ID a) ''usr_2'' \<and> \<not> IsAppCollaborator d' (a_ID a) ''usr_2''
     \<and> snd (allowPrivateRequest (\<lambda>s. CHR ''#'' # s) (\<lambda>s. s) (\<lambda>_ _. Inl ErrInvalidGrant) '''' bare_config 0 d' token_request a) = Allow"
proof -
  let ?a = "plain_app\<lparr>a_Private := True\<rparr>"
  have a: "Store_App shared_db ''blog'' = Inr ?a" "a_Name ?a = ''blog''" "a_ID ?a = ''app_1''"
    by (simp_all add: Store_App_def shared_db_def small_db_def plain_app_def)
  have "ownedApp shared_db owner_caller ''blog'' = Inr ?a"
    by (simp add: ownedApp_def a(1) owner_caller_def isAdmin_def userID_def) (simp add: plain_app_def plain_user_def)
  moreover have "a_OwnerID ?a = userID owner_caller" by (simp add: plain_app_def userID_def owner_caller_def plain_user_def)
  ultimately obtain d' where d': "handleCollaboratorsRemove (\<lambda>_ _ _. Inr ()) '''' 0 shared_db owner_caller ''blog'' ''usr_2'' = (d', 200)"
    by (simp add: handleCollaboratorsRemove_def resyncAppKeys_def Let_def)
  have tk: "TokenByHash shared_db ((\<lambda>s. CHR ''#'' # s) ''old'') = Inr (scanToken shared_db bob_token)"
    "tk_UserID (scanToken shared_db bob_token) = ''usr_2''" "tk_AppName (scanToken shared_db bob_token) = ''blog''"
    by (simp_all add: TokenByHash_def shared_db_def bob_token_def scanToken_def app_name_of_id_def small_db_def plain_app_def)
  have u: "Store_User shared_db ''usr_2'' = Inr second_user" "u_Status second_user = StatusActive"
    by (simp_all add: Store_User_def shared_db_def small_db_def plain_user_def second_user_def)
  have "IsAppCollaborator shared_db ''app_1'' ''usr_2''" by (simp add: IsAppCollaborator_def shared_db_def affected_def)
  moreover have r: "rq_header token_request ''Authorization'' = ''Bearer '' @ ''old''" "rq_peer token_request \<noteq> Some 0"
    "rq_path token_request \<notin> {''/hostit/granted'', ''/hostit/logout'', ''/hostit/auth''}" "''old'' \<noteq> cf_AdminToken bare_config"
    by (simp_all add: token_request_def bare_config_def)
  ultimately show ?thesis
    using revoked_collaborator_keeps_viewing[where hash = "\<lambda>s. CHR ''#'' # s" and mac = "\<lambda>s. s" and verify = "\<lambda>_ _. Inl ErrInvalidGrant" and key = "''''" and now' = 0,
        OF d' a(1,2) _ tk u _ _ r(4) r(1-3)] d' a(3) by (intro exI[of _ d'] exI[of _ ?a]) simp
qed

section \<open>Keys reach every app\<close>

lemma resync_all_Inr: "resync_all set_keys relay d apps = Inr x \<longleftrightarrow> (\<forall>a \<in> set apps. resyncAppKeys set_keys relay d a = Inr ())"
  by (induction apps) (auto split: sum.splits)

lemma appendRelayKey_keeps: "set keys \<subseteq> set (appendRelayKey relay host keys)"
  by (auto simp: appendRelayKey_def)

lemma AddKey_row:
  assumes "AddKey parse_key now rid d uid label key = Inr (d', k)"
  shows "k_Key k = TrimSpace key \<and> k_UserID k = uid \<and> user_key_tbl d' = user_key_tbl d @ [k] \<and> app_tbl d' = app_tbl d \<and> user_tbl d' = user_tbl d
    \<and> app_collaborator_tbl d' = app_collaborator_tbl d"
  using assms by (auto simp: AddKey_def AddUserKey_def tbl_insert_Inr Let_def split: if_splits sum.splits option.splits)

text \<open>The people whose keys open an app.\<close>

definition has_standing :: "db \<Rightarrow> App \<Rightarrow> string \<Rightarrow> bool" where
  "has_standing d a uid \<longleftrightarrow> a_OwnerID a = uid \<or> (\<exists>g \<in> set (app_collaborator_tbl d). g_app_id g = a_ID a \<and> g_who g = uid)"

lemma standing_synced:
  assumes "a \<in> set (app_tbl d)" "has_standing d a uid"
  shows "a \<in> set (AppsByOwner d uid @ AppsByCollaborator d uid)"
  using assms by (auto simp: has_standing_def AppsByOwner_def AppsByCollaborator_def join_apps_def)

lemma standing_keys:
  assumes "has_standing d a uid" "u \<in> set (user_tbl d)" "u_ID u = uid" "k \<in> set (user_key_tbl d)" "k_UserID k = uid"
  shows "k_Key k \<in> set (appProfileKeys d a)"
proof -
  have k: "k_Key k \<in> set (KeyStrings d uid)" using assms(4,5) by (auto simp: KeyStrings_def UserKeys_def)
  show ?thesis
  proof (cases "a_OwnerID a = uid")
    case False
    then have "u \<in> set (AppCollaborators d (a_ID a))" using assms(1-3) by (auto simp: has_standing_def AppCollaborators_def join_users_def)
    then show ?thesis using k assms(3) by (auto simp: appProfileKeys_def)
  qed (use k in \<open>auto simp: appProfileKeys_def\<close>)
qed

text \<open>A new profile key opens every app. When adding a key succeeds, the node of every app the person owns or collaborates on has accepted a set of
  keys with the new one in it; no app is skipped, and the collaborators' and the owner's keys are sent together.\<close>

lemma handleKeysAdd_reaches_apps:
  assumes "handleKeysAdd parse_key set_keys relay now rid d c (Some (label, key)) = (d', 201)" and "cl_user c = Some u" and "u \<in> set (user_tbl d)" and "u_ID u \<noteq> ''''"
    and "a \<in> set (app_tbl d)" and "has_standing d a (u_ID u)"
  shows "\<exists>keys. set_keys (a_Name a) (AppKeys d' (a_Name a)) keys = Inr () \<and> TrimSpace key \<in> set keys \<and> set (appProfileKeys d' a) \<subseteq> set keys"
proof -
  have no201: "writeAppError e \<noteq> 201" for e by (auto simp: writeAppError_def writeUserError_def)
  obtain k x where k: "AddKey parse_key (unix_ns now) rid d (u_ID u) label key = Inr (d', k)" and sync: "syncUserAppKeys set_keys relay d' (u_ID u) = Inr x"
    using assms(1,2) by (auto simp: handleKeysAdd_def no201 split: sum.splits prod.splits)
  note row = AddKey_row[OF k]
  have st: "has_standing d' a (u_ID u)" using assms(6) row by (simp add: has_standing_def)
  have "a \<in> set (AppsByOwner d' (u_ID u) @ AppsByCollaborator d' (u_ID u))" using standing_synced[OF _ st] assms(5) row by simp
  then have "resyncAppKeys set_keys relay d' a = Inr ()" using sync assms(4) by (simp add: syncUserAppKeys_def resync_all_Inr)
  moreover have "TrimSpace key \<in> set (appProfileKeys d' a)" using standing_keys[OF st, of u k] assms(3) row by simp
  ultimately show ?thesis using appendRelayKey_keeps[of "appProfileKeys d' a" relay "a_Host a"] by (auto simp: resyncAppKeys_def)
qed

definition picky_node :: set_keys_fn where
  "picky_node name own keys = (if keys = [''k1''] then Inr () else Inl ErrInvalid)"

lemma handleKeysAdd_reaches_apps_witness:
  "\<exists>d'. handleKeysAdd (\<lambda>_. Some '''') picky_node '''' 0 ''1'' solo_db owner_caller (Some (''laptop'', ''k1'')) = (d', 201)
     \<and> (\<exists>keys. picky_node ''blog'' (AppKeys d' ''blog'') keys = Inr () \<and> ''k1'' \<in> set keys)"
proof -
  let ?a = "plain_app\<lparr>a_Private := True\<rparr>"
  let ?d = "solo_db\<lparr>user_key_tbl := [\<lparr>k_ID = ''k_1'', k_UserID = ''usr_1'', k_Label = ''laptop'', k_Key = ''k1'', k_CreatedAt = Some 0\<rparr>]\<rparr>"
  have ts: "TrimSpace ''k1'' = ''k1''" "TrimSpace '''' = ''''" by (simp_all add: TrimSpace_def is_space_def)
  have tbl: "app_tbl solo_db = [?a]" "user_key_tbl solo_db = []" "app_collaborator_tbl solo_db = []" by (simp_all add: solo_db_def empty_db_def)
  have sel: "a_OwnerID plain_app = ''usr_1''" "a_Host plain_app = HostLocal" by (simp_all add: plain_app_def)
  have "AppsByOwner ?d ''usr_1'' = [?a]" "AppsByCollaborator ?d ''usr_1'' = []" "appProfileKeys ?d ?a = [''k1'']"
    by (simp_all add: AppsByOwner_def AppsByCollaborator_def join_apps_def appProfileKeys_def KeyStrings_def UserKeys_def AppCollaborators_def join_users_def tbl sel)
  then have "syncUserAppKeys picky_node '''' ?d ''usr_1'' = Inr ()"
    by (simp add: syncUserAppKeys_def resyncAppKeys_def picky_node_def appendRelayKey_def)
  moreover have "AddKey (\<lambda>_. Some '''') (unix_ns 0) ''1'' solo_db ''usr_1'' ''laptop'' ''k1'' = Inr (?d, \<lparr>k_ID = ''k_1'', k_UserID = ''usr_1'', k_Label = ''laptop'', k_Key = ''k1'', k_CreatedAt = Some 0\<rparr>)"
    by (simp add: AddKey_def AddUserKey_def tbl_insert_def conflicts_with_iff Let_def ts tbl unix_ns_def)
  ultimately have l: "handleKeysAdd (\<lambda>_. Some '''') picky_node '''' 0 ''1'' solo_db owner_caller (Some (''laptop'', ''k1'')) = (?d, 201)"
    by (simp add: handleKeysAdd_def solo_facts)
  have "plain_user \<in> set (user_tbl solo_db)" "has_standing solo_db ?a (u_ID plain_user)" by (simp_all add: solo_db_def has_standing_def plain_app_def plain_user_def)
  with handleKeysAdd_reaches_apps[OF l, of plain_user ?a] have "\<exists>keys. picky_node ''blog'' (AppKeys ?d ''blog'') keys = Inr () \<and> ''k1'' \<in> set keys"
    by (auto simp: solo_facts tbl ts)
  then show ?thesis using l by blast
qed

end
