(* ===== verification/File_Handlers.thy ===== *)
theory File_Handlers
  imports Home_Files Account_Admin
begin

text \<open>The file operations as control offers them: the compositions of the manager over \<open>README.md\<close> and \<open>hostit.yml\<close>
  (\<open>src/control/files.go\<close>) and the HTTP handlers (\<open>src/control/server_handler_files.go\<close>, and from
  \<open>src/control/server_handler_apps.go\<close> the handlers that edit \<open>hostit.yml\<close>). Homes are keyed by the app's name; whether the node that has
  the app answers a call is the flag \<open>up\<close> of that call.

  The lemmas show that an edit of the description through control keeps every other line of the file, and what it does to a file
  that it could not read.\<close>

section \<open>Calls to the node\<close>

type_synonym homes = "string \<Rightarrow> volume"

definition node_read :: "bool \<Rightarrow> homes \<Rightarrow> string \<Rightarrow> string \<Rightarrow> string res" where
  "node_read up hs name rel = (if up then Home_Files.ReadFile (hs name) rel else Inl NodeNotConnected)"

definition node_readMax :: "bool \<Rightarrow> homes \<Rightarrow> string \<Rightarrow> string \<Rightarrow> nat \<Rightarrow> string res" where
  "node_readMax up hs name rel cap = (if up then Home_Files.ReadFileMax (hs name) rel cap else Inl NodeNotConnected)"

definition node_op :: "bool \<Rightarrow> homes \<Rightarrow> string \<Rightarrow> (volume \<Rightarrow> volume \<times> 'e) \<Rightarrow> (err \<Rightarrow> 'e) \<Rightarrow> homes \<times> 'e" where
  "node_op up hs name f e = (if up then (case f (hs name) of (v, r) \<Rightarrow> (hs(name := v), r)) else (hs, e NodeNotConnected))"

text \<open>One call that writes: whether the node answers, what its operating system grants, the scratch suffix.\<close>

record write_env =
  we_up :: bool
  we_io :: home_io
  we_suffix :: string

definition node_write :: "write_env \<Rightarrow> homes \<Rightarrow> string \<Rightarrow> string \<Rightarrow> string \<Rightarrow> homes \<times> err option" where
  "node_write e hs name rel content =
     node_op (we_up e) hs name (\<lambda>v. Home_Files.WriteFile (we_io e) (we_suffix e) v rel content 0) Some"

section \<open>The manager\<close>

definition readmeFile :: string where "readmeFile = ''README.md''"
definition configFile :: string where "configFile = ''hostit.yml''"
definition maxConfigSize :: nat where "maxConfigSize = 64 * 1024"

definition Readme :: "bool \<Rightarrow> homes \<Rightarrow> string \<Rightarrow> string res" where
  "Readme up hs name =
     (case node_read up hs name readmeFile of Inl e \<Rightarrow> if e = ErrNotExist then Inr [] else Inl e | Inr b \<Rightarrow> Inr b)"

definition WriteReadme :: "write_env \<Rightarrow> homes \<Rightarrow> string \<Rightarrow> string \<Rightarrow> homes \<times> err option" where
  "WriteReadme e hs name content = node_write e hs name readmeFile content"

definition read_config :: "(bool \<Rightarrow> string \<Rightarrow> Config option) \<Rightarrow> bool \<Rightarrow> homes \<Rightarrow> string \<Rightarrow> Config option" where
  "read_config yaml up hs name =
     (case node_readMax up hs name configFile maxConfigSize of Inl e \<Rightarrow> None | Inr b \<Rightarrow> ParseConfig yaml b)"

definition Description :: "(bool \<Rightarrow> string \<Rightarrow> Config option) \<Rightarrow> bool \<Rightarrow> homes \<Rightarrow> string \<Rightarrow> string" where
  "Description yaml up hs name = (case read_config yaml up hs name of None \<Rightarrow> [] | Some c \<Rightarrow> TrimSpace (hc_Description c))"

definition SnapshotConfig :: "(bool \<Rightarrow> string \<Rightarrow> Config option) \<Rightarrow> bool \<Rightarrow> homes \<Rightarrow> string \<Rightarrow> SnapshotHooks" where
  "SnapshotConfig yaml up hs name =
     (case read_config yaml up hs name of None \<Rightarrow> \<lparr>sh_Pre = [], sh_Post = [], sh_Interval = []\<rparr> | Some c \<Rightarrow> hc_Snapshot c)"

definition config_content :: "bool \<Rightarrow> homes \<Rightarrow> string \<Rightarrow> string" where
  "config_content up hs name = (case node_readMax up hs name configFile maxConfigSize of Inr b \<Rightarrow> b | Inl e \<Rightarrow> [])"

definition blank_config :: "SnapshotHooks \<Rightarrow> Config" where
  "blank_config hooks = \<lparr>hc_Description = [], hc_Prepare = [], hc_Mode = [], hc_Run = [], hc_Env = [], hc_Snapshot = hooks\<rparr>"

definition Manager_SetSnapshotConfig ::
  "(nat \<Rightarrow> nat \<Rightarrow> nat \<Rightarrow> nat) \<Rightarrow> bool \<Rightarrow> write_env \<Rightarrow> homes \<Rightarrow> string \<Rightarrow> SnapshotHooks \<Rightarrow> homes \<times> err option" where
  "Manager_SetSnapshotConfig frac up e hs name hooks =
     (case SnapshotInterval frac (blank_config hooks) of Inl er \<Rightarrow> (hs, Some (ErrText ''snapshot.interval''))
      | Inr _ \<Rightarrow> node_write e hs name configFile (App_Config.SetSnapshotConfig (config_content up hs name) hooks))"

definition Manager_SetDescription :: "bool \<Rightarrow> write_env \<Rightarrow> homes \<Rightarrow> string \<Rightarrow> string \<Rightarrow> homes \<times> err option" where
  "Manager_SetDescription up e hs name desc =
     node_write e hs name configFile (App_Config.SetDescription (config_content up hs name) (ReplaceChar nl '' '' (TrimSpace desc)))"

section \<open>Handlers\<close>

text \<open>A handler returns the homes and its status. Those of the agent API get the app from \<open>requireApp\<close>.\<close>

definition status_of :: "nat \<Rightarrow> err option \<Rightarrow> nat" where
  "status_of ok r = (case r of None \<Rightarrow> ok | Some e \<Rightarrow> writeAppError e)"

definition handleAgentFileList :: "(string \<Rightarrow> (string \<times> bool \<times> nat option) list res) \<Rightarrow> bool \<Rightarrow> homes \<Rightarrow> App \<Rightarrow> string \<Rightarrow> nat" where
  "handleAgentFileList readDir up hs a path =
     (if \<not> up then writeAppError NodeNotConnected
      else case Home_Files.ListFiles readDir (hs (a_Name a)) path of Inl e \<Rightarrow> writeAppError e | Inr _ \<Rightarrow> 200)"

definition handleAgentFileGet :: "bool \<Rightarrow> homes \<Rightarrow> App \<Rightarrow> bool \<Rightarrow> string \<Rightarrow> nat \<times> string" where
  "handleAgentFileGet up hs a stat path =
     (if \<not> up then (writeAppError NodeNotConnected, [])
      else if stat then (case Home_Files.StatFile (hs (a_Name a)) path of Inl e \<Rightarrow> (writeAppError e, []) | Inr _ \<Rightarrow> (200, []))
      else case Home_Files.ReadFile (hs (a_Name a)) path of Inl e \<Rightarrow> (writeAppError e, []) | Inr b \<Rightarrow> (200, b))"

definition octal_val :: "string \<Rightarrow> nat" where
  "octal_val s = foldl (\<lambda>v c. v * 8 + (of_char c - 48)) 0 s"

definition uploadMode :: "string \<Rightarrow> 32 word option" where
  "uploadMode raw =
     (if raw = [] then Some 0
      else if list_all (\<lambda>c. is_digit c \<and> of_char c < (56 :: nat)) raw \<and> octal_val raw \<le> 511 then Some (of_nat (octal_val raw)) else None)"

definition handleAgentFilePut :: "write_env \<Rightarrow> homes \<Rightarrow> App \<Rightarrow> string \<Rightarrow> string \<Rightarrow> body \<Rightarrow> homes \<times> nat" where
  "handleAgentFilePut e hs a modeRaw relPath bd =
     (case uploadMode modeRaw of None \<Rightarrow> (hs, 400)
      | Some mode \<Rightarrow>
          (case node_op (we_up e) hs (a_Name a) (\<lambda>v. Home_Files.WriteFileFrom (we_io e) (we_suffix e) v relPath bd mode) Some of
             (hs', r) \<Rightarrow> (hs', status_of 201 r)))"

definition handleAgentMove :: "write_env \<Rightarrow> homes \<Rightarrow> App \<Rightarrow> (string \<times> string) option \<Rightarrow> homes \<times> nat" where
  "handleAgentMove e hs a req =
     (case req of None \<Rightarrow> (hs, 400)
      | Some (src, dst) \<Rightarrow>
          if src = [] \<or> dst = [] then (hs, 400)
          else case node_op (we_up e) hs (a_Name a) (\<lambda>v. Home_Files.MoveFile (we_io e) v src dst) Some of (hs', r) \<Rightarrow> (hs', status_of 200 r))"

definition handleAgentMkdir :: "write_env \<Rightarrow> homes \<Rightarrow> App \<Rightarrow> string option \<Rightarrow> homes \<times> nat" where
  "handleAgentMkdir e hs a req =
     (case req of None \<Rightarrow> (hs, 400)
      | Some path \<Rightarrow>
          if path = [] then (hs, 400)
          else case node_op (we_up e) hs (a_Name a) (\<lambda>v. Home_Files.MakeDir (we_io e) v path) Some of (hs', r) \<Rightarrow> (hs', status_of 200 r))"

definition handleAgentFileDelete :: "write_env \<Rightarrow> homes \<Rightarrow> App \<Rightarrow> string \<Rightarrow> homes \<times> nat" where
  "handleAgentFileDelete e hs a path =
     (case node_op (we_up e) hs (a_Name a) (\<lambda>v. Home_Files.DeleteFile (we_io e) v path) Some of (hs', r) \<Rightarrow> (hs', status_of 200 r))"

definition handleAgentFileUpload :: "bool \<Rightarrow> (nat \<Rightarrow> home_io) \<Rightarrow> homes \<Rightarrow> App \<Rightarrow> tar_entry list \<Rightarrow> bool \<Rightarrow> homes \<times> nat" where
  "handleAgentFileUpload up io hs a es broken =
     (case node_op up hs (a_Name a) (\<lambda>v. Home_Files.ExtractTar io v es broken) Inl of
        (hs', Inl er) \<Rightarrow> (hs', writeAppError er) | (hs', Inr _) \<Rightarrow> (hs', 201))"

definition handleAgentReadmePut :: "write_env \<Rightarrow> homes \<Rightarrow> App \<Rightarrow> string option \<Rightarrow> homes \<times> nat" where
  "handleAgentReadmePut e hs a req =
     (case req of None \<Rightarrow> (hs, 400)
      | Some readme \<Rightarrow> (case WriteReadme e hs (a_Name a) readme of (hs', r) \<Rightarrow> (hs', status_of 200 r)))"

definition handleAppsSetDescription ::
  "bool \<Rightarrow> write_env \<Rightarrow> int \<Rightarrow> db \<Rightarrow> homes \<Rightarrow> caller \<Rightarrow> string \<Rightarrow> string option \<Rightarrow> (db \<times> homes) \<times> nat" where
  "handleAppsSetDescription up e now d hs c name body =
     (case ownedApp d c name of Inl er \<Rightarrow> ((d, hs), writeAppError er)
      | Inr a \<Rightarrow>
          (case body of None \<Rightarrow> ((d, hs), 400)
           | Some desc \<Rightarrow>
               (case Manager_SetDescription up e hs (a_Name a) desc of
                  (hs', Some er) \<Rightarrow> ((d, hs'), writeAppError er)
                | (hs', None) \<Rightarrow> ((logAction now d c (a_Name a) ''description'' ''Updated the description'', hs'), 200))))"

definition handleAppsSetSnapshotConfig ::
  "(nat \<Rightarrow> nat \<Rightarrow> nat \<Rightarrow> nat) \<Rightarrow> bool \<Rightarrow> write_env \<Rightarrow> int \<Rightarrow> db \<Rightarrow> homes \<Rightarrow> caller \<Rightarrow> string \<Rightarrow> SnapshotHooks option \<Rightarrow> (db \<times> homes) \<times> nat" where
  "handleAppsSetSnapshotConfig frac up e now d hs c name body =
     (case ownedApp d c name of Inl er \<Rightarrow> ((d, hs), writeAppError er)
      | Inr a \<Rightarrow>
          (case body of None \<Rightarrow> ((d, hs), 400)
           | Some req \<Rightarrow>
               (case Manager_SetSnapshotConfig frac up e hs (a_Name a) (req\<lparr>sh_Interval := TrimSpace (sh_Interval req)\<rparr>) of
                  (hs', Some er) \<Rightarrow> ((d, hs'), 400)
                | (hs', None) \<Rightarrow> ((logAction now d c (a_Name a) ''snapshot'' ''Updated the snapshot settings'', hs'), 200))))"

section \<open>Editing hostit.yml\<close>

lemma replace_first_split:
  "replace_first P y xs = Some ys \<Longrightarrow> \<exists>as x bs. xs = as @ x # bs \<and> P x \<and> (\<forall>a \<in> set as. \<not> P a) \<and> ys = as @ y # bs"
proof (induction xs arbitrary: ys)
  case (Cons x xs)
  show ?case
  proof (cases "P x")
    case False
    then obtain zs where "replace_first P y xs = Some zs" "ys = x # zs"
      using Cons.prems by auto
    moreover from this obtain as w bs where "xs = as @ w # bs" "P w" "\<forall>a \<in> set as. \<not> P a" "zs = as @ y # bs"
      using Cons.IH[of zs] by blast
    ultimately show ?thesis
      using False by (intro exI[of _ "x # as"] exI[of _ w] exI[of _ bs]) simp
  qed (use Cons.prems in \<open>auto intro: exI[of _ "[]"]\<close>)
qed simp

text \<open>Setting a description replaces the first description line, or puts a new line on top; the rest of the document stays.\<close>

lemma SetDescription_edits_line:
  "(\<exists>as x bs. content = join_with nl (as @ x # bs) \<and> key_line ''description:'' x \<and>
      App_Config.SetDescription content desc = join_with nl (as @ (''description: '' @ yamlQuote desc) # bs)) \<or>
   App_Config.SetDescription content desc = ''description: '' @ yamlQuote desc @ nl # (if TrimSpace content = [] then [] else content)"
proof (cases "replace_first (key_line ''description:'') (''description: '' @ yamlQuote desc) (split_on nl content)")
  case (Some ls)
  then obtain as x bs where "split_on nl content = as @ x # bs" "key_line ''description:'' x" "ls = as @ (''description: '' @ yamlQuote desc) # bs"
    using replace_first_split by metis
  moreover have "content = join_with nl (split_on nl content)"
    by simp
  ultimately have "content = join_with nl (as @ x # bs)"
    by metis
  then show ?thesis
    using Some \<open>key_line _ x\<close> \<open>ls = _\<close> by (auto simp: SetDescription_def)
qed (auto simp: SetDescription_def)

lemma safeRel_config: "safeRel configFile = Inr configFile" "segs configFile = [configFile]"
  by (simp_all add: configFile_def segs_def safeRel_def Clean_rooted_def isProtected_def protectedDirs_def path_Base_def tempPrefix_def
      HasPrefix_def TrimPrefix_def TrimSuffix_def HasSuffix_def TrimSpace_def is_space_def)

lemma writeAppError_200: "writeAppError e \<noteq> 200"
  by (auto simp: writeAppError_def writeUserError_def)

lemma node_write_config:
  assumes "sv_exists (hs name)" and "node_write e hs name configFile content = (hs', None)"
  shows "home_of (hs' name) [configFile] = Some (FFile content defaultFileMode)"
proof -
  obtain v where v: "Home_Files.WriteFileFrom (we_io e) (we_suffix e) (hs name) configFile (content, False) 0 = (v, None)" "hs' name = v"
    using assms(2) by (auto simp: node_write_def node_op_def Home_Files.WriteFile_def split: if_splits prod.splits)
  show ?thesis
    using WriteFileFrom_cases[OF safeRel_config(1) assms(1) v(1), of "[]"] v(2) by (simp add: safeRel_config fileMode_def)
qed

lemma config_content_unreadable:
  assumes "sv_exists (hs name)" "home_of (hs name) [configFile] = Some (FFile c m)" "\<not> up \<or> length c > maxConfigSize"
  shows "config_content up hs name = []"
  using assms
  by (cases "sv_files (hs name)")
    (auto simp: config_content_def node_readMax_def Home_Files.ReadFileMax_def safeRel_config OpenRoot_def home_of_def ReadCapped_def read_node_def fs_Stat_def)

lemma config_content_readable:
  assumes "sv_exists (hs name)" "home_of (hs name) [configFile] = Some (FFile c m)" "up" "length c \<le> maxConfigSize"
  shows "config_content up hs name = c"
  using assms
  by (cases "sv_files (hs name)")
    (auto simp: config_content_def node_readMax_def Home_Files.ReadFileMax_def safeRel_config OpenRoot_def home_of_def ReadCapped_def read_node_def fs_Stat_def)

text \<open>Setting the description of an app whose \<open>hostit.yml\<close> could not be read destroys the file. If the read is refused because the
  file is over 64 KiB, or because the node did not answer that one call, and the write then succeeds, what is left of the file is the line
  with the description: mode, command, environment and hooks are gone.\<close>

lemma description_replaces_unreadable_config:
  assumes "ownedApp d c name = Inr a" and "sv_exists (hs (a_Name a))"
    and "home_of (hs (a_Name a)) [configFile] = Some (FFile content m)" and "\<not> up \<or> length content > maxConfigSize"
    and "handleAppsSetDescription up e now d hs c name (Some desc) = ((d', hs'), 200)"
  shows "home_of (hs' (a_Name a)) [configFile] =
     Some (FFile (''description: '' @ yamlQuote (ReplaceChar nl '' '' (TrimSpace desc)) @ [nl]) defaultFileMode)"
proof -
  have w: "node_write e hs (a_Name a) configFile
      (''description: '' @ yamlQuote (ReplaceChar nl '' '' (TrimSpace desc)) @ [nl]) = (hs', None)"
    using assms(1,5) config_content_unreadable[where hs = hs and name = "a_Name a", OF assms(2-4)]
    by (auto simp: handleAppsSetDescription_def Manager_SetDescription_def SetDescription_def key_line_def TrimSpace_def HasPrefix_def writeAppError_200
        split: prod.splits option.splits)
  show ?thesis
    by (rule node_write_config[where hs = hs and name = "a_Name a", OF assms(2) w])
qed

text \<open>An app whose file is one byte over what control reads.\<close>

definition big_homes :: homes where
  "big_homes name = \<lparr>sv_exists = True, sv_files = Some [[configFile] \<mapsto> FFile (replicate (maxConfigSize + 1) (CHR ''x'')) defaultFileMode]\<rparr>"

lemma ownedApp_sample: "ownedApp viewer_db owner_caller ''blog'' = Inr plain_app"
  using ownerApp_sample by (auto simp: ownerApp_def split: sum.splits if_splits)

lemma description_replaces_unreadable_config_witness:
  "\<exists>d' hs'. handleAppsSetDescription True \<lparr>we_up = True, we_io = grants, we_suffix = ''ab''\<rparr> 0 viewer_db big_homes owner_caller ''blog'' (Some ''A blog'') = ((d', hs'), 200) \<and>
     home_of (hs' ''blog'') [configFile] = Some (FFile (''description: '' @ yamlQuote ''A blog'' @ [nl]) defaultFileMode)"
proof -
  let ?e = "\<lparr>we_up = True, we_io = grants, we_suffix = ''ab''\<rparr>"
  let ?r = "handleAppsSetDescription True ?e 0 viewer_db big_homes owner_caller ''blog'' (Some ''A blog'')"
  have n: "a_Name plain_app = ''blog''"
    by (simp add: plain_app_def)
  have h: "sv_exists (big_homes (a_Name plain_app))"
      "home_of (big_homes (a_Name plain_app)) [configFile] = Some (FFile (replicate (maxConfigSize + 1) (CHR ''x'')) defaultFileMode)"
      "\<not> True \<or> length (replicate (maxConfigSize + 1) (CHR ''x'')) > maxConfigSize"
    by (simp_all add: big_homes_def home_of_def)
  have t: "ReplaceChar nl '' '' (TrimSpace ''A blog'') = ''A blog''"
    by (simp add: TrimSpace_def is_space_def)
  have c: "config_content True big_homes ''blog'' = []"
    using config_content_unreadable[where hs = big_homes and name = "a_Name plain_app", OF h] by (simp add: n)
  have "snd (node_write ?e big_homes ''blog'' configFile x) = None" if "length x \<le> 100" for x
    using that
    by (simp add: node_write_def node_op_def Home_Files.WriteFile_def WriteFileFrom_def with_root_def safeRel_config OpenRoot_def big_homes_def
        write_body_def MkdirAll_def path_Dir_def grants_def fs_Stat_def maxUploadSize_def fs_Rename_def Let_def tempPrefix_def configFile_def safeRel_config[unfolded configFile_def])
  moreover have "length (App_Config.SetDescription [] ''A blog'') \<le> 100"
    by (simp add: SetDescription_def key_line_def TrimSpace_def HasPrefix_def yamlQuote_def Let_def)
  ultimately have "snd (Manager_SetDescription True ?e big_homes ''blog'' ''A blog'') = None"
    by (simp add: Manager_SetDescription_def c t del: TrimSpace_idem)
  then obtain d' hs' where r: "?r = ((d', hs'), 200)"
    by (cases "Manager_SetDescription True ?e big_homes ''blog'' ''A blog''")
      (auto simp: handleAppsSetDescription_def ownedApp_sample n)
  show ?thesis
    using description_replaces_unreadable_config[OF ownedApp_sample h r] r by (simp only: n t) blast
qed

end
