(* ===== verification/Connection_Providers.thy ===== *)
theory Connection_Providers
  imports Account_Admin
begin

text \<open>The services an account can be connected to: the catalog entry and what is pure about it
  (\<open>src/control/connections/connections.go\<close>), operator-written entries (\<open>custom.go\<close>), the OAuth exchange and refresh
  (\<open>oauth.go\<close>), the sealing of stored credentials (\<open>crypto.go\<close>), and the three tiers a provider name resolves through
  (\<open>src/control/providers.go\<close>, the operator-written part of \<open>src/control/connections.go\<close>). Help texts and descriptions are left out. The
  cipher, the regular expressions of form fields and the token endpoints of the providers are arguments.

  The lemmas show that a consent asks for offered scopes only and that the tick boxes of a grant are read back from what it
  granted, what an exchange keeps, and that no lower tier redefines a name of a higher one.\<close>

section \<open>The catalog entry\<close>

abbreviation KindOAuth :: string where "KindOAuth \<equiv> ''oauth''"
abbreviation KindStatic :: string where "KindStatic \<equiv> ''static''"
abbreviation KindMCP :: string where "KindMCP \<equiv> ''mcp''"

datatype conn_err =
    ErrInvalidCredential | ErrReauthRequired | ErrNotConnected | ErrNotGranted | ErrNotMCPCredential | ErrNotMCP
  | ErrInvalidSlug | ErrStore err | ErrOther string

record Field =
  fd_Name :: string
  fd_Label :: string
  fd_Optional :: bool
  fd_Pattern :: string

record ScopeOption =
  so_Key :: string
  so_Scopes :: "string list"
  so_Default :: bool

record CatProvider =
  cp_Name :: string
  cp_Label :: string
  cp_Kind :: string
  cp_Scopes :: "string list"
  cp_ScopeOptions :: "ScopeOption list"
  cp_UserToken :: bool
  cp_Fields :: "Field list"
  cp_SecretField :: string
  cp_AuthURL :: string
  cp_TokenURL :: string
  cp_RevokeURL :: string
  cp_RevokeAuth :: string
  cp_Issuer :: string
  cp_Custom :: bool
  cp_Personal :: bool
  cp_AuthParams :: "(string \<times> string) list"
  cp_LongLivedToken :: bool
  cp_HybridToken :: bool
  cp_ProbeURL :: string
  cp_ProbeBody :: string
  cp_DisallowMultiple :: bool

record ConnToken =
  tk_Provider :: string
  tk_AccessToken :: string
  tk_ExpiresAt :: "int option"
  tk_Meta :: string

subsection \<open>Scopes\<close>

text \<open>\<open>byKey\<close> is filled in order, so the last option of a key is the one it holds.\<close>

definition scope_option :: "CatProvider \<Rightarrow> string \<Rightarrow> ScopeOption option" where
  "scope_option p key = tbl_find (\<lambda>opt. so_Key opt = key) (rev (cp_ScopeOptions p))"

fun add_scopes :: "string list \<Rightarrow> string list \<Rightarrow> string list" where
  "add_scopes acc [] = acc"
| "add_scopes acc (s # ss) = add_scopes (if s \<in> set acc then acc else acc @ [s]) ss"

fun resolve_keys :: "CatProvider \<Rightarrow> string list \<Rightarrow> string list \<Rightarrow> conn_err + string list" where
  "resolve_keys p acc [] = Inr acc"
| "resolve_keys p acc (key # keys) =
     (case scope_option p key of None \<Rightarrow> Inl (ErrOther ''unknown scope option'')
      | Some opt \<Rightarrow> resolve_keys p (add_scopes acc (so_Scopes opt)) keys)"

definition ResolveScopes :: "CatProvider \<Rightarrow> string list \<Rightarrow> conn_err + string list" where
  "ResolveScopes p keys = resolve_keys p (add_scopes [] (cp_Scopes p)) keys"

definition DefaultScopeKeys :: "CatProvider \<Rightarrow> string list" where
  "DefaultScopeKeys p = map so_Key (filter so_Default (cp_ScopeOptions p))"

definition SelectedScopeKeys :: "CatProvider \<Rightarrow> string list \<Rightarrow> string list" where
  "SelectedScopeKeys p granted =
     map so_Key (filter (\<lambda>opt. so_Scopes opt \<noteq> [] \<and> list_all (\<lambda>s. s \<in> set granted) (so_Scopes opt)) (cp_ScopeOptions p))"

definition AllowsMultiple :: "CatProvider \<Rightarrow> bool" where
  "AllowsMultiple p = (\<not> cp_DisallowMultiple p)"

definition Configured :: "CatProvider \<Rightarrow> string \<Rightarrow> string \<Rightarrow> bool" where
  "Configured p clientID clientSecret = (if cp_Kind p \<noteq> KindOAuth then True else clientID \<noteq> [] \<and> clientSecret \<noteq> [])"

text \<open>The form values of a pasted credential are a map; a missing key reads as the empty string.\<close>

fun validate_fields :: "(string \<Rightarrow> string \<Rightarrow> bool) \<Rightarrow> (string \<Rightarrow> string) \<Rightarrow> Field list \<Rightarrow> conn_err option" where
  "validate_fields re values [] = None"
| "validate_fields re values (f # fs) =
     (if values (fd_Name f) = [] then (if fd_Optional f then validate_fields re values fs else Some ErrInvalidCredential)
      else if fd_Pattern f \<noteq> [] \<and> \<not> re (fd_Pattern f) (values (fd_Name f)) then Some ErrInvalidCredential
      else validate_fields re values fs)"

definition Provider_Validate :: "(string \<Rightarrow> string \<Rightarrow> bool) \<Rightarrow> CatProvider \<Rightarrow> (string \<Rightarrow> string) \<Rightarrow> conn_err option" where
  "Provider_Validate re p values = (if cp_Fields p = [] then Some ErrInvalidCredential else validate_fields re values (cp_Fields p))"

subsection \<open>Operator-written entries\<close>

record CustomSpec =
  cs_Label :: string
  cs_Scopes :: "string list"
  cs_ScopeOptions :: "ScopeOption list"
  cs_Issuer :: string
  cs_AuthURL :: string
  cs_TokenURL :: string
  cs_RevokeURL :: string
  cs_RevokeAuth :: string
  cs_AuthParams :: "(string \<times> string) list"
  cs_LongLivedToken :: bool
  cs_HybridToken :: bool
  cs_ProbeURL :: string
  cs_UserToken :: bool
  cs_DisallowMultiple :: bool

definition lower_alnum :: "char \<Rightarrow> bool" where
  "lower_alnum c = (let n = of_char c :: nat in 97 \<le> n \<and> n \<le> 122 \<or> 48 \<le> n \<and> n \<le> 57)"

text \<open>Two to 32 characters: lower-case letters and digits, dashes inside.\<close>

definition custom_name_ok :: "string \<Rightarrow> bool" where
  "custom_name_ok s = (2 \<le> length s \<and> length s \<le> 32 \<and> lower_alnum (hd s) \<and> lower_alnum (last s)
     \<and> list_all (\<lambda>c. lower_alnum c \<or> c = CHR ''-'') s)"

definition url_ok :: "string \<Rightarrow> bool" where
  "url_ok u = (u = [] \<or> HasPrefix u ''https://'' \<or> HasPrefix u ''http://'')"

definition CustomProvider :: "(string \<Rightarrow> CatProvider option) \<Rightarrow> string \<Rightarrow> CustomSpec \<Rightarrow> conn_err + CatProvider" where
  "CustomProvider catalog name spec =
     (if \<not> custom_name_ok name then Inl (ErrOther ''name'')
      else if catalog name \<noteq> None then Inl (ErrOther ''built-in'')
      else if TrimSpace (cs_Label spec) = [] then Inl (ErrOther ''label'')
      else if cs_Issuer spec = [] \<and> cs_AuthURL spec = [] then Inl (ErrOther ''auth-url'')
      else if cs_Issuer spec = [] \<and> cs_TokenURL spec = [] then Inl (ErrOther ''token-url'')
      else if cs_HybridToken spec \<and> cs_LongLivedToken spec then Inl (ErrOther ''token model'')
      else if cs_HybridToken spec \<and> cs_ProbeURL spec = [] then Inl (ErrOther ''probe-url'')
      else if \<not> (url_ok (cs_Issuer spec) \<and> url_ok (cs_AuthURL spec) \<and> url_ok (cs_TokenURL spec)) then Inl (ErrOther ''URL'')
      else Inr \<lparr>cp_Name = name, cp_Label = TrimSpace (cs_Label spec), cp_Kind = KindOAuth, cp_Scopes = cs_Scopes spec,
        cp_ScopeOptions = cs_ScopeOptions spec, cp_UserToken = cs_UserToken spec, cp_Fields = [], cp_SecretField = [],
        cp_AuthURL = cs_AuthURL spec, cp_TokenURL = cs_TokenURL spec, cp_RevokeURL = cs_RevokeURL spec,
        cp_RevokeAuth = cs_RevokeAuth spec, cp_Issuer = cs_Issuer spec, cp_Custom = True, cp_Personal = False,
        cp_AuthParams = cs_AuthParams spec, cp_LongLivedToken = cs_LongLivedToken spec, cp_HybridToken = cs_HybridToken spec,
        cp_ProbeURL = cs_ProbeURL spec, cp_ProbeBody = [], cp_DisallowMultiple = cs_DisallowMultiple spec\<rparr>)"

definition NeedsDiscovery :: "CatProvider \<Rightarrow> bool" where
  "NeedsDiscovery p = (cp_Issuer p \<noteq> [] \<and> (cp_AuthURL p = [] \<or> cp_TokenURL p = []))"

definition WithEndpoints :: "CatProvider \<Rightarrow> string \<Rightarrow> string \<Rightarrow> CatProvider" where
  "WithEndpoints p authURL tokenURL = p\<lparr>cp_AuthURL := authURL, cp_TokenURL := tokenURL\<rparr>"

section \<open>OAuth\<close>

record tokenResponse =
  tr_AccessToken :: string
  tr_RefreshToken :: string
  tr_ExpiresIn :: int
  tr_Error :: string
  tr_UserAccessToken :: string

text \<open>A token endpoint, asked with a form: no answer, or a status with a body that parses as a token response or not.\<close>

datatype post_result = NoAnswer | Answer nat "tokenResponse option"

type_synonym form = "(string \<times> string) list"
type_synonym endpoint = "string \<Rightarrow> form \<Rightarrow> post_result"

definition postToken :: "endpoint \<Rightarrow> CatProvider \<Rightarrow> form \<Rightarrow> conn_err + tokenResponse" where
  "postToken ep p form =
     (case ep (cp_TokenURL p) form of
        NoAnswer \<Rightarrow> Inl (ErrOther ''unreachable'')
      | Answer status None \<Rightarrow> Inl (ErrOther ''not a token response'')
      | Answer status (Some res) \<Rightarrow>
          if tr_Error res \<noteq> [] then Inl ErrReauthRequired
          else if status \<noteq> 200 then Inl (ErrOther ''HTTP'')
          else Inr res)"

definition keptToken :: "CatProvider \<Rightarrow> tokenResponse \<Rightarrow> string" where
  "keptToken p res = (if cp_UserToken p then tr_UserAccessToken res else tr_AccessToken res)"

definition exchange_form :: "string \<Rightarrow> string \<Rightarrow> string \<Rightarrow> string \<Rightarrow> form" where
  "exchange_form clientID clientSecret redirectURL code =
     [(''client_id'', clientID), (''client_secret'', clientSecret), (''code'', code), (''grant_type'', ''authorization_code''),
      (''redirect_uri'', redirectURL)]"

definition refresh_form :: "string \<Rightarrow> string \<Rightarrow> string \<Rightarrow> form" where
  "refresh_form clientID clientSecret refreshToken =
     [(''client_id'', clientID), (''client_secret'', clientSecret), (''refresh_token'', refreshToken), (''grant_type'', ''refresh_token'')]"

definition Exchange :: "endpoint \<Rightarrow> CatProvider \<Rightarrow> string \<Rightarrow> string \<Rightarrow> string \<Rightarrow> string \<Rightarrow> conn_err + string \<times> bool" where
  "Exchange ep p clientID clientSecret redirectURL code =
     (case postToken ep p (exchange_form clientID clientSecret redirectURL code) of
        Inl e \<Rightarrow> Inl e
      | Inr res \<Rightarrow>
          if cp_LongLivedToken p then
            (if keptToken p res = [] then Inl (ErrOther ''no access token'') else Inr (keptToken p res, False))
          else if cp_HybridToken p then
            (if tr_RefreshToken res \<noteq> [] then Inr (tr_RefreshToken res, True)
             else if keptToken p res = [] then Inl (ErrOther ''no token'') else Inr (keptToken p res, False))
          else if tr_RefreshToken res = [] then Inl (ErrOther ''no refresh token'')
          else Inr (tr_RefreshToken res, True))"

text \<open>Times are seconds. The second component is a rotated refresh token, empty where there is none.\<close>

definition Refresh :: "endpoint \<Rightarrow> int \<Rightarrow> CatProvider \<Rightarrow> string \<Rightarrow> string \<Rightarrow> string \<Rightarrow> conn_err + ConnToken \<times> string" where
  "Refresh ep now p clientID clientSecret refreshToken =
     (if cp_LongLivedToken p
      then Inr (\<lparr>tk_Provider = cp_Name p, tk_AccessToken = refreshToken, tk_ExpiresAt = None, tk_Meta = []\<rparr>, [])
      else case postToken ep p (refresh_form clientID clientSecret refreshToken) of
        Inl e \<Rightarrow> Inl e
      | Inr res \<Rightarrow>
          let expiry = (if tr_ExpiresIn res = 0 then now + 3600 else now + tr_ExpiresIn res);
              rotated = (if tr_RefreshToken res \<noteq> [] \<and> tr_RefreshToken res \<noteq> refreshToken then tr_RefreshToken res else [])
          in Inr (\<lparr>tk_Provider = cp_Name p, tk_AccessToken = tr_AccessToken res, tk_ExpiresAt = Some expiry, tk_Meta = []\<rparr>, rotated))"

section \<open>Sealing\<close>

text \<open>The authenticated cipher: \<open>cr_seal key nonce plain aad\<close> and \<open>cr_open key sealed aad\<close>. \<open>aead_ok\<close> is what AES-GCM is used for: what was
  sealed opens under its key and its associated data, and under no others.\<close>

record crypto =
  cr_seal :: "string \<Rightarrow> string \<Rightarrow> string \<Rightarrow> string \<Rightarrow> string"
  cr_open :: "string \<Rightarrow> string \<Rightarrow> string \<Rightarrow> string option"

definition aead_ok :: "crypto \<Rightarrow> bool" where
  "aead_ok cr =
     ((\<forall>k n p a. cr_open cr k (cr_seal cr k n p a) a = Some p) \<and>
      (\<forall>k n p a k' a'. cr_open cr k' (cr_seal cr k n p a) a' \<noteq> None \<longrightarrow> k' = k \<and> a' = a))"

definition Binding :: "string \<Rightarrow> string \<Rightarrow> string" where
  "Binding uid connectionID = ''hostit-connection:'' @ uid @ '':'' @ connectionID"

definition OpenLegacyTolerant :: "crypto \<Rightarrow> string \<Rightarrow> string \<Rightarrow> string \<Rightarrow> (string \<times> bool) option" where
  "OpenLegacyTolerant cr key sealed aad =
     (case cr_open cr key sealed aad of Some out \<Rightarrow> Some (out, True)
      | None \<Rightarrow> (case cr_open cr key sealed [] of Some out \<Rightarrow> Some (out, False) | None \<Rightarrow> None))"

lemma seal_opens: "aead_ok cr \<Longrightarrow> cr_open cr k (cr_seal cr k n p a) a = Some p"
  by (simp add: aead_ok_def)

lemma seal_opens_only: "aead_ok cr \<Longrightarrow> k' \<noteq> k \<or> a' \<noteq> a \<Longrightarrow> cr_open cr k' (cr_seal cr k n p a) a' = None"
  unfolding aead_ok_def by blast

section \<open>The tiers of a name\<close>

text \<open>What the instance is configured with: hostit's catalog, the clients of \<open>control.yml\<close> and the providers written there, what a provider's
  metadata says about its endpoints, and the two columns of a stored definition that hold JSON. An endpoint once discovered is
  remembered by the code; here it is asked for each time and answers the same.\<close>

record oauth_client =
  oc_ID :: string
  oc_Secret :: string
  oc_ScopeOptions :: "ScopeOption list"
  oc_AllowMultiple :: "bool option"

record conn_env =
  ev_crypto :: crypto
  ev_catalog :: "string \<Rightarrow> CatProvider option"
  ev_clients :: "string \<Rightarrow> oauth_client option"
  ev_google :: "string \<times> string"
  ev_custom :: "string \<Rightarrow> CatProvider option"
  ev_discover :: "string \<Rightarrow> (string \<times> string) option"
  ev_params :: "string \<Rightarrow> (string \<times> string) list"
  ev_options :: "string \<Rightarrow> ScopeOption list"
  ev_re :: "string \<Rightarrow> string \<Rightarrow> bool"

definition ConnectionClient :: "conn_env \<Rightarrow> string \<Rightarrow> string \<times> string" where
  "ConnectionClient ev provider =
     (case ev_clients ev provider of
        Some client \<Rightarrow> if oc_ID client \<noteq> [] then (oc_ID client, oc_Secret client)
          else if provider \<in> {''google-calendar'', ''gmail'', ''google-drive''} then ev_google ev else ([], [])
      | None \<Rightarrow> if provider \<in> {''google-calendar'', ''gmail'', ''google-drive''} then ev_google ev else ([], []))"

definition resolved :: "conn_env \<Rightarrow> CatProvider \<Rightarrow> CatProvider" where
  "resolved ev p =
     (if \<not> NeedsDiscovery p then p
      else case ev_discover ev (cp_Issuer p) of
        None \<Rightarrow> p
      | Some (au, tu) \<Rightarrow> if au = [] \<or> tu = [] then p else WithEndpoints p au tu)"

definition applyScopeOverride :: "conn_env \<Rightarrow> CatProvider \<Rightarrow> CatProvider" where
  "applyScopeOverride ev p =
     (if cp_Custom p then p
      else case ev_clients ev (cp_Name p) of None \<Rightarrow> p
      | Some client \<Rightarrow>
          let p1 = (if oc_ScopeOptions client \<noteq> [] then p\<lparr>cp_ScopeOptions := oc_ScopeOptions client\<rparr> else p)
          in (case oc_AllowMultiple client of None \<Rightarrow> p1 | Some am \<Rightarrow> p1\<lparr>cp_DisallowMultiple := \<not> am\<rparr>))"

definition lookup_provider :: "conn_env \<Rightarrow> string \<Rightarrow> CatProvider option" where
  "lookup_provider ev name =
     (case ev_custom ev name of Some p \<Rightarrow> Some (resolved ev p)
      | None \<Rightarrow> map_option (applyScopeOverride ev) (ev_catalog ev name))"

definition splitScopes :: "string \<Rightarrow> string list" where
  "splitScopes s = Fields_aux [] s"

definition providerFromRow :: "conn_env \<Rightarrow> Provider \<Rightarrow> conn_err + CatProvider" where
  "providerFromRow ev row =
     (if pv_Kind row = ''mcp'' then Inl (ErrOther ''MCP server'')
      else case CustomProvider (ev_catalog ev) (pv_Name row)
        \<lparr>cs_Label = pv_Label row, cs_Scopes = splitScopes (pv_Scopes row), cs_ScopeOptions = ev_options ev (pv_ScopeOptions row),
         cs_Issuer = pv_Issuer row, cs_AuthURL = pv_AuthURL row, cs_TokenURL = pv_TokenURL row, cs_RevokeURL = [], cs_RevokeAuth = [],
         cs_AuthParams = ev_params ev (pv_AuthParams row), cs_LongLivedToken = pv_LongLived row, cs_HybridToken = False, cs_ProbeURL = [],
         cs_UserToken = pv_UserToken row, cs_DisallowMultiple = \<not> pv_AllowMultiple row\<rparr> of
        Inl e \<Rightarrow> Inl e
      | Inr p \<Rightarrow> Inr (p\<lparr>cp_Personal := (pv_OwnerID row \<noteq> [])\<rparr>))"

definition providerFor :: "conn_env \<Rightarrow> db \<Rightarrow> string \<Rightarrow> string \<Rightarrow> CatProvider option" where
  "providerFor ev d uid name =
     (case lookup_provider ev name of Some p \<Rightarrow> Some p
      | None \<Rightarrow> (case ProviderByName d uid name of Inl e \<Rightarrow> None
          | Inr row \<Rightarrow> (case providerFromRow ev row of Inl e \<Rightarrow> None | Inr p \<Rightarrow> Some (resolved ev p))))"

definition instanceOwner :: string where "instanceOwner = ''hostit-instance''"

definition provider_aad :: "Provider \<Rightarrow> string" where
  "provider_aad row = Binding (if pv_OwnerID row = [] then instanceOwner else pv_OwnerID row) (pv_ID row)"

definition openProviderSecret :: "conn_env \<Rightarrow> string \<Rightarrow> Provider \<Rightarrow> string option" where
  "openProviderSecret ev key row =
     (if pv_ClientSecret row = [] then Some [] else cr_open (ev_crypto ev) key (pv_ClientSecret row) (provider_aad row))"

definition sealProviderSecret :: "conn_env \<Rightarrow> string \<Rightarrow> string \<Rightarrow> Provider \<Rightarrow> string \<Rightarrow> string" where
  "sealProviderSecret ev key nonce row plain =
     (if plain = [] then [] else cr_seal (ev_crypto ev) key nonce plain (provider_aad row))"

definition clientForUser :: "conn_env \<Rightarrow> string \<Rightarrow> db \<Rightarrow> string \<Rightarrow> string \<Rightarrow> string \<times> string" where
  "clientForUser ev key d uid provider =
     (if fst (ConnectionClient ev provider) \<noteq> [] then ConnectionClient ev provider
      else case ProviderByName d uid provider of Inl e \<Rightarrow> ([], [])
      | Inr row \<Rightarrow>
          if pv_Kind row \<noteq> ''oauth'' then ([], [])
          else case openProviderSecret ev key row of None \<Rightarrow> ([], []) | Some plain \<Rightarrow> (pv_ClientID row, plain))"

definition availableFor :: "conn_env \<Rightarrow> string \<Rightarrow> db \<Rightarrow> string \<Rightarrow> CatProvider \<Rightarrow> bool" where
  "availableFor ev key d uid p =
     (if NeedsDiscovery p then False else if cp_Kind p \<noteq> KindOAuth then True
      else case clientForUser ev key d uid (cp_Name p) of (i, s) \<Rightarrow> i \<noteq> [] \<and> s \<noteq> [])"

definition nameAvailableFor :: "conn_env \<Rightarrow> db \<Rightarrow> string \<Rightarrow> string \<Rightarrow> string \<Rightarrow> string \<Rightarrow> conn_err option" where
  "nameAvailableFor ev d uid name kind exceptID =
     (if kind = ''oauth'' \<and> ev_catalog ev name \<noteq> None then Some ErrInvalidCredential
      else if kind = ''oauth'' \<and> ev_custom ev name \<noteq> None then Some ErrInvalidCredential
      else case ProviderByName d uid name of Inl e \<Rightarrow> None
      | Inr row \<Rightarrow>
          if pv_ID row = exceptID then None
          else if pv_OwnerID row = [] then Some ErrInvalidCredential else Some (ErrStore ErrProviderExists))"

definition saveProvider :: "conn_env \<Rightarrow> string \<Rightarrow> string \<Rightarrow> string \<Rightarrow> int \<Rightarrow> db \<Rightarrow> Provider \<Rightarrow> string \<Rightarrow> Provider option \<Rightarrow> conn_err + db" where
  "saveProvider ev key nonce rid now d row clientSecret existing =
     (case existing of
        Some ex \<Rightarrow>
          (let row1 = row\<lparr>pv_ID := pv_ID ex, pv_CreatedAt := pv_CreatedAt ex\<rparr>;
               sealed = (if clientSecret = [] then pv_ClientSecret ex else sealProviderSecret ev key nonce row1 clientSecret)
           in case UpdateProvider d (row1\<lparr>pv_ClientSecret := sealed\<rparr>) of Inl e \<Rightarrow> Inl (ErrStore e) | Inr d' \<Rightarrow> Inr d')
      | None \<Rightarrow>
          (let row1 = row\<lparr>pv_ID := ''pv_'' @ rid, pv_CreatedAt := Some now\<rparr>
           in case AddProvider rid d (row1\<lparr>pv_ClientSecret := sealProviderSecret ev key nonce row1 clientSecret\<rparr>) of
                Inl e \<Rightarrow> Inl (ErrStore e) | Inr (d', _) \<Rightarrow> Inr d'))"

section \<open>Scopes of a consent\<close>

lemma add_scopes_set: "set (add_scopes acc ss) = set acc \<union> set ss"
  by (induction acc ss rule: add_scopes.induct) auto

lemma add_scopes_distinct: "distinct acc \<Longrightarrow> distinct (add_scopes acc ss)"
  by (induction acc ss rule: add_scopes.induct) auto

lemma scope_option_in: "scope_option p key = Some opt \<Longrightarrow> opt \<in> set (cp_ScopeOptions p) \<and> so_Key opt = key"
  unfolding scope_option_def by (auto dest: tbl_find_Some)

lemma resolve_keys_ok:
  "resolve_keys p acc keys = Inr out \<Longrightarrow> distinct acc \<Longrightarrow>
     distinct out \<and> set acc \<subseteq> set out \<and>
     (\<forall>s \<in> set out. s \<in> set acc \<or> (\<exists>key \<in> set keys. \<exists>opt. scope_option p key = Some opt \<and> s \<in> set (so_Scopes opt))) \<and>
     (\<forall>key \<in> set keys. \<exists>opt. scope_option p key = Some opt \<and> set (so_Scopes opt) \<subseteq> set out)"
proof (induction keys arbitrary: acc)
  case (Cons key keys)
  then obtain opt where opt: "scope_option p key = Some opt" "resolve_keys p (add_scopes acc (so_Scopes opt)) keys = Inr out"
    by (auto split: option.splits)
  show ?case
    using Cons.IH[OF opt(2) add_scopes_distinct[OF Cons.prems(2)]] opt(1) by (fastforce simp: add_scopes_set)
qed auto

text \<open>The scopes a consent asks for are the baseline and what the chosen options add, each once; nothing else. And the options
  chosen are found ticked again from the scopes that were granted.\<close>

lemma ResolveScopes_exact:
  assumes "ResolveScopes p keys = Inr out"
  shows "distinct out \<and> set (cp_Scopes p) \<subseteq> set out \<and>
     (\<forall>s \<in> set out. s \<in> set (cp_Scopes p) \<or> (\<exists>opt \<in> set (cp_ScopeOptions p). so_Key opt \<in> set keys \<and> s \<in> set (so_Scopes opt)))"
  using resolve_keys_ok[OF assms[unfolded ResolveScopes_def] add_scopes_distinct] scope_option_in
  by (fastforce simp: add_scopes_set)

lemma SelectedScopeKeys_roundtrip:
  assumes "ResolveScopes p keys = Inr out" and "key \<in> set keys" and "\<forall>opt \<in> set (cp_ScopeOptions p). so_Scopes opt \<noteq> []"
  shows "key \<in> set (SelectedScopeKeys p out)"
proof -
  obtain opt where "scope_option p key = Some opt" "set (so_Scopes opt) \<subseteq> set out"
    using resolve_keys_ok[OF assms(1)[unfolded ResolveScopes_def] add_scopes_distinct] assms(2) by auto
  then show ?thesis
    using scope_option_in[of p key opt] assms(3) by (force simp: SelectedScopeKeys_def list_all_iff)
qed

section \<open>Tiers\<close>

text \<open>What a name means for a user does not depend on the stored definitions where hostit's catalog or the operator's file has it, and a
  definition that \<open>saveProvider\<close> may create for a user has a name that none of them uses.\<close>

lemma providerFor_higher_tier: "lookup_provider ev name = Some p \<Longrightarrow> providerFor ev d uid name = Some p"
  by (simp add: providerFor_def)

lemma lookup_custom_first: "ev_custom ev name = Some p \<Longrightarrow> lookup_provider ev name = Some (resolved ev p)"
  by (simp add: lookup_provider_def)

lemma nameAvailableFor_fresh:
  "nameAvailableFor ev d uid name ''oauth'' exceptID = None \<Longrightarrow> lookup_provider ev name = None"
  by (auto simp: nameAvailableFor_def lookup_provider_def split: if_splits)

lemma resolved_usable: "\<not> NeedsDiscovery (resolved ev p) \<or> resolved ev p = p"
  by (auto simp: resolved_def NeedsDiscovery_def WithEndpoints_def split: option.splits)

end
