(* ===== verification/Credential_Custody.thy ===== *)
theory Credential_Custody
  imports Connection_Providers
begin

text \<open>Custody of connected accounts (\<open>src/control/connections.go\<close>): sealing what is stored, opening what is used, refreshing and
  caching OAuth tokens, what an app gets for a name, the health sweep, key rotation; and the handlers around it
  (\<open>src/control/server_handler_connections.go\<close>). The manager is its database, the key it holds, the key files on disk and the
  cache of access tokens. The steps of MCP consent are left out; an MCP connection appears as one that has no credential to hand out.

  The lemmas show what an app can obtain and from whom, that a token from the cache was minted from the credential stored now,
  and what a key rotation does to the credentials - when it succeeds and when it does not.\<close>

section \<open>State\<close>

record cachedToken =
  ct_token :: ConnToken
  ct_mintedFrom :: string
  ct_expires :: int

record conn_mgr =
  cm_db :: db
  cm_key :: string
  cm_keyfile :: string
  cm_previous :: "string option"
  cm_cached :: "string \<Rightarrow> cachedToken option"

abbreviation StatusNeedsReconnect :: string where "StatusNeedsReconnect \<equiv> ''needs_reconnect''"

definition tokenCacheMargin :: int where "tokenCacheMargin = 120"
definition connectionRefreshHorizon :: int where "connectionRefreshHorizon = 900"
definition metaOAuthLongLived :: string where "metaOAuthLongLived = ''long-lived''"

definition conn_aad :: "Connection \<Rightarrow> string" where
  "conn_aad c = Binding (c_UserID c) (c_ID c)"

definition seal_for :: "conn_env \<Rightarrow> conn_mgr \<Rightarrow> string \<Rightarrow> Connection \<Rightarrow> string \<Rightarrow> string" where
  "seal_for ev m nonce c plain = cr_seal (ev_crypto ev) (cm_key m) nonce plain (conn_aad c)"

section \<open>Credentials\<close>

definition oauthTokenMeta :: "CatProvider \<Rightarrow> bool \<Rightarrow> string" where
  "oauthTokenMeta p refr = (if cp_HybridToken p \<and> \<not> refr then metaOAuthLongLived else [])"

definition refreshable :: "Connection \<Rightarrow> CatProvider \<Rightarrow> bool" where
  "refreshable conn p =
     (if cp_LongLivedToken p then False else if cp_HybridToken p then c_Meta conn \<noteq> metaOAuthLongLived else True)"

definition metaFrom :: "CatProvider \<Rightarrow> (string \<Rightarrow> string) \<Rightarrow> string" where
  "metaFrom p values =
     join_with (CHR '' '') (map (\<lambda>f. fd_Name f @ ''='' @ values (fd_Name f))
       (filter (\<lambda>f. fd_Name f \<noteq> cp_SecretField p \<and> values (fd_Name f) \<noteq> []) (cp_Fields p)))"

definition open_conn :: "conn_env \<Rightarrow> string \<Rightarrow> conn_mgr \<Rightarrow> Connection \<Rightarrow> (conn_mgr \<times> Connection \<times> string) option" where
  "open_conn ev nonce m conn =
     (case OpenLegacyTolerant (ev_crypto ev) (cm_key m) (c_Secret conn) (conn_aad conn) of
        None \<Rightarrow> None
      | Some (secret, True) \<Rightarrow> Some (m, conn, secret)
      | Some (secret, False) \<Rightarrow>
          (let sealed = seal_for ev m nonce conn secret
           in case UpdateConnectionSecret (cm_db m) (c_ID conn) sealed (c_Scopes conn) (c_Meta conn) of
                Inr d \<Rightarrow> Some (m\<lparr>cm_db := d\<rparr>, conn\<lparr>c_Secret := sealed\<rparr>, secret)
              | Inl e \<Rightarrow> Some (m, conn, secret)))"

definition setStatus :: "conn_mgr \<Rightarrow> Connection \<Rightarrow> string \<Rightarrow> conn_mgr" where
  "setStatus m conn status = (if c_Status conn = status then m else m\<lparr>cm_db := SetConnectionStatus (cm_db m) (c_ID conn) status\<rparr>)"

definition cacheFreshFor :: "int \<Rightarrow> conn_mgr \<Rightarrow> Connection \<Rightarrow> int \<Rightarrow> bool" where
  "cacheFreshFor now m conn horizon =
     (case cm_cached m (c_ID conn) of None \<Rightarrow> False
      | Some e \<Rightarrow> ct_mintedFrom e = c_Secret conn \<and> now + horizon < ct_expires e)"

definition cachedTokenFor :: "int \<Rightarrow> conn_mgr \<Rightarrow> Connection \<Rightarrow> ConnToken option" where
  "cachedTokenFor now m conn =
     (case cm_cached m (c_ID conn) of None \<Rightarrow> None
      | Some e \<Rightarrow> if ct_mintedFrom e \<noteq> c_Secret conn \<or> now > ct_expires e then None else Some (ct_token e))"

definition cache_token :: "int \<Rightarrow> conn_mgr \<Rightarrow> Connection \<Rightarrow> ConnToken \<Rightarrow> conn_mgr" where
  "cache_token now m conn tok =
     (case tk_ExpiresAt tok of None \<Rightarrow> m
      | Some x \<Rightarrow>
          let expires = x - tokenCacheMargin
          in if \<not> expires > now then m
             else let live = (\<lambda>i. case cm_cached m i of None \<Rightarrow> None | Some e \<Rightarrow> if now > ct_expires e then None else Some e)
                  in m\<lparr>cm_cached := live(c_ID conn \<mapsto> \<lparr>ct_token = tok, ct_mintedFrom = c_Secret conn, ct_expires = expires\<rparr>)\<rparr>)"

definition expireCachedFor :: "conn_mgr \<Rightarrow> string \<Rightarrow> conn_mgr" where
  "expireCachedFor m i = m\<lparr>cm_cached := (cm_cached m)(i := None)\<rparr>"

definition refreshAndStore ::
  "conn_env \<Rightarrow> endpoint \<Rightarrow> string \<Rightarrow> int \<Rightarrow> conn_mgr \<Rightarrow> Connection \<Rightarrow> CatProvider \<Rightarrow> string \<Rightarrow> conn_mgr \<times> (conn_err + ConnToken)" where
  "refreshAndStore ev ep nonce now m conn p secret =
     (case clientForUser ev (cm_key m) (cm_db m) (c_UserID conn) (cp_Name p) of
        (clientID, clientSecret) \<Rightarrow>
          (case Refresh ep now p clientID clientSecret secret of
             Inl e \<Rightarrow> (if e = ErrReauthRequired then setStatus m conn StatusNeedsReconnect else m, Inl e)
           | Inr (tok, rotated) \<Rightarrow>
               let sealed = seal_for ev m nonce conn rotated;
                   m1 = (if rotated = [] then m
                         else case UpdateConnectionSecret (cm_db m) (c_ID conn) sealed (c_Scopes conn) (c_Meta conn) of
                           Inr d \<Rightarrow> m\<lparr>cm_db := d\<rparr> | Inl e \<Rightarrow> m);
                   conn1 = (if rotated = [] then conn else conn\<lparr>c_Secret := sealed\<rparr>)
               in (cache_token now (setStatus m1 conn1 ConnectionStatusOK) conn1 tok, Inr tok)))"

section \<open>What an app gets\<close>

definition grantedTo :: "Connection list \<Rightarrow> string \<Rightarrow> bool" where
  "grantedTo granted i = list_ex (\<lambda>c. c_ID c = i) granted"

definition tokenFor ::
  "conn_env \<Rightarrow> endpoint \<Rightarrow> string \<Rightarrow> string \<Rightarrow> int \<Rightarrow> conn_mgr \<Rightarrow> App \<Rightarrow> string \<Rightarrow> conn_mgr \<times> (conn_err + ConnToken)" where
  "tokenFor ev ep n1 n2 now m a slug =
     (case ConnectionBySlug (cm_db m) (a_OwnerID a) slug of
        Inl e \<Rightarrow> (m, Inl (if e = ErrConnectionNotFound then ErrNotConnected else ErrStore e))
      | Inr conn \<Rightarrow>
          if \<not> grantedTo (AppConnections (cm_db m) (a_ID a)) (c_ID conn) then (m, Inl ErrNotGranted)
          else case providerFor ev (cm_db m) (c_UserID conn) (c_Provider conn) of
            None \<Rightarrow> (m, Inl (ErrOther ''unknown provider''))
          | Some p \<Rightarrow>
              if c_Kind conn = KindMCP then (m, Inl ErrNotMCPCredential)
              else case open_conn ev n1 m conn of
                None \<Rightarrow> (m, Inl (ErrOther ''cannot decrypt''))
              | Some (m1, conn1, secret) \<Rightarrow>
                  if c_Kind conn1 = KindStatic
                  then (m1, Inr \<lparr>tk_Provider = cp_Name p, tk_AccessToken = secret, tk_ExpiresAt = None, tk_Meta = c_Meta conn1\<rparr>)
                  else if \<not> refreshable conn1 p
                  then (m1, Inr \<lparr>tk_Provider = cp_Name p, tk_AccessToken = secret, tk_ExpiresAt = None, tk_Meta = []\<rparr>)
                  else case cachedTokenFor now m1 conn1 of
                    Some tok \<Rightarrow> (m1, Inr tok)
                  | None \<Rightarrow> refreshAndStore ev ep n2 now m1 conn1 p secret)"

definition grantedMCPConnection :: "db \<Rightarrow> App \<Rightarrow> string \<Rightarrow> conn_err + Connection" where
  "grantedMCPConnection d a slug =
     (case ConnectionBySlug d (a_OwnerID a) slug of
        Inl e \<Rightarrow> Inl (if e = ErrConnectionNotFound then ErrNotConnected else ErrStore e)
      | Inr conn \<Rightarrow>
          if c_Kind conn \<noteq> KindMCP then Inl ErrNotMCP
          else if \<not> grantedTo (AppConnections d (a_ID a)) (c_ID conn) then Inl ErrNotGranted else Inr conn)"

section \<open>Making and replacing connections\<close>

definition saveOAuth ::
  "conn_env \<Rightarrow> endpoint \<Rightarrow> string \<Rightarrow> string \<Rightarrow> int \<Rightarrow> conn_mgr \<Rightarrow> string \<Rightarrow> string \<Rightarrow> string \<Rightarrow> CatProvider \<Rightarrow> string \<Rightarrow> string \<Rightarrow> string
     \<Rightarrow> conn_mgr \<times> (conn_err + Connection)" where
  "saveOAuth ev ep nonce rid now m uid slug label p code redirectURL scopes =
     (case clientForUser ev (cm_key m) (cm_db m) uid (cp_Name p) of
        (i, s) \<Rightarrow>
          (case Exchange ep p i s redirectURL code of Inl e \<Rightarrow> (m, Inl e)
           | Inr (credential, refr) \<Rightarrow>
               let c = \<lparr>c_ID = ''cn_'' @ rid, c_UserID = uid, c_Slug = slug, c_Provider = cp_Name p, c_Kind = KindOAuth, c_Label = label,
                        c_Secret = [], c_Scopes = (if scopes = [] then join_with (CHR '' '') (cp_Scopes p) else scopes),
                        c_Meta = oauthTokenMeta p refr, c_CreatedAt = Some now, c_Status = []\<rparr>;
                   c1 = c\<lparr>c_Secret := seal_for ev m nonce c credential\<rparr>
               in (case AddConnection rid (cm_db m) c1 of
                     Inl e \<Rightarrow> (m, Inl (ErrStore e)) | Inr (d, c2) \<Rightarrow> (m\<lparr>cm_db := d\<rparr>, Inr c2))))"

definition reconnect ::
  "conn_env \<Rightarrow> endpoint \<Rightarrow> string \<Rightarrow> conn_mgr \<Rightarrow> Connection \<Rightarrow> CatProvider \<Rightarrow> string \<Rightarrow> string \<Rightarrow> string \<Rightarrow> conn_mgr \<times> conn_err option" where
  "reconnect ev ep nonce m c p code redirectURL scopes =
     (case clientForUser ev (cm_key m) (cm_db m) (c_UserID c) (cp_Name p) of
        (i, s) \<Rightarrow>
          (case Exchange ep p i s redirectURL code of Inl e \<Rightarrow> (m, Some e)
           | Inr (credential, refr) \<Rightarrow>
               let sealed = seal_for ev m nonce c credential;
                   m1 = expireCachedFor m (c_ID c);
                   m2 = m1\<lparr>cm_db := SetConnectionStatus (cm_db m1) (c_ID c) ConnectionStatusOK\<rparr>;
                   meta = (if cp_HybridToken p then oauthTokenMeta p refr else c_Meta c);
                   sc = (if scopes = [] then c_Scopes c else scopes)
               in (case UpdateConnectionSecret (cm_db m2) (c_ID c) sealed sc meta of
                     Inl e \<Rightarrow> (m2, Some (ErrStore e)) | Inr d \<Rightarrow> (m2\<lparr>cm_db := d\<rparr>, None))))"

definition saveStatic ::
  "conn_env \<Rightarrow> string \<Rightarrow> string \<Rightarrow> int \<Rightarrow> conn_mgr \<Rightarrow> string \<Rightarrow> string \<Rightarrow> string \<Rightarrow> CatProvider \<Rightarrow> (string \<Rightarrow> string) \<Rightarrow> conn_mgr \<times> (conn_err + Connection)" where
  "saveStatic ev nonce rid now m uid slug label p values =
     (case Provider_Validate (ev_re ev) p values of Some e \<Rightarrow> (m, Inl e)
      | None \<Rightarrow>
          let c = \<lparr>c_ID = ''cn_'' @ rid, c_UserID = uid, c_Slug = slug, c_Provider = cp_Name p, c_Kind = KindStatic, c_Label = label,
                   c_Secret = [], c_Scopes = [], c_Meta = metaFrom p values, c_CreatedAt = Some now, c_Status = []\<rparr>;
              c1 = c\<lparr>c_Secret := seal_for ev m nonce c (values (cp_SecretField p))\<rparr>
          in (case AddConnection rid (cm_db m) c1 of
                Inl e \<Rightarrow> (m, Inl (ErrStore e)) | Inr (d, c2) \<Rightarrow> (m\<lparr>cm_db := d\<rparr>, Inr c2)))"

definition updateStatic ::
  "conn_env \<Rightarrow> string \<Rightarrow> conn_mgr \<Rightarrow> Connection \<Rightarrow> CatProvider \<Rightarrow> (string \<Rightarrow> string) \<Rightarrow> conn_mgr \<times> conn_err option" where
  "updateStatic ev nonce m c p values =
     (case Provider_Validate (ev_re ev) p values of Some e \<Rightarrow> (m, Some e)
      | None \<Rightarrow>
          let m1 = expireCachedFor m (c_ID c)
          in (case UpdateConnectionSecret (cm_db m1) (c_ID c) (seal_for ev m nonce c (values (cp_SecretField p))) (c_Scopes c) (metaFrom p values) of
                Inl e \<Rightarrow> (m1, Some (ErrStore e)) | Inr d \<Rightarrow> (m1\<lparr>cm_db := d\<rparr>, None)))"

section \<open>Health\<close>

text \<open>\<open>probe url body secret\<close> is the status a provider answers a probe with, \<open>None\<close> where none came.\<close>

definition verifyLongLived ::
  "conn_env \<Rightarrow> (string \<Rightarrow> string \<Rightarrow> string \<Rightarrow> nat option) \<Rightarrow> string \<Rightarrow> conn_mgr \<Rightarrow> Connection \<Rightarrow> CatProvider \<Rightarrow> conn_mgr \<times> (conn_err + string)" where
  "verifyLongLived ev probe nonce m conn p =
     (if cp_ProbeURL p = [] then (m, Inr (c_Status conn))
      else case open_conn ev nonce m conn of None \<Rightarrow> (m, Inl (ErrOther ''cannot decrypt''))
      | Some (m1, conn1, secret) \<Rightarrow>
          (case probe (cp_ProbeURL p) (cp_ProbeBody p) secret of
             None \<Rightarrow> (m1, Inr (c_Status conn1))
           | Some st \<Rightarrow>
               if st = 401 \<or> st = 403 then (setStatus m1 conn1 StatusNeedsReconnect, Inr StatusNeedsReconnect)
               else (setStatus m1 conn1 ConnectionStatusOK, Inr ConnectionStatusOK)))"

definition Verify_conn ::
  "conn_env \<Rightarrow> endpoint \<Rightarrow> (string \<Rightarrow> string \<Rightarrow> string \<Rightarrow> nat option) \<Rightarrow> string \<Rightarrow> string \<Rightarrow> int \<Rightarrow> conn_mgr \<Rightarrow> string \<Rightarrow> string \<Rightarrow> conn_mgr \<times> (conn_err + string)" where
  "Verify_conn ev ep probe n1 n2 now m uid slug =
     (case ConnectionBySlug (cm_db m) uid slug of Inl e \<Rightarrow> (m, Inl (ErrStore e))
      | Inr conn \<Rightarrow>
          (case providerFor ev (cm_db m) (c_UserID conn) (c_Provider conn) of None \<Rightarrow> (m, Inl (ErrOther ''unknown provider''))
           | Some p \<Rightarrow>
               if c_Kind conn \<noteq> KindOAuth then (m, Inr (c_Status conn))
               else if \<not> refreshable conn p then verifyLongLived ev probe n1 m conn p
               else case open_conn ev n1 m conn of None \<Rightarrow> (m, Inl (ErrOther ''cannot decrypt''))
               | Some (m1, conn1, secret) \<Rightarrow>
                   (case refreshAndStore ev ep n2 now m1 conn1 p secret of
                      (m2, Inl e) \<Rightarrow> (m2, if e = ErrReauthRequired then Inr StatusNeedsReconnect else Inl e)
                    | (m2, Inr _) \<Rightarrow> (m2, Inr ConnectionStatusOK))))"

text \<open>One connection of the sweep; the sweep goes over the rows as they were listed.\<close>

definition refresh_one ::
  "conn_env \<Rightarrow> endpoint \<Rightarrow> (string \<Rightarrow> string \<Rightarrow> string \<Rightarrow> nat option) \<Rightarrow> (string \<Rightarrow> string \<times> string) \<Rightarrow> int \<Rightarrow> Connection \<Rightarrow> conn_mgr \<Rightarrow> conn_mgr" where
  "refresh_one ev ep probe nonce now conn m =
     (if c_Kind conn \<noteq> KindOAuth then m
      else case providerFor ev (cm_db m) (c_UserID conn) (c_Provider conn) of None \<Rightarrow> m
      | Some p \<Rightarrow>
          if \<not> refreshable conn p
          then (if cp_ProbeURL p \<noteq> [] then fst (verifyLongLived ev probe (fst (nonce (c_ID conn))) m conn p) else m)
          else if cacheFreshFor now m conn connectionRefreshHorizon then m
          else case open_conn ev (fst (nonce (c_ID conn))) m conn of None \<Rightarrow> m
          | Some (m1, conn1, secret) \<Rightarrow> fst (refreshAndStore ev ep (snd (nonce (c_ID conn))) now m1 conn1 p secret))"

definition refreshDue ::
  "conn_env \<Rightarrow> endpoint \<Rightarrow> (string \<Rightarrow> string \<Rightarrow> string \<Rightarrow> nat option) \<Rightarrow> (string \<Rightarrow> string \<times> string) \<Rightarrow> int \<Rightarrow> conn_mgr \<Rightarrow> conn_mgr" where
  "refreshDue ev ep probe nonce now m = fold (refresh_one ev ep probe nonce now) (AllConnections (cm_db m)) m"

section \<open>Key rotation\<close>

text \<open>First every credential is opened and sealed again under the fresh key, then the rows are written one by one, then the key file is
  replaced. \<open>wr i\<close> says whether the i-th row could be written; \<open>prevOk\<close> and \<open>newOk\<close> whether the two key files could.\<close>

fun rotate_open :: "conn_env \<Rightarrow> string \<Rightarrow> (string \<Rightarrow> string \<times> string) \<Rightarrow> Connection list \<Rightarrow> conn_mgr \<Rightarrow> conn_mgr \<times> (string \<times> string) list option" where
  "rotate_open ev fresh nonce [] m = (m, Some [])"
| "rotate_open ev fresh nonce (c # cs) m =
     (case open_conn ev (fst (nonce (c_ID c))) m c of
        None \<Rightarrow> (m, None)
      | Some (m1, c1, plain) \<Rightarrow>
          (case rotate_open ev fresh nonce cs m1 of
             (m2, None) \<Rightarrow> (m2, None)
           | (m2, Some ps) \<Rightarrow>
               (m2, Some ((c_ID c, cr_seal (ev_crypto ev) fresh (snd (nonce (c_ID c))) plain (Binding (c_UserID c) (c_ID c))) # ps))))"

fun rotate_write :: "(nat \<Rightarrow> bool) \<Rightarrow> nat \<Rightarrow> (string \<times> string) list \<Rightarrow> db \<Rightarrow> db \<times> bool" where
  "rotate_write wr i [] d = (d, True)"
| "rotate_write wr i ((cid, s) # ps) d =
     (if \<not> wr i then (d, False)
      else case UpdateConnectionSecretOnly d cid s of Inl e \<Rightarrow> (d, False) | Inr d' \<Rightarrow> rotate_write wr (i + 1) ps d')"

definition ReplaceKey :: "bool \<Rightarrow> bool \<Rightarrow> string \<Rightarrow> conn_mgr \<Rightarrow> conn_mgr \<times> bool" where
  "ReplaceKey prevOk newOk fresh m =
     (if cm_key m \<noteq> [] \<and> \<not> prevOk then (m, False)
      else let m1 = (if cm_key m \<noteq> [] then m\<lparr>cm_previous := Some (cm_key m)\<rparr> else m)
           in if \<not> newOk then (m1, False) else (m1\<lparr>cm_keyfile := fresh\<rparr>, True))"

definition RotateKey ::
  "conn_env \<Rightarrow> string \<Rightarrow> (string \<Rightarrow> string \<times> string) \<Rightarrow> (nat \<Rightarrow> bool) \<Rightarrow> bool \<Rightarrow> bool \<Rightarrow> conn_mgr \<Rightarrow> conn_mgr \<times> nat option" where
  "RotateKey ev fresh nonce wr prevOk newOk m =
     (case rotate_open ev fresh nonce (AllConnections (cm_db m)) m of
        (m1, None) \<Rightarrow> (m1, None)
      | (m1, Some ps) \<Rightarrow>
          (case rotate_write wr 0 ps (cm_db m1) of
             (d, False) \<Rightarrow> (m1\<lparr>cm_db := d\<rparr>, None)
           | (d, True) \<Rightarrow>
               (case ReplaceKey prevOk newOk fresh (m1\<lparr>cm_db := d\<rparr>) of
                  (m2, False) \<Rightarrow> (m2, None)
                | (m2, True) \<Rightarrow> (m2\<lparr>cm_key := fresh, cm_cached := (\<lambda>_. None)\<rparr>, Some (length ps)))))"

section \<open>One app at the provider\<close>

definition shares_client :: "conn_env \<Rightarrow> conn_mgr \<Rightarrow> string \<Rightarrow> CatProvider \<Rightarrow> (Connection \<Rightarrow> bool) \<Rightarrow> bool" where
  "shares_client ev m uid p keep =
     (if cp_Kind p \<noteq> KindOAuth then False
      else let i = fst (clientForUser ev (cm_key m) (cm_db m) uid (cp_Name p))
           in if i = [] then False
              else list_ex (\<lambda>c. keep c \<and> c_Kind c = KindOAuth \<and>
                     (let other = fst (clientForUser ev (cm_key m) (cm_db m) uid (c_Provider c)) in other \<noteq> [] \<and> other = i))
                   (Connections (cm_db m) uid))"

definition sharesOAuthApp :: "conn_env \<Rightarrow> conn_mgr \<Rightarrow> string \<Rightarrow> CatProvider \<Rightarrow> bool" where
  "sharesOAuthApp ev m uid p = shares_client ev m uid p (\<lambda>c. True)"

definition anotherConnectionSharesApp :: "conn_env \<Rightarrow> conn_mgr \<Rightarrow> string \<Rightarrow> string \<Rightarrow> CatProvider \<Rightarrow> bool" where
  "anotherConnectionSharesApp ev m uid exceptID p = shares_client ev m uid p (\<lambda>c. c_ID c \<noteq> exceptID)"

text \<open>The token that is revoked at the provider, if one is.\<close>

definition revokeDiscardedToken :: "conn_env \<Rightarrow> conn_mgr \<Rightarrow> Connection \<Rightarrow> CatProvider \<Rightarrow> string \<Rightarrow> (string \<times> string) option" where
  "revokeDiscardedToken ev m conn p token =
     (if cp_RevokeURL p = [] \<or> token = [] then None
      else if anotherConnectionSharesApp ev m (c_UserID conn) (c_ID conn) p then None
      else Some (cp_RevokeURL p, token))"

definition revokeConnectionToken :: "conn_env \<Rightarrow> string \<Rightarrow> conn_mgr \<Rightarrow> Connection \<Rightarrow> conn_mgr \<times> (string \<times> string) option" where
  "revokeConnectionToken ev nonce m conn =
     (if c_Kind conn \<noteq> KindOAuth then (m, None)
      else case providerFor ev (cm_db m) (c_UserID conn) (c_Provider conn) of None \<Rightarrow> (m, None)
      | Some p \<Rightarrow>
          if cp_RevokeURL p = [] then (m, None)
          else case open_conn ev nonce m conn of None \<Rightarrow> (m, None)
          | Some (m1, conn1, token) \<Rightarrow> (m1, revokeDiscardedToken ev m1 conn1 p token))"

section \<open>Handlers\<close>

definition writeConnectionError :: "conn_err \<Rightarrow> nat" where
  "writeConnectionError e =
     (case e of ErrStore ErrConnectionNotFound \<Rightarrow> 404 | ErrStore ErrConnectionSlugExists \<Rightarrow> 409
      | ErrInvalidSlug \<Rightarrow> 400 | ErrInvalidCredential \<Rightarrow> 400
      | ErrStore er \<Rightarrow> writeAppError er | _ \<Rightarrow> 500)"

definition slug_ok :: "string \<Rightarrow> bool" where
  "slug_ok s = (3 \<le> length s \<and> length s \<le> 32 \<and> lower_alnum (hd s) \<and> lower_alnum (last s) \<and>
     list_all (\<lambda>c. lower_alnum c \<or> c = CHR ''-'') s)"

definition ownedConnection :: "db \<Rightarrow> caller \<Rightarrow> string \<Rightarrow> Connection res" where
  "ownedConnection d c slug = ConnectionBySlug d (userID c) (ToLower (TrimSpace slug))"

text \<open>The state a consent carries to the provider and back.\<close>

definition connectStatePrefix :: string where "connectStatePrefix = ''conn:''"

definition startConsent :: "string \<Rightarrow> CatProvider \<Rightarrow> string \<Rightarrow> string" where
  "startConsent nonce p slug = connectStatePrefix @ cp_Name p @ '':'' @ slug @ '':'' @ nonce"

text \<open>What \<open>handleConnectionAdd\<close> answers: an error, a stored connection, or a consent to follow with its state and scopes. The branch of an MCP
  server is the argument \<open>mcp\<close>.\<close>

datatype add_result = AddError nat | AddStored | AddConsent string "string list"

definition handleConnectionAdd ::
  "conn_env \<Rightarrow> (conn_mgr \<Rightarrow> string \<Rightarrow> conn_mgr \<times> add_result) \<Rightarrow> string \<Rightarrow> string \<Rightarrow> int \<Rightarrow> conn_mgr \<Rightarrow> caller \<Rightarrow> string \<Rightarrow> string \<Rightarrow> string
     \<Rightarrow> (string \<Rightarrow> string) \<Rightarrow> string list \<Rightarrow> conn_mgr \<times> add_result" where
  "handleConnectionAdd ev mcp nonce rid now m c provider slug0 label0 values keys0 =
     (let slug = ToLower (TrimSpace slug0); uid = userID c
      in if \<not> slug_ok slug then (m, AddError 400)
         else case providerFor ev (cm_db m) uid provider of None \<Rightarrow> (m, AddError 400)
         | Some p \<Rightarrow>
             if \<not> availableFor ev (cm_key m) (cm_db m) uid p then (m, AddError 400)
             else if length (Connections (cm_db m) uid) \<ge> 50 then (m, AddError 403)
             else if \<not> AllowsMultiple p \<and> sharesOAuthApp ev m uid p then (m, AddError 409)
             else let label = (if TrimSpace label0 = [] then cp_Label p else TrimSpace label0)
                  in if cp_Kind p = KindMCP then mcp m slug
                     else if cp_Kind p = KindStatic
                     then (case saveStatic ev nonce rid now m uid slug label p values of
                             (m', Inl e) \<Rightarrow> (m', AddError (writeConnectionError e)) | (m', Inr _) \<Rightarrow> (m', AddStored))
                     else let keys = (if cp_ScopeOptions p = [] then [] else if keys0 = [] then DefaultScopeKeys p else keys0)
                          in (case ResolveScopes p keys of Inl e \<Rightarrow> (m, AddError 400)
                              | Inr scopes \<Rightarrow> (m, AddConsent (startConsent nonce p slug) scopes)))"

text \<open>\<open>strings.SplitN(s, ":", 3)\<close>.\<close>

definition split3 :: "string \<Rightarrow> (string \<times> string \<times> string) option" where
  "split3 s =
     (let a = takeWhile (\<lambda>c. c \<noteq> CHR '':'') s; r = dropWhile (\<lambda>c. c \<noteq> CHR '':'') s
      in if r = [] then None
         else let b = takeWhile (\<lambda>c. c \<noteq> CHR '':'') (tl r); t = dropWhile (\<lambda>c. c \<noteq> CHR '':'') (tl r)
              in if t = [] then None else Some (a, b, tl t))"

text \<open>The callback of a consent, after the state cookie was compared with the state that came back: the user of the session, the code, the two cookies
  with label and scopes. Status 302 leads back to the page. \<open>mcp\<close> is the MCP branch.\<close>

definition connectionFromState ::
  "conn_env \<Rightarrow> endpoint \<Rightarrow> (conn_mgr \<Rightarrow> string \<Rightarrow> conn_mgr \<times> nat) \<Rightarrow> string \<Rightarrow> string \<Rightarrow> int \<Rightarrow> conn_mgr \<Rightarrow> string \<Rightarrow> string option \<Rightarrow> string
     \<Rightarrow> string \<Rightarrow> string \<Rightarrow> string \<Rightarrow> conn_mgr \<times> nat" where
  "connectionFromState ev ep mcp nonce rid now m state who code labelCookie scopesCookie redirectURL =
     (case split3 (TrimPrefix state connectStatePrefix) of None \<Rightarrow> (m, 400)
      | Some (providerName, slug, stamp) \<Rightarrow>
          (case who of None \<Rightarrow> (m, 401)
           | Some uid \<Rightarrow>
               if providerName = ''mcp'' then (if code = [] then (m, 302) else mcp m stamp)
               else case providerFor ev (cm_db m) uid providerName of None \<Rightarrow> (m, 400)
               | Some p \<Rightarrow>
                   if \<not> availableFor ev (cm_key m) (cm_db m) uid p then (m, 400)
                   else if code = [] then (m, 302)
                   else let label = (if labelCookie = [] then cp_Label p else labelCookie);
                            scopes = (if scopesCookie = [] then join_with (CHR '' '') (cp_Scopes p) else scopesCookie)
                        in (case ConnectionBySlug (cm_db m) uid slug of
                              Inr existing \<Rightarrow>
                                (case reconnect ev ep nonce m existing p code redirectURL scopes of
                                   (m', Some e) \<Rightarrow> (m', 502) | (m', None) \<Rightarrow> (m', 302))
                            | Inl e \<Rightarrow>
                                (case saveOAuth ev ep nonce rid now m uid slug label p code redirectURL scopes of
                                   (m', Inl e) \<Rightarrow> (m', 502) | (m', Inr _) \<Rightarrow> (m', 302)))))"

definition handleConnectionUpdate ::
  "conn_env \<Rightarrow> string \<Rightarrow> conn_mgr \<Rightarrow> caller \<Rightarrow> string \<Rightarrow> (string \<times> string \<times> (string \<Rightarrow> string) option) option \<Rightarrow> conn_mgr \<times> nat" where
  "handleConnectionUpdate ev nonce m c path body =
     (case ownedConnection (cm_db m) c path of Inl e \<Rightarrow> (m, writeConnectionError (ErrStore e))
      | Inr conn \<Rightarrow>
          (case body of None \<Rightarrow> (m, 400)
           | Some (slugReq, labelReq, values) \<Rightarrow>
               (case (case values of None \<Rightarrow> (m, None)
                      | Some vs \<Rightarrow>
                          (case providerFor ev (cm_db m) (c_UserID conn) (c_Provider conn) of None \<Rightarrow> (m, Some 400)
                           | Some p \<Rightarrow>
                               if cp_Kind p \<noteq> KindStatic then (m, Some 400)
                               else case updateStatic ev nonce m conn p vs of
                                 (m', Some e) \<Rightarrow> (m', Some (writeConnectionError e)) | (m', None) \<Rightarrow> (m', None))) of
                  (m1, Some st) \<Rightarrow> (m1, st)
                | (m1, None) \<Rightarrow>
                    if slugReq = [] \<and> labelReq = [] then (m1, 200)
                    else let slug = (if slugReq = [] then c_Slug conn else ToLower (TrimSpace slugReq));
                             label = (if labelReq = [] then c_Label conn else TrimSpace labelReq)
                         in if slugReq \<noteq> [] \<and> \<not> slug_ok slug then (m1, 400)
                            else case RenameConnection (cm_db m1) (c_ID conn) slug label of
                              Inl e \<Rightarrow> (m1, writeConnectionError (ErrStore e)) | Inr d \<Rightarrow> (m1\<lparr>cm_db := d\<rparr>, 200))))"

definition sameScopes :: "string list \<Rightarrow> string list \<Rightarrow> bool" where
  "sameScopes a b = (if length a \<noteq> length b then False else list_all (\<lambda>s. s \<in> set a) b)"

text \<open>The OAuth branch of \<open>handleConnectionReconnect\<close>; the second component is what was revoked at the provider first.\<close>

definition handleConnectionReconnect ::
  "conn_env \<Rightarrow> string \<Rightarrow> string \<Rightarrow> conn_mgr \<Rightarrow> caller \<Rightarrow> string \<Rightarrow> string list option \<Rightarrow> conn_mgr \<times> (string \<times> string) option \<times> add_result" where
  "handleConnectionReconnect ev n1 nonce m c path keys =
     (case ownedConnection (cm_db m) c path of Inl e \<Rightarrow> (m, None, AddError (writeConnectionError (ErrStore e)))
      | Inr conn \<Rightarrow>
          (case providerFor ev (cm_db m) (c_UserID conn) (c_Provider conn) of None \<Rightarrow> (m, None, AddError 400)
           | Some p \<Rightarrow>
               if cp_Kind p \<noteq> KindOAuth then (m, None, AddError 400)
               else case (if cp_ScopeOptions p = [] then Inr (Fields_aux [] (c_Scopes conn))
                          else case keys of None \<Rightarrow> Inr (Fields_aux [] (c_Scopes conn)) | Some ks \<Rightarrow> ResolveScopes p ks) of
                 Inl e \<Rightarrow> (m, None, AddError 400)
               | Inr scopes \<Rightarrow>
                   (case (if sameScopes scopes (Fields_aux [] (c_Scopes conn)) then (m, None) else revokeConnectionToken ev n1 m conn) of
                      (m1, revoked) \<Rightarrow> (m1, revoked, AddConsent (startConsent nonce p (c_Slug conn)) scopes))))"

definition handleConnectionDelete :: "conn_env \<Rightarrow> string \<Rightarrow> conn_mgr \<Rightarrow> caller \<Rightarrow> string \<Rightarrow> conn_mgr \<times> nat" where
  "handleConnectionDelete ev nonce m c path =
     (case ownedConnection (cm_db m) c path of Inl e \<Rightarrow> (m, writeConnectionError (ErrStore e))
      | Inr conn \<Rightarrow>
          (case revokeConnectionToken ev nonce m conn of
             (m1, revoked) \<Rightarrow>
               (case DeleteConnection (cm_db m1) (c_ID conn) of
                  (d, Some e) \<Rightarrow> (m1\<lparr>cm_db := d\<rparr>, writeConnectionError (ErrStore e))
                | (d, None) \<Rightarrow> (expireCachedFor (m1\<lparr>cm_db := d\<rparr>) (c_ID conn), 200))))"

definition appAndOwnedConnection :: "db \<Rightarrow> caller \<Rightarrow> string \<Rightarrow> string \<Rightarrow> (App \<times> Connection) res" where
  "appAndOwnedConnection d c name slug =
     (case ownedApp d c name of Inl e \<Rightarrow> Inl e
      | Inr a \<Rightarrow>
          (case ConnectionBySlug d (a_OwnerID a) slug of Inl e \<Rightarrow> Inl e
           | Inr conn \<Rightarrow> if c_UserID conn \<noteq> userID c then Inl ErrConnectionNotFound else Inr (a, conn)))"

definition handleAppConnectionGrant :: "int \<Rightarrow> conn_mgr \<Rightarrow> caller \<Rightarrow> string \<Rightarrow> string \<Rightarrow> conn_mgr \<times> nat" where
  "handleAppConnectionGrant now m c name slug =
     (case appAndOwnedConnection (cm_db m) c name slug of Inl e \<Rightarrow> (m, writeConnectionError (ErrStore e))
      | Inr (a, conn) \<Rightarrow>
          (m\<lparr>cm_db := logAction now (GrantConnection now (cm_db m) (a_ID a) (c_ID conn)) c (a_Name a) ''connection'' (''Granted '' @ c_Slug conn)\<rparr>, 200))"

definition handleAppConnectionRevoke :: "int \<Rightarrow> conn_mgr \<Rightarrow> caller \<Rightarrow> string \<Rightarrow> string \<Rightarrow> conn_mgr \<times> nat" where
  "handleAppConnectionRevoke now m c name slug =
     (case appAndOwnedConnection (cm_db m) c name slug of Inl e \<Rightarrow> (m, writeConnectionError (ErrStore e))
      | Inr (a, conn) \<Rightarrow>
          (m\<lparr>cm_db := logAction now (RevokeConnection (cm_db m) (a_ID a) (c_ID conn)) c (a_Name a) ''connection'' (''Revoked '' @ c_Slug conn)\<rparr>, 200))"

definition handleSelfConnectionToken ::
  "conn_env \<Rightarrow> endpoint \<Rightarrow> string \<Rightarrow> string \<Rightarrow> int \<Rightarrow> conn_mgr \<Rightarrow> App \<Rightarrow> string \<Rightarrow> conn_mgr \<times> nat" where
  "handleSelfConnectionToken ev ep n1 n2 now m a slug =
     (case tokenFor ev ep n1 n2 now m a slug of
        (m', Inr tok) \<Rightarrow> (m', 200)
      | (m', Inl e) \<Rightarrow> (m', if e = ErrNotConnected \<or> e = ErrNotMCPCredential then 404 else if e = ErrNotGranted then 403 else 502))"

section \<open>What reaches an app\<close>

lemma open_conn_same:
  assumes "open_conn ev nonce m conn = Some (m1, conn1, secret)"
  shows "cm_cached m1 = cm_cached m" "cm_key m1 = cm_key m" "cm_keyfile m1 = cm_keyfile m" "cm_previous m1 = cm_previous m"
    "c_Kind conn1 = c_Kind conn" "c_Meta conn1 = c_Meta conn" "c_ID conn1 = c_ID conn" "c_UserID conn1 = c_UserID conn"
    "refreshable conn1 p = refreshable conn p"
  using assms by (auto simp: open_conn_def Let_def refreshable_def split: option.splits bool.splits sum.splits)

lemma grantedTo_row:
  "grantedTo (AppConnections d i) cid \<Longrightarrow> \<exists>g \<in> set (app_connection_tbl d). g_app_id g = i \<and> g_who g = cid"
  by (auto simp: grantedTo_def list_ex_iff AppConnections_def by_provider_slug_def Let_def)

lemma Refresh_minted:
  assumes "Refresh ep now p ci cs rt = Inr (tok, rotated)" "\<not> cp_LongLivedToken p"
  shows "\<exists>res form. ep (cp_TokenURL p) form = Answer 200 (Some res) \<and> tk_AccessToken tok = tr_AccessToken res"
  using assms
  by (auto simp: Refresh_def postToken_def Let_def split: post_result.splits option.splits if_splits sum.splits)

lemma refreshAndStore_minted:
  assumes "refreshAndStore ev ep nonce now m conn p secret = (m', Inr tok)" "\<not> cp_LongLivedToken p"
  shows "\<exists>res form. ep (cp_TokenURL p) form = Answer 200 (Some res) \<and> tk_AccessToken tok = tr_AccessToken res"
  using assms Refresh_minted
  by (fastforce simp: refreshAndStore_def Let_def split: prod.splits sum.splits)

text \<open>What the token endpoints asked so far gave out as access tokens.\<close>

definition issued :: "endpoint set \<Rightarrow> string set" where
  "issued eps = {tr_AccessToken res | res. \<exists>ep \<in> eps. \<exists>url form. ep url form = Answer 200 (Some res)}"

definition cache_issued :: "endpoint set \<Rightarrow> conn_mgr \<Rightarrow> bool" where
  "cache_issued eps m = (\<forall>i e. cm_cached m i = Some e \<longrightarrow> tk_AccessToken (ct_token e) \<in> issued eps)"

text \<open>How a manager that starts with an empty cache gets on: apps ask for tokens, connections are refreshed by the sweep or a check, and everything else - rows
  that change, keys that rotate, entries that are dropped - at most takes from the cache. The endpoint may answer differently each time.\<close>

inductive custody_reach :: "conn_env \<Rightarrow> endpoint set \<Rightarrow> conn_mgr \<Rightarrow> bool" for ev eps where
  empty: "(\<And>i. cm_cached m i = None) \<Longrightarrow> custody_reach ev eps m"
| asked: "custody_reach ev eps m \<Longrightarrow> ep \<in> eps \<Longrightarrow> tokenFor ev ep n1 n2 now m a slug = (m', r) \<Longrightarrow> custody_reach ev eps m'"
| refreshed: "custody_reach ev eps m \<Longrightarrow> ep \<in> eps \<Longrightarrow> \<not> cp_LongLivedToken p \<Longrightarrow>
    refreshAndStore ev ep nonce now m conn p secret = (m', r) \<Longrightarrow> custody_reach ev eps m'"
| other: "custody_reach ev eps m \<Longrightarrow> (\<And>i. cm_cached m' i = cm_cached m i \<or> cm_cached m' i = None) \<Longrightarrow> custody_reach ev eps m'"

lemma cache_token_issued:
  assumes "cache_issued eps m" "tk_AccessToken tok \<in> issued eps"
  shows "cache_issued eps (cache_token now m conn tok)"
  using assms by (auto simp: cache_token_def cache_issued_def Let_def split: option.splits if_splits)

lemma refreshAndStore_issued:
  assumes "refreshAndStore ev ep nonce now m conn p secret = (m', r)" "\<not> cp_LongLivedToken p" "ep \<in> eps" "cache_issued eps m"
  shows "cache_issued eps m'"
proof -
  have db: "cache_issued eps (n\<lparr>cm_db := d\<rparr>) = cache_issued eps n" for n d
    by (simp add: cache_issued_def)
  have "tk_AccessToken tok \<in> issued eps" if "Refresh ep now p ci cs secret = Inr (tok, rotated)" for ci cs tok rotated
    using Refresh_minted[OF that assms(2)] assms(3) by (auto simp: issued_def)
  then show ?thesis
    using assms(1,4) by (auto simp: refreshAndStore_def Let_def setStatus_def db intro!: cache_token_issued split: prod.splits sum.splits if_splits)
qed

lemma tokenFor_issued:
  assumes "tokenFor ev ep n1 n2 now m a slug = (m', r)" "ep \<in> eps" "cache_issued eps m"
  shows "cache_issued eps m'"
proof -
  have opened: "cache_issued eps m1" if "open_conn ev n1 m conn = Some (m1, conn1, secret)" for conn m1 conn1 secret
    using open_conn_same(1)[OF that] assms(3) by (simp add: cache_issued_def)
  have "\<not> cp_LongLivedToken p" if "refreshable conn p" for conn p
    using that by (auto simp: refreshable_def)
  then show ?thesis
    using assms by (auto simp: tokenFor_def intro: opened refreshAndStore_issued split: sum.splits option.splits if_splits prod.splits)
qed

lemma custody_cache: "custody_reach ev eps m \<Longrightarrow> cache_issued eps m"
proof (induction rule: custody_reach.induct)
  case (other m m')
  then show ?case
    unfolding cache_issued_def by (metis option.distinct(1))
next
  case (empty m)
  then show ?case
    by (simp add: cache_issued_def)
qed (blast intro: tokenFor_issued refreshAndStore_issued)+

text \<open>C37: an app obtains a credential only for a connection its owner granted to it, and of a connection that is refreshed only an access token. If the token endpoint of a
  manager that started with an empty cache answers an app with a token, whatever happened before, the name is one of the app owner's connections, there is a grant of that
  connection to that app, and it is not an MCP server. If the connection is refreshed rather than handed out as it is, what the app gets is what some token
  endpoint gave out as access token: just now, or earlier and kept in the cache, minted from the credential the row holds now and not yet
  at the margin before its expiry. A static or long-lived connection is handed out as it is stored.\<close>

theorem tokenFor_least_privilege:
  assumes "custody_reach ev eps m" "ep \<in> eps" and "tokenFor ev ep n1 n2 now m a slug = (m', Inr tok)"
  shows "\<exists>conn p m1 conn1 secret. ConnectionBySlug (cm_db m) (a_OwnerID a) slug = Inr conn \<and>
     (\<exists>g \<in> set (app_connection_tbl (cm_db m)). g_app_id g = a_ID a \<and> g_who g = c_ID conn) \<and>
     c_Kind conn \<noteq> KindMCP \<and> providerFor ev (cm_db m) (c_UserID conn) (c_Provider conn) = Some p \<and>
     open_conn ev n1 m conn = Some (m1, conn1, secret) \<and>
     (c_Kind conn \<noteq> KindStatic \<and> refreshable conn p \<longrightarrow>
        tk_AccessToken tok \<in> issued eps \<and>
        ((\<exists>e. cm_cached m (c_ID conn) = Some e \<and> ct_token e = tok \<and> ct_mintedFrom e = c_Secret conn1 \<and> now \<le> ct_expires e) \<or>
         (\<exists>res form. ep (cp_TokenURL p) form = Answer 200 (Some res) \<and> tk_AccessToken tok = tr_AccessToken res)))"
proof -
  obtain conn p m1 conn1 secret where c: "ConnectionBySlug (cm_db m) (a_OwnerID a) slug = Inr conn"
      "grantedTo (AppConnections (cm_db m) (a_ID a)) (c_ID conn)" "providerFor ev (cm_db m) (c_UserID conn) (c_Provider conn) = Some p"
      "c_Kind conn \<noteq> KindMCP" "open_conn ev n1 m conn = Some (m1, conn1, secret)"
    using assms(3) by (auto simp: tokenFor_def split: sum.splits option.splits if_splits prod.splits)
  note same = open_conn_same[OF c(5)]
  have "tk_AccessToken tok \<in> issued eps \<and>
        ((\<exists>e. cm_cached m (c_ID conn) = Some e \<and> ct_token e = tok \<and> ct_mintedFrom e = c_Secret conn1 \<and> now \<le> ct_expires e) \<or>
         (\<exists>res form. ep (cp_TokenURL p) form = Answer 200 (Some res) \<and> tk_AccessToken tok = tr_AccessToken res))"
    if r: "c_Kind conn \<noteq> KindStatic" "refreshable conn p"
  proof (cases "cachedTokenFor now m1 conn1")
    case None
    then have "refreshAndStore ev ep n2 now m1 conn1 p secret = (m', Inr tok)"
      using assms(3) c r same by (simp add: tokenFor_def)
    moreover have "\<not> cp_LongLivedToken p"
      using r(2) by (auto simp: refreshable_def)
    ultimately obtain res form where "ep (cp_TokenURL p) form = Answer 200 (Some res)" "tk_AccessToken tok = tr_AccessToken res"
      using refreshAndStore_minted by blast
    then show ?thesis
      using assms(2) by (auto simp: issued_def)
  next
    case (Some t)
    then have "t = tok"
      using assms(3) c r same by (simp add: tokenFor_def)
    then obtain e where "cm_cached m (c_ID conn) = Some e" "ct_token e = tok" "ct_mintedFrom e = c_Secret conn1" "now \<le> ct_expires e"
      using Some same by (auto simp: cachedTokenFor_def split: option.splits if_splits)
    then show ?thesis
      using custody_cache[OF assms(1)] by (auto simp: cache_issued_def)
  qed
  then show ?thesis
    using c grantedTo_row[OF c(2)] by blast
qed

text \<open>Only the person whose account it is can lend it to an app: neither a collaborator of the app nor an administrator can.\<close>

lemma grant_by_owner_only:
  assumes "handleAppConnectionGrant now m c name slug = (m', 200)"
  shows "\<exists>a conn. ownedApp (cm_db m) c name = Inr a \<and> ConnectionBySlug (cm_db m) (a_OwnerID a) slug = Inr conn \<and> c_UserID conn = userID c"
proof -
  have "writeConnectionError (ErrStore e) \<noteq> 200" for e
    by (cases e) (auto simp: writeConnectionError_def writeAppError_def writeUserError_def)
  then show ?thesis
    using assms by (auto simp: handleAppConnectionGrant_def appAndOwnedConnection_def split: sum.splits if_splits)
qed

section \<open>A successful rotation\<close>

definition row_key :: "Connection \<Rightarrow> string \<times> string" where
  "row_key c = (c_ID c, c_UserID c)"

lemma upd_secret_rows:
  assumes "UpdateConnectionSecret d i s sc me = Inr d'"
  shows "map row_key (connection_tbl d') = map row_key (connection_tbl d)" "provider_tbl d' = provider_tbl d"
  using assms
  by (auto simp: UpdateConnectionSecret_def upd_connection_def checkAffected_def tbl_update_def row_key_def split: if_splits)

lemma open_conn_rows:
  assumes "open_conn ev nonce m conn = Some (m1, conn1, secret)"
  shows "map row_key (connection_tbl (cm_db m1)) = map row_key (connection_tbl (cm_db m))" "provider_tbl (cm_db m1) = provider_tbl (cm_db m)"
    "map_option fst (OpenLegacyTolerant (ev_crypto ev) (cm_key m) (c_Secret conn) (conn_aad conn)) = Some secret"
  using assms upd_secret_rows
  by (fastforce simp: open_conn_def Let_def split: option.splits bool.splits sum.splits)+

definition plain_of :: "conn_env \<Rightarrow> string \<Rightarrow> Connection \<Rightarrow> string option" where
  "plain_of ev key c = map_option fst (OpenLegacyTolerant (ev_crypto ev) key (c_Secret c) (conn_aad c))"

definition resealed :: "conn_env \<Rightarrow> string \<Rightarrow> string \<Rightarrow> (string \<Rightarrow> string \<times> string) \<Rightarrow> Connection \<Rightarrow> string" where
  "resealed ev key fresh nonce c = cr_seal (ev_crypto ev) fresh (snd (nonce (c_ID c))) (the (plain_of ev key c)) (conn_aad c)"

lemma rotate_open_ok:
  assumes "rotate_open ev fresh nonce cs m = (m1, Some ps)"
  shows "ps = map (\<lambda>c. (c_ID c, resealed ev (cm_key m) fresh nonce c)) cs \<and> (\<forall>c \<in> set cs. plain_of ev (cm_key m) c \<noteq> None) \<and>
     map row_key (connection_tbl (cm_db m1)) = map row_key (connection_tbl (cm_db m)) \<and> provider_tbl (cm_db m1) = provider_tbl (cm_db m) \<and>
     cm_key m1 = cm_key m \<and> cm_keyfile m1 = cm_keyfile m \<and> cm_previous m1 = cm_previous m"
  using assms
proof (induction cs arbitrary: m ps)
  case (Cons c cs)
  obtain m2 c2 plain where op: "open_conn ev (fst (nonce (c_ID c))) m c = Some (m2, c2, plain)"
    using Cons.prems by (auto split: option.splits)
  obtain qs where r: "rotate_open ev fresh nonce cs m2 = (m1, Some qs)"
      "ps = (c_ID c, cr_seal (ev_crypto ev) fresh (snd (nonce (c_ID c))) plain (Binding (c_UserID c) (c_ID c))) # qs"
    using Cons.prems op by (auto split: prod.splits option.splits)
  have "plain_of ev (cm_key m) c = Some plain"
    using open_conn_rows(3)[OF op] by (simp add: plain_of_def)
  then show ?case
    using Cons.IH[OF r(1)] r(2) open_conn_rows(1,2)[OF op] open_conn_same(2-4)[OF op] by (simp add: resealed_def conn_aad_def)
qed simp

lemma rotate_write_rows:
  "rotate_write wr i ps d = (d', ok) \<Longrightarrow> map row_key (connection_tbl d') = map row_key (connection_tbl d) \<and> provider_tbl d' = provider_tbl d"
  by (induction wr i ps d rule: rotate_write.induct)
    (auto simp: UpdateConnectionSecretOnly_def upd_connection_def checkAffected_def tbl_update_def row_key_def
      split: if_splits sum.splits intro!: list.map_cong0)

lemma rotate_write_untouched:
  "rotate_write wr i ps d = (d', ok) \<Longrightarrow> c' \<in> set (connection_tbl d') \<Longrightarrow> c_ID c' \<notin> fst ` set ps \<Longrightarrow> c' \<in> set (connection_tbl d)"
proof (induction wr i ps d rule: rotate_write.induct)
  case (2 wr i cid s ps d)
  show ?case
  proof (cases "wr i")
    case True
    show ?thesis
    proof (cases "UpdateConnectionSecretOnly d cid s")
      case (Inr d1)
      then have "c' \<in> set (connection_tbl d1)"
        using 2 True by auto
      then show ?thesis
        using Inr "2.prems"(3)
        by (auto simp: UpdateConnectionSecretOnly_def upd_connection_def checkAffected_def tbl_update_def split: if_splits)
    qed (use 2 True in auto)
  qed (use 2 in auto)
qed auto

lemma secret_only_row:
  assumes "UpdateConnectionSecretOnly d cid s = Inr d'" "c' \<in> set (connection_tbl d')" "c_ID c' = cid"
  shows "c_Secret c' = s"
proof -
  have "connection_tbl d' = tbl_update (\<lambda>c. c_ID c = cid) (\<lambda>c. c\<lparr>c_Secret := s\<rparr>) (connection_tbl d)"
    using assms(1) by (auto simp: UpdateConnectionSecretOnly_def upd_connection_def checkAffected_def split: if_splits)
  then have "c' \<in> (\<lambda>c. if c_ID c = cid then c\<lparr>c_Secret := s\<rparr> else c) ` set (connection_tbl d)"
    using assms(2) by (simp add: set_tbl_update)
  then show ?thesis
    using assms(3) by (elim imageE) (simp split: if_splits)
qed

lemma rotate_write_secrets:
  "rotate_write wr i ps d = (d', True) \<Longrightarrow> distinct (map fst ps) \<Longrightarrow> (cid, s) \<in> set ps \<Longrightarrow> c' \<in> set (connection_tbl d') \<Longrightarrow>
     c_ID c' = cid \<Longrightarrow> c_Secret c' = s"
proof (induction wr i ps d rule: rotate_write.induct)
  case (2 wr i cid0 s0 ps d)
  obtain d1 where d1: "wr i" "UpdateConnectionSecretOnly d cid0 s0 = Inr d1" "rotate_write wr (i + 1) ps d1 = (d', True)"
    using "2.prems"(1) by (auto split: if_splits sum.splits)
  show ?case
  proof (cases "(cid, s) = (cid0, s0)")
    case True
    then have "c_ID c' \<notin> fst ` set ps"
      using "2.prems" by auto
    then have "c' \<in> set (connection_tbl d1)"
      using rotate_write_untouched[OF d1(3) "2.prems"(4)] by simp
    moreover have "c_ID c' = cid0" "s = s0"
      using True "2.prems"(5) by auto
    ultimately show ?thesis
      using secret_only_row[OF d1(2)] by simp
  next
    case False
    then have "(cid, s) \<in> set ps" "distinct (map fst ps)" "\<not> \<not> wr i"
      using "2.prems"(2,3) d1(1) by auto
    from "2.IH"[OF this(3) d1(2,3) this(2,1) "2.prems"(4,5)] show ?thesis .
  qed
qed simp

lemma AllConnections_set: "set (AllConnections d) = set (connection_tbl d)" "length (AllConnections d) = length (connection_tbl d)"
  by (simp_all add: AllConnections_def)

lemma AllConnections_distinct: "distinct (map c_ID (connection_tbl d)) \<Longrightarrow> distinct (map c_ID (AllConnections d))"
proof -
  assume d: "distinct (map c_ID (connection_tbl d))"
  have "mset (map c_ID (AllConnections d)) = mset (map c_ID (connection_tbl d))"
    by (simp add: AllConnections_def)
  then show ?thesis
    using d by (metis mset_eq_imp_distinct_iff)
qed

lemma same_row:
  assumes "map row_key t' = map row_key t" "c \<in> set t"
  shows "\<exists>c' \<in> set t'. c_ID c' = c_ID c \<and> c_UserID c' = c_UserID c"
proof -
  have "row_key c \<in> set (map row_key t')"
    using assms by simp
  then show ?thesis
    by (auto simp: row_key_def)
qed

lemma RotateKey_parts:
  assumes "RotateKey ev fresh nonce wr prevOk newOk m = (m', Some n)"
  obtains m1 d where "rotate_open ev fresh nonce (AllConnections (cm_db m)) m = (m1, Some (map (\<lambda>c. (c_ID c, resealed ev (cm_key m) fresh nonce c)) (AllConnections (cm_db m))))"
    "rotate_write wr 0 (map (\<lambda>c. (c_ID c, resealed ev (cm_key m) fresh nonce c)) (AllConnections (cm_db m))) (cm_db m1) = (d, True)"
    "cm_db m' = d" "cm_key m' = fresh" "cm_keyfile m' = fresh" "cm_cached m' = (\<lambda>_. None)" "n = length (AllConnections (cm_db m))"
    "cm_previous m' = (if cm_key m = [] then cm_previous m else Some (cm_key m))"
proof -
  obtain m1 ps where o: "rotate_open ev fresh nonce (AllConnections (cm_db m)) m = (m1, Some ps)"
    using assms by (auto simp: RotateKey_def split: prod.splits option.splits)
  obtain d where w: "rotate_write wr 0 ps (cm_db m1) = (d, True)"
    using assms o by (auto simp: RotateKey_def split: prod.splits option.splits bool.splits)
  obtain m2 where r: "ReplaceKey prevOk newOk fresh (m1\<lparr>cm_db := d\<rparr>) = (m2, True)" "m' = m2\<lparr>cm_key := fresh, cm_cached := (\<lambda>_. None)\<rparr>" "n = length ps"
    using assms o w by (auto simp: RotateKey_def split: prod.splits bool.splits)
  have ps: "ps = map (\<lambda>c. (c_ID c, resealed ev (cm_key m) fresh nonce c)) (AllConnections (cm_db m))"
    using rotate_open_ok[OF o] by blast
  have k: "cm_key m1 = cm_key m" "cm_previous m1 = cm_previous m"
    using rotate_open_ok[OF o] by blast+
  have "cm_db m2 = d" "cm_keyfile m2 = fresh" "cm_previous m2 = (if cm_key m = [] then cm_previous m else Some (cm_key m))"
    using r(1) k by (auto simp: ReplaceKey_def Let_def split: if_splits)
  then show thesis
    using that[of m1 d] o w r(2,3) ps by simp
qed

text \<open>C38: a key rotation that reports success keeps every connected account. Afterwards the manager and the key file have the fresh key, the previous
  key is kept beside it, no access token is cached, and every row opens under the fresh key - bound to its own owner and id - to
  exactly the credential it opened to before.\<close>

theorem RotateKey_keeps_credentials:
  assumes "aead_ok (ev_crypto ev)" and "distinct (map c_ID (connection_tbl (cm_db m)))"
    and "RotateKey ev fresh nonce wr prevOk newOk m = (m', Some n)" and "c \<in> set (connection_tbl (cm_db m))"
  shows "cm_key m' = fresh \<and> cm_keyfile m' = fresh \<and> (cm_key m \<noteq> [] \<longrightarrow> cm_previous m' = Some (cm_key m)) \<and>
     cm_cached m' = (\<lambda>_. None) \<and> n = length (connection_tbl (cm_db m)) \<and>
     (\<exists>c' \<in> set (connection_tbl (cm_db m')). c_ID c' = c_ID c \<and> c_UserID c' = c_UserID c \<and> plain_of ev (cm_key m) c \<noteq> None \<and>
        cr_open (ev_crypto ev) fresh (c_Secret c') (conn_aad c') = plain_of ev (cm_key m) c)"
proof -
  let ?ps = "map (\<lambda>c. (c_ID c, resealed ev (cm_key m) fresh nonce c)) (AllConnections (cm_db m))"
  obtain m1 d where p: "rotate_open ev fresh nonce (AllConnections (cm_db m)) m = (m1, Some ?ps)"
      "rotate_write wr 0 ?ps (cm_db m1) = (d, True)" "cm_db m' = d" "cm_key m' = fresh" "cm_keyfile m' = fresh" "cm_cached m' = (\<lambda>_. None)"
      "n = length (AllConnections (cm_db m))" "cm_previous m' = (if cm_key m = [] then cm_previous m else Some (cm_key m))"
    by (rule RotateKey_parts[OF assms(3)])
  have "map row_key (connection_tbl d) = map row_key (connection_tbl (cm_db m))"
    using rotate_write_rows[OF p(2)] rotate_open_ok[OF p(1)] by simp
  then obtain c' where c': "c' \<in> set (connection_tbl d)" "c_ID c' = c_ID c" "c_UserID c' = c_UserID c"
    using same_row assms(4) by blast
  have "distinct (map fst ?ps)"
    using AllConnections_distinct[OF assms(2)] by (simp add: comp_def)
  moreover have "(c_ID c, resealed ev (cm_key m) fresh nonce c) \<in> set ?ps"
    using assms(4) by (simp add: AllConnections_set)
  ultimately have s: "c_Secret c' = resealed ev (cm_key m) fresh nonce c"
    using rotate_write_secrets[OF p(2)] c'(1,2) by blast
  obtain plain where "plain_of ev (cm_key m) c = Some plain"
    using rotate_open_ok[OF p(1)] assms(4) by (auto simp: AllConnections_set)
  then have "cr_open (ev_crypto ev) fresh (c_Secret c') (conn_aad c') = plain_of ev (cm_key m) c" "plain_of ev (cm_key m) c \<noteq> None"
    using c'(2,3) seal_opens[OF assms(1)] by (simp_all add: s resealed_def conn_aad_def)
  then show ?thesis
    using c' p(3-8) by (auto simp: AllConnections_set)
qed

text \<open>A successful rotation makes the client secrets of stored providers unreadable. They are sealed under the same key and bound the same way, but
  the rotation rewrites connections only: a provider whose client was usable before resolves to an empty client after, so nothing
  connected through it can be refreshed or reconnected.\<close>

lemma rotation_orphans_provider_secrets:
  assumes "aead_ok (ev_crypto ev)" and "RotateKey ev fresh nonce wr prevOk newOk m = (m', Some n)" and "fresh \<noteq> cm_key m"
    and "fst (ConnectionClient ev name) = []" and "ProviderByName (cm_db m) uid name = Inr row" and "pv_Kind row = ''oauth''"
    and "plain \<noteq> []" and "pv_ClientSecret row = sealProviderSecret ev (cm_key m) nc row plain" and "pv_ClientSecret row \<noteq> []"
  shows "clientForUser ev (cm_key m) (cm_db m) uid name = (pv_ClientID row, plain) \<and> clientForUser ev (cm_key m') (cm_db m') uid name = ([], [])"
proof -
  let ?ps = "map (\<lambda>c. (c_ID c, resealed ev (cm_key m) fresh nonce c)) (AllConnections (cm_db m))"
  obtain m1 d where p: "rotate_open ev fresh nonce (AllConnections (cm_db m)) m = (m1, Some ?ps)"
      "rotate_write wr 0 ?ps (cm_db m1) = (d, True)" "cm_db m' = d" "cm_key m' = fresh"
    by (rule RotateKey_parts[OF assms(2)])
  have "provider_tbl d = provider_tbl (cm_db m)"
    using rotate_write_rows[OF p(2)] rotate_open_ok[OF p(1)] by simp
  then have pr: "ProviderByName (cm_db m') uid name = Inr row"
    using assms(5) p(3) by (simp add: ProviderByName_def)
  have s: "pv_ClientSecret row = cr_seal (ev_crypto ev) (cm_key m) nc plain (provider_aad row)"
    using assms(7,8) by (simp add: sealProviderSecret_def)
  have "openProviderSecret ev (cm_key m) row = Some plain" "openProviderSecret ev fresh row = None"
    using seal_opens[OF assms(1)] seal_opens_only[OF assms(1), of fresh "cm_key m"] assms(3,9) by (simp_all add: openProviderSecret_def s)
  then show ?thesis
    using assms(4-6) pr p(4) by (simp add: clientForUser_def)
qed

lemma rotate_open_total:
  "\<forall>c \<in> set cs. plain_of ev (cm_key m) c \<noteq> None \<Longrightarrow> \<exists>m1 ps. rotate_open ev fresh nonce cs m = (m1, Some ps)"
proof (induction cs arbitrary: m)
  case (Cons c cs)
  have "plain_of ev (cm_key m) c \<noteq> None"
    using Cons.prems by simp
  then have "open_conn ev (fst (nonce (c_ID c))) m c \<noteq> None"
    by (auto simp: plain_of_def open_conn_def Let_def split: option.splits bool.splits sum.splits)
  then obtain m1 c1 plain where op: "open_conn ev (fst (nonce (c_ID c))) m c = Some (m1, c1, plain)"
    by auto
  then have "\<exists>m2 ps. rotate_open ev fresh nonce cs m1 = (m2, Some ps)"
    using Cons by (simp add: open_conn_same(2)[OF op])
  then show ?case
    using op by auto
qed simp

text \<open>A rotation that fails while it writes loses credentials for good. The rows written so far are sealed under the fresh key, and that
  key was never stored: with at least two connections, a first write that succeeds and a second that fails, the first
  account opens under none of the keys that exist - not the manager's, not the key file, not the previous key.\<close>

lemma interrupted_rotation_loses_credential:
  assumes "aead_ok (ev_crypto ev)" and "AllConnections (cm_db m) = c # c2 # rest"
    and "\<forall>x \<in> set (AllConnections (cm_db m)). plain_of ev (cm_key m) x \<noteq> None" and "wr 0" and "\<not> wr 1"
    and "fresh \<notin> {cm_key m, cm_keyfile m}" and "cm_previous m \<noteq> Some fresh"
  shows "\<exists>m'. RotateKey ev fresh nonce wr prevOk newOk m = (m', None) \<and>
     (\<exists>c' \<in> set (connection_tbl (cm_db m')). c_ID c' = c_ID c \<and>
        plain_of ev (cm_key m') c' = None \<and> plain_of ev (cm_keyfile m') c' = None \<and> (\<forall>k. cm_previous m' = Some k \<longrightarrow> plain_of ev k c' = None))"
proof -
  let ?ps = "map (\<lambda>c. (c_ID c, resealed ev (cm_key m) fresh nonce c)) (AllConnections (cm_db m))"
  obtain m1 where o: "rotate_open ev fresh nonce (AllConnections (cm_db m)) m = (m1, Some ?ps)"
    using rotate_open_total[OF assms(3)] rotate_open_ok by metis
  have k: "cm_key m1 = cm_key m" "cm_keyfile m1 = cm_keyfile m" "cm_previous m1 = cm_previous m"
    and rows: "map row_key (connection_tbl (cm_db m1)) = map row_key (connection_tbl (cm_db m))"
    using rotate_open_ok[OF o] by blast+
  have "c \<in> set (connection_tbl (cm_db m))"
    using assms(2) AllConnections_set(1) by (metis list.set_intros(1))
  then obtain c1 where c1: "c1 \<in> set (connection_tbl (cm_db m1))" "c_ID c1 = c_ID c"
    using same_row[OF rows] by blast
  then have "\<not> (\<forall>r \<in> set (connection_tbl (cm_db m1)). c_ID r \<noteq> c_ID c)"
    by blast
  then obtain d where d: "UpdateConnectionSecretOnly (cm_db m1) (c_ID c) (resealed ev (cm_key m) fresh nonce c) = Inr d"
    by (simp add: UpdateConnectionSecretOnly_def upd_connection_def checkAffected_def del: ball_simps)
  have "map row_key (connection_tbl d) = map row_key (connection_tbl (cm_db m1))"
    using rotate_write_rows[of "\<lambda>_. True" 0 "[(c_ID c, resealed ev (cm_key m) fresh nonce c)]" "cm_db m1" d True] d by simp
  then obtain c' where c': "c' \<in> set (connection_tbl d)" "c_ID c' = c_ID c"
    using same_row c1 by metis
  have s: "c_Secret c' = resealed ev (cm_key m) fresh nonce c"
    using secret_only_row[OF d c'] .
  have lost: "plain_of ev key c' = None" if "key \<noteq> fresh" for key
    using seal_opens_only[OF assms(1), of key fresh] that by (simp add: plain_of_def OpenLegacyTolerant_def s resealed_def)
  have "RotateKey ev fresh nonce wr prevOk newOk m = (m1\<lparr>cm_db := d\<rparr>, None)"
    using o d assms(2,4,5) by (simp add: RotateKey_def)
  then show ?thesis
    using c' lost k assms(6,7) by (intro exI[of _ "m1\<lparr>cm_db := d\<rparr>"] conjI bexI[of _ c']) auto
qed

section \<open>A consent under a name that is taken\<close>

lemma tbl_find_update:
  "(\<And>r. P (f r) = P r) \<Longrightarrow> tbl_find P (tbl_update Q f t) = map_option (\<lambda>r. if Q r then f r else r) (tbl_find P t)"
  by (induction t) (auto simp: tbl_update_def)

lemma split3_startConsent:
  assumes "CHR '':'' \<notin> set (cp_Name p)" "CHR '':'' \<notin> set slug"
  shows "split3 (TrimPrefix (startConsent nonce p slug) connectStatePrefix) = Some (cp_Name p, slug, nonce)"
proof -
  have tw: "takeWhile (\<lambda>c. c \<noteq> CHR '':'') (s @ CHR '':'' # r) = s" "dropWhile (\<lambda>c. c \<noteq> CHR '':'') (s @ CHR '':'' # r) = CHR '':'' # r"
    if "CHR '':'' \<notin> set s" for s r
    using that by (auto simp: takeWhile_tail dropWhile_append3)
  show ?thesis
    using assms by (simp add: startConsent_def split3_def tw Let_def)
qed

lemma grantedTo_iff:
  "grantedTo (AppConnections d j) cid \<longleftrightarrow>
     (\<exists>uid. (cid, uid) \<in> set (map row_key (connection_tbl d)) \<and> cid \<in> set (map g_who (filter (\<lambda>g. g_app_id g = j) (app_connection_tbl d))) \<and>
        Some uid = map_option a_OwnerID (tbl_find (\<lambda>a. a_ID a = j) (app_tbl d)))"
proof -
  have "grantedTo (AppConnections d j) cid \<longleftrightarrow>
     (\<exists>c \<in> set (connection_tbl d). c_ID c = cid \<and> cid \<in> set (map g_who (filter (\<lambda>g. g_app_id g = j) (app_connection_tbl d))) \<and>
        Some (c_UserID c) = map_option a_OwnerID (tbl_find (\<lambda>a. a_ID a = j) (app_tbl d)))"
    by (auto simp: grantedTo_def list_ex_iff AppConnections_def by_provider_slug_def Let_def)
  then show ?thesis
    by (force simp: row_key_def)
qed

lemma grantedTo_frame:
  assumes "map row_key (connection_tbl d') = map row_key (connection_tbl d)" "app_connection_tbl d' = app_connection_tbl d" "app_tbl d' = app_tbl d"
  shows "grantedTo (AppConnections d' j) cid = grantedTo (AppConnections d j) cid"
  unfolding grantedTo_iff assms ..

lemma upd_conn_frame:
  assumes "UpdateConnectionSecret d i s sc me = Inr d'"
  shows "ConnectionBySlug d' uid slug =
      map_sum id (\<lambda>r. if c_ID r = i then r\<lparr>c_Secret := s, c_Scopes := sc, c_Meta := me\<rparr> else r) (ConnectionBySlug d uid slug)"
    "grantedTo (AppConnections d' j) cid = grantedTo (AppConnections d j) cid"
proof -
  have d': "d' = d\<lparr>connection_tbl := tbl_update (\<lambda>c. c_ID c = i) (\<lambda>c. c\<lparr>c_Secret := s, c_Scopes := sc, c_Meta := me\<rparr>) (connection_tbl d)\<rparr>"
    using assms by (auto simp: UpdateConnectionSecret_def upd_connection_def checkAffected_def split: if_splits)
  show "ConnectionBySlug d' uid slug =
      map_sum id (\<lambda>r. if c_ID r = i then r\<lparr>c_Secret := s, c_Scopes := sc, c_Meta := me\<rparr> else r) (ConnectionBySlug d uid slug)"
    unfolding d' by (simp add: ConnectionBySlug_def tbl_find_update split: option.splits)
  show "grantedTo (AppConnections d' j) cid = grantedTo (AppConnections d j) cid"
    by (rule grantedTo_frame[OF upd_secret_rows(1)[OF assms]]) (simp_all add: d')
qed

lemma status_frame:
  "ConnectionBySlug (SetConnectionStatus d i st) uid slug = map_sum id (\<lambda>r. if c_ID r = i then r\<lparr>c_Status := st\<rparr> else r) (ConnectionBySlug d uid slug)"
  "map row_key (connection_tbl (SetConnectionStatus d i st)) = map row_key (connection_tbl d)"
  "grantedTo (AppConnections (SetConnectionStatus d i st) j) cid = grantedTo (AppConnections d j) cid"
  "provider_tbl (SetConnectionStatus d i st) = provider_tbl d"
proof -
  show k: "map row_key (connection_tbl (SetConnectionStatus d i st)) = map row_key (connection_tbl d)"
    by (simp add: SetConnectionStatus_def tbl_update_def row_key_def)
  show "grantedTo (AppConnections (SetConnectionStatus d i st) j) cid = grantedTo (AppConnections d j) cid"
    by (rule grantedTo_frame[OF k]) (simp_all add: SetConnectionStatus_def)
qed (simp_all add: SetConnectionStatus_def ConnectionBySlug_def tbl_find_update split: option.splits)

lemma providerFor_frame: "provider_tbl d' = provider_tbl d \<Longrightarrow> providerFor ev d' uid name = providerFor ev d uid name"
proof -
  assume "provider_tbl d' = provider_tbl d"
  then have "ProviderByName d' uid name = ProviderByName d uid name"
    by (simp add: ProviderByName_def)
  then show ?thesis
    by (simp add: providerFor_def split: option.splits)
qed

lemma reconnect_stores:
  assumes "Exchange ep p (fst (clientForUser ev (cm_key m) (cm_db m) (c_UserID c) (cp_Name p))) (snd (clientForUser ev (cm_key m) (cm_db m) (c_UserID c) (cp_Name p)))
      redirectURL code = Inr (credential, refr)"
    and "ConnectionBySlug (cm_db m) uid slug = Inr c"
  shows "\<exists>m' sc me. reconnect ev ep nonce m c p code redirectURL scopes = (m', None) \<and> cm_key m' = cm_key m \<and>
     ConnectionBySlug (cm_db m') uid slug = Inr (c\<lparr>c_Status := ConnectionStatusOK, c_Secret := seal_for ev m nonce c credential, c_Scopes := sc, c_Meta := me\<rparr>) \<and>
     (\<forall>j cid. grantedTo (AppConnections (cm_db m') j) cid = grantedTo (AppConnections (cm_db m) j) cid) \<and>
     provider_tbl (cm_db m') = provider_tbl (cm_db m)"
proof -
  let ?d = "SetConnectionStatus (cm_db m) (c_ID c) ConnectionStatusOK"
  have "c \<in> set (connection_tbl (cm_db m))"
    using assms(2) by (auto simp: ConnectionBySlug_def split: option.splits dest: tbl_find_Some)
  then have "\<not> (\<forall>r \<in> set (connection_tbl ?d). c_ID r \<noteq> c_ID c)"
    using same_row[OF status_frame(2)] by metis
  then obtain d where d: "UpdateConnectionSecret ?d (c_ID c) (seal_for ev m nonce c credential) (if scopes = [] then c_Scopes c else scopes)
      (if cp_HybridToken p then oauthTokenMeta p refr else c_Meta c) = Inr d"
    by (simp add: UpdateConnectionSecret_def upd_connection_def checkAffected_def del: ball_simps)
  let ?m = "(expireCachedFor m (c_ID c))\<lparr>cm_db := d\<rparr>"
  have "reconnect ev ep nonce m c p code redirectURL scopes = (?m, None)"
    using assms(1) d
    by (cases "clientForUser ev (cm_key m) (cm_db m) (c_UserID c) (cp_Name p)") (simp add: reconnect_def expireCachedFor_def Let_def split del: if_split)
  moreover have "ConnectionBySlug d uid slug = Inr (c\<lparr>c_Status := ConnectionStatusOK, c_Secret := seal_for ev m nonce c credential,
      c_Scopes := (if scopes = [] then c_Scopes c else scopes), c_Meta := (if cp_HybridToken p then oauthTokenMeta p refr else c_Meta c)\<rparr>)"
    using upd_conn_frame(1)[OF d, of uid slug] assms(2) by (simp add: status_frame)
  moreover have "grantedTo (AppConnections d j) cid = grantedTo (AppConnections (cm_db m) j) cid" for j cid
    using upd_conn_frame(2)[OF d] by (simp add: status_frame)
  moreover have "provider_tbl d = provider_tbl (cm_db m)"
    using upd_secret_rows(2)[OF d] by (simp add: status_frame)
  ultimately show ?thesis
    by (intro exI[of _ ?m] exI) (simp add: expireCachedFor_def)
qed

text \<open>Connecting an OAuth account under a name that a pasted credential already has hands the account's refresh token to apps. The request to add
  it is accepted although the name is taken, the callback takes the row of that name for the one to
  reconnect without looking at its kind or provider, and stores the new credential in it; an app that was granted the pasted credential
  asks for it and receives the refresh token in the clear. The pasted credential is gone.\<close>

lemma consent_under_taken_name_exposes_refresh_token:
  assumes "aead_ok (ev_crypto ev)"
    and "ConnectionBySlug (cm_db m) uid slug = Inr conn" and "c_Kind conn = KindStatic" and "a_OwnerID a = uid"
    and "grantedTo (AppConnections (cm_db m) (a_ID a)) (c_ID conn)"
    and "providerFor ev (cm_db m) uid (c_Provider conn) = Some q"
    and "userID c = uid" and "ToLower (TrimSpace slug) = slug" and "CHR '':'' \<notin> set slug" and "CHR '':'' \<notin> set (cp_Name p)"
    and "providerFor ev (cm_db m) uid (cp_Name p) = Some p" and "cp_Name p \<noteq> ''mcp''" and "cp_Kind p = KindOAuth"
    and "handleConnectionAdd ev mcp stamp rid now m c (cp_Name p) slug label vals keys = (m, AddConsent state scopes)"
    and "Exchange ep p (fst (clientForUser ev (cm_key m) (cm_db m) uid (cp_Name p))) (snd (clientForUser ev (cm_key m) (cm_db m) uid (cp_Name p)))
      redirectURL code = Inr (refreshToken, True)" and "code \<noteq> []"
  shows "\<exists>m' m'' tok. connectionFromState ev ep mcp' nonce rid now m state (Some uid) code label sc redirectURL = (m', 302) \<and>
     tokenFor ev ep n1 n2 now m' a slug = (m'', Inr tok) \<and> tk_AccessToken tok = refreshToken"
proof -
  have cu: "c_UserID conn = uid"
    using assms(2) by (auto simp: ConnectionBySlug_def split: option.splits dest: tbl_find_Some)
  have av: "availableFor ev (cm_key m) (cm_db m) uid p" "state = startConsent stamp p slug"
    using assms(7,8,11-14) by (auto simp: handleConnectionAdd_def Let_def split: if_splits sum.splits)
  let ?sc = "if sc = [] then join_with (CHR '' '') (cp_Scopes p) else sc"
  obtain m' sc' me where r: "reconnect ev ep nonce m conn p code redirectURL ?sc = (m', None)" "cm_key m' = cm_key m"
      "ConnectionBySlug (cm_db m') uid slug =
         Inr (conn\<lparr>c_Status := ConnectionStatusOK, c_Secret := seal_for ev m nonce conn refreshToken, c_Scopes := sc', c_Meta := me\<rparr>)"
      "grantedTo (AppConnections (cm_db m') (a_ID a)) (c_ID conn) = grantedTo (AppConnections (cm_db m) (a_ID a)) (c_ID conn)"
      "provider_tbl (cm_db m') = provider_tbl (cm_db m)"
    using reconnect_stores[of ep p ev m conn redirectURL code refreshToken True uid slug nonce ?sc] assms(2,15) cu by blast
  have "connectionFromState ev ep mcp' nonce rid now m state (Some uid) code label sc redirectURL = (m', 302)"
    using split3_startConsent[OF assms(10,9), of stamp] av assms(2,11,12,16) r(1) by (simp add: connectionFromState_def Let_def)
  moreover have "OpenLegacyTolerant (ev_crypto ev) (cm_key m) (seal_for ev m nonce conn refreshToken) (conn_aad conn) = Some (refreshToken, True)"
    using seal_opens[OF assms(1)] by (simp add: OpenLegacyTolerant_def seal_for_def)
  then have "\<exists>m'' tok. tokenFor ev ep n1 n2 now m' a slug = (m'', Inr tok) \<and> tk_AccessToken tok = refreshToken"
    using r assms(3-6) cu providerFor_frame[OF r(5)]
    by (simp add: tokenFor_def open_conn_def conn_aad_def)
  ultimately show ?thesis
    by blast
qed

section \<open>A sample instance\<close>

text \<open>A stand-in for the cipher that has the two properties: the key and the associated data, each with its length in front, then the text.\<close>

definition framed :: "string \<Rightarrow> string" where
  "framed s = replicate (length s) (CHR ''x'') @ CHR ''y'' # s"

definition box :: crypto where
  "box = \<lparr>cr_seal = (\<lambda>k n p a. framed k @ framed a @ p),
     cr_open = (\<lambda>k s a. if HasPrefix s (framed k @ framed a) then Some (drop (length (framed k @ framed a)) s) else None)\<rparr>"

lemma framed_unique: "framed s @ u = framed t @ v \<Longrightarrow> s = t \<and> u = v"
proof -
  assume e: "framed s @ u = framed t @ v"
  have "takeWhile (\<lambda>c. c = CHR ''x'') (framed r @ w) = replicate (length r) (CHR ''x'')" for r w
    by (simp add: framed_def takeWhile_append)
  then have "length s = length t"
    using e by (metis length_replicate)
  then show "s = t \<and> u = v"
    using e by (simp add: framed_def)
qed

lemma box_ok: "aead_ok box"
  unfolding aead_ok_def
proof (intro conjI allI impI)
  fix k n p a :: string
  show "cr_open box k (cr_seal box k n p a) a = Some p"
    by (simp add: box_def HasPrefix_def)
next
  fix k n p a k' a' :: string
  assume "cr_open box k' (cr_seal box k n p a) a' \<noteq> None"
  then have "HasPrefix (framed k @ framed a @ p) (framed k' @ framed a')"
    by (simp add: box_def split: if_splits)
  then obtain r where "framed k @ framed a @ p = framed k' @ framed a' @ r"
    by (auto simp: HasPrefix_iff)
  then show "k' = k" "a' = a"
    by (metis framed_unique)+
qed

definition key_provider :: CatProvider where
  "key_provider = \<lparr>cp_Name = ''openai'', cp_Label = ''OpenAI'', cp_Kind = KindStatic, cp_Scopes = [], cp_ScopeOptions = [], cp_UserToken = False,
     cp_Fields = [\<lparr>fd_Name = ''key'', fd_Label = ''Key'', fd_Optional = False, fd_Pattern = []\<rparr>], cp_SecretField = ''key'', cp_AuthURL = [], cp_TokenURL = [],
     cp_RevokeURL = [], cp_RevokeAuth = [], cp_Issuer = [], cp_Custom = False, cp_Personal = False, cp_AuthParams = [], cp_LongLivedToken = False,
     cp_HybridToken = False, cp_ProbeURL = [], cp_ProbeBody = [], cp_DisallowMultiple = False\<rparr>"

definition cal_provider :: CatProvider where
  "cal_provider = key_provider\<lparr>cp_Name := ''google-calendar'', cp_Kind := KindOAuth, cp_Scopes := [''calendar''], cp_Fields := [], cp_SecretField := [],
     cp_AuthURL := ''https://a'', cp_TokenURL := ''https://t''\<rparr>"

definition conn_env1 :: conn_env where
  "conn_env1 = \<lparr>ev_crypto = box, ev_catalog = [''openai'' \<mapsto> key_provider, ''google-calendar'' \<mapsto> cal_provider], ev_clients = (\<lambda>_. None),
     ev_google = (''gid'', ''gsecret''), ev_custom = (\<lambda>_. None), ev_discover = (\<lambda>_. None), ev_params = (\<lambda>_. []), ev_options = (\<lambda>_. []), ev_re = (\<lambda>_ _. True)\<rparr>"

definition key_conn :: Connection where
  "key_conn = \<lparr>c_ID = ''cn_1'', c_UserID = ''usr_1'', c_Slug = ''main'', c_Provider = ''openai'', c_Kind = KindStatic, c_Label = ''Main'',
     c_Secret = cr_seal box ''k1'' [] ''sk-1'' (Binding ''usr_1'' ''cn_1''), c_Scopes = [], c_Meta = [], c_CreatedAt = Some 0, c_Status = ''ok''\<rparr>"

definition cal_conn :: Connection where
  "cal_conn = key_conn\<lparr>c_ID := ''cn_2'', c_Slug := ''work'', c_Provider := ''google-calendar'', c_Kind := KindOAuth,
     c_Secret := cr_seal box ''k1'' [] ''old-rt'' (Binding ''usr_1'' ''cn_2'')\<rparr>"

definition acme_row :: Provider where
  "acme_row = \<lparr>pv_ID = ''pv_1'', pv_OwnerID = ''usr_1'', pv_Name = ''acme'', pv_Label = ''Acme'', pv_Kind = ''oauth'', pv_Scopes = [], pv_Issuer = [],
     pv_AuthURL = ''https://x'', pv_TokenURL = ''https://y'', pv_ClientID = ''acme-id'',
     pv_ClientSecret = cr_seal box ''k1'' [] ''acme-secret'' (Binding ''usr_1'' ''pv_1''), pv_AuthParams = [], pv_LongLived = False, pv_URL = [], pv_Help = [],
     pv_NameHint = [], pv_ScopeOptions = [], pv_UserToken = False, pv_ShortDescription = [], pv_LongDescription = [], pv_AllowMultiple = True,
     pv_CreatedAt = Some 0\<rparr>"

definition conn_db :: db where
  "conn_db = solo_db\<lparr>connection_tbl := [key_conn, cal_conn],
     app_connection_tbl := [\<lparr>g_app_id = ''app_1'', g_who = ''cn_1'', g_created_at = 0\<rparr>, \<lparr>g_app_id = ''app_1'', g_who = ''cn_2'', g_created_at = 0\<rparr>],
     provider_tbl := [acme_row]\<rparr>"

definition conn_mgr1 :: conn_mgr where
  "conn_mgr1 = \<lparr>cm_db = conn_db, cm_key = ''k1'', cm_keyfile = ''k1'', cm_previous = None, cm_cached = (\<lambda>_. None)\<rparr>"

definition issuing :: endpoint where
  "issuing url form = Answer 200 (Some \<lparr>tr_AccessToken = ''at'', tr_RefreshToken = ''rt'', tr_ExpiresIn = 3600, tr_Error = [], tr_UserAccessToken = []\<rparr>)"

lemma conn_mgr1_sel:
  "cm_db conn_mgr1 = conn_db" "cm_key conn_mgr1 = ''k1''" "cm_keyfile conn_mgr1 = ''k1''" "cm_previous conn_mgr1 = None" "cm_cached conn_mgr1 i = None"
  "ev_crypto conn_env1 = box" "connection_tbl conn_db = [key_conn, cal_conn]" "a_ID plain_app = ''app_1''" "a_OwnerID plain_app = ''usr_1''"
  by (simp_all add: conn_mgr1_def conn_env1_def conn_db_def plain_app_def)

lemma conn_sel:
  "c_ID key_conn = ''cn_1''" "c_UserID key_conn = ''usr_1''" "c_Kind key_conn = KindStatic" "c_Provider key_conn = ''openai''" "c_Slug key_conn = ''main''"
  "c_ID cal_conn = ''cn_2''" "c_UserID cal_conn = ''usr_1''" "c_Kind cal_conn = KindOAuth" "c_Provider cal_conn = ''google-calendar''" "c_Slug cal_conn = ''work''"
  by (simp_all add: key_conn_def cal_conn_def)

lemma conn_sample:
  "ConnectionBySlug conn_db ''usr_1'' ''main'' = Inr key_conn" "ConnectionBySlug conn_db ''usr_1'' ''work'' = Inr cal_conn"
  "providerFor conn_env1 conn_db uid ''openai'' = Some key_provider" "providerFor conn_env1 conn_db uid ''google-calendar'' = Some cal_provider"
  "clientForUser conn_env1 k conn_db ''usr_1'' ''google-calendar'' = (''gid'', ''gsecret'')"
  "plain_of conn_env1 ''k1'' key_conn = Some ''sk-1''" "plain_of conn_env1 ''k1'' cal_conn = Some ''old-rt''"
  using seal_opens[OF box_ok]
  by (simp_all add: ConnectionBySlug_def conn_mgr1_sel conn_sel providerFor_def lookup_provider_def applyScopeOverride_def key_provider_def cal_provider_def
      conn_env1_def clientForUser_def ConnectionClient_def plain_of_def OpenLegacyTolerant_def conn_aad_def key_conn_def cal_conn_def)

lemma conn_granted: "grantedTo (AppConnections conn_db ''app_1'') ''cn_1''" "grantedTo (AppConnections conn_db ''app_1'') ''cn_2''"
  unfolding grantedTo_iff by (simp_all add: conn_db_def row_key_def key_conn_def cal_conn_def solo_db_def empty_db_def plain_app_def)

lemma open_conn_plain:
  assumes "cr_open (ev_crypto ev) (cm_key m) (c_Secret conn) (conn_aad conn) = Some s"
  shows "open_conn ev nonce m conn = Some (m, conn, s)"
  using assms by (simp add: open_conn_def OpenLegacyTolerant_def)

lemma cal_opens: "open_conn conn_env1 n conn_mgr1 cal_conn = Some (conn_mgr1, cal_conn, ''old-rt'')"
  using seal_opens[OF box_ok] by (intro open_conn_plain) (simp add: conn_mgr1_sel conn_aad_def cal_conn_def key_conn_def)

theorem tokenFor_least_privilege_witness:
  "\<exists>m' tok conn. tokenFor conn_env1 issuing [] [] 0 conn_mgr1 plain_app ''work'' = (m', Inr tok) \<and> tk_AccessToken tok = ''at'' \<and>
     ConnectionBySlug conn_db ''usr_1'' ''work'' = Inr conn \<and> (\<exists>g \<in> set (app_connection_tbl conn_db). g_app_id g = ''app_1'' \<and> g_who g = c_ID conn)"
proof -
  have np: "\<not> cp_LongLivedToken cal_provider" "cp_Name cal_provider = ''google-calendar''" "refreshable cal_conn cal_provider"
    by (simp_all add: cal_provider_def key_provider_def refreshable_def)
  obtain m' tok where "refreshAndStore conn_env1 issuing [] 0 conn_mgr1 cal_conn cal_provider ''old-rt'' = (m', Inr tok)" "tk_AccessToken tok = ''at''"
    by (simp add: refreshAndStore_def conn_mgr1_sel conn_sel conn_sample np Refresh_def postToken_def issuing_def Let_def)
  then have t: "tokenFor conn_env1 issuing [] [] 0 conn_mgr1 plain_app ''work'' = (m', Inr tok)"
    by (simp add: tokenFor_def conn_mgr1_sel conn_sample conn_granted conn_sel np cal_opens cachedTokenFor_def)
  have "custody_reach conn_env1 {issuing} conn_mgr1"
    by (rule custody_reach.empty) (simp add: conn_mgr1_sel)
  from tokenFor_least_privilege[OF this singletonI t] show ?thesis
    using t \<open>tk_AccessToken tok = ''at''\<close> by (auto simp: conn_mgr1_sel)
qed

lemma rotation_sample:
  "\<exists>m'. RotateKey conn_env1 ''k2'' (\<lambda>_. ([], [])) (\<lambda>_. True) True True conn_mgr1 = (m', Some 2)"
proof -
  have all: "set (AllConnections conn_db) = {key_conn, cal_conn}" "length (AllConnections conn_db) = 2"
    by (simp_all add: AllConnections_set conn_mgr1_sel)
  let ?ps = "map (\<lambda>c. (c_ID c, resealed conn_env1 ''k1'' ''k2'' (\<lambda>_. ([], [])) c)) (AllConnections conn_db)"
  obtain m1 where o: "rotate_open conn_env1 ''k2'' (\<lambda>_. ([], [])) (AllConnections conn_db) conn_mgr1 = (m1, Some ?ps)"
    using rotate_open_total[of "AllConnections conn_db" conn_env1 conn_mgr1 "''k2''" "\<lambda>_. ([], [])"] rotate_open_ok[of conn_env1 "''k2''" "\<lambda>_. ([], [])" "AllConnections conn_db" conn_mgr1]
    by (auto simp: all conn_mgr1_sel conn_sample)
  have "map row_key (connection_tbl (cm_db m1)) = map row_key [key_conn, cal_conn]"
    using rotate_open_ok[OF o] by (simp add: conn_mgr1_sel)
  moreover have "\<exists>d'. rotate_write (\<lambda>_. True) i ps d = (d', True)"
    if "fst ` set ps \<subseteq> fst ` set (map row_key (connection_tbl d))" for i ps d
    using that
  proof (induction ps arbitrary: i d)
    case (Cons q ps)
    obtain cid s where q: "q = (cid, s)"
      by (cases q)
    have "\<exists>r \<in> set (connection_tbl d). c_ID r = cid"
      using Cons.prems q by (auto simp: row_key_def)
    then have "\<not> (\<forall>r \<in> set (connection_tbl d). c_ID r \<noteq> cid)"
      by blast
    then obtain d1 where d1: "UpdateConnectionSecretOnly d cid s = Inr d1"
      by (simp add: UpdateConnectionSecretOnly_def upd_connection_def checkAffected_def del: ball_simps)
    have "map row_key (connection_tbl d1) = map row_key (connection_tbl d)"
      using rotate_write_rows[of "\<lambda>_. True" 0 "[(cid, s)]" d d1 True] d1 by simp
    then show ?case
      using Cons.IH[of d1 "i + 1"] Cons.prems d1 q by auto
  qed simp
  moreover have "fst ` set ?ps \<subseteq> {''cn_1'', ''cn_2''}"
    by (auto simp: all conn_sel)
  ultimately obtain d where "rotate_write (\<lambda>_. True) 0 ?ps (cm_db m1) = (d, True)"
    by (metis (no_types, lifting) conn_sel(1,6) fst_conv image_insert list.set(1,2) list.simps(8,9) row_key_def image_empty)
  then show ?thesis
    using o all(2) by (simp add: RotateKey_def conn_mgr1_sel ReplaceKey_def Let_def)
qed

theorem RotateKey_keeps_credentials_witness:
  "\<exists>m' c'. RotateKey conn_env1 ''k2'' (\<lambda>_. ([], [])) (\<lambda>_. True) True True conn_mgr1 = (m', Some 2) \<and> cm_keyfile m' = ''k2'' \<and>
     c' \<in> set (connection_tbl (cm_db m')) \<and> cr_open box ''k2'' (c_Secret c') (conn_aad c') = Some ''sk-1''"
proof -
  obtain m' where r: "RotateKey conn_env1 ''k2'' (\<lambda>_. ([], [])) (\<lambda>_. True) True True conn_mgr1 = (m', Some 2)"
    using rotation_sample by blast
  have "aead_ok (ev_crypto conn_env1)" "distinct (map c_ID (connection_tbl (cm_db conn_mgr1)))" "key_conn \<in> set (connection_tbl (cm_db conn_mgr1))"
    by (simp_all add: box_ok conn_mgr1_sel conn_sel)
  from RotateKey_keeps_credentials[OF this(1,2) r this(3)] show ?thesis
    using r by (auto simp: conn_mgr1_sel conn_sample)
qed

lemma rotation_orphans_provider_secrets_witness:
  "\<exists>m'. RotateKey conn_env1 ''k2'' (\<lambda>_. ([], [])) (\<lambda>_. True) True True conn_mgr1 = (m', Some 2) \<and>
     clientForUser conn_env1 ''k1'' conn_db ''usr_1'' ''acme'' = (''acme-id'', ''acme-secret'') \<and>
     clientForUser conn_env1 (cm_key m') (cm_db m') ''usr_1'' ''acme'' = ([], [])"
proof -
  obtain m' where r: "RotateKey conn_env1 ''k2'' (\<lambda>_. ([], [])) (\<lambda>_. True) True True conn_mgr1 = (m', Some 2)"
    using rotation_sample by blast
  have h: "fst (ConnectionClient conn_env1 ''acme'') = []" "ProviderByName (cm_db conn_mgr1) ''usr_1'' ''acme'' = Inr acme_row" "pv_Kind acme_row = ''oauth''"
      "pv_ClientSecret acme_row = sealProviderSecret conn_env1 (cm_key conn_mgr1) [] acme_row ''acme-secret''" "pv_ClientSecret acme_row \<noteq> []"
      "pv_ClientID acme_row = ''acme-id''" "''k2'' \<noteq> cm_key conn_mgr1" "''acme-secret'' \<noteq> []"
    by (simp_all add: ConnectionClient_def conn_env1_def ProviderByName_def conn_mgr1_def conn_db_def acme_row_def sealProviderSecret_def provider_aad_def
        box_def framed_def)
  have "aead_ok (ev_crypto conn_env1)"
    by (simp add: conn_mgr1_sel box_ok)
  from rotation_orphans_provider_secrets[OF this r h(7,1,2,3,8,4,5)] show ?thesis
    using r h(6) by (simp add: conn_mgr1_sel)
qed

lemma interrupted_rotation_loses_credential_witness:
  "\<exists>m' c'. RotateKey conn_env1 ''k2'' (\<lambda>_. ([], [])) (\<lambda>i. i = 0) True True conn_mgr1 = (m', None) \<and> c' \<in> set (connection_tbl (cm_db m')) \<and>
     c_ID c' = ''cn_1'' \<and> plain_of conn_env1 (cm_keyfile m') c' = None"
proof -
  have all: "AllConnections (cm_db conn_mgr1) = [key_conn, cal_conn]"
    by (simp add: AllConnections_def conn_mgr1_sel conn_sel)
  have h: "aead_ok (ev_crypto conn_env1)" "\<forall>x \<in> set (AllConnections (cm_db conn_mgr1)). plain_of conn_env1 (cm_key conn_mgr1) x \<noteq> None"
      "''k2'' \<notin> {cm_key conn_mgr1, cm_keyfile conn_mgr1}" "cm_previous conn_mgr1 \<noteq> Some ''k2''" "(0::nat) = 0" "(1::nat) \<noteq> 0"
    by (simp_all add: box_ok conn_mgr1_sel all[unfolded conn_mgr1_sel] conn_sample del: One_nat_def)
  show ?thesis
    using interrupted_rotation_loses_credential[of conn_env1 conn_mgr1 key_conn cal_conn "[]" "\<lambda>i. i = 0" "''k2''" "\<lambda>_. ([], [])" True True, OF h(1) all h(2,5,6,3,4)]
    by (auto simp: conn_sel)
qed

lemma consent_under_taken_name_exposes_refresh_token_witness:
  "\<exists>m' m'' tok. connectionFromState conn_env1 issuing (\<lambda>m s. (m, 302)) [] ''9'' 0 conn_mgr1 (startConsent ''n'' cal_provider ''main'') (Some ''usr_1'') ''code'' [] [] ''https://r'' = (m', 302) \<and>
     tokenFor conn_env1 issuing [] [] 0 m' plain_app ''main'' = (m'', Inr tok) \<and> tk_AccessToken tok = ''rt''"
proof -
  have p: "cp_Name cal_provider = ''google-calendar''" "cp_Kind cal_provider = KindOAuth" "\<not> cp_DisallowMultiple cal_provider" "cp_ScopeOptions cal_provider = []"
      "cp_Issuer cal_provider = []" "cp_LongLivedToken cal_provider = False" "cp_HybridToken cal_provider = False"
    by (simp_all add: cal_provider_def key_provider_def)
  have u: "userID owner_caller = ''usr_1''"
    by (simp add: userID_def owner_caller_def plain_user_def)
  have s: "ToLower (TrimSpace ''main'') = ''main''" "slug_ok ''main''"
    by (simp_all add: ToLower_def lower_char_def TrimSpace_def is_space_def slug_ok_def lower_alnum_def)
  have n: "length (Connections conn_db ''usr_1'') = 2"
    by (simp add: Connections_def by_provider_slug_def conn_mgr1_sel conn_sel)
  have "ResolveScopes cal_provider [] = Inr (add_scopes [] (cp_Scopes cal_provider))"
    by (simp add: ResolveScopes_def)
  then obtain sc where add: "handleConnectionAdd conn_env1 (\<lambda>m s. (m, AddStored)) ''n'' ''9'' 0 conn_mgr1 owner_caller (cp_Name cal_provider) ''main'' [] (\<lambda>_. []) [] =
      (conn_mgr1, AddConsent (startConsent ''n'' cal_provider ''main'') sc)"
    by (simp add: handleConnectionAdd_def Let_def u s p conn_mgr1_sel conn_sample availableFor_def NeedsDiscovery_def n AllowsMultiple_def)
  have ex: "Exchange issuing cal_provider (fst (clientForUser conn_env1 (cm_key conn_mgr1) (cm_db conn_mgr1) ''usr_1'' (cp_Name cal_provider)))
      (snd (clientForUser conn_env1 (cm_key conn_mgr1) (cm_db conn_mgr1) ''usr_1'' (cp_Name cal_provider))) ''https://r'' ''code'' = Inr (''rt'', True)"
    by (simp add: Exchange_def postToken_def issuing_def p)
  show ?thesis
    by (rule consent_under_taken_name_exposes_refresh_token[where conn = key_conn and q = key_provider and c = owner_caller and p = cal_provider
          and keys = "[]" and vals = "\<lambda>_. []" and mcp = "\<lambda>m s. (m, AddStored)" and stamp = "''n''" and scopes = sc])
      (use add ex in \<open>simp_all add: conn_mgr1_sel conn_sample conn_granted conn_sel u s p box_ok\<close>)
qed

end
