(* ===== verification/Authorized_Keys.thy ===== *)
theory Authorized_Keys
  imports Prelude
begin

text \<open>
  The \<open>authorized_keys\<close> of an app account (\<open>system/ssh/keys.go\<close>). hostit owns one block of the file, between two marker lines, and
  rewrites it whenever the keys of an app change; every other line belongs to whoever put it there.
\<close>

section \<open>The merge\<close>

abbreviation newline :: char where "newline \<equiv> CHR 0x0A"

definition managedBeginMarker :: string where
  "managedBeginMarker = ''# BEGIN hostit-managed keys -- edits inside this block are overwritten''"

definition managedEndMarker :: string where
  "managedEndMarker = ''# END hostit-managed keys''"

definition keyMaterial :: "string \<Rightarrow> string" where
  "keyMaterial line =
     (let fields = Fields_aux [] (TrimSpace line)
      in if length fields < 2 then TrimSpace line else fields ! 0 @ '' '' @ fields ! 1)"

text \<open>The loop over the lines of the file: what is kept, in order.\<close>

fun kept_lines :: "(string \<Rightarrow> bool) \<Rightarrow> bool \<Rightarrow> string list \<Rightarrow> string list" where
  "kept_lines isManaged inManaged [] = []"
| "kept_lines isManaged inManaged (l # ls) =
     (if HasPrefix l managedBeginMarker then kept_lines isManaged True ls
      else if HasPrefix l managedEndMarker then kept_lines isManaged False ls
      else if inManaged \<or> TrimSpace l = [] then kept_lines isManaged inManaged ls
      else if isManaged (keyMaterial l) then kept_lines isManaged inManaged ls
      else l # kept_lines isManaged inManaged ls)"

definition is_managed :: "string list \<Rightarrow> string \<Rightarrow> bool" where
  "is_managed managed k = (k \<in> set (map keyMaterial managed))"

text \<open>The line a key is written as: the first line of it, nothing if that is empty.\<close>

definition managed_line :: "string \<Rightarrow> string" where
  "managed_line key = hd (split_on newline (TrimSpace key))"

definition managed_lines :: "string list \<Rightarrow> string list" where
  "managed_lines managed = filter (\<lambda>k. k \<noteq> []) (map managed_line managed)"

definition write_lines :: "string list \<Rightarrow> string" where
  "write_lines ls = concat (map (\<lambda>l. l @ [newline]) ls)"

definition MergeAuthorizedKeys :: "string \<Rightarrow> string list \<Rightarrow> string" where
  "MergeAuthorizedKeys existing managed =
     write_lines (kept_lines (is_managed managed) False (split_on newline existing))
     @ write_lines [managedBeginMarker] @ write_lines (managed_lines managed) @ write_lines [managedEndMarker]"

section \<open>Reading the result back\<close>

lemma write_lines_append: "write_lines (xs @ ys) = write_lines xs @ write_lines ys"
  by (simp add: write_lines_def)

lemma split_write_lines:
  assumes "\<forall>l \<in> set ls. newline \<notin> set l"
  shows "split_on newline (write_lines ls) = ls @ [[]]"
  using assms by (induction ls) (simp_all add: write_lines_def split_on_append)

lemma managed_line_no_newline: "newline \<notin> set (managed_line k)"
  unfolding managed_line_def by (rule split_on_parts[of _ newline "TrimSpace k"]) simp

lemma kept_lines_sub: "set (kept_lines P b ls) \<subseteq> set ls"
  by (induction ls arbitrary: b) auto

lemma markers_no_newline [simp]: "newline \<notin> set managedBeginMarker" "newline \<notin> set managedEndMarker"
  by (simp_all add: managedBeginMarker_def managedEndMarker_def)

text \<open>The lines of the file after a merge.\<close>

lemma merge_lines:
  "split_on newline (MergeAuthorizedKeys existing managed) =
     kept_lines (is_managed managed) False (split_on newline existing) @ [managedBeginMarker] @ managed_lines managed @ [managedEndMarker] @ [[]]"
proof -
  let ?k = "kept_lines (is_managed managed) False (split_on newline existing)"
  have "MergeAuthorizedKeys existing managed = write_lines (?k @ [managedBeginMarker] @ managed_lines managed @ [managedEndMarker])"
    by (simp add: MergeAuthorizedKeys_def write_lines_def)
  moreover have "\<forall>l \<in> set (?k @ [managedBeginMarker] @ managed_lines managed @ [managedEndMarker]). newline \<notin> set l"
    using kept_lines_sub[of "is_managed managed" False "split_on newline existing"] split_on_parts[of _ newline existing] managed_line_no_newline
    by (auto simp: managed_lines_def)
  ultimately show ?thesis
    using split_write_lines by fastforce
qed

section \<open>Kept lines\<close>

definition hand_line :: "(string \<Rightarrow> bool) \<Rightarrow> string \<Rightarrow> bool" where
  "hand_line P l = (\<not> HasPrefix l managedBeginMarker \<and> \<not> HasPrefix l managedEndMarker \<and> TrimSpace l \<noteq> [] \<and> \<not> P (keyMaterial l))"

lemma kept_lines_hand: "l \<in> set (kept_lines P b ls) \<Longrightarrow> hand_line P l"
  by (induction ls arbitrary: b) (auto simp: hand_line_def split: if_splits)

lemma kept_lines_outside:
  "\<forall>l \<in> set ls. hand_line P l \<Longrightarrow>
     kept_lines P' False (ls @ rest) = filter (\<lambda>l. \<not> P' (keyMaterial l)) ls @ kept_lines P' False rest"
  by (induction ls) (auto simp: hand_line_def)

text \<open>Inside the block nothing is kept; it ends at the first line that starts with the end marker.\<close>

lemma kept_lines_block:
  assumes "\<forall>l \<in> set ls. \<not> HasPrefix l managedBeginMarker \<and> \<not> HasPrefix l managedEndMarker"
  shows "kept_lines P True (ls @ managedEndMarker # rest) = kept_lines P False rest"
proof -
  have e: "\<not> HasPrefix managedEndMarker managedBeginMarker" "HasPrefix managedEndMarker managedEndMarker"
    by (simp_all add: HasPrefix_def managedBeginMarker_def managedEndMarker_def)
  show ?thesis
    using assms by (induction ls) (simp_all add: e)
qed

lemma kept_lines_reread:
  assumes "\<forall>l \<in> set ls. hand_line P l" and "\<forall>l \<in> set ms. \<not> HasPrefix l managedBeginMarker \<and> \<not> HasPrefix l managedEndMarker"
  shows "kept_lines P' False (ls @ [managedBeginMarker] @ ms @ [managedEndMarker] @ [[]]) = filter (\<lambda>l. \<not> P' (keyMaterial l)) ls"
proof -
  have b: "HasPrefix managedBeginMarker managedBeginMarker"
    by (simp add: HasPrefix_def)
  have n: "kept_lines P' False [[]] = []"
    by (simp add: HasPrefix_def managedBeginMarker_def managedEndMarker_def TrimSpace_def)
  show ?thesis
    using kept_lines_outside[OF assms(1), of P' "[managedBeginMarker] @ ms @ [managedEndMarker] @ [[]]"]
      kept_lines_block[OF assms(2), of P' "[[]]"] b n
    by simp
qed

text \<open>A key that could pass for a marker: no parser of SSH keys accepts one, a line with \<open>#\<close> is a comment.\<close>

definition plain_keys :: "string list \<Rightarrow> bool" where
  "plain_keys managed = list_all (\<lambda>k. \<not> HasPrefix (managed_line k) ''#'') managed"

lemma marker_hash: "HasPrefix l managedBeginMarker \<or> HasPrefix l managedEndMarker \<Longrightarrow> HasPrefix l ''#''"
  by (auto simp: HasPrefix_iff managedBeginMarker_def managedEndMarker_def)

lemma plain_keys_markers:
  assumes "plain_keys managed" and "l \<in> set (managed_lines managed)"
  shows "\<not> HasPrefix l managedBeginMarker \<and> \<not> HasPrefix l managedEndMarker"
proof -
  have "\<not> HasPrefix l ''#''"
    using assms by (auto simp: plain_keys_def managed_lines_def list_all_iff)
  then show ?thesis
    using marker_hash by blast
qed

section \<open>The lines added by hand\<close>

text \<open>The specification of a file, by position: a block is open after the lines \<open>ls\<close> when the last marker among them is a begin marker, and
  the lines added by hand are those at a position where no block is open that are no marker, not blank and not the line of a managed key.\<close>

definition block_open :: "string list \<Rightarrow> bool" where
  "block_open ls =
     (case filter (\<lambda>l. HasPrefix l managedBeginMarker \<or> HasPrefix l managedEndMarker) (rev ls) of
        [] \<Rightarrow> False
      | m # _ \<Rightarrow> HasPrefix m managedBeginMarker)"

definition hand_lines :: "string list \<Rightarrow> string list \<Rightarrow> string list" where
  "hand_lines managed ls =
     map ((!) ls) (filter (\<lambda>i. \<not> block_open (take i ls) \<and> hand_line (is_managed managed) (ls ! i)) [0..<length ls])"

lemma hand_lines_snoc:
  "hand_lines managed (ls @ [l]) =
     hand_lines managed ls @ (if \<not> block_open ls \<and> hand_line (is_managed managed) l then [l] else [])"
proof -
  have "filter (\<lambda>i. \<not> block_open (take i (ls @ [l])) \<and> hand_line (is_managed managed) ((ls @ [l]) ! i)) [0..<length ls] =
      filter (\<lambda>i. \<not> block_open (take i ls) \<and> hand_line (is_managed managed) (ls ! i)) [0..<length ls]"
    by (rule filter_cong) (simp_all add: nth_append)
  moreover have "map ((!) (ls @ [l])) (filter Q [0..<length ls]) = map ((!) ls) (filter Q [0..<length ls])" for Q
    by (rule map_cong) (simp_all add: nth_append)
  ultimately show ?thesis
    by (simp add: hand_lines_def)
qed

lemma kept_lines_append:
  "kept_lines P b (xs @ [l]) =
     kept_lines P b xs @ (if (if b then filter (\<lambda>l. HasPrefix l managedBeginMarker \<or> HasPrefix l managedEndMarker) xs = [] \<or> block_open xs else block_open xs)
       \<or> \<not> hand_line P l then [] else [l])"
proof (induction xs arbitrary: b)
  case Nil
  then show ?case
    by (auto simp: hand_line_def block_open_def)
next
  case (Cons x xs)
  then show ?case
    by (auto simp: block_open_def filter_empty_conv split: list.splits)
qed

lemma kept_lines_eq_hand_lines: "kept_lines (is_managed managed) False ls = hand_lines managed ls"
proof (induction ls rule: rev_induct)
  case Nil
  then show ?case
    by (simp add: hand_lines_def)
next
  case (snoc l ls)
  then show ?case
    by (simp add: kept_lines_append hand_lines_snoc)
qed



text \<open>The markers are only looked for at the start of a line, and the block ends at the end of the file when its end marker is missing: every
  line after the begin marker goes then, those added by hand too.\<close>

lemma lost_end_marker_eats_rest:
  assumes "\<forall>l \<in> set ls. \<not> HasPrefix l managedEndMarker"
  shows "kept_lines P False (managedBeginMarker # ls) = []"
proof -
  have "kept_lines P True ls = []"
    using assms by (induction ls) auto
  then show ?thesis
    by (simp add: HasPrefix_def)
qed

end
