(* ===== verification/Node_Machine.thy ===== *)
theory Node_Machine
  imports App_Lifecycle Home_Files Authorized_Keys
begin

text \<open>
  The machine half of a node (\<open>node/machine.go\<close>, \<open>machine_provision.go\<close>, \<open>machine_budget.go\<close>, \<open>machine_quota.go\<close>) and the workspace storage it
  builds apps from (\<open>workspace/service.go\<close>, \<open>subvolume.go\<close>). The record \<open>machine\<close> has what the daemon keeps in memory, its mirror of the
  registry, and the host it acts on: accounts, the entries of the apps directory, snapshots, base trees, units, containers, budget groups and
  port rules, each an association list.

  Every command the daemon runs is a value of \<open>hcall\<close>, and \<open>ok\<close> says which of them the host carries out; a refused one changes nothing.
\<close>

section \<open>The host\<close>

record account =
  ac_Home :: string
  ac_UID :: int

text \<open>An app's subvolume: what its operating system tree was made from, its files at \<open>home/app\<close>, its budget group.\<close>

record subvol =
  sb_os :: string
  sb_files :: "fs option"
  sb_group :: string

text \<open>An entry of the apps directory. Of a plain directory only whether it has directories and whether it has files below it.\<close>

datatype entry = Subvol subvol | Dir bool bool | Plain

text \<open>A base tree under \<open>.bases\<close>: the image it was made from, whether the export, the mtab link and the seal are done.\<close>

record base_tree =
  bt_tag :: string
  bt_export :: bool
  bt_mtab :: bool
  bt_ro :: bool

record svc_unit =
  un_enabled :: bool
  un_active :: bool

record container =
  ct_args :: "string list"
  ct_label :: string

record machine =
  mc_db :: db
  mc_memoryMB :: "string \<rightharpoonup> int"
  mc_diskMB :: "string \<rightharpoonup> int"
  mc_cpuMilli :: "string \<rightharpoonup> int"
  mc_orphansLast :: "string set"
  mc_orphansThis :: "string set"
  mc_accounts :: "(string \<times> account) list"
  mc_pool :: "(string \<times> entry) list"
  mc_snaps :: "((string \<times> string) \<times> subvol) list"
  mc_bases :: "(string \<times> base_tree) list"
  mc_images :: "string list"
  mc_units :: "(string \<times> svc_unit) list"
  mc_containers :: "(string \<times> container) list"
  mc_budgets :: "(string \<times> int) list"
  mc_rules :: "(int \<times> int) list"

datatype hcall =
    QgroupCreate string | QgroupLimit string | QgroupDestroy string
  | SubvolSnapshot string | SubvolDelete nat string | SubvolMove string string | SubvolMkdir string | RemoveTree string
  | SnapDelete string string | SnapTreeRemove string
  | ImageBuild | BaseCreate string | BaseDelete nat string | BaseContainer string | BaseExport string | BaseMtab string | BaseSeal string | BaseMove string
  | UserCreate string | UserDelete string | UserRename nat string | UserSetHome string | KeysWrite string | SkeletonWrite string
  | UnitStop string | UnitStart string | UnitRestart string | UnitEnable string | UnitDisable string
  | CtrCreate string | CtrRemove string | CtrKill string | FirewallApply

text \<open>The configuration of a node, the current workspace image, and what is not part of the repository: the digest of a container configuration, the
  rendering of a CPU share, the SSH key parser, the embedded files of a new app, the YAML decoder.\<close>

record node_env =
  ne_AppsDir :: string
  ne_rawAppsDir :: string
  ne_SocketFile :: string
  ne_BindAddress :: string
  ne_Version :: string
  ne_ImageTag :: string
  ne_digest :: "string \<Rightarrow> string"
  ne_cpus :: "int \<Rightarrow> string"
  ne_keysOk :: "string list \<Rightarrow> bool"
  ne_skeleton :: "string \<Rightarrow> string \<Rightarrow> (fpath \<times> string) list"
  ne_frac :: "nat \<Rightarrow> nat \<Rightarrow> nat \<Rightarrow> nat"
  ne_yaml :: "bool \<Rightarrow> string \<Rightarrow> Config option"

subsection \<open>Commands\<close>

definition pool_set :: "string \<Rightarrow> entry \<Rightarrow> machine \<Rightarrow> machine" where
  "pool_set i e m = m\<lparr>mc_pool := AList.update i e (mc_pool m)\<rparr>"

definition pool_drop :: "string \<Rightarrow> machine \<Rightarrow> machine" where
  "pool_drop i m = m\<lparr>mc_pool := AList.delete i (mc_pool m)\<rparr>"

text \<open>\<open>btrfs subvolume delete\<close> refuses what is not a subvolume.\<close>

definition subvol_delete :: "(hcall \<Rightarrow> bool) \<Rightarrow> nat \<Rightarrow> string \<Rightarrow> machine \<Rightarrow> machine \<times> bool" where
  "subvol_delete ok n i m =
     (case map_of (mc_pool m) i of
        Some (Subvol s) \<Rightarrow> if ok (SubvolDelete n i) then (pool_drop i m, True) else (m, False)
      | _ \<Rightarrow> (m, False))"

text \<open>\<open>btrfs subvolume snapshot\<close> and \<open>mv\<close> put what they make below the destination when that is a directory already.\<close>

definition subvol_snapshot :: "(hcall \<Rightarrow> bool) \<Rightarrow> subvol option \<Rightarrow> string \<Rightarrow> string \<Rightarrow> machine \<Rightarrow> machine \<times> bool" where
  "subvol_snapshot ok src dst qg m =
     (case src of None \<Rightarrow> (m, False)
      | Some s \<Rightarrow>
          if \<not> ok (SubvolSnapshot dst) then (m, False)
          else case map_of (mc_pool m) dst of
            None \<Rightarrow> (pool_set dst (Subvol (s\<lparr>sb_group := qg\<rparr>)) m, True)
          | Some Plain \<Rightarrow> (m, False)
          | Some _ \<Rightarrow> (m, True))"

definition subvol_move :: "(hcall \<Rightarrow> bool) \<Rightarrow> string \<Rightarrow> string \<Rightarrow> machine \<Rightarrow> machine \<times> bool" where
  "subvol_move ok src dst m =
     (case map_of (mc_pool m) src of None \<Rightarrow> (m, False)
      | Some e \<Rightarrow>
          if \<not> ok (SubvolMove src dst) then (m, False)
          else case map_of (mc_pool m) dst of
            None \<Rightarrow> (pool_set dst e (pool_drop src m), True)
          | Some Plain \<Rightarrow> (m, False)
          | Some _ \<Rightarrow> (pool_drop src m, True))"

definition pool_subvol :: "machine \<Rightarrow> string \<Rightarrow> subvol option" where
  "pool_subvol m i = (case map_of (mc_pool m) i of Some (Subvol s) \<Rightarrow> Some s | _ \<Rightarrow> None)"

section \<open>Budgets\<close>

definition budgetGroup :: "int \<Rightarrow> string" where
  "budgetGroup uid = ''1/'' @ itoa uid"

text \<open>Creating a group that exists is an error nobody looks at; a group that does not exist cannot be limited.\<close>

definition qgroup_create :: "(hcall \<Rightarrow> bool) \<Rightarrow> string \<Rightarrow> machine \<Rightarrow> machine" where
  "qgroup_create ok g m =
     (if ok (QgroupCreate g) \<and> map_of (mc_budgets m) g = None then m\<lparr>mc_budgets := AList.update g 0 (mc_budgets m)\<rparr> else m)"

definition qgroup_limit :: "(hcall \<Rightarrow> bool) \<Rightarrow> string \<Rightarrow> int \<Rightarrow> machine \<Rightarrow> machine \<times> bool" where
  "qgroup_limit ok g mb m =
     (if ok (QgroupLimit g) \<and> map_of (mc_budgets m) g \<noteq> None then (m\<lparr>mc_budgets := AList.update g mb (mc_budgets m)\<rparr>, True) else (m, False))"

definition LookupIDs :: "machine \<Rightarrow> string \<Rightarrow> int option" where
  "LookupIDs m name = map_option ac_UID (map_of (mc_accounts m) name)"

definition Machine_DiskLimit :: "machine \<Rightarrow> string \<Rightarrow> int" where
  "Machine_DiskLimit m name = (case mc_diskMB m name of None \<Rightarrow> 0 | Some n \<Rightarrow> n)"

definition ensureBudget :: "(hcall \<Rightarrow> bool) \<Rightarrow> App \<Rightarrow> machine \<Rightarrow> machine \<times> err option" where
  "ensureBudget ok a m =
     (case LookupIDs m (a_Name a) of None \<Rightarrow> (m, Some ErrNotExist)
      | Some uid \<Rightarrow>
          let qg = budgetGroup uid; m1 = qgroup_create ok qg m
          in case pool_subvol m1 (a_ID a) of
               None \<Rightarrow> (m1, Some (ErrText ''cannot assign the app subvolume to the disk budget''))
             | Some s \<Rightarrow>
                 let m2 = pool_set (a_ID a) (Subvol (s\<lparr>sb_group := qg\<rparr>)) m1
                 in (case qgroup_limit ok qg (EffectiveDiskCapMB (Machine_DiskLimit m (a_Name a))) m2 of
                       (m3, False) \<Rightarrow> (m3, Some (ErrText ''cannot cap disk budget''))
                     | (m3, True) \<Rightarrow> (m3, None)))"

definition Machine_SetDiskLimit :: "(hcall \<Rightarrow> bool) \<Rightarrow> string \<Rightarrow> int \<Rightarrow> machine \<Rightarrow> machine" where
  "Machine_SetDiskLimit ok name diskMB m0 =
     (let m = m0\<lparr>mc_diskMB := (mc_diskMB m0)(name \<mapsto> diskMB)\<rparr>
      in case Store_App (mc_db m) name of Inl e \<Rightarrow> m | Inr a \<Rightarrow> fst (ensureBudget ok a m))"

definition Machine_SetMemoryLimit :: "string \<Rightarrow> int \<Rightarrow> machine \<Rightarrow> machine" where
  "Machine_SetMemoryLimit name mb m = m\<lparr>mc_memoryMB := (mc_memoryMB m)(name \<mapsto> mb)\<rparr>"

definition Machine_SetCPULimit :: "string \<Rightarrow> int \<Rightarrow> machine \<Rightarrow> machine" where
  "Machine_SetCPULimit name milli m = m\<lparr>mc_cpuMilli := (mc_cpuMilli m)(name \<mapsto> milli)\<rparr>"

section \<open>Base trees\<close>

definition baseDirName :: "string \<Rightarrow> string" where
  "baseDirName tag =
     (if CHR '':'' \<in> set tag then rev (takeWhile (\<lambda>c. c \<noteq> CHR '':'') (rev tag)) else tag)"

definition EnsureImage :: "(hcall \<Rightarrow> bool) \<Rightarrow> node_env \<Rightarrow> machine \<Rightarrow> machine \<times> err option" where
  "EnsureImage ok ev m =
     (if ne_ImageTag ev \<in> set (mc_images m) then (m, None)
      else if ok ImageBuild then (m\<lparr>mc_images := ne_ImageTag ev # mc_images m\<rparr>, None)
      else (m, Some (ErrText ''cannot build workspace image'')))"

definition base_set :: "string \<Rightarrow> base_tree \<Rightarrow> machine \<Rightarrow> machine" where
  "base_set k b m = m\<lparr>mc_bases := AList.update k b (mc_bases m)\<rparr>"

definition base_delete :: "(hcall \<Rightarrow> bool) \<Rightarrow> nat \<Rightarrow> string \<Rightarrow> machine \<Rightarrow> machine" where
  "base_delete ok n k m = (if ok (BaseDelete n k) then m\<lparr>mc_bases := AList.delete k (mc_bases m)\<rparr> else m)"

text \<open>The export runs against a temporary tree; only the final rename publishes it.\<close>

definition export_base :: "(hcall \<Rightarrow> bool) \<Rightarrow> string \<Rightarrow> machine \<Rightarrow> machine \<times> err option" where
  "export_base ok tag m =
     (let base = baseDirName tag; tmp = base @ ''.tmp'';
          m1 = (if map_of (mc_bases m) tmp \<noteq> None then base_delete ok 0 tmp m else m);
          b = \<lparr>bt_tag = tag, bt_export = False, bt_mtab = False, bt_ro = False\<rparr>
      in if \<not> ok (BaseCreate tmp) \<or> map_of (mc_bases m1) tmp \<noteq> None then (m1, Some (ErrText ''cannot create base subvolume''))
         else if \<not> ok (BaseContainer tag) then (base_delete ok 1 tmp (base_set tmp b m1), Some (ErrText ''cannot create export container''))
         else if \<not> ok (BaseExport tmp) then (base_delete ok 1 tmp (base_set tmp b m1), Some (ErrText ''cannot export base rootfs''))
         else let b1 = b\<lparr>bt_export := True\<rparr>
              in if \<not> ok (BaseMtab tmp) then (base_delete ok 1 tmp (base_set tmp b1 m1), Some (ErrText ''cannot write mtab''))
                 else let b2 = b1\<lparr>bt_mtab := True\<rparr>
                      in if \<not> ok (BaseSeal tmp) then (base_delete ok 1 tmp (base_set tmp b2 m1), Some (ErrText ''cannot seal base rootfs''))
                         else let b3 = b2\<lparr>bt_ro := True\<rparr>
                              in if \<not> ok (BaseMove tmp) then (base_delete ok 1 tmp (base_set tmp b3 m1), Some (ErrText ''cannot publish base rootfs''))
                                 else (base_set base b3 m1, None))"

definition EnsureBase :: "(hcall \<Rightarrow> bool) \<Rightarrow> node_env \<Rightarrow> string \<Rightarrow> machine \<Rightarrow> machine \<times> err option" where
  "EnsureBase ok ev tag m =
     (if tag = [] then (m, Some (ErrText ''cannot ensure a base for an empty image tag''))
      else if map_of (mc_bases m) (baseDirName tag) \<noteq> None then (m, None)
      else case (if tag \<in> set (mc_images m) then (m, None)
                 else case EnsureImage ok ev m of (m1, Some e) \<Rightarrow> (m1, Some e)
                 | (m1, None) \<Rightarrow> (m1, if tag \<in> set (mc_images m1) then None else Some (ErrText ''its image is gone''))) of
        (m1, Some e) \<Rightarrow> (m1, Some e)
      | (m1, None) \<Rightarrow> export_base ok tag m1)"

definition PruneOldBases :: "(hcall \<Rightarrow> bool) \<Rightarrow> node_env \<Rightarrow> machine \<Rightarrow> machine" where
  "PruneOldBases ok ev m =
     (let keep = insert (baseDirName (ne_ImageTag ev)) (baseDirName ` ImageTagsInUse (mc_db m))
      in fold (\<lambda>k m'. if k \<in> keep then m' else base_delete ok 2 k m') (map fst (mc_bases m)) m)"

definition PruneOldImages :: "(string \<Rightarrow> bool) \<Rightarrow> node_env \<Rightarrow> machine \<Rightarrow> machine" where
  "PruneOldImages removable ev m =
     m\<lparr>mc_images := filter (\<lambda>img. \<not> (HasPrefix img ''localhost/hostit-workspace:'' \<and> img \<noteq> ne_ImageTag ev \<and>
         img \<notin> ImageTagsInUse (mc_db m) \<and> removable img)) (mc_images m)\<rparr>"

section \<open>App subvolumes\<close>

definition EnsureAppSubvolume :: "(hcall \<Rightarrow> bool) \<Rightarrow> node_env \<Rightarrow> string \<Rightarrow> string \<Rightarrow> string \<Rightarrow> machine \<Rightarrow> machine \<times> err option" where
  "EnsureAppSubvolume ok ev i tag qg m =
     (if map_of (mc_pool m) i \<noteq> None then (m, None)
      else case EnsureBase ok ev tag m of
        (m1, Some e) \<Rightarrow> (m1, Some e)
      | (m1, None) \<Rightarrow>
          (case subvol_snapshot ok (map_option (\<lambda>b. \<lparr>sb_os = bt_tag b, sb_files = None, sb_group = []\<rparr>)
                  (map_of (mc_bases m1) (baseDirName tag))) i qg m1 of
             (m2, False) \<Rightarrow> (m2, Some (ErrText ''cannot snapshot app subvolume''))
           | (m2, True) \<Rightarrow>
               (case pool_subvol m2 i of
                  Some s \<Rightarrow> if ok (SubvolMkdir i) then (pool_set i (Subvol (s\<lparr>sb_files := Some Map.empty\<rparr>)) m2, None) else (m2, Some (ErrText ''mkdir''))
                | None \<Rightarrow> (m2, Some (ErrText ''mkdir'')))))"

definition ForkAppSubvolume :: "(hcall \<Rightarrow> bool) \<Rightarrow> subvol option \<Rightarrow> string \<Rightarrow> string \<Rightarrow> machine \<Rightarrow> machine \<times> err option" where
  "ForkAppSubvolume ok src i qg m =
     (if map_of (mc_pool m) i \<noteq> None then (m, None)
      else if src = None then (m, Some (ErrText ''the seed does not exist''))
      else case subvol_snapshot ok src i qg m of
        (m1, False) \<Rightarrow> (m1, Some (ErrText ''cannot fork app subvolume'')) | (m1, True) \<Rightarrow> (m1, None))"

section \<open>Files of an app, as root\<close>

text \<open>\<open>OpenRoot\<close> on the files directory, and what is done there: \<open>f\<close> gives the new files and whether it succeeded. On a plain directory that stands where the
  subvolume should be it works too.\<close>

definition edit_home :: "string \<Rightarrow> (fs \<Rightarrow> fs \<times> bool) \<Rightarrow> machine \<Rightarrow> machine \<times> bool" where
  "edit_home i f m =
     (case map_of (mc_pool m) i of
        Some (Subvol s) \<Rightarrow>
          (case f (case sb_files s of Some fs \<Rightarrow> fs | None \<Rightarrow> Map.empty) of
             (fs', b) \<Rightarrow> (pool_set i (Subvol (s\<lparr>sb_files := Some fs'\<rparr>)) m, b))
      | Some (Dir d fl) \<Rightarrow> (case f Map.empty of (_, b) \<Rightarrow> (pool_set i (Dir True (fl \<or> b)) m, b))
      | _ \<Rightarrow> (m, False))"

definition ssh_dir :: fpath where "ssh_dir = [''.ssh'']"
definition keys_file :: fpath where "keys_file = [''.ssh'', ''authorized_keys'']"

definition WriteAuthorizedKeys :: "(hcall \<Rightarrow> bool) \<Rightarrow> string \<Rightarrow> string list \<Rightarrow> fs \<Rightarrow> fs \<times> bool" where
  "WriteAuthorizedKeys ok name keys fs =
     (if is_file (fs ssh_dir) \<or> fs keys_file = Some FDir \<or> \<not> ok (KeysWrite name) then (fs, False)
      else let existing = (case fs keys_file of Some (FFile c _) \<Rightarrow> c | _ \<Rightarrow> [])
           in (fs(ssh_dir \<mapsto> FDir, keys_file \<mapsto> FFile (MergeAuthorizedKeys existing keys) 0x1A4), True))"

definition writeKeysIn :: "(hcall \<Rightarrow> bool) \<Rightarrow> string \<Rightarrow> string \<Rightarrow> string list \<Rightarrow> machine \<Rightarrow> machine \<times> bool" where
  "writeKeysIn ok i name keys m = edit_home i (WriteAuthorizedKeys ok name keys) m"

fun WriteSkeleton :: "(hcall \<Rightarrow> bool) \<Rightarrow> (fpath \<times> string) list \<Rightarrow> fs \<Rightarrow> fs \<times> bool" where
  "WriteSkeleton ok [] fs = (fs, True)"
| "WriteSkeleton ok ((p, content) # rest) fs =
     (if fs p \<noteq> None then WriteSkeleton ok rest fs
      else case mkdir_steps (length p) fs [] (butlast p) of
        (fs1, False) \<Rightarrow> (fs1, False)
      | (fs1, True) \<Rightarrow> if ok (SkeletonWrite (join_with slash p)) then WriteSkeleton ok rest (fs1(p \<mapsto> FFile content 0x1A4)) else (fs1, False))"

definition AppID :: "machine \<Rightarrow> string \<Rightarrow> string" where
  "AppID m name = (case Store_App (mc_db m) name of Inl e \<Rightarrow> name | Inr a \<Rightarrow> a_ID a)"

definition Machine_SetKeys :: "(hcall \<Rightarrow> bool) \<Rightarrow> node_env \<Rightarrow> string \<Rightarrow> string list \<Rightarrow> string list \<Rightarrow> machine \<Rightarrow> machine \<times> err option" where
  "Machine_SetKeys ok ev name appKeys profileKeys m =
     (case Store_App (mc_db m) name of Inl e \<Rightarrow> (m, Some e)
      | Inr a \<Rightarrow>
          if \<not> ne_keysOk ev appKeys then (m, Some ErrInvalid)
          else case writeKeysIn ok (AppID m (a_Name a)) (a_Name a) (appKeys @ profileKeys) m of
            (m', b) \<Rightarrow> (m', if b then None else Some (ErrText ''cannot write keys'')))"

section \<open>Accounts and port rules\<close>

definition user_create :: "(hcall \<Rightarrow> bool) \<Rightarrow> string \<Rightarrow> string \<Rightarrow> int \<Rightarrow> machine \<Rightarrow> machine \<times> bool" where
  "user_create ok name home uid m =
     (if ok (UserCreate name) \<and> map_of (mc_accounts m) name = None
      then (m\<lparr>mc_accounts := AList.update name \<lparr>ac_Home = home, ac_UID = uid\<rparr> (mc_accounts m)\<rparr>, True) else (m, False))"

definition user_delete :: "(hcall \<Rightarrow> bool) \<Rightarrow> string \<Rightarrow> machine \<Rightarrow> machine \<times> bool" where
  "user_delete ok name m =
     (if ok (UserDelete name) then (m\<lparr>mc_accounts := AList.delete name (mc_accounts m)\<rparr>, True) else (m, False))"

definition ReconcilePortRules :: "(hcall \<Rightarrow> bool) \<Rightarrow> machine \<Rightarrow> machine" where
  "ReconcilePortRules ok m =
     (let rules = concat (map (\<lambda>a. case LookupIDs m (a_Name a) of None \<Rightarrow> [] | Some uid \<Rightarrow> [(a_Port a, uid)]) (Apps (mc_db m)))
      in if ok FirewallApply then m\<lparr>mc_rules := rules\<rparr> else m)"

definition appFilesByID :: "node_env \<Rightarrow> string \<Rightarrow> string" where
  "appFilesByID ev i = (if ne_rawAppsDir ev \<noteq> [] then ne_rawAppsDir ev else ne_AppsDir ev) @ ''/'' @ i @ ''/home/app''"

section \<open>Building and tearing down\<close>

definition provisionRollback :: "(hcall \<Rightarrow> bool) \<Rightarrow> ProvisionSpec \<Rightarrow> machine \<Rightarrow> machine" where
  "provisionRollback ok spec m = fst (subvol_delete ok 0 (ps_ID spec) (fst (user_delete ok (ps_Name spec) m)))"

text \<open>Where a fork starts from.\<close>

definition seed_of :: "ProvisionSpec \<Rightarrow> machine \<Rightarrow> subvol option" where
  "seed_of spec m =
     (if ps_SeedSnapshotID spec \<noteq> [] then map_of (mc_snaps m) (ps_SeedAppID spec, ps_SeedSnapshotID spec)
      else pool_subvol m (ps_SeedAppID spec))"

text \<open>After the subvolume stands. The wait for a teardown of the same name (\<open>awaitTeardown\<close>) comes before all of this and changes nothing here.\<close>

definition provision_account :: "(hcall \<Rightarrow> bool) \<Rightarrow> node_env \<Rightarrow> ProvisionSpec \<Rightarrow> machine \<Rightarrow> machine \<times> err option" where
  "provision_account ok ev spec m =
     (case user_create ok (ps_Name spec) (appFilesByID ev (ps_ID spec)) (UIDFor (ps_Port spec)) m of
        (m1, False) \<Rightarrow> (fst (subvol_delete ok 0 (ps_ID spec) m1), Some (ErrText ''cannot create user''))
      | (m1, True) \<Rightarrow>
          (case writeKeysIn ok (ps_ID spec) (ps_Name spec) (ps_SSHKeys spec) m1 of
             (m2, False) \<Rightarrow> (provisionRollback ok spec m2, Some (ErrText ''cannot write authorized keys''))
           | (m2, True) \<Rightarrow>
               (case (if ps_SeedAppID spec \<noteq> [] then (m2, True)
                      else edit_home (ps_ID spec) (WriteSkeleton ok (ne_skeleton ev (ps_Name spec) (ps_URL spec))) m2) of
                  (m3, False) \<Rightarrow> (provisionRollback ok spec m3, Some (ErrText ''cannot write skeleton''))
                | (m3, True) \<Rightarrow> (ReconcilePortRules ok m3, None))))"

definition Provision :: "(hcall \<Rightarrow> bool) \<Rightarrow> node_env \<Rightarrow> ProvisionSpec \<Rightarrow> machine \<Rightarrow> machine \<times> err option" where
  "Provision ok ev spec m =
     (if map_of (mc_accounts m) (ps_Name spec) \<noteq> None then (m, Some ErrAppExists)
      else let qg = budgetGroup (UIDFor (ps_Port spec));
               m1 = fst (qgroup_limit ok qg (EffectiveDiskCapMB (ps_DiskMB spec)) (qgroup_create ok qg m))
           in case (if ps_SeedAppID spec \<noteq> [] then ForkAppSubvolume ok (seed_of spec m1) (ps_ID spec) qg m1
                    else EnsureAppSubvolume ok ev (ps_ID spec) (ne_ImageTag ev) qg m1) of
                (m2, Some e) \<Rightarrow> (m2, Some e)
              | (m2, None) \<Rightarrow> provision_account ok ev spec m2)"

record DeprovisionSpec =
  dp_ID :: string
  dp_Name :: string
  dp_UID :: int
  dp_UIDKnown :: bool

definition unit_set :: "string \<Rightarrow> bool \<Rightarrow> bool \<Rightarrow> machine \<Rightarrow> machine" where
  "unit_set i en act m = m\<lparr>mc_units := AList.update i \<lparr>un_enabled = en, un_active = act\<rparr> (mc_units m)\<rparr>"

definition unit_disable :: "(hcall \<Rightarrow> bool) \<Rightarrow> string \<Rightarrow> machine \<Rightarrow> machine \<times> bool" where
  "unit_disable ok i m = (if ok (UnitDisable i) then (unit_set i False False m, True) else (m, False))"

definition ctr_remove :: "(hcall \<Rightarrow> bool) \<Rightarrow> string \<Rightarrow> machine \<Rightarrow> machine \<times> bool" where
  "ctr_remove ok i m = (if ok (CtrRemove i) then (m\<lparr>mc_containers := AList.delete i (mc_containers m)\<rparr>, True) else (m, False))"

text \<open>The teardown. The budget group is destroyed in the background, as long as it takes; \<open>QgroupDestroy\<close> says whether that happens at all.\<close>

definition Deprovision :: "(hcall \<Rightarrow> bool) \<Rightarrow> DeprovisionSpec \<Rightarrow> machine \<Rightarrow> machine" where
  "Deprovision ok spec m =
     (let i = dp_ID spec;
          m1 = fst (ctr_remove ok i (fst (unit_disable ok i m)));
          m2 = m1\<lparr>mc_snaps := filter (\<lambda>((a, s), v). \<not> (a = i \<and> (ok (SnapDelete a s) \<or> ok (SnapTreeRemove a)))) (mc_snaps m1)\<rparr>;
          m3 = fst (user_delete ok (dp_Name spec) (fst (subvol_delete ok 0 i m2)));
          m4 = (if ok (RemoveTree i) then pool_drop i m3 else m3);
          m5 = ReconcilePortRules ok m4;
          g = budgetGroup (dp_UID spec)
      in if dp_UIDKnown spec \<and> ok (QgroupDestroy g) then m5\<lparr>mc_budgets := AList.delete g (mc_budgets m5)\<rparr> else m5)"

section \<open>What the commands touch\<close>

lemma host_pool [simp]:
  "map_of (mc_pool (pool_set i e m)) = (map_of (mc_pool m))(i \<mapsto> e)"
  "map_of (mc_pool (pool_drop i m)) = (map_of (mc_pool m))(i := None)"
  "mc_accounts (pool_set i e m) = mc_accounts m" "mc_accounts (pool_drop i m) = mc_accounts m"
  "mc_snaps (pool_set i e m) = mc_snaps m" "mc_snaps (pool_drop i m) = mc_snaps m"
  "mc_bases (pool_set i e m) = mc_bases m" "mc_bases (pool_drop i m) = mc_bases m"
  "mc_budgets (pool_set i e m) = mc_budgets m" "mc_budgets (pool_drop i m) = mc_budgets m"
  "mc_units (pool_set i e m) = mc_units m" "mc_units (pool_drop i m) = mc_units m"
  "mc_containers (pool_set i e m) = mc_containers m" "mc_containers (pool_drop i m) = mc_containers m"
  "mc_db (pool_set i e m) = mc_db m" "mc_db (pool_drop i m) = mc_db m"
  by (simp_all add: pool_set_def pool_drop_def update_conv' delete_conv')

lemma pool_subvol_Some [simp]: "pool_subvol m i = Some s \<longleftrightarrow> map_of (mc_pool m) i = Some (Subvol s)"
  by (auto simp: pool_subvol_def split: option.splits entry.splits)

lemma pool_subvol_set [simp]: "pool_subvol (pool_set i (Subvol s) m) i = Some s"
  by (simp add: pool_subvol_def)

lemma qgroup_frame [simp]:
  "mc_pool (qgroup_create ok g m) = mc_pool m" "mc_accounts (qgroup_create ok g m) = mc_accounts m" "mc_bases (qgroup_create ok g m) = mc_bases m"
  "mc_pool (fst (qgroup_limit ok g n m)) = mc_pool m" "mc_accounts (fst (qgroup_limit ok g n m)) = mc_accounts m"
  "mc_bases (fst (qgroup_limit ok g n m)) = mc_bases m" "mc_snaps (qgroup_create ok g m) = mc_snaps m" "mc_snaps (fst (qgroup_limit ok g n m)) = mc_snaps m"
  "mc_db (qgroup_create ok g m) = mc_db m" "mc_db (fst (qgroup_limit ok g n m)) = mc_db m"
  by (simp_all add: qgroup_create_def qgroup_limit_def)

lemma base_frame [simp]:
  "mc_pool (base_set k b m) = mc_pool m" "mc_accounts (base_set k b m) = mc_accounts m" "mc_snaps (base_set k b m) = mc_snaps m"
  "mc_pool (base_delete ok n k m) = mc_pool m" "mc_accounts (base_delete ok n k m) = mc_accounts m" "mc_snaps (base_delete ok n k m) = mc_snaps m"
  "mc_db (base_set k b m) = mc_db m" "mc_db (base_delete ok n k m) = mc_db m"
  by (simp_all add: base_set_def base_delete_def)

lemma export_base_frame [simp]:
  "mc_pool (fst (export_base ok tag m)) = mc_pool m" "mc_accounts (fst (export_base ok tag m)) = mc_accounts m"
  "mc_snaps (fst (export_base ok tag m)) = mc_snaps m" "mc_db (fst (export_base ok tag m)) = mc_db m"
  by (simp_all add: export_base_def Let_def)

lemma EnsureImage_frame [simp]:
  "mc_pool (fst (EnsureImage ok ev m)) = mc_pool m" "mc_accounts (fst (EnsureImage ok ev m)) = mc_accounts m"
  "mc_snaps (fst (EnsureImage ok ev m)) = mc_snaps m" "mc_db (fst (EnsureImage ok ev m)) = mc_db m"
  "mc_bases (fst (EnsureImage ok ev m)) = mc_bases m"
  by (simp_all add: EnsureImage_def)

lemma EnsureBase_cases:
  "(\<exists>e. EnsureBase ok ev tag m = (m, e) \<and> (e = None \<longrightarrow> map_of (mc_bases m) (baseDirName tag) \<noteq> None)) \<or>
   (\<exists>e. EnsureBase ok ev tag m = (fst (EnsureImage ok ev m), Some e)) \<or>
   EnsureBase ok ev tag m = export_base ok tag m \<or> EnsureBase ok ev tag m = export_base ok tag (fst (EnsureImage ok ev m))"
proof (cases "tag = [] \<or> map_of (mc_bases m) (baseDirName tag) \<noteq> None \<or> tag \<in> set (mc_images m)")
  case True
  then show ?thesis
    by (auto simp: EnsureBase_def)
next
  case False
  then show ?thesis
    by (cases "EnsureImage ok ev m"; cases "snd (EnsureImage ok ev m)") (simp_all add: EnsureBase_def)
qed

lemma EnsureBase_frame [simp]:
  "mc_pool (fst (EnsureBase ok ev tag m)) = mc_pool m" "mc_accounts (fst (EnsureBase ok ev tag m)) = mc_accounts m"
  "mc_snaps (fst (EnsureBase ok ev tag m)) = mc_snaps m" "mc_db (fst (EnsureBase ok ev tag m)) = mc_db m"
  using EnsureBase_cases[of ok ev tag m] by auto

lemma export_base_only: "\<exists>bs. fst (export_base ok tag m) = m\<lparr>mc_bases := bs\<rparr>"
proof -
  have set: "\<exists>bs. base_set k b x = m\<lparr>mc_bases := bs\<rparr>" if "\<exists>bs. x = m\<lparr>mc_bases := bs\<rparr>" for k b x
    using that by (auto simp: base_set_def)
  have del: "\<exists>bs. base_delete ok n k x = m\<lparr>mc_bases := bs\<rparr>" if "\<exists>bs. x = m\<lparr>mc_bases := bs\<rparr>" for n k x
    using that by (auto simp: base_delete_def)
  have "\<exists>bs. m = m\<lparr>mc_bases := bs\<rparr>"
    by (intro exI[of _ "mc_bases m"]) simp
  then show ?thesis
    by (simp add: export_base_def Let_def set del)
qed

lemma EnsureBase_only: "\<exists>bs im. fst (EnsureBase ok ev tag m) = m\<lparr>mc_bases := bs, mc_images := im\<rparr>"
proof -
  have i: "\<exists>im. fst (EnsureImage ok ev m) = m\<lparr>mc_images := im\<rparr>"
    by (auto simp: EnsureImage_def intro: exI[of _ "mc_images m"])
  have same: "m = m\<lparr>mc_bases := mc_bases m, mc_images := mc_images m\<rparr>"
    by simp
  consider "fst (EnsureBase ok ev tag m) = m" | "fst (EnsureBase ok ev tag m) = fst (EnsureImage ok ev m)"
    | "fst (EnsureBase ok ev tag m) = fst (export_base ok tag m)" | "fst (EnsureBase ok ev tag m) = fst (export_base ok tag (fst (EnsureImage ok ev m)))"
    using EnsureBase_cases[of ok ev tag m] by auto
  then show ?thesis
  proof cases
    case 1
    then show ?thesis using same by metis
  next
    case 2
    moreover have "m\<lparr>mc_images := im\<rparr> = m\<lparr>mc_bases := mc_bases m, mc_images := im\<rparr>" for im
      by simp
    ultimately show ?thesis using i by metis
  next
    case 3
    moreover have "m\<lparr>mc_bases := bs\<rparr> = m\<lparr>mc_bases := bs, mc_images := mc_images m\<rparr>" for bs
      by simp
    ultimately show ?thesis using export_base_only[of ok tag m] by metis
  next
    case 4
    moreover have "m\<lparr>mc_images := im\<rparr>\<lparr>mc_bases := bs\<rparr> = m\<lparr>mc_bases := bs, mc_images := im\<rparr>" for bs im
      by simp
    ultimately show ?thesis using i export_base_only[of ok tag "fst (EnsureImage ok ev m)"] by metis
  qed
qed

lemma EnsureAppSubvolume_only:
  "\<exists>bs im pl. fst (EnsureAppSubvolume ok ev i tag g m) = m\<lparr>mc_bases := bs, mc_images := im, mc_pool := pl\<rparr>"
proof (cases "map_of (mc_pool m) i")
  case (Some e)
  then have "fst (EnsureAppSubvolume ok ev i tag g m) = m\<lparr>mc_bases := mc_bases m, mc_images := mc_images m, mc_pool := mc_pool m\<rparr>"
    by (simp add: EnsureAppSubvolume_def)
  then show ?thesis by blast
next
  case None
  obtain bs im r where b: "EnsureBase ok ev tag m = (m\<lparr>mc_bases := bs, mc_images := im\<rparr>, r)"
    using EnsureBase_only[of ok ev tag m] by (cases "EnsureBase ok ev tag m") auto
  define mb where "mb = m\<lparr>mc_bases := bs, mc_images := im\<rparr>"
  have pb: "mc_pool mb = mc_pool m"
    by (simp add: mb_def)
  have "\<exists>pl. mb = mb\<lparr>mc_pool := pl\<rparr>"
    by (intro exI[of _ "mc_pool mb"]) simp
  moreover have "\<exists>pl. pool_set i e x = mb\<lparr>mc_pool := pl\<rparr>" if "\<exists>pl. x = mb\<lparr>mc_pool := pl\<rparr>" for e x
    using that by (auto simp: pool_set_def)
  ultimately have "\<exists>pl. fst (EnsureAppSubvolume ok ev i tag g m) = mb\<lparr>mc_pool := pl\<rparr>"
    using None pb by (auto simp: EnsureAppSubvolume_def b[folded mb_def] subvol_snapshot_def split: option.splits)
  then show ?thesis unfolding mb_def by blast
qed

section \<open>Base trees are complete\<close>

definition bases_sound :: "machine \<Rightarrow> bool" where
  "bases_sound m =
     (\<forall>k b. map_of (mc_bases m) k = Some b \<and> \<not> HasSuffix k ''.tmp'' \<longrightarrow>
        bt_export b \<and> bt_mtab b \<and> bt_ro b \<and> baseDirName (bt_tag b) = k)"

lemma bases_sound_delete: "bases_sound m \<Longrightarrow> bases_sound (base_delete ok n k m)"
  by (auto simp: bases_sound_def base_delete_def delete_conv')

lemma bases_sound_tmp: "HasSuffix k ''.tmp'' \<Longrightarrow> bases_sound m \<Longrightarrow> bases_sound (base_set k b m)"
  by (auto simp: bases_sound_def base_set_def update_conv')

lemma bases_sound_publish:
  "bases_sound m \<Longrightarrow> bt_export b \<Longrightarrow> bt_mtab b \<Longrightarrow> bt_ro b \<Longrightarrow> baseDirName (bt_tag b) = k \<Longrightarrow> bases_sound (base_set k b m)"
  by (auto simp: bases_sound_def base_set_def update_conv')

lemma export_base_sound:
  assumes "bases_sound m"
  shows "bases_sound (fst (export_base ok tag m))"
proof -
  define tmp where "tmp = baseDirName tag @ ''.tmp''"
  have s: "HasSuffix tmp ''.tmp''"
    unfolding tmp_def by (rule HasSuffix_append)
  define m1 where "m1 = (if map_of (mc_bases m) tmp \<noteq> None then base_delete ok 0 tmp m else m)"
  have m1: "bases_sound m1"
    using assms by (simp add: m1_def bases_sound_delete)
  show ?thesis
    unfolding export_base_def Let_def tmp_def[symmetric] m1_def[symmetric]
    by (simp add: m1 s bases_sound_delete bases_sound_tmp bases_sound_publish)
qed

lemma export_base_there:
  "snd (export_base ok tag m) = None \<Longrightarrow> map_of (mc_bases (fst (export_base ok tag m))) (baseDirName tag) \<noteq> None"
  by (auto simp: export_base_def Let_def base_set_def update_conv' split: if_splits)

text \<open>C12: a published base tree is always a finished one. Whatever command fails on the way, or is cut off with everything after it (the export, the mtab link,
  the seal, the rename, the clean-up), a tree that stands under a base's name was exported completely from that image and
  sealed; and when \<open>EnsureBase\<close> reports success there is one.\<close>

theorem EnsureBase_sound:
  assumes "bases_sound m"
  shows "bases_sound (fst (EnsureBase ok ev tag m)) \<and>
     (snd (EnsureBase ok ev tag m) = None \<longrightarrow> map_of (mc_bases (fst (EnsureBase ok ev tag m))) (baseDirName tag) \<noteq> None)"
proof -
  have i: "bases_sound (fst (EnsureImage ok ev m))"
    using assms by (simp add: bases_sound_def)
  show ?thesis
    using EnsureBase_cases[of ok ev tag m] assms i export_base_sound export_base_there by fastforce
qed

text \<open>The base of an image that an app is pinned to, and the current one, survive pruning.\<close>

lemma PruneOldBases_keeps:
  assumes "k = baseDirName (ne_ImageTag ev) \<or> k \<in> baseDirName ` ImageTagsInUse (mc_db m)"
  shows "map_of (mc_bases (PruneOldBases ok ev m)) k = map_of (mc_bases m) k"
proof -
  let ?keep = "insert (baseDirName (ne_ImageTag ev)) (baseDirName ` ImageTagsInUse (mc_db m))"
  have "map_of (mc_bases (fold (\<lambda>k m'. if k \<in> ?keep then m' else base_delete ok 2 k m') ks m0)) k = map_of (mc_bases m0) k" for ks m0
    using assms by (induction ks arbitrary: m0) (auto simp: base_delete_def delete_conv')
  then show ?thesis
    by (simp add: PruneOldBases_def Let_def)
qed

text \<open>The set of pinned images is read from the mirror, and pruning does not wait for the first one: against an empty mirror every base but the current one goes.\<close>

lemma PruneOldBases_unsynced:
  assumes "app_tbl (mc_db m) = []" and "\<forall>k. ok (BaseDelete 2 k)" and "k \<noteq> baseDirName (ne_ImageTag ev)"
  shows "map_of (mc_bases (PruneOldBases ok ev m)) k = None"
proof -
  have e: "ImageTagsInUse (mc_db m) = {}"
    using assms(1) by (simp add: ImageTagsInUse_def)
  have f: "map_of (mc_bases (fold (\<lambda>k m'. if k \<in> {baseDirName (ne_ImageTag ev)} then m' else base_delete ok 2 k m') ks m0)) k =
      (if k \<in> set ks then None else map_of (mc_bases m0) k)" for ks m0
    using assms(2,3) by (induction ks arbitrary: m0) (auto simp: base_delete_def delete_conv')
  have "k \<notin> set (map fst (mc_bases m)) \<Longrightarrow> map_of (mc_bases m) k = None"
    by (simp add: map_of_eq_None_iff)
  then show ?thesis
    unfolding PruneOldBases_def Let_def e using f[of "map fst (mc_bases m)" m] by simp
qed

section \<open>Subvolumes are built once\<close>

lemma subvol_delete_effect:
  "mc_accounts (fst (subvol_delete ok n i m)) = mc_accounts m"
  "map_of (mc_pool (fst (subvol_delete ok n i m))) j =
     (if j = i \<and> ok (SubvolDelete n i) \<and> pool_subvol m i \<noteq> None then None else map_of (mc_pool m) j)"
  by (auto simp: subvol_delete_def pool_subvol_def split: option.splits entry.splits)

lemma user_delete_effect:
  "mc_pool (fst (user_delete ok n m)) = mc_pool m"
  "map_of (mc_accounts (fst (user_delete ok n m))) j = (if j = n \<and> ok (UserDelete n) then None else map_of (mc_accounts m) j)"
  by (auto simp: user_delete_def delete_conv')

lemma ReconcilePortRules_frame [simp]:
  "mc_pool (ReconcilePortRules ok m) = mc_pool m" "mc_accounts (ReconcilePortRules ok m) = mc_accounts m"
  "mc_db (ReconcilePortRules ok m) = mc_db m" "mc_budgets (ReconcilePortRules ok m) = mc_budgets m"
  "mc_units (ReconcilePortRules ok m) = mc_units m" "mc_containers (ReconcilePortRules ok m) = mc_containers m"
  by (simp_all add: ReconcilePortRules_def Let_def)

lemma edit_home_effect:
  assumes "edit_home i f m = (m', b)"
  shows "mc_accounts m' = mc_accounts m" "mc_db m' = mc_db m" "j \<noteq> i \<Longrightarrow> map_of (mc_pool m') j = map_of (mc_pool m) j"
    "pool_subvol m i = Some s \<Longrightarrow> pool_subvol m' i = Some (s\<lparr>sb_files := Some (fst (f (case sb_files s of Some fs \<Rightarrow> fs | None \<Rightarrow> Map.empty)))\<rparr>)"
    "pool_subvol m i = Some s \<Longrightarrow> b = snd (f (case sb_files s of Some fs \<Rightarrow> fs | None \<Rightarrow> Map.empty))"
  using assms by (auto simp: edit_home_def split: option.splits entry.splits prod.splits)

lemma EnsureAppSubvolume_effect:
  assumes "EnsureAppSubvolume ok ev i tag g m = (m', r)"
  shows "mc_accounts m' = mc_accounts m" "j \<noteq> i \<Longrightarrow> map_of (mc_pool m') j = map_of (mc_pool m) j"
    "map_of (mc_pool m) i \<noteq> None \<Longrightarrow> m' = m \<and> r = None"
    "map_of (mc_pool m) i = None \<Longrightarrow> r = None \<Longrightarrow>
       \<exists>b. map_of (mc_bases m') (baseDirName tag) = Some b \<and> map_of (mc_pool m') i = Some (Subvol \<lparr>sb_os = bt_tag b, sb_files = Some Map.empty, sb_group = g\<rparr>)"
    "map_of (mc_pool m) i = None \<Longrightarrow> r \<noteq> None \<Longrightarrow> map_of (mc_pool m') i = None \<or> \<not> ok (SubvolMkdir i)"
proof -
  obtain m1 r1 where b: "EnsureBase ok ev tag m = (m1, r1)"
    by (cases "EnsureBase ok ev tag m")
  have f: "mc_pool m1 = mc_pool m" "mc_accounts m1 = mc_accounts m"
    using EnsureBase_frame[of ok ev tag m] b by simp_all
  show "mc_accounts m' = mc_accounts m" "j \<noteq> i \<Longrightarrow> map_of (mc_pool m') j = map_of (mc_pool m) j"
      "map_of (mc_pool m) i \<noteq> None \<Longrightarrow> m' = m \<and> r = None"
      "map_of (mc_pool m) i = None \<Longrightarrow> r \<noteq> None \<Longrightarrow> map_of (mc_pool m') i = None \<or> \<not> ok (SubvolMkdir i)"
    using assms f by (auto simp: EnsureAppSubvolume_def b subvol_snapshot_def split: if_splits option.splits prod.splits entry.splits)
  show "map_of (mc_pool m) i = None \<Longrightarrow> r = None \<Longrightarrow>
       \<exists>b. map_of (mc_bases m') (baseDirName tag) = Some b \<and> map_of (mc_pool m') i = Some (Subvol \<lparr>sb_os = bt_tag b, sb_files = Some Map.empty, sb_group = g\<rparr>)"
    using assms f by (auto simp: EnsureAppSubvolume_def b subvol_snapshot_def split: if_splits option.splits prod.splits entry.splits)
qed

lemma ForkAppSubvolume_effect:
  assumes "ForkAppSubvolume ok src i g m = (m', r)"
  shows "mc_accounts m' = mc_accounts m" "j \<noteq> i \<Longrightarrow> map_of (mc_pool m') j = map_of (mc_pool m) j"
    "map_of (mc_pool m) i \<noteq> None \<Longrightarrow> m' = m \<and> r = None"
    "map_of (mc_pool m) i = None \<Longrightarrow> r = None \<Longrightarrow> \<exists>s. src = Some s \<and> map_of (mc_pool m') i = Some (Subvol (s\<lparr>sb_group := g\<rparr>))"
    "map_of (mc_pool m) i = None \<Longrightarrow> r \<noteq> None \<Longrightarrow> map_of (mc_pool m') i = None"
  using assms by (auto simp: ForkAppSubvolume_def subvol_snapshot_def split: if_splits option.splits prod.splits entry.splits)

text \<open>The first half of a provision: the subvolume, by fork or from the base.\<close>

definition provision_tree :: "(hcall \<Rightarrow> bool) \<Rightarrow> node_env \<Rightarrow> ProvisionSpec \<Rightarrow> machine \<Rightarrow> machine \<times> err option" where
  "provision_tree ok ev spec m =
     (let qg = budgetGroup (UIDFor (ps_Port spec));
          m1 = fst (qgroup_limit ok qg (EffectiveDiskCapMB (ps_DiskMB spec)) (qgroup_create ok qg m))
      in if ps_SeedAppID spec \<noteq> [] then ForkAppSubvolume ok (seed_of spec m1) (ps_ID spec) qg m1
         else EnsureAppSubvolume ok ev (ps_ID spec) (ne_ImageTag ev) qg m1)"

lemma Provision_split:
  "Provision ok ev spec m =
     (if map_of (mc_accounts m) (ps_Name spec) \<noteq> None then (m, Some ErrAppExists)
      else case provision_tree ok ev spec m of (m2, Some e) \<Rightarrow> (m2, Some e) | (m2, None) \<Rightarrow> provision_account ok ev spec m2)"
  by (simp add: Provision_def provision_tree_def Let_def)

lemma provision_tree_effect:
  assumes "provision_tree ok ev spec m = (m', r)"
  shows "mc_accounts m' = mc_accounts m" "j \<noteq> ps_ID spec \<Longrightarrow> map_of (mc_pool m') j = map_of (mc_pool m) j"
    "map_of (mc_pool m) (ps_ID spec) \<noteq> None \<Longrightarrow> mc_pool m' = mc_pool m \<and> r = None"
    "map_of (mc_pool m) (ps_ID spec) = None \<Longrightarrow> r = None \<Longrightarrow> pool_subvol m' (ps_ID spec) \<noteq> None"
    "map_of (mc_pool m) (ps_ID spec) = None \<Longrightarrow> r \<noteq> None \<Longrightarrow> map_of (mc_pool m') (ps_ID spec) = None \<or> \<not> ok (SubvolMkdir (ps_ID spec))"
proof -
  let ?g = "budgetGroup (UIDFor (ps_Port spec))"
  let ?m = "fst (qgroup_limit ok ?g (EffectiveDiskCapMB (ps_DiskMB spec)) (qgroup_create ok ?g m))"
  consider "ForkAppSubvolume ok (seed_of spec ?m) (ps_ID spec) ?g ?m = (m', r)"
    | "EnsureAppSubvolume ok ev (ps_ID spec) (ne_ImageTag ev) ?g ?m = (m', r)"
    using assms by (auto simp: provision_tree_def Let_def split: if_splits)
  note cases = this
  have p: "map_of (mc_pool ?m) = map_of (mc_pool m)" "mc_accounts ?m = mc_accounts m" "mc_pool ?m = mc_pool m"
    by simp_all
  show "mc_accounts m' = mc_accounts m"
    by (rule cases) (use p ForkAppSubvolume_effect(1) EnsureAppSubvolume_effect(1) in \<open>metis+\<close>)
  show "j \<noteq> ps_ID spec \<Longrightarrow> map_of (mc_pool m') j = map_of (mc_pool m) j"
    by (rule cases) (use p ForkAppSubvolume_effect(2) EnsureAppSubvolume_effect(2) in \<open>metis+\<close>)
  show "map_of (mc_pool m) (ps_ID spec) \<noteq> None \<Longrightarrow> mc_pool m' = mc_pool m \<and> r = None"
    by (rule cases) (use p ForkAppSubvolume_effect(3) EnsureAppSubvolume_effect(3) in \<open>metis+\<close>)
  show "map_of (mc_pool m) (ps_ID spec) = None \<Longrightarrow> r = None \<Longrightarrow> pool_subvol m' (ps_ID spec) \<noteq> None"
    by (rule cases) (use p ForkAppSubvolume_effect(4) EnsureAppSubvolume_effect(4) in \<open>fastforce simp: pool_subvol_def\<close>)+
  show "map_of (mc_pool m) (ps_ID spec) = None \<Longrightarrow> r \<noteq> None \<Longrightarrow> map_of (mc_pool m') (ps_ID spec) = None \<or> \<not> ok (SubvolMkdir (ps_ID spec))"
    by (rule cases) (use p ForkAppSubvolume_effect(5) EnsureAppSubvolume_effect(5) in \<open>metis+\<close>)
qed

lemma provisionRollback_effect:
  assumes "pool_subvol x (ps_ID spec) = Some s"
  shows "(map_of (mc_pool (provisionRollback ok spec x)))(ps_ID spec := None) = (map_of (mc_pool x))(ps_ID spec := None)"
    "(map_of (mc_accounts (provisionRollback ok spec x)))(ps_Name spec := None) = (map_of (mc_accounts x))(ps_Name spec := None)"
    "ok (SubvolDelete 0 (ps_ID spec)) \<Longrightarrow> map_of (mc_pool (provisionRollback ok spec x)) (ps_ID spec) = None"
    "ok (UserDelete (ps_Name spec)) \<Longrightarrow> map_of (mc_accounts (provisionRollback ok spec x)) (ps_Name spec) = None"
  using assms
  by (auto simp: provisionRollback_def subvol_delete_def user_delete_def pool_subvol_def delete_conv' fun_eq_iff split: option.splits entry.splits)

lemma edit_home_subvol:
  assumes "edit_home i f m = (m', b)" and "pool_subvol m i = Some s"
  shows "mc_accounts m' = mc_accounts m \<and> (\<exists>s'. pool_subvol m' i = Some s') \<and> (map_of (mc_pool m'))(i := None) = (map_of (mc_pool m))(i := None)"
  using edit_home_effect[OF assms(1)] assms(2) by (auto simp: fun_eq_iff)

text \<open>What a failed second half leaves: nothing but the account or the subvolume, and these only if they cannot be deleted.\<close>

lemma provision_account_failed:
  assumes "provision_account ok ev spec m = (m', Some e)" and "map_of (mc_accounts m) (ps_Name spec) = None"
    and "pool_subvol m (ps_ID spec) = Some s"
  shows "(map_of (mc_accounts m'))(ps_Name spec := None) = map_of (mc_accounts m)
    \<and> (map_of (mc_pool m'))(ps_ID spec := None) = (map_of (mc_pool m))(ps_ID spec := None)
    \<and> (ok (UserDelete (ps_Name spec)) \<longrightarrow> map_of (mc_accounts m') (ps_Name spec) = None)
    \<and> (ok (SubvolDelete 0 (ps_ID spec)) \<longrightarrow> map_of (mc_pool m') (ps_ID spec) = None)"
proof -
  obtain m1 b1 where u: "user_create ok (ps_Name spec) (appFilesByID ev (ps_ID spec)) (UIDFor (ps_Port spec)) m = (m1, b1)"
    by (cases "user_create ok (ps_Name spec) (appFilesByID ev (ps_ID spec)) (UIDFor (ps_Port spec)) m")
  have m1: "mc_pool m1 = mc_pool m" "\<not> b1 \<Longrightarrow> m1 = m" "(map_of (mc_accounts m1))(ps_Name spec := None) = map_of (mc_accounts m)"
    using u assms(2) by (auto simp: user_create_def update_conv' fun_eq_iff split: if_splits)
  obtain m2 b2 where k: "writeKeysIn ok (ps_ID spec) (ps_Name spec) (ps_SSHKeys spec) m1 = (m2, b2)"
    by (cases "writeKeysIn ok (ps_ID spec) (ps_Name spec) (ps_SSHKeys spec) m1")
  have m2: "mc_accounts m2 = mc_accounts m1" "\<exists>s'. pool_subvol m2 (ps_ID spec) = Some s'"
      "(map_of (mc_pool m2))(ps_ID spec := None) = (map_of (mc_pool m))(ps_ID spec := None)"
    using edit_home_subvol[OF k[unfolded writeKeysIn_def], of s] assms(3) m1(1) by simp_all
  obtain m3 b3 where w: "edit_home (ps_ID spec) (WriteSkeleton ok (ne_skeleton ev (ps_Name spec) (ps_URL spec))) m2 = (m3, b3)"
    by (cases "edit_home (ps_ID spec) (WriteSkeleton ok (ne_skeleton ev (ps_Name spec) (ps_URL spec))) m2")
  have m3: "mc_accounts m3 = mc_accounts m1" "\<exists>s'. pool_subvol m3 (ps_ID spec) = Some s'"
      "(map_of (mc_pool m3))(ps_ID spec := None) = (map_of (mc_pool m))(ps_ID spec := None)"
    using edit_home_subvol[OF w] m2 by auto
  consider "m' = fst (subvol_delete ok 0 (ps_ID spec) m)" | "m' = provisionRollback ok spec m2" | "m' = provisionRollback ok spec m3"
    using assms(1) m1(2) by (cases b1; cases b2; cases b3) (auto simp: provision_account_def u k w split: if_splits)
  then show ?thesis
  proof cases
    case 1
    then show ?thesis
      using assms(2,3) by (auto simp: subvol_delete_def pool_subvol_def fun_eq_iff split: option.splits entry.splits)
  next
    case 2
    then show ?thesis
      using m2 m1(3) provisionRollback_effect[of m2 spec _ ok] by (elim exE) simp
  next
    case 3
    then show ?thesis
      using m3 m1(3) provisionRollback_effect[of m3 spec _ ok] by (elim exE) simp
  qed
qed


section \<open>An existing tree\<close>

definition home_files :: "subvol \<Rightarrow> fs" where
  "home_files s = (case sb_files s of Some fs \<Rightarrow> fs | None \<Rightarrow> Map.empty)"

lemma WriteSkeleton_keeps: "fs p \<noteq> None \<Longrightarrow> fst (WriteSkeleton ok l fs) p = fs p"
proof (induction l arbitrary: fs)
  case (Cons x l)
  obtain q c where x: "x = (q, c)"
    by (cases x)
  obtain fs1 b where mk: "mkdir_steps (length q) fs [] (butlast q) = (fs1, b)"
    by (cases "mkdir_steps (length q) fs [] (butlast q)")
  have fs1: "fs1 p = fs p"
    using mkdir_steps_frame[OF mk, of p] Cons.prems by auto
  have "p \<noteq> q \<Longrightarrow> fst (WriteSkeleton ok l (fs1(q \<mapsto> FFile c 0x1A4))) p = (fs1(q \<mapsto> FFile c 0x1A4)) p"
    by (rule Cons.IH) (use fs1 Cons.prems in simp)
  then show ?case
    using Cons.prems Cons.IH[of fs] fs1 by (cases b; cases "p = q") (simp_all add: x mk)
qed simp

lemma WriteAuthorizedKeys_keeps: "p \<noteq> ssh_dir \<Longrightarrow> p \<noteq> keys_file \<Longrightarrow> fst (WriteAuthorizedKeys ok name keys fs) p = fs p"
  by (simp add: WriteAuthorizedKeys_def Let_def)

lemma Provision_over_tree:
  assumes "Provision ok ev spec m = (m', None)" and "pool_subvol m (ps_ID spec) = Some s"
  shows "map_of (mc_accounts m') (ps_Name spec) = Some \<lparr>ac_Home = appFilesByID ev (ps_ID spec), ac_UID = UIDFor (ps_Port spec)\<rparr> \<and>
     (\<exists>s'. pool_subvol m' (ps_ID spec) = Some s' \<and> sb_os s' = sb_os s \<and> sb_group s' = sb_group s \<and>
        (\<forall>p. p \<notin> {ssh_dir, keys_file} \<and> home_files s p \<noteq> None \<longrightarrow> home_files s' p = home_files s p))"
proof -
  have acc: "map_of (mc_accounts m) (ps_Name spec) = None"
    using assms(1) by (auto simp: Provision_def split: if_splits)
  obtain m2 where t: "provision_tree ok ev spec m = (m2, None)" and p: "provision_account ok ev spec m2 = (m', None)"
    using assms(1) acc by (auto simp: Provision_split split: prod.splits option.splits)
  have f: "mc_pool m2 = mc_pool m" "mc_accounts m2 = mc_accounts m"
    using provision_tree_effect(1,3)[OF t] assms(2) by auto
  let ?m1 = "m2\<lparr>mc_accounts := AList.update (ps_Name spec) \<lparr>ac_Home = appFilesByID ev (ps_ID spec), ac_UID = UIDFor (ps_Port spec)\<rparr> (mc_accounts m2)\<rparr>"
  obtain m3 where k: "edit_home (ps_ID spec) (WriteAuthorizedKeys ok (ps_Name spec) (ps_SSHKeys spec)) ?m1 = (m3, True)"
    using p acc f(2) by (auto simp: provision_account_def user_create_def writeKeysIn_def split: if_splits prod.splits bool.splits)
  have s: "pool_subvol ?m1 (ps_ID spec) = Some s"
    using assms(2) f(1) by simp
  define s3 where "s3 = s\<lparr>sb_files := Some (fst (WriteAuthorizedKeys ok (ps_Name spec) (ps_SSHKeys spec) (home_files s)))\<rparr>"
  have s3: "pool_subvol m3 (ps_ID spec) = Some s3" "mc_accounts m3 = mc_accounts ?m1"
    using edit_home_effect(1,4)[OF k] s by (simp_all add: s3_def home_files_def)
  have keep3: "p \<notin> {ssh_dir, keys_file} \<Longrightarrow> home_files s3 p = home_files s p" for p
    by (simp add: s3_def home_files_def WriteAuthorizedKeys_keeps)
  have user: "user_create ok (ps_Name spec) (appFilesByID ev (ps_ID spec)) (UIDFor (ps_Port spec)) m2 = (?m1, True)"
    using p acc f(2) by (auto simp: provision_account_def user_create_def split: if_splits prod.splits bool.splits)
  consider "m' = ReconcilePortRules ok m3"
    | m4 where "edit_home (ps_ID spec) (WriteSkeleton ok (ne_skeleton ev (ps_Name spec) (ps_URL spec))) m3 = (m4, True)" "m' = ReconcilePortRules ok m4"
    using p by (auto simp: provision_account_def user writeKeysIn_def k split: if_splits prod.splits bool.splits)
  then show ?thesis
  proof cases
    case 1
    then show ?thesis
      using s3 keep3 by (auto simp: update_conv' pool_subvol_def s3_def)
  next
    case 2
    define s4 where "s4 = s3\<lparr>sb_files := Some (fst (WriteSkeleton ok (ne_skeleton ev (ps_Name spec) (ps_URL spec)) (home_files s3)))\<rparr>"
    have s4: "pool_subvol m4 (ps_ID spec) = Some s4" "mc_accounts m4 = mc_accounts ?m1"
      using edit_home_effect(1,4)[OF 2(1)] s3 by (simp_all add: s4_def home_files_def)
    have "home_files s4 p = home_files s p" if "p \<notin> {ssh_dir, keys_file}" "home_files s p \<noteq> None" for p
      using keep3[OF that(1)] that(2) WriteSkeleton_keeps[of "home_files s3" p] by (simp add: s4_def home_files_def)
    then show ?thesis
      using s4 2(2) by (auto simp: update_conv' pool_subvol_def s4_def s3_def)
  qed
qed

text \<open>But when it fails, the app is destroyed. Provisioning again is what a reconcile does for an app whose account is missing; the clean-up of a
  failed provision deletes the subvolume without asking who made it. So if the account cannot be created, or its keys or a skeleton file
  cannot be written, the files and the installed software of an app that was merely missing its account are deleted.\<close>

lemma failed_reprovision_destroys_app:
  assumes "map_of (mc_accounts m) (ps_Name spec) = None" and "pool_subvol m (ps_ID spec) = Some s"
    and "Provision ok ev spec m = (m', Some e)" and "ok (SubvolDelete 0 (ps_ID spec))"
  shows "map_of (mc_pool m') (ps_ID spec) = None"
proof -
  obtain m2 r2 where t: "provision_tree ok ev spec m = (m2, r2)"
    by (cases "provision_tree ok ev spec m")
  have f: "mc_pool m2 = mc_pool m" "mc_accounts m2 = mc_accounts m" "r2 = None"
    using provision_tree_effect(1,3)[OF t] assms(2) by auto
  have "provision_account ok ev spec m2 = (m', Some e)" "map_of (mc_accounts m2) (ps_Name spec) = None" "pool_subvol m2 (ps_ID spec) = Some s"
    using assms(1-3) f t by (simp_all add: Provision_split)
  from provision_account_failed[OF this] show ?thesis
    using assms(4) by blast
qed


subsection \<open>Samples\<close>

definition sample_env :: node_env where
  "sample_env = \<lparr>ne_AppsDir = ''/srv/apps'', ne_rawAppsDir = [], ne_SocketFile = ''/run/hostit/app/hostit.sock'', ne_BindAddress = [], ne_Version = ''1'',
     ne_ImageTag = ''localhost/hostit-workspace:abc'', ne_digest = (\<lambda>s. s), ne_cpus = itoa, ne_keysOk = (\<lambda>_. True),
     ne_skeleton = (\<lambda>_ _. [([''README.md''], ''hello'')]), ne_frac = (\<lambda>_ _ _. 0), ne_yaml = (\<lambda>_ _. None)\<rparr>"

definition wiki_spec :: ProvisionSpec where
  "wiki_spec = \<lparr>ps_Host = ''local'', ps_ID = ''app_2'', ps_Name = ''wiki'', ps_Port = 10001, ps_SSHKeys = [], ps_SeedAppID = [], ps_SeedSnapshotID = [],
     ps_URL = ''https://wiki.example.org'', ps_DiskMB = 0\<rparr>"

definition wiki_tree :: subvol where
  "wiki_tree = \<lparr>sb_os = ''old image'', sb_files = Some [[''data.db''] \<mapsto> FFile ''years of work'' 0x1A4], sb_group = ''1/1065536''\<rparr>"

definition bare_machine :: machine where
  "bare_machine = \<lparr>mc_db = empty_db, mc_memoryMB = Map.empty, mc_diskMB = Map.empty, mc_cpuMilli = Map.empty, mc_orphansLast = {}, mc_orphansThis = {},
     mc_accounts = [], mc_pool = [], mc_snaps = [], mc_bases = [], mc_images = [], mc_units = [], mc_containers = [], mc_budgets = [], mc_rules = []\<rparr>"

text \<open>A node on which the account of the wiki is gone and its files are not.\<close>

definition lost_account :: machine where
  "lost_account = bare_machine\<lparr>mc_pool := [(''app_2'', Subvol wiki_tree)]\<rparr>"

lemma lost_account_tree: "pool_subvol lost_account (ps_ID wiki_spec) = Some wiki_tree"
  by (simp add: lost_account_def wiki_spec_def)

theorem EnsureBase_sound_witness:
  "bases_sound (fst (EnsureBase (\<lambda>c. c \<noteq> BaseSeal ''abc.tmp'' \<and> c \<noteq> BaseDelete 1 ''abc.tmp'') sample_env ''localhost/hostit-workspace:abc'' bare_machine))"
  by (rule EnsureBase_sound[THEN conjunct1]) (simp add: bases_sound_def bare_machine_def)



lemma failed_reprovision_destroys_app_witness:
  "\<exists>m' e. Provision (\<lambda>c. c \<noteq> UserCreate ''wiki'') sample_env wiki_spec lost_account = (m', Some e) \<and> map_of (mc_pool m') ''app_2'' = None"
proof -
  let ?ok = "\<lambda>c. c \<noteq> UserCreate ''wiki''"
  obtain m' r where p: "Provision ?ok sample_env wiki_spec lost_account = (m', r)"
    by (cases "Provision ?ok sample_env wiki_spec lost_account")
  have "r \<noteq> None"
    using p by (auto simp: Provision_split provision_account_def user_create_def wiki_spec_def lost_account_def bare_machine_def split: prod.splits option.splits)
  then obtain e where "r = Some e" by blast
  then show ?thesis
    using failed_reprovision_destroys_app[of lost_account wiki_spec wiki_tree ?ok sample_env m' e] p lost_account_tree
    by (simp add: lost_account_def bare_machine_def wiki_spec_def)
qed

end
