(* ===== verification/Node_Power.thy ===== *)
theory Node_Power
  imports Node_Machine
begin

text \<open>
  Containers and units of a node: the container specification (\<open>workspace/spec.go\<close>), converging an app to it, power, signals
  (\<open>node/machine_deploy.go\<close>) and renaming a login (\<open>node/machine_rename.go\<close>). Units and containers are keyed by the app's id. What an
  operation reports besides an error is one of its few messages. The state cache that only feeds the dashboard is left out.
\<close>

section \<open>The container specification\<close>

definition ContainerPrefix :: string where "ContainerPrefix = ''hostit-app-''"
definition UnitTemplate :: string where "UnitTemplate = ''hostit-app@''"
definition HostBinFile :: string where "HostBinFile = ''/usr/lib/hostit/bin/hostit-app''"
definition ContainerBinFile :: string where "ContainerBinFile = ''/usr/bin/hostit''"
definition ContainerHome :: string where "ContainerHome = ''/home/app''"
definition ContainerRunDir :: string where "ContainerRunDir = ''/run/hostit''"
definition containerArgsTrailer :: nat where "containerArgsTrailer = 4"

definition ContainerName :: "string \<Rightarrow> string" where "ContainerName i = ContainerPrefix @ i"
definition UnitName :: "string \<Rightarrow> string" where "UnitName i = UnitTemplate @ i"

definition filepath_Dir :: "string \<Rightarrow> string" where
  "filepath_Dir p = rev (tl (dropWhile (\<lambda>c. c \<noteq> slash) (rev p)))"

definition appendCommonMounts :: "node_env \<Rightarrow> string list" where
  "appendCommonMounts ev =
     [''--volume'', HostBinFile @ '':'' @ ContainerBinFile @ '':ro'', ''--volume'', filepath_Dir (ne_SocketFile ev) @ '':'' @ ContainerRunDir @ '':ro'']"

definition env_args :: "Config option \<Rightarrow> string list" where
  "env_args conf =
     (case conf of None \<Rightarrow> [] | Some c \<Rightarrow> concat (map (\<lambda>(k, v). [''--env'', k @ ''='' @ v]) (sort_key fst (hc_Env c))))"

definition limit_args :: "node_env \<Rightarrow> int \<Rightarrow> int \<Rightarrow> string list" where
  "limit_args ev memoryMB cpuMilli =
     (if cpuMilli > 0 then [''--cpus'', ne_cpus ev cpuMilli] else []) @
     (if memoryMB > 0 then [''--memory'', itoa memoryMB @ ''m'', ''--memory-swap'', itoa memoryMB @ ''m''] else [])"

definition id_map :: "int \<Rightarrow> string" where
  "id_map uid = ''0:'' @ itoa uid @ '':65536''"

definition CreateArgs :: "node_env \<Rightarrow> Config option \<Rightarrow> App \<Rightarrow> int \<Rightarrow> int \<Rightarrow> int \<Rightarrow> string list" where
  "CreateArgs ev conf a memoryMB cpuMilli uid =
     [''create'', ''--name'', ContainerName (a_ID a), ''--hostname'', a_Name a,
      ''--sdnotify'', ''conmon'', ''--label'', ''hostit.version='' @ ne_Version ev,
      ''--uidmap'', id_map uid, ''--gidmap'', id_map uid, ''--network'', ''slirp4netns''] @
     limit_args ev memoryMB cpuMilli @
     [''--pids-limit'', ''512'', ''--security-opt'', ''no-new-privileges'', ''--security-opt'', ''apparmor=unconfined'',
      ''--env'', ''PORT=80'', ''--env'', ''HOME='' @ ContainerHome, ''--workdir'', ContainerHome,
      ''--publish'', (if ne_BindAddress ev = [] then ''127.0.0.1'' else ne_BindAddress ev) @ '':'' @ itoa (a_Port a) @ '':80''] @
     env_args conf @ appendCommonMounts ev @
     [''--rootfs'', ne_AppsDir ev @ ''/'' @ a_ID a @ '':idmap'', ContainerBinFile, ''agent'']"

fun hashable :: "string list \<Rightarrow> string list" where
  "hashable (x # y # rest) = (if x = ''--hostname'' then hashable rest else x # hashable (y # rest))"
| "hashable xs = xs"

definition ConfigHash :: "node_env \<Rightarrow> string list \<Rightarrow> string" where
  "ConfigHash ev args = ne_digest ev (join_with (CHR 0x00) (hashable args))"

definition WithConfigLabel :: "string list \<Rightarrow> string \<Rightarrow> string list" where
  "WithConfigLabel args hash =
     (let cut = length args - containerArgsTrailer in take cut args @ [''--label'', ''hostit.config='' @ hash] @ drop cut args)"

section \<open>Units\<close>

definition unit_of :: "machine \<Rightarrow> string \<Rightarrow> svc_unit" where
  "unit_of m i = (case map_of (mc_units m) i of None \<Rightarrow> \<lparr>un_enabled = False, un_active = False\<rparr> | Some u \<Rightarrow> u)"

definition unit_stop :: "(hcall \<Rightarrow> bool) \<Rightarrow> string \<Rightarrow> machine \<Rightarrow> machine \<times> bool" where
  "unit_stop ok i m = (if ok (UnitStop i) then (unit_set i (un_enabled (unit_of m i)) False m, True) else (m, False))"

definition unit_start :: "(hcall \<Rightarrow> bool) \<Rightarrow> string \<Rightarrow> machine \<Rightarrow> machine \<times> bool" where
  "unit_start ok i m = (if ok (UnitStart i) then (unit_set i (un_enabled (unit_of m i)) True m, True) else (m, False))"

definition unit_restart :: "(hcall \<Rightarrow> bool) \<Rightarrow> string \<Rightarrow> machine \<Rightarrow> machine \<times> bool" where
  "unit_restart ok i m = (if ok (UnitRestart i) then (unit_set i (un_enabled (unit_of m i)) True m, True) else (m, False))"

definition unit_enable :: "(hcall \<Rightarrow> bool) \<Rightarrow> string \<Rightarrow> machine \<Rightarrow> machine \<times> bool" where
  "unit_enable ok i m = (if ok (UnitEnable i) then (unit_set i True True m, True) else (m, False))"

definition isActive_app :: "machine \<Rightarrow> string \<Rightarrow> bool" where
  "isActive_app m name = un_active (unit_of m (AppID m name))"

section \<open>Configuration and limits\<close>

definition limit_of :: "(string \<rightharpoonup> int) \<Rightarrow> string \<Rightarrow> int" where
  "limit_of l name = (case l name of None \<Rightarrow> 0 | Some n \<Rightarrow> n)"

definition LoadAppConfig :: "node_env \<Rightarrow> machine \<Rightarrow> string \<Rightarrow> Config option" where
  "LoadAppConfig ev m name =
     (case pool_subvol m (AppID m name) of None \<Rightarrow> None
      | Some s \<Rightarrow>
          (case ReadCapped (home_files s) [''hostit.yml''] (64 * 1024) of Inl e \<Rightarrow> None
           | Inr b \<Rightarrow> (case LoadConfig (ne_frac ev) (ne_yaml ev) b of Inl e \<Rightarrow> None | Inr c \<Rightarrow> Some c)))"

definition desired_args :: "node_env \<Rightarrow> machine \<Rightarrow> App \<Rightarrow> Config option \<Rightarrow> int \<Rightarrow> string list" where
  "desired_args ev m a conf uid =
     CreateArgs ev conf a (limit_of (mc_memoryMB m) (a_Name a)) (limit_of (mc_cpuMilli m) (a_Name a)) uid"

section \<open>Converging\<close>

datatype deploy_msg = Deployed | Reloaded | UpToDate | Ready | Started

text \<open>Whether the container that is there has this configuration.\<close>

definition container_matches :: "node_env \<Rightarrow> machine \<Rightarrow> string \<Rightarrow> string list \<Rightarrow> bool" where
  "container_matches ev m i args =
     (case map_of (mc_containers m) i of None \<Rightarrow> False | Some c \<Rightarrow> TrimSpace (ct_label c) = ConfigHash ev args)"

definition recreate :: "(hcall \<Rightarrow> bool) \<Rightarrow> node_env \<Rightarrow> App \<Rightarrow> string list \<Rightarrow> machine \<Rightarrow> machine \<times> err option" where
  "recreate ok ev a desired m =
     (case Store_App (mc_db m) (a_Name a) of Inl e \<Rightarrow> (m, Some e)
      | Inr _ \<Rightarrow>
          let i = AppID m (a_Name a); m1 = fst (ctr_remove ok i (fst (unit_stop ok i m)))
          in if ok (CtrCreate i) \<and> map_of (mc_containers m1) i = None
             then (m1\<lparr>mc_containers := AList.update i \<lparr>ct_args = WithConfigLabel desired (ConfigHash ev desired), ct_label = ConfigHash ev desired\<rparr>
                     (mc_containers m1)\<rparr>, None)
             else (m1, Some (ErrText ''cannot create container'')))"

text \<open>The start that follows: \<open>recreated\<close> says whether the container is new.\<close>

definition apply_start :: "(hcall \<Rightarrow> bool) \<Rightarrow> App \<Rightarrow> Config option \<Rightarrow> bool \<Rightarrow> bool \<Rightarrow> machine \<Rightarrow> machine \<times> deploy_msg res" where
  "apply_start ok a conf allowReload recreated m =
     (let i = AppID m (a_Name a); active = isActive_app m (a_Name a)
      in if recreated \<or> \<not> active
         then (case (if recreated \<and> active then unit_restart ok i m else unit_enable ok i m) of
                 (m', False) \<Rightarrow> (m', Inl (ErrText ''systemctl'')) | (m', True) \<Rightarrow> (m', Inr Deployed))
         else if allowReload \<and> conf \<noteq> None
         then (if ok (CtrKill i) then (m, Inr Reloaded) else (m, Inl (ErrText ''kill'')))
         else (m, Inr UpToDate))"

definition Machine_apply :: "(hcall \<Rightarrow> bool) \<Rightarrow> node_env \<Rightarrow> App \<Rightarrow> Config option \<Rightarrow> bool \<Rightarrow> machine \<Rightarrow> machine \<times> deploy_msg res" where
  "Machine_apply ok ev a conf allowReload m =
     (case LookupIDs m (a_Name a) of None \<Rightarrow> (m, Inl ErrNotExist)
      | Some uid \<Rightarrow>
          (case EnsureAppSubvolume ok ev (a_ID a) (a_ImageTag a) (budgetGroup (UIDFor (a_Port a))) m of
             (m1, Some e) \<Rightarrow> (m1, Inl e)
           | (m1, None) \<Rightarrow>
               let desired = desired_args ev m1 a conf uid
               in if container_matches ev m1 (AppID m1 (a_Name a)) desired then apply_start ok a conf allowReload False m1
                  else (case recreate ok ev a desired m1 of
                          (m2, Some e) \<Rightarrow> (m2, Inl e) | (m2, None) \<Rightarrow> apply_start ok a conf allowReload True m2)))"

section \<open>Power\<close>

definition powerOn :: "(hcall \<Rightarrow> bool) \<Rightarrow> node_env \<Rightarrow> string \<Rightarrow> machine \<Rightarrow> machine \<times> deploy_msg res" where
  "powerOn ok ev name m0 =
     (let m = m0\<lparr>mc_db := SetAppPoweredOff (mc_db m0) name False\<rparr>
      in case Store_App (mc_db m) name of Inl e \<Rightarrow> (m, Inl e)
         | Inr a \<Rightarrow>
             if map_of (mc_containers m) (AppID m name) \<noteq> None
             then (if isActive_app m name then (m, Inr Ready)
                   else case unit_enable ok (AppID m name) m of
                     (m', False) \<Rightarrow> (m', Inl (ErrText ''systemctl'')) | (m', True) \<Rightarrow> (m', Inr Started))
             else Machine_apply ok ev a (LoadAppConfig ev m name) False m)"

definition Machine_Ensure :: "(hcall \<Rightarrow> bool) \<Rightarrow> node_env \<Rightarrow> string \<Rightarrow> machine \<Rightarrow> machine \<times> deploy_msg res" where
  "Machine_Ensure ok ev name m =
     (case Store_App (mc_db m) name of Inl e \<Rightarrow> (m, Inl e)
      | Inr a \<Rightarrow> if a_PoweredOff a then (m, Inl ErrPoweredOff) else powerOn ok ev name m)"

definition signalAgent :: "(hcall \<Rightarrow> bool) \<Rightarrow> string \<Rightarrow> machine \<Rightarrow> err option" where
  "signalAgent ok name m =
     (case Store_App (mc_db m) name of Inl e \<Rightarrow> Some e
      | Inr a \<Rightarrow>
          if a_PoweredOff a then Some ErrPoweredOff
          else if ok (CtrKill (AppID m name)) \<and> map_of (mc_containers m) (AppID m name) \<noteq> None then None else Some ErrInvalid)"

definition Machine_Down :: "(hcall \<Rightarrow> bool) \<Rightarrow> string \<Rightarrow> machine \<Rightarrow> machine \<times> err option" where
  "Machine_Down ok name m =
     (case Store_App (mc_db m) name of Inl e \<Rightarrow> (m, Some e)
      | Inr _ \<Rightarrow>
          let m1 = m\<lparr>mc_db := SetAppPoweredOff (mc_db m) name True\<rparr>
          in (case unit_disable ok (AppID m1 name) m1 of (m2, b) \<Rightarrow> (m2, if b then None else Some (ErrText ''systemctl''))))"

definition Machine_Restart :: "(hcall \<Rightarrow> bool) \<Rightarrow> node_env \<Rightarrow> string \<Rightarrow> machine \<Rightarrow> machine \<times> err option" where
  "Machine_Restart ok ev name m =
     (case Store_App (mc_db m) name of Inl e \<Rightarrow> (m, Some e)
      | Inr a \<Rightarrow>
          let conf = LoadAppConfig ev m name; plain = (case unit_restart ok (AppID m name) m of (m', b) \<Rightarrow> (m', if b then None else Some (ErrText ''systemctl'')))
          in (case LookupIDs m name of None \<Rightarrow> plain
              | Some uid \<Rightarrow>
                  if container_matches ev m (AppID m name) (desired_args ev m a conf uid) then plain
                  else case Machine_apply ok ev a conf False m of (m', Inl e) \<Rightarrow> (m', Some e) | (m', Inr _) \<Rightarrow> (m', None)))"

section \<open>Renaming the login\<close>

definition move_key :: "string \<Rightarrow> string \<Rightarrow> (string \<rightharpoonup> 'a) \<Rightarrow> (string \<rightharpoonup> 'a)" where
  "move_key oldName newName l = (case l oldName of None \<Rightarrow> l | Some v \<Rightarrow> (l(newName \<mapsto> v))(oldName := None))"

definition renameCaches :: "string \<Rightarrow> string \<Rightarrow> machine \<Rightarrow> machine" where
  "renameCaches oldName newName m =
     m\<lparr>mc_memoryMB := move_key oldName newName (mc_memoryMB m), mc_diskMB := move_key oldName newName (mc_diskMB m)\<rparr>"

text \<open>At most fifteen attempts: \<open>busy k\<close> says that the k-th one failed because a process of the account is still dying.\<close>

fun renameUser :: "(hcall \<Rightarrow> bool) \<Rightarrow> (nat \<Rightarrow> bool) \<Rightarrow> nat \<Rightarrow> nat \<Rightarrow> string \<Rightarrow> string \<Rightarrow> machine \<Rightarrow> machine \<times> bool" where
  "renameUser ok busy 0 k oldName newName m = (m, False)"
| "renameUser ok busy (Suc n) k oldName newName m =
     (if ok (UserRename k oldName) \<and> map_of (mc_accounts m) newName = None
      then (case map_of (mc_accounts m) oldName of None \<Rightarrow> (m, False)
            | Some ac \<Rightarrow> (m\<lparr>mc_accounts := AList.update newName ac (AList.delete oldName (mc_accounts m))\<rparr>, True))
      else if busy k then renameUser ok busy n (k + 1) oldName newName m else (m, False))"

definition Machine_Rename :: "(hcall \<Rightarrow> bool) \<Rightarrow> (nat \<Rightarrow> bool) \<Rightarrow> string \<Rightarrow> string \<Rightarrow> string \<Rightarrow> machine \<Rightarrow> machine \<times> err option" where
  "Machine_Rename ok busy oldName newName i m =
     (let wasRunning = isActive_app m oldName;
          m1 = (if wasRunning then fst (unit_stop ok i m) else m);
          startApp = (\<lambda>x. if wasRunning then fst (unit_start ok i x) else x)
      in case renameUser ok busy 15 0 oldName newName m1 of
           (m2, False) \<Rightarrow> (startApp m2, Some (ErrText ''cannot rename app user''))
         | (m2, True) \<Rightarrow> (startApp (renameCaches oldName newName m2), None))"


section \<open>What the operations touch\<close>

lemma unit_of_set [simp]:
  "unit_of (unit_set i en act m) j = (if j = i then \<lparr>un_enabled = en, un_active = act\<rparr> else unit_of m j)"
  by (simp add: unit_of_def unit_set_def update_conv')

lemma unit_set_frame [simp]:
  "mc_db (unit_set i en act m) = mc_db m" "mc_containers (unit_set i en act m) = mc_containers m" "mc_accounts (unit_set i en act m) = mc_accounts m"
  "mc_pool (unit_set i en act m) = mc_pool m" "mc_memoryMB (unit_set i en act m) = mc_memoryMB m" "mc_cpuMilli (unit_set i en act m) = mc_cpuMilli m"
  "mc_diskMB (unit_set i en act m) = mc_diskMB m" "mc_snaps (unit_set i en act m) = mc_snaps m"
  by (simp_all add: unit_set_def)

lemma AppID_db: "mc_db m' = mc_db m \<Longrightarrow> AppID m' name = AppID m name"
  by (simp add: AppID_def)

lemma AppID_here: "Store_App (mc_db m) name = Inr a \<Longrightarrow> AppID m name = a_ID a"
  by (simp add: AppID_def)

lemma Store_App_name: "Store_App d name = Inr a \<Longrightarrow> a_Name a = name"
  by (auto simp: Store_App_def split: option.splits dest: tbl_find_Some)

text \<open>The parts of a machine that converging an app reads but does not change.\<close>

definition same_inputs :: "machine \<Rightarrow> machine \<Rightarrow> bool" where
  "same_inputs m m' = (mc_db m' = mc_db m \<and> mc_accounts m' = mc_accounts m \<and> mc_memoryMB m' = mc_memoryMB m \<and> mc_cpuMilli m' = mc_cpuMilli m)"

lemma same_inputs_trans: "same_inputs m m1 \<Longrightarrow> same_inputs m1 m2 \<Longrightarrow> same_inputs m m2"
  by (simp add: same_inputs_def)

lemma same_inputs_args: "same_inputs m m' \<Longrightarrow> desired_args ev m' a conf uid = desired_args ev m a conf uid"
  by (simp add: same_inputs_def desired_args_def)

lemma same_inputs_tree: "EnsureAppSubvolume ok ev i tag g m = (m1, r) \<Longrightarrow> same_inputs m m1 \<and> mc_containers m1 = mc_containers m \<and> mc_units m1 = mc_units m"
  using EnsureAppSubvolume_only[of ok ev i tag g m] by (auto simp: same_inputs_def)

lemma recreate_effect:
  assumes "recreate ok ev a desired m = (m', None)"
  shows "same_inputs m m'" "mc_pool m' = mc_pool m"
    "map_of (mc_containers m') (AppID m (a_Name a)) = Some \<lparr>ct_args = WithConfigLabel desired (ConfigHash ev desired), ct_label = ConfigHash ev desired\<rparr>"
  using assms by (auto simp: recreate_def Let_def same_inputs_def ctr_remove_def unit_stop_def update_conv' split: sum.splits if_splits)

lemma apply_start_effect:
  assumes "apply_start ok a conf r rec m = (m', Inr msg)"
  shows "same_inputs m m'" "mc_pool m' = mc_pool m" "mc_containers m' = mc_containers m" "un_active (unit_of m' (AppID m (a_Name a)))"
  using assms
  by (auto simp: apply_start_def Let_def same_inputs_def isActive_app_def unit_restart_def unit_enable_def split: if_splits prod.splits bool.splits)

section \<open>Converging works and is done once\<close>

text \<open>A container was made with the arguments \<open>args\<close>: it has them, with the label that names their digest. The containers of a node are all made
  this way, from the arguments of some app. An argument of a command holds no NUL byte.\<close>

definition no_nul :: "string list \<Rightarrow> bool" where
  "no_nul args = list_all (\<lambda>s. CHR 0x00 \<notin> set s) args"

definition made_with :: "node_env \<Rightarrow> container \<Rightarrow> string list \<Rightarrow> bool" where
  "made_with ev c args = (ct_label c = ConfigHash ev args \<and> ct_args c = WithConfigLabel args (ct_label c))"

definition containers_made :: "node_env \<Rightarrow> machine \<Rightarrow> bool" where
  "containers_made ev m =
     (\<forall>i c. map_of (mc_containers m) i = Some c \<longrightarrow>
        (\<exists>conf a mb milli uid. no_nul (CreateArgs ev conf a mb milli uid) \<and> made_with ev c (CreateArgs ev conf a mb milli uid)))"

lemma hashable_sub: "set (hashable xs) \<subseteq> set xs"
  by (induction xs rule: hashable.induct) auto

lemma hashable_CreateArgs: "hashable (CreateArgs ev conf a mb milli uid) \<noteq> []"
  by (simp add: CreateArgs_def)

lemma same_hash_same_args:
  assumes "inj (ne_digest ev)" and "ConfigHash ev xs = ConfigHash ev ys" and "no_nul xs" "no_nul ys" "hashable xs \<noteq> []" "hashable ys \<noteq> []"
  shows "hashable xs = hashable ys"
proof -
  have "join_with (CHR 0x00) (hashable xs) = join_with (CHR 0x00) (hashable ys)"
    using assms(1,2) by (simp add: ConfigHash_def inj_eq)
  then have "split_on (CHR 0x00) (join_with (CHR 0x00) (hashable xs)) = split_on (CHR 0x00) (join_with (CHR 0x00) (hashable ys))"
    by simp
  then show ?thesis
    using assms(3-6) hashable_sub[of xs] hashable_sub[of ys] by (simp add: split_join no_nul_def list_all_iff subset_iff)
qed

lemma recreate_made:
  assumes "recreate ok ev a desired m = (m', None)" and "containers_made ev m" and "no_nul desired" and "desired = CreateArgs ev conf b mb milli uid"
  shows "containers_made ev m'"
  unfolding containers_made_def
proof (intro allI impI)
  fix i c
  assume i: "map_of (mc_containers m') i = Some c"
  have old: "map_of (mc_containers m') j = map_of (mc_containers m) j \<or> map_of (mc_containers m') j = None" if "j \<noteq> AppID m (a_Name a)" for j
    using assms(1) that by (auto simp: recreate_def Let_def ctr_remove_def unit_stop_def update_conv' delete_conv' split: sum.splits if_splits)
  show "\<exists>conf a mb milli uid. no_nul (CreateArgs ev conf a mb milli uid) \<and> made_with ev c (CreateArgs ev conf a mb milli uid)"
  proof (cases "i = AppID m (a_Name a)")
    case True
    then have "made_with ev c desired"
      using i recreate_effect(3)[OF assms(1)] by (auto simp: made_with_def)
    then show ?thesis
      using assms(3,4) by blast
  next
    case False
    then show ?thesis
      using old[OF False] i assms(2) unfolding containers_made_def by auto
  qed
qed

lemma containers_made_frame: "mc_containers m' = mc_containers m \<Longrightarrow> containers_made ev m' = containers_made ev m"
  by (simp add: containers_made_def)

text \<open>C15: deploying an app brings it to its configuration. On a node whose containers were all made by \<open>podman create\<close> with the arguments of \<open>CreateArgs\<close> and the label of
  their digest (the conclusion says that stays so), and with a digest that does not collide, after a successful \<open>apply\<close> the app has a container made with exactly the arguments its \<open>hostit.yml\<close>,
  its limits, its port and its uid ask for, but for the host name (a rename keeps the container); its unit is active and its subvolume exists. Applying the same configuration
  again changes nothing on the machine, whatever commands would fail: with a reload asked for the agent is signalled, otherwise the app is found up to date.\<close>

theorem apply_converges:
  assumes "Machine_apply ok ev a conf r m = (m', Inr msg)" and "Store_App (mc_db m) (a_Name a) = Inr a"
    and "\<And>s. TrimSpace (ne_digest ev s) = ne_digest ev s" and "inj (ne_digest ev)"
    and "containers_made ev m" and "\<And>uid. no_nul (desired_args ev m a conf uid)"
  shows "\<exists>uid c args. LookupIDs m (a_Name a) = Some uid \<and> LookupIDs m' (a_Name a) = Some uid \<and> map_of (mc_containers m') (a_ID a) = Some c \<and>
     ct_args c = WithConfigLabel args (ConfigHash ev args) \<and>
     hashable args = hashable (CreateArgs ev conf a (limit_of (mc_memoryMB m) (a_Name a)) (limit_of (mc_cpuMilli m) (a_Name a)) uid) \<and>
     un_active (unit_of m' (a_ID a)) \<and> map_of (mc_pool m') (a_ID a) \<noteq> None \<and> containers_made ev m' \<and>
     (\<forall>reload. Machine_apply ok' ev a conf reload m' =
        (m', if reload \<and> conf \<noteq> None then (if ok' (CtrKill (a_ID a)) then Inr Reloaded else Inl (ErrText ''kill'')) else Inr UpToDate))"
proof -
  obtain uid where u: "LookupIDs m (a_Name a) = Some uid"
    using assms(1) by (auto simp: Machine_apply_def split: option.splits)
  obtain m1 where e: "EnsureAppSubvolume ok ev (a_ID a) (a_ImageTag a) (budgetGroup (UIDFor (a_Port a))) m = (m1, None)"
    using assms(1) u by (auto simp: Machine_apply_def split: prod.splits option.splits)
  have m1: "same_inputs m m1" "map_of (mc_pool m1) (a_ID a) \<noteq> None"
    using same_inputs_tree[OF e] EnsureAppSubvolume_effect(3,4)[OF e] by auto
  have i1: "AppID m1 (a_Name a) = a_ID a"
    using AppID_here assms(2) m1(1) by (simp add: same_inputs_def AppID_def)
  let ?d = "desired_args ev m1 a conf uid"
  have made1: "containers_made ev m1" "no_nul ?d"
    using containers_made_frame[of m1 m ev] same_inputs_tree[OF e] assms(5) assms(6)[of uid] same_inputs_args[OF m1(1), of ev a conf uid] by simp_all
  obtain m2 rec where m2: "same_inputs m1 m2" "mc_pool m2 = mc_pool m1" "container_matches ev m2 (a_ID a) ?d"
      "apply_start ok a conf r rec m2 = (m', Inr msg)" "containers_made ev m2"
  proof (cases "container_matches ev m1 (a_ID a) ?d")
    case True
    then show thesis
      using that[of m1 False] assms(1) u e i1 made1(1) by (simp add: Machine_apply_def same_inputs_def)
  next
    case False
    then obtain m2 where r2: "recreate ok ev a ?d m1 = (m2, None)" "apply_start ok a conf r True m2 = (m', Inr msg)"
      using assms(1) u e i1 by (auto simp: Machine_apply_def Let_def split: prod.splits option.splits)
    then show thesis
      using that[of m2 True] recreate_effect[OF r2(1)] recreate_made[OF r2(1) made1 desired_args_def] i1 assms(3)
      by (simp add: container_matches_def ConfigHash_def)
  qed
  have i2: "AppID m2 (a_Name a) = a_ID a"
    using m2(1) i1 by (simp add: same_inputs_def AppID_def)
  note f = apply_start_effect[OF m2(4), unfolded i2]
  have s: "same_inputs m m'"
    using same_inputs_trans m1(1) m2(1) f(1) by blast
  have u': "LookupIDs m' (a_Name a) = Some uid" "AppID m' (a_Name a) = a_ID a"
    using s u assms(2) by (simp_all add: same_inputs_def LookupIDs_def AppID_def)
  have match: "container_matches ev m' (a_ID a) (desired_args ev m' a conf uid)"
    using m2(3) f(3) same_inputs_args[OF m2(1)] same_inputs_args[OF f(1)] by (simp add: container_matches_def)
  have pool: "map_of (mc_pool m') (a_ID a) \<noteq> None"
    using m1(2) m2(2) f(2) by simp
  have "EnsureAppSubvolume ok' ev (a_ID a) (a_ImageTag a) (budgetGroup (UIDFor (a_Port a))) m' = (m', None)"
    using pool by (simp add: EnsureAppSubvolume_def)
  then have "Machine_apply ok' ev a conf reload m' = apply_start ok' a conf reload False m'" for reload
    using u' match by (simp add: Machine_apply_def)
  then have again: "Machine_apply ok' ev a conf reload m' =
      (m', if reload \<and> conf \<noteq> None then (if ok' (CtrKill (a_ID a)) then Inr Reloaded else Inl (ErrText ''kill'')) else Inr UpToDate)" for reload
    using f(4) u'(2) by (simp add: apply_start_def isActive_app_def)
  have made: "containers_made ev m'"
    using m2(5) containers_made_frame[OF f(3)] by simp
  obtain c where c: "map_of (mc_containers m') (a_ID a) = Some c" "TrimSpace (ct_label c) = ConfigHash ev (desired_args ev m' a conf uid)"
    using match by (auto simp: container_matches_def split: option.splits)
  obtain conf' b mb milli uid' where b: "no_nul (CreateArgs ev conf' b mb milli uid')" "made_with ev c (CreateArgs ev conf' b mb milli uid')"
    using made c(1) unfolding containers_made_def by blast
  let ?args = "CreateArgs ev conf' b mb milli uid'"
  have d: "desired_args ev m' a conf uid = CreateArgs ev conf a (limit_of (mc_memoryMB m) (a_Name a)) (limit_of (mc_cpuMilli m) (a_Name a)) uid"
    using s by (simp add: desired_args_def same_inputs_def)
  have "ConfigHash ev ?args = ConfigHash ev (desired_args ev m' a conf uid)"
    using c(2) b(2) assms(3) by (simp add: made_with_def ConfigHash_def)
  then have "hashable ?args = hashable (desired_args ev m' a conf uid)"
    by (rule same_hash_same_args[OF assms(4)]) (use b(1) assms(6) same_inputs_args[OF s] in \<open>simp_all add: hashable_CreateArgs desired_args_def\<close>)
  then show ?thesis
    using u u' c(1) b(2) pool f(4) made again unfolding d made_with_def
    by (intro exI[of _ uid] exI[of _ c] exI[of _ ?args]) simp
qed

section \<open>Power is an intent that is kept\<close>

lemma SetAppPoweredOff_read:
  assumes "Store_App d name = Inr a"
  shows "Store_App (SetAppPoweredOff d name off) name = Inr (a\<lparr>a_PoweredOff := off\<rparr>)"
  using assms by (auto simp: Store_App_def SetAppPoweredOff_def upd_app_def tbl_find_tbl_update split: option.splits dest: tbl_find_Some)

lemma ops_keep_db [simp]:
  "mc_db (fst (unit_stop ok i m)) = mc_db m" "mc_db (fst (unit_start ok i m)) = mc_db m" "mc_db (fst (unit_restart ok i m)) = mc_db m"
  "mc_db (fst (unit_enable ok i m)) = mc_db m" "mc_db (fst (unit_disable ok i m)) = mc_db m" "mc_db (fst (ctr_remove ok i m)) = mc_db m"
  by (simp_all add: unit_stop_def unit_start_def unit_restart_def unit_enable_def unit_disable_def ctr_remove_def)

lemma recreate_db [simp]: "mc_db (fst (recreate ok ev a d m)) = mc_db m"
  by (simp add: recreate_def Let_def split: sum.splits)

lemma apply_start_db [simp]: "mc_db (fst (apply_start ok a conf r rec m)) = mc_db m"
  by (auto simp: apply_start_def Let_def unit_restart_def unit_enable_def split: prod.splits bool.splits)

lemma Machine_apply_db [simp]: "mc_db (fst (Machine_apply ok ev a conf r m)) = mc_db m"
proof (cases "LookupIDs m (a_Name a)")
  case (Some uid)
  obtain m1 e where e: "EnsureAppSubvolume ok ev (a_ID a) (a_ImageTag a) (budgetGroup (UIDFor (a_Port a))) m = (m1, e)"
    by (cases "EnsureAppSubvolume ok ev (a_ID a) (a_ImageTag a) (budgetGroup (UIDFor (a_Port a))) m")
  have m1: "mc_db m1 = mc_db m"
    using same_inputs_tree[OF e] by (simp add: same_inputs_def)
  obtain m2 r2 where r: "recreate ok ev a (desired_args ev m1 a conf uid) m1 = (m2, r2)"
    by (cases "recreate ok ev a (desired_args ev m1 a conf uid) m1")
  have "mc_db m2 = mc_db m"
    using recreate_db[of ok ev a "desired_args ev m1 a conf uid" m1] r m1 by simp
  then show ?thesis
    using Some e r m1 by (cases e; cases r2) (simp_all add: Machine_apply_def Let_def)
qed (simp add: Machine_apply_def)

text \<open>A powered-off app stays off for everything that only wants to use it. After \<open>Down\<close>, whether or not systemd obeyed, logging in and signalling the
  agent are refused and change nothing; and when it obeyed, the unit is stopped and disabled. \<open>PowerOn\<close> is what ends that: it clears
  the recorded intent, whatever becomes of the start.\<close>

lemma Down_is_kept:
  assumes "Machine_Down ok name m = (m', r)" and "Store_App (mc_db m) name = Inr a"
  shows "Machine_Ensure ok' ev name m' = (m', Inl ErrPoweredOff) \<and> signalAgent ok' name m' = Some ErrPoweredOff \<and>
     (r = None \<longrightarrow> unit_of m' (a_ID a) = \<lparr>un_enabled = False, un_active = False\<rparr>) \<and>
     Store_App (mc_db (fst (powerOn ok' ev name m'))) name = Inr (a\<lparr>a_PoweredOff := False\<rparr>)"
proof -
  let ?d = "SetAppPoweredOff (mc_db m) name True"
  have db: "mc_db m' = ?d"
    using assms by (auto simp: Machine_Down_def Let_def unit_disable_def split: prod.splits if_splits)
  have off: "Store_App (mc_db m') name = Inr (a\<lparr>a_PoweredOff := True\<rparr>)"
    using SetAppPoweredOff_read[OF assms(2)] db by simp
  have on: "Store_App (SetAppPoweredOff (mc_db m') name False) name = Inr (a\<lparr>a_PoweredOff := False\<rparr>)"
    using SetAppPoweredOff_read[OF off] by simp
  have "AppID (m\<lparr>mc_db := ?d\<rparr>) name = a_ID a"
    using SetAppPoweredOff_read[OF assms(2)] by (simp add: AppID_def)
  then have "r = None \<longrightarrow> unit_of m' (a_ID a) = \<lparr>un_enabled = False, un_active = False\<rparr>"
    using assms by (auto simp: Machine_Down_def Let_def unit_disable_def split: prod.splits if_splits)
  moreover have "mc_db (fst (powerOn ok' ev name m')) = SetAppPoweredOff (mc_db m') name False"
    using on by (auto simp: powerOn_def Let_def unit_enable_def split: prod.splits bool.splits)
  ultimately show ?thesis
    using off on by (simp add: Machine_Ensure_def signalAgent_def)
qed

section \<open>Renaming\<close>

lemma ConfigHash_ignores_name:
  "ConfigHash ev (CreateArgs ev conf (a\<lparr>a_Name := n\<rparr>) mb milli uid) = ConfigHash ev (CreateArgs ev conf a mb milli uid)"
  by (simp add: ConfigHash_def CreateArgs_def ContainerName_def ContainerPrefix_def)

lemma renameUser_only: "\<exists>acc. fst (renameUser ok busy n k o' n' m) = m\<lparr>mc_accounts := acc\<rparr>"
proof (induction n arbitrary: k)
  case 0
  have "m = m\<lparr>mc_accounts := mc_accounts m\<rparr>" by simp
  then show ?case by (metis renameUser.simps(1) fst_conv)
next
  case (Suc n)
  have "m = m\<lparr>mc_accounts := mc_accounts m\<rparr>" by simp
  then show ?case
    using Suc by (auto split: option.splits intro: exI[of _ "mc_accounts m"])
qed

lemma unit_ops_caches [simp]:
  "mc_memoryMB (fst (unit_stop ok i m)) = mc_memoryMB m" "mc_cpuMilli (fst (unit_stop ok i m)) = mc_cpuMilli m"
  "mc_memoryMB (fst (unit_start ok i m)) = mc_memoryMB m" "mc_cpuMilli (fst (unit_start ok i m)) = mc_cpuMilli m"
  "mc_containers (fst (unit_stop ok i m)) = mc_containers m" "mc_containers (fst (unit_start ok i m)) = mc_containers m"
  by (simp_all add: unit_stop_def unit_start_def)

lemma Rename_effect:
  assumes "Machine_Rename ok busy oldName newName i m = (m', None)"
  shows "mc_memoryMB m' = move_key oldName newName (mc_memoryMB m)" "mc_cpuMilli m' = mc_cpuMilli m" "mc_containers m' = mc_containers m"
    "mc_db m' = mc_db m"
proof -
  let ?m1 = "if isActive_app m oldName then fst (unit_stop ok i m) else m"
  obtain m2 where "renameUser ok busy 15 0 oldName newName ?m1 = (m2, True)"
    and m': "m' = (if isActive_app m oldName then fst (unit_start ok i (renameCaches oldName newName m2)) else renameCaches oldName newName m2)"
    using assms by (auto simp: Machine_Rename_def Let_def split: prod.splits bool.splits)
  then obtain acc where "m2 = ?m1\<lparr>mc_accounts := acc\<rparr>"
    using renameUser_only[of ok busy 15 0 oldName newName ?m1] by auto
  then show "mc_memoryMB m' = move_key oldName newName (mc_memoryMB m)" "mc_cpuMilli m' = mc_cpuMilli m" "mc_containers m' = mc_containers m"
    "mc_db m' = mc_db m"
    using m' by (simp_all add: renameCaches_def)
qed

text \<open>Renaming an app keeps its container, but drops its CPU cap. The configuration the node wants for the renamed app has the memory cap it had and no
  CPU cap at all: \<open>renameCaches\<close> carries two of the three limits over. So the container is taken for current exactly if the app had no
  CPU cap to lose; otherwise the next deploy or reboot before control asserts the limits again rebuilds it uncapped.\<close>

lemma Rename_drops_cpu_cap:
  assumes "Machine_Rename ok busy oldName newName i m = (m', None)" and "oldName \<noteq> newName" and "a_Name a = oldName"
    and "mc_memoryMB m oldName = Some mb" and "mc_cpuMilli m oldName = Some milli" and "mc_cpuMilli m newName = None"
    and "map_of (mc_containers m) i = Some c" and "TrimSpace (ct_label c) = ConfigHash ev (desired_args ev m a conf uid)"
  shows "desired_args ev m' (a\<lparr>a_Name := newName\<rparr>) conf uid = CreateArgs ev conf (a\<lparr>a_Name := newName\<rparr>) mb 0 uid \<and>
     (container_matches ev m' i (desired_args ev m' (a\<lparr>a_Name := newName\<rparr>) conf uid) \<longleftrightarrow>
      ConfigHash ev (CreateArgs ev conf a mb milli uid) = ConfigHash ev (CreateArgs ev conf a mb 0 uid))"
proof -
  have "desired_args ev m' (a\<lparr>a_Name := newName\<rparr>) conf uid = CreateArgs ev conf (a\<lparr>a_Name := newName\<rparr>) mb 0 uid"
    using Rename_effect[OF assms(1)] assms(2-6) by (simp add: desired_args_def limit_of_def move_key_def)
  moreover have "desired_args ev m a conf uid = CreateArgs ev conf a mb milli uid"
    using assms(3-5) by (simp add: desired_args_def limit_of_def)
  ultimately show ?thesis
    using assms(7,8) Rename_effect(3)[OF assms(1)] by (auto simp: container_matches_def ConfigHash_ignores_name)
qed

subsection \<open>Samples\<close>

definition wiki_machine :: machine where
  "wiki_machine = bare_machine\<lparr>mc_db := small_db, mc_pool := [(''app_2'', Subvol wiki_tree)],
     mc_accounts := [(''wiki'', \<lparr>ac_Home = ''/srv/apps/app_2/home/app'', ac_UID = 1065536\<rparr>)]\<rparr>"

text \<open>A stand-in for the digest.\<close>

definition hash_env :: node_env where
  "hash_env = sample_env\<lparr>ne_digest := (\<lambda>s. ''#'' @ s @ ''#'')\<rparr>"

lemma hash_env_trim: "TrimSpace (ne_digest hash_env s) = ne_digest hash_env s"
  by (simp add: hash_env_def TrimSpace_def is_space_def)

definition wiki_app :: App where
  "wiki_app = second_app\<lparr>a_Private := True\<rparr>"

lemma wiki_machine_app: "Store_App (mc_db wiki_machine) ''wiki'' = Inr wiki_app" "a_Name wiki_app = ''wiki''" "a_ID wiki_app = ''app_2''"
  by (simp_all add: wiki_machine_def wiki_app_def Store_App_def small_db_def sample_defs)

lemma Down_is_kept_witness:
  "Machine_Ensure (\<lambda>_. True) sample_env ''wiki'' (fst (Machine_Down (\<lambda>_. False) ''wiki'' wiki_machine)) =
     (fst (Machine_Down (\<lambda>_. False) ''wiki'' wiki_machine), Inl ErrPoweredOff)"
  by (rule Down_is_kept[OF prod.collapse[symmetric] wiki_machine_app(1), THEN conjunct1])

lemma itoa_no_nul: "CHR 0x00 \<notin> set (itoa i)"
  using show_nat_digits[of "nat i"] show_nat_digits[of "nat (- i)"]
  by (auto simp: itoa_def list_all_iff is_digit_def)

lemma wiki_args_no_nul: "no_nul (desired_args hash_env wiki_machine wiki_app None uid)"
  by (simp add: no_nul_def desired_args_def CreateArgs_def id_map_def itoa_no_nul limit_of_def limit_args_def wiki_machine_def bare_machine_def wiki_app_def
      hash_env_def sample_env_def second_app_def ContainerName_def ContainerPrefix_def ContainerHome_def env_args_def appendCommonMounts_def HostBinFile_def
      ContainerBinFile_def ContainerRunDir_def filepath_Dir_def)

lemma wiki_node_ok: "LookupIDs wiki_machine ''wiki'' = Some 1065536" "containers_made hash_env wiki_machine" "inj (ne_digest hash_env)"
    "limit_of (mc_memoryMB wiki_machine) n = 0" "limit_of (mc_cpuMilli wiki_machine) n = 0"
  by (simp_all add: LookupIDs_def wiki_machine_def bare_machine_def containers_made_def hash_env_def inj_def limit_of_def)

theorem apply_converges_witness:
  "\<exists>m' msg c args. Machine_apply (\<lambda>_. True) hash_env wiki_app None True wiki_machine = (m', Inr msg) \<and>
     map_of (mc_containers m') ''app_2'' = Some c \<and> ct_args c = WithConfigLabel args (ConfigHash hash_env args) \<and>
     hashable args = hashable (CreateArgs hash_env None wiki_app 0 0 1065536) \<and>
     Machine_apply (\<lambda>_. False) hash_env wiki_app None True m' = (m', Inr UpToDate)"
proof -
  let ?r = "Machine_apply (\<lambda>_. True) hash_env wiki_app None True wiki_machine"
  have "\<exists>msg. snd ?r = Inr msg"
    using wiki_machine_app
    by (simp add: Machine_apply_def LookupIDs_def wiki_machine_def bare_machine_def EnsureAppSubvolume_def Let_def container_matches_def AppID_def
        recreate_def unit_stop_def ctr_remove_def unit_set_def apply_start_def isActive_app_def unit_of_def unit_enable_def)
  then obtain m' msg where r: "?r = (m', Inr msg)"
    by (metis prod.collapse)
  then show ?thesis
    using apply_converges[OF r _ hash_env_trim wiki_node_ok(3,2) wiki_args_no_nul, of "\<lambda>_. False"] wiki_machine_app
    by (auto simp: wiki_node_ok)
qed

text \<open>The wiki with half a CPU and 256 MB, about to become \<open>docs\<close>.\<close>

definition capped_machine :: machine where
  "capped_machine = wiki_machine\<lparr>mc_memoryMB := [''wiki'' \<mapsto> 256], mc_cpuMilli := [''wiki'' \<mapsto> 500],
     mc_containers := [(''app_2'', \<lparr>ct_args = [], ct_label = ConfigHash hash_env (CreateArgs hash_env None wiki_app 256 500 1065536)\<rparr>)]\<rparr>"

lemma Rename_drops_cpu_cap_witness:
  "\<exists>m'. Machine_Rename (\<lambda>_. True) (\<lambda>_. False) ''wiki'' ''docs'' ''app_2'' capped_machine = (m', None) \<and>
     \<not> container_matches hash_env m' ''app_2'' (desired_args hash_env m' (wiki_app\<lparr>a_Name := ''docs''\<rparr>) None 1065536)"
proof -
  let ?r = "Machine_Rename (\<lambda>_. True) (\<lambda>_. False) ''wiki'' ''docs'' ''app_2'' capped_machine"
  have "snd ?r = None"
    using wiki_machine_app
    by (simp add: Machine_Rename_def isActive_app_def capped_machine_def unit_of_def wiki_machine_def bare_machine_def numeral_nat Let_def)
  then obtain m' where r: "?r = (m', None)"
    by (metis prod.collapse)
  have "ConfigHash hash_env (CreateArgs hash_env None wiki_app 256 500 1065536) \<noteq> ConfigHash hash_env (CreateArgs hash_env None wiki_app 256 0 1065536)"
    by (simp add: ConfigHash_def CreateArgs_def ContainerName_def ContainerPrefix_def limit_args_def hash_env_def)
  moreover have "TrimSpace (ConfigHash hash_env (CreateArgs hash_env None wiki_app 256 500 1065536)) =
      ConfigHash hash_env (desired_args hash_env capped_machine wiki_app None 1065536)"
    by (simp add: ConfigHash_def hash_env_trim desired_args_def limit_of_def capped_machine_def wiki_machine_app)
  ultimately have "\<not> container_matches hash_env m' ''app_2'' (desired_args hash_env m' (wiki_app\<lparr>a_Name := ''docs''\<rparr>) None 1065536)"
    using Rename_drops_cpu_cap[OF r, of wiki_app 256 500, where ev = hash_env and conf = None and uid = 1065536, THEN conjunct2] wiki_machine_app
    by (simp add: capped_machine_def)
  then show ?thesis
    using r by blast
qed

end
