(* ===== verification/Node_Snapshots.thy ===== *)
theory Node_Snapshots
  imports Node_Power Retention
begin

text \<open>
  Running a command in an app (\<open>node/machine_exec.go\<close>), snapshots, deploy and rollback on a node (\<open>snapshot/service.go\<close>, \<open>node/machine_snapshot.go\<close>,
  \<open>up\<close> of \<open>node/machine_deploy.go\<close>, \<open>node/machine_upgrade.go\<close>). What a command does inside a container is a parameter: from the app's id, the
  time it may take, the command and the app's files it gives the files it leaves, how it ended and what it printed. The moment and the random part of
  an id are arguments.

  The lemmas show that a command is bounded, that an app keeps a tree through a rollback that fails, which tree that is, and that what was replaced is
  recorded in a snapshot; and where the machine does not do what it says.
\<close>

section \<open>Commands in a container\<close>

datatype exec_err = NoErr | ExitErr int | OtherErr

record exec_outcome =
  eo_files :: fs
  eo_err :: exec_err
  eo_out :: string
  eo_slow :: bool

record ExecResult =
  er_ExitCode :: int
  er_Output :: string
  er_Truncated :: bool
  er_TimedOut :: bool

definition ExecDefaultTimeout :: int where "ExecDefaultTimeout = 60 * 1000000000"
definition ExecMaxTimeout :: int where "ExecMaxTimeout = 5 * 60 * 1000000000"
definition ExecMaxOutput :: nat where "ExecMaxOutput = 256 * 1024"
definition ExecTimeoutExitCode :: int where "ExecTimeoutExitCode = 124"
definition execTailKept :: nat where "execTailKept = ExecMaxOutput"

definition execTimeout :: "int \<Rightarrow> int" where
  "execTimeout requested = (if requested \<le> 0 then ExecDefaultTimeout else min requested ExecMaxTimeout)"

definition capOutput :: "string \<Rightarrow> string \<times> bool" where
  "capOutput out =
     (if length out \<le> ExecMaxOutput then (out, False)
      else (''[...truncated, showing the last '' @ itoa (int execTailKept) @ '' bytes...]'' @ [newline] @ drop (length out - execTailKept) out, True))"

definition exitCode :: "exec_err \<Rightarrow> int" where
  "exitCode e = (case e of NoErr \<Rightarrow> 0 | ExitErr c \<Rightarrow> c | OtherErr \<Rightarrow> -1)"

type_synonym runner = "string \<Rightarrow> int \<Rightarrow> string \<Rightarrow> fs \<Rightarrow> exec_outcome"

text \<open>The command gets whole seconds.\<close>

definition Machine_Exec :: "(hcall \<Rightarrow> bool) \<Rightarrow> node_env \<Rightarrow> runner \<Rightarrow> string \<Rightarrow> string \<Rightarrow> int \<Rightarrow> machine \<Rightarrow> machine \<times> ExecResult res" where
  "Machine_Exec ok ev run name command timeout m =
     (case Machine_Ensure ok ev name m of
        (m1, Inl e) \<Rightarrow> (m1, Inl e)
      | (m1, Inr _) \<Rightarrow>
          if TrimSpace command = [] then (m1, Inl ErrInvalid)
          else let i = AppID m1 name;
                   o' = run i (execTimeout timeout div 1000000000) (TrimSpace command) (case pool_subvol m1 i of None \<Rightarrow> Map.empty | Some s \<Rightarrow> home_files s);
                   code = exitCode (eo_err o')
               in (fst (edit_home i (\<lambda>_. (eo_files o', True)) m1),
                   Inr \<lparr>er_ExitCode = code, er_Output = fst (capOutput (eo_out o')), er_Truncated = snd (capOutput (eo_out o')),
                        er_TimedOut = (code = ExecTimeoutExitCode \<or> eo_err o' \<noteq> NoErr \<and> eo_slow o')\<rparr>))"

section \<open>Snapshots\<close>

definition snapshotHookTimeout :: int where "snapshotHookTimeout = 30 * 1000000000"
definition preDeploySnapshotLabel :: string where "preDeploySnapshotLabel = ''Automated snapshot before deploy''"

definition format_stamp :: "int \<Rightarrow> string" where
  "format_stamp t =
     (let n = unix_day t; s = t mod 86400
      in pad 4 (year_of n) @ pad 2 (month_of n) @ pad 2 (mday_of n) @ ''-'' @ pad 2 (s div 3600) @ pad 2 (s div 60 mod 60) @ pad 2 (s mod 60))"

definition snapshotID :: "int \<Rightarrow> string \<Rightarrow> string" where
  "snapshotID t suffix = format_stamp t @ ''-'' @ suffix"

definition snapshotKind :: "bool \<Rightarrow> string" where
  "snapshotKind auto = (if auto then ''auto'' else ''manual'')"

definition SnapshotHooks_of :: "node_env \<Rightarrow> machine \<Rightarrow> string \<Rightarrow> string \<times> string" where
  "SnapshotHooks_of ev m name =
     (case LoadAppConfig ev m name of None \<Rightarrow> ([], []) | Some c \<Rightarrow> (sh_Pre (hc_Snapshot c), sh_Post (hc_Snapshot c)))"

definition RunHook :: "(hcall \<Rightarrow> bool) \<Rightarrow> node_env \<Rightarrow> runner \<Rightarrow> string \<Rightarrow> string \<Rightarrow> machine \<Rightarrow> machine \<times> int res" where
  "RunHook ok ev run name command m =
     (case Machine_Exec ok ev run name command snapshotHookTimeout m of (m1, Inl e) \<Rightarrow> (m1, Inl e) | (m1, Inr r) \<Rightarrow> (m1, Inr (er_ExitCode r)))"

definition BudgetGroup :: "machine \<Rightarrow> string \<Rightarrow> string" where
  "BudgetGroup m name = (case LookupIDs m name of None \<Rightarrow> [] | Some uid \<Rightarrow> budgetGroup uid)"

definition snap_path :: "string \<Rightarrow> string \<Rightarrow> string" where
  "snap_path i s = ''.snapshots/'' @ i @ ''/'' @ s"

text \<open>A read-only snapshot of the app's subvolume. Nothing can be made inside one that is there already.\<close>

definition snap_create :: "(hcall \<Rightarrow> bool) \<Rightarrow> string \<Rightarrow> string \<Rightarrow> string \<Rightarrow> machine \<Rightarrow> machine \<times> bool" where
  "snap_create ok i s qg m =
     (case pool_subvol m i of None \<Rightarrow> (m, False)
      | Some t \<Rightarrow>
          if ok (SubvolSnapshot (snap_path i s)) \<and> map_of (mc_snaps m) (i, s) = None
          then (m\<lparr>mc_snaps := AList.update (i, s) (t\<lparr>sb_group := qg\<rparr>) (mc_snaps m)\<rparr>, True) else (m, False))"

definition snap_delete :: "(hcall \<Rightarrow> bool) \<Rightarrow> string \<Rightarrow> string \<Rightarrow> machine \<Rightarrow> machine \<times> bool" where
  "snap_delete ok i s m =
     (if ok (SnapDelete i s) \<and> map_of (mc_snaps m) (i, s) \<noteq> None then (m\<lparr>mc_snaps := AList.delete (i, s) (mc_snaps m)\<rparr>, True) else (m, False))"

definition run_pre :: "(hcall \<Rightarrow> bool) \<Rightarrow> node_env \<Rightarrow> runner \<Rightarrow> string \<Rightarrow> string \<Rightarrow> machine \<Rightarrow> machine \<times> err option" where
  "run_pre ok ev run name pre m =
     (if pre = [] then (m, None)
      else case RunHook ok ev run name pre m of
        (m1, Inl e) \<Rightarrow> (m1, Some (ErrText ''snapshot pre hook could not run''))
      | (m1, Inr code) \<Rightarrow> (m1, if code \<noteq> 0 then Some (ErrText ''snapshot pre hook failed'') else None))"

definition run_post :: "(hcall \<Rightarrow> bool) \<Rightarrow> node_env \<Rightarrow> runner \<Rightarrow> string \<Rightarrow> string \<Rightarrow> machine \<Rightarrow> machine" where
  "run_post ok ev run name post m = (if post = [] then m else fst (RunHook ok ev run name post m))"

definition takeSnapshot ::
  "(hcall \<Rightarrow> bool) \<Rightarrow> node_env \<Rightarrow> runner \<Rightarrow> int \<Rightarrow> string \<Rightarrow> string \<Rightarrow> string \<Rightarrow> bool \<Rightarrow> machine \<Rightarrow> machine \<times> Snapshot res" where
  "takeSnapshot ok ev run now rid name label auto m =
     (case Store_App (mc_db m) name of Inl e \<Rightarrow> (m, Inl e)
      | Inr _ \<Rightarrow>
          (case SnapshotHooks_of ev m name of (pre, post) \<Rightarrow>
            (case run_pre ok ev run name pre m of
               (m1, Some e) \<Rightarrow> (m1, Inl e)
             | (m1, None) \<Rightarrow>
                 let i = AppID m1 name; s = snapshotID now (snapshotKind auto @ ''-'' @ rid)
                 in if \<not> ok (SubvolMkdir (''.snapshots/'' @ i)) then (m1, Inl (ErrText ''mkdir''))
                    else case snap_create ok i s (BudgetGroup m1 name) m1 of
                      (m2, False) \<Rightarrow> (m2, Inl (ErrText ''cannot snapshot the app subvolume''))
                    | (m2, True) \<Rightarrow>
                        let snap = \<lparr>s_ID = s, s_AppName = name, s_Label = label, s_CreatedAt = Some now, s_Auto = auto\<rparr>
                        in case AddSnapshot (mc_db m2) snap of
                             Inl e \<Rightarrow> (fst (snap_delete ok i s m2), Inl e)
                           | Inr d \<Rightarrow> (run_post ok ev run name post (m2\<lparr>mc_db := d\<rparr>), Inr snap))))"

definition PreDeploySnapshot :: "(hcall \<Rightarrow> bool) \<Rightarrow> node_env \<Rightarrow> runner \<Rightarrow> int \<Rightarrow> string \<Rightarrow> string \<Rightarrow> machine \<Rightarrow> machine" where
  "PreDeploySnapshot ok ev run now rid name m = fst (takeSnapshot ok ev run now rid name preDeploySnapshotLabel True m)"

definition Machine_DeleteSnapshot :: "(hcall \<Rightarrow> bool) \<Rightarrow> string \<Rightarrow> string \<Rightarrow> machine \<Rightarrow> machine \<times> err option" where
  "Machine_DeleteSnapshot ok name sid m =
     (case Store_Snapshot (mc_db m) sid of Inl e \<Rightarrow> (m, Some e)
      | Inr snap \<Rightarrow>
          if s_AppName snap \<noteq> name then (m, Some ErrSnapshotNotFound)
          else case snap_delete ok (AppID m name) sid m of
            (m1, False) \<Rightarrow> (m1, Some (ErrText ''cannot delete the snapshot subvolume''))
          | (m1, True) \<Rightarrow> (m1\<lparr>mc_db := DeleteSnapshot (mc_db m1) sid\<rparr>, None))"

section \<open>Deploy and rollback\<close>

text \<open>\<open>up\<close>: the waiting of \<open>Up\<close> for the port afterwards changes nothing.\<close>

definition Machine_up ::
  "(hcall \<Rightarrow> bool) \<Rightarrow> node_env \<Rightarrow> runner \<Rightarrow> int \<Rightarrow> string \<Rightarrow> string \<Rightarrow> bool \<Rightarrow> machine \<Rightarrow> machine \<times> deploy_msg res" where
  "Machine_up ok ev run now rid name snapshot m =
     (case Store_App (mc_db m) name of Inl e \<Rightarrow> (m, Inl e)
      | Inr a \<Rightarrow>
          (case LoadAppConfig ev m name of None \<Rightarrow> (m, Inl ErrInvalid)
           | Some conf \<Rightarrow> Machine_apply ok ev a (Some conf) True (if snapshot then PreDeploySnapshot ok ev run now rid name m else m)))"

fun up_all :: "(hcall \<Rightarrow> bool) \<Rightarrow> node_env \<Rightarrow> runner \<Rightarrow> int \<Rightarrow> (string \<Rightarrow> string) \<Rightarrow> App list \<Rightarrow> machine \<Rightarrow> machine \<times> string list" where
  "up_all ok ev run now rid [] m = (m, [])"
| "up_all ok ev run now rid (a # rest) m =
     (if a_PoweredOff a then up_all ok ev run now rid rest m
      else case Machine_up ok ev run now (rid (a_Name a)) (a_Name a) True m of
        (m1, Inl e) \<Rightarrow> up_all ok ev run now rid rest m1
      | (m1, Inr _) \<Rightarrow> (case up_all ok ev run now rid rest m1 of (m2, l) \<Rightarrow> (m2, a_Name a # l)))"

definition settingAgentVersion :: string where "settingAgentVersion = ''agent_version''"

definition RestartStaleAgents ::
  "(hcall \<Rightarrow> bool) \<Rightarrow> node_env \<Rightarrow> runner \<Rightarrow> int \<Rightarrow> (string \<Rightarrow> string) \<Rightarrow> string \<Rightarrow> machine \<Rightarrow> machine \<times> string list" where
  "RestartStaleAgents ok ev run now rid version m =
     (if Setting (mc_db m) settingAgentVersion = version then (m, [])
      else case up_all ok ev run now rid (Apps (mc_db m)) m of
        (m1, l) \<Rightarrow> (m1\<lparr>mc_db := SetSetting (mc_db m1) settingAgentVersion version\<rparr>, l))"

definition rollbackStagedSuffix :: string where "rollbackStagedSuffix = ''.rollback-staged''"
definition rollbackOldSuffix :: string where "rollbackOldSuffix = ''.rollback-old''"

text \<open>The swap, once the container is gone: the error and whether the app may come up again.\<close>

definition rollback_swap :: "(hcall \<Rightarrow> bool) \<Rightarrow> string \<Rightarrow> machine \<Rightarrow> machine \<times> err option" where
  "rollback_swap ok i m =
     (let staged = i @ rollbackStagedSuffix; old = i @ rollbackOldSuffix
      in case subvol_move ok i old (fst (subvol_delete ok 3 old m)) of
           (m1, False) \<Rightarrow> (fst (subvol_delete ok 2 staged m1), Some (ErrText ''cannot move the current app subvolume aside''))
         | (m1, True) \<Rightarrow>
             (case subvol_move ok staged i m1 of
                (m2, False) \<Rightarrow> (fst (subvol_move ok old i m2), Some (ErrText ''cannot put the restored app subvolume in place''))
              | (m2, True) \<Rightarrow> (fst (subvol_delete ok 4 old m2), None)))"

definition Rollback ::
  "(hcall \<Rightarrow> bool) \<Rightarrow> node_env \<Rightarrow> runner \<Rightarrow> int \<Rightarrow> string \<Rightarrow> string \<Rightarrow> string \<Rightarrow> machine \<Rightarrow> machine \<times> err option" where
  "Rollback ok ev run now rid name sid m =
     (case Store_Snapshot (mc_db m) sid of Inl e \<Rightarrow> (m, Some e)
      | Inr snap \<Rightarrow>
          if s_AppName snap \<noteq> name then (m, Some ErrSnapshotNotFound)
          else case Store_App (mc_db m) name of Inl e \<Rightarrow> (m, Some e)
          | Inr _ \<Rightarrow>
              let i = AppID m name; staged = i @ rollbackStagedSuffix
              in case subvol_snapshot ok (map_of (mc_snaps m) (i, sid)) staged (BudgetGroup m name) (fst (subvol_delete ok 0 staged m)) of
                   (m1, False) \<Rightarrow> (m1, Some (ErrText ''cannot stage the snapshot for rollback''))
                 | (m1, True) \<Rightarrow>
                     (case takeSnapshot ok ev run now rid name (''Before rolling back to snapshot '' @ sid) True m1 of
                        (m2, Inl e) \<Rightarrow> (fst (subvol_delete ok 1 staged m2), Some (ErrText ''cannot take a safety snapshot before rolling back''))
                      | (m2, Inr _) \<Rightarrow>
                          (case rollback_swap ok i (fst (ctr_remove ok i (fst (unit_disable ok i m2)))) of
                             (m3, Some e) \<Rightarrow> (m3, Some e)
                           | (m3, None) \<Rightarrow>
                               (case Machine_up ok ev run now rid name False m3 of (m4, Inl e) \<Rightarrow> (m4, Some e) | (m4, Inr _) \<Rightarrow> (m4, None)))))"

section \<open>Commands are bounded\<close>

lemma execTimeout_bounds: "0 < execTimeout t" "execTimeout t \<le> ExecMaxTimeout"
  by (simp_all add: execTimeout_def ExecDefaultTimeout_def ExecMaxTimeout_def)

lemma itoa_ExecMaxOutput: "length (itoa (int ExecMaxOutput)) = 6"
  by (simp add: itoa_def ExecMaxOutput_def show_nat.simps)

lemma capOutput_tail:
  "\<exists>h. length h \<le> 64 \<and> fst (capOutput out) = h @ drop (length out - ExecMaxOutput) out \<and> snd (capOutput out) = (ExecMaxOutput < length out)"
proof (cases "length out \<le> ExecMaxOutput")
  case True
  then show ?thesis
    by (intro exI[of _ "[]"]) (simp add: capOutput_def)
next
  case False
  then show ?thesis
    by (intro exI[of _ "''[...truncated, showing the last '' @ itoa (int execTailKept) @ '' bytes...]'' @ [newline]"])
      (simp add: capOutput_def execTailKept_def itoa_ExecMaxOutput)
qed

lemma Machine_Exec_ran:
  assumes "Machine_Exec ok ev run name command t m = (m', Inr r)"
  obtains out where "er_Output r = fst (capOutput out)" "er_Truncated r = snd (capOutput out)"
  using assms by (auto simp: Machine_Exec_def Let_def split: prod.splits sum.splits if_splits)

section \<open>Taking a snapshot\<close>

lemma take_keeps:
  assumes "takeSnapshot ok ev run now rid name label auto m = (m', r)" and "SnapshotHooks_of ev m name = ([], [])"
  shows "mc_pool m' = mc_pool m" "mc_accounts m' = mc_accounts m" "mc_units m' = mc_units m" "mc_containers m' = mc_containers m"
    "app_tbl (mc_db m') = app_tbl (mc_db m)"
  using assms
  by (auto simp: takeSnapshot_def run_pre_def run_post_def snap_create_def snap_delete_def AddSnapshot_def Let_def
      split: sum.splits prod.splits option.splits if_splits bool.splits)

lemma take_snaps:
  assumes "takeSnapshot ok ev run now rid name label auto m = (m', r)" and "SnapshotHooks_of ev m name = ([], [])"
    and "map_of (mc_snaps m) k = Some t"
  shows "map_of (mc_snaps m') k = Some t"
  using assms
  by (auto simp: takeSnapshot_def run_pre_def run_post_def snap_create_def snap_delete_def AddSnapshot_def Let_def update_conv' delete_conv'
      split: sum.splits prod.splits option.splits if_splits bool.splits)

lemma take_captures:
  assumes "takeSnapshot ok ev run now rid name label auto m = (m', Inr snap)" and "SnapshotHooks_of ev m name = ([], [])"
    and "Store_App (mc_db m) name = Inr a"
  shows "\<exists>s. pool_subvol m (a_ID a) = Some s \<and> map_of (mc_snaps m) (a_ID a, s_ID snap) = None \<and>
     map_of (mc_snaps m') (a_ID a, s_ID snap) = Some (s\<lparr>sb_group := BudgetGroup m name\<rparr>) \<and> s_Label snap = label \<and>
     (\<exists>row \<in> set (snapshot_tbl (mc_db m')). s_ID row = s_ID snap \<and> s_app_id row = app_id_or_empty (mc_db m) name)"
proof -
  let ?i = "a_ID a" and ?s = "snapshotID now (snapshotKind auto @ ''-'' @ rid)"
  have i: "AppID m name = ?i"
    using assms(3) by (simp add: AppID_def)
  obtain m2 where c: "snap_create ok ?i ?s (BudgetGroup m name) m = (m2, True)"
    and add: "AddSnapshot (mc_db m2) snap = Inr (mc_db m')" "mc_snaps m' = mc_snaps m2"
    and snap: "snap = \<lparr>s_ID = ?s, s_AppName = name, s_Label = label, s_CreatedAt = Some now, s_Auto = auto\<rparr>"
    using assms i
    by (auto simp: takeSnapshot_def run_pre_def run_post_def Let_def split: prod.splits if_splits bool.splits sum.splits)
  have "mc_db m2 = mc_db m"
    using c by (auto simp: snap_create_def split: option.splits if_splits)
  then show ?thesis
    using c add snap i
    by (cases m') (auto simp: snap_create_def AddSnapshot_def tbl_insert_def snapshot_row_of_def update_conv' split: option.splits if_splits sum.splits)
qed

section \<open>Rolling back\<close>

lemma suffix_neq [simp]:
  "rollbackStagedSuffix \<noteq> []" "rollbackOldSuffix \<noteq> []" "rollbackStagedSuffix \<noteq> rollbackOldSuffix" "rollbackOldSuffix \<noteq> rollbackStagedSuffix"
  by (simp_all add: rollbackStagedSuffix_def rollbackOldSuffix_def)

lemma subvol_frame [simp]:
  "mc_snaps (fst (subvol_delete ok n i m)) = mc_snaps m" "mc_db (fst (subvol_delete ok n i m)) = mc_db m" "mc_accounts (fst (subvol_delete ok n i m)) = mc_accounts m"
  "mc_snaps (fst (subvol_move ok i j m)) = mc_snaps m" "mc_db (fst (subvol_move ok i j m)) = mc_db m" "mc_accounts (fst (subvol_move ok i j m)) = mc_accounts m"
  "mc_units (fst (subvol_delete ok n i m)) = mc_units m" "mc_units (fst (subvol_move ok i j m)) = mc_units m"
  "mc_containers (fst (subvol_delete ok n i m)) = mc_containers m" "mc_containers (fst (subvol_move ok i j m)) = mc_containers m"
  by (simp_all add: subvol_delete_def subvol_move_def split: option.splits entry.splits)

lemma subvol_delete_other: "j \<noteq> i \<Longrightarrow> map_of (mc_pool (fst (subvol_delete ok n i m))) j = map_of (mc_pool m) j"
  by (simp add: subvol_delete_def split: option.splits entry.splits)

lemma subvol_delete_absent: "map_of (mc_pool m) i = None \<Longrightarrow> subvol_delete ok n i m = (m, False)"
  by (simp add: subvol_delete_def)

lemma subvol_move_free:
  "map_of (mc_pool m) i = Some e \<Longrightarrow> map_of (mc_pool m) j = None \<Longrightarrow>
   subvol_move ok i j m = (if ok (SubvolMove i j) then (pool_set j e (pool_drop i m), True) else (m, False))"
  by (simp add: subvol_move_def)

text \<open>What the swap does to the app's own entry and to the two names beside it.\<close>

lemma rollback_swap_effect:
  assumes "rollback_swap ok i m = (m', r)" and "map_of (mc_pool m) i = Some (Subvol live)"
    and "map_of (mc_pool m) (i @ rollbackStagedSuffix) = Some (Subvol st)" and "map_of (mc_pool m) (i @ rollbackOldSuffix) = None"
  shows "r = None \<Longrightarrow> map_of (mc_pool m') i = Some (Subvol st)"
    "r \<noteq> None \<Longrightarrow> ok (SubvolMove (i @ rollbackOldSuffix) i) \<Longrightarrow> map_of (mc_pool m') i = Some (Subvol live)"
    "r \<noteq> None \<Longrightarrow> map_of (mc_pool m') i \<noteq> Some (Subvol live) \<Longrightarrow> map_of (mc_pool m') i = None \<and> map_of (mc_pool m') (i @ rollbackOldSuffix) = Some (Subvol live)"
    "mc_snaps m' = mc_snaps m" "mc_db m' = mc_db m" "mc_accounts m' = mc_accounts m" "mc_units m' = mc_units m" "mc_containers m' = mc_containers m"
proof -
  let ?s = "i @ rollbackStagedSuffix" and ?o = "i @ rollbackOldSuffix"
  let ?m1 = "pool_set ?o (Subvol live) (pool_drop i m)"
  let ?m2 = "pool_set i (Subvol st) (pool_drop ?s ?m1)"
  have mv: "subvol_move ok i ?o m = (if ok (SubvolMove i ?o) then (?m1, True) else (m, False))"
    using assms by (simp add: subvol_move_free)
  have mv2: "subvol_move ok ?s i ?m1 = (if ok (SubvolMove ?s i) then (?m2, True) else (?m1, False))"
    using assms by (intro subvol_move_free) simp_all
  have mv3: "subvol_move ok ?o i ?m1 = (if ok (SubvolMove ?o i) then (pool_set i (Subvol live) (pool_drop ?o ?m1), True) else (?m1, False))"
    using assms by (intro subvol_move_free) simp_all
  have out: "(m', r) =
      (if \<not> ok (SubvolMove i ?o) then (fst (subvol_delete ok 2 ?s m), Some (ErrText ''cannot move the current app subvolume aside''))
       else if \<not> ok (SubvolMove ?s i) then (fst (subvol_move ok ?o i ?m1), Some (ErrText ''cannot put the restored app subvolume in place''))
       else (fst (subvol_delete ok 4 ?o ?m2), None))"
    using assms(1) unfolding rollback_swap_def Let_def subvol_delete_absent[OF assms(4)] fst_conv mv by (auto simp: mv2 simp del: host_pool split: if_splits)
  show "r = None \<Longrightarrow> map_of (mc_pool m') i = Some (Subvol st)"
    using out by (auto simp: subvol_delete_other split: if_splits)
  show "r \<noteq> None \<Longrightarrow> ok (SubvolMove ?o i) \<Longrightarrow> map_of (mc_pool m') i = Some (Subvol live)"
    using out assms(2) by (auto simp: subvol_delete_other mv3 split: if_splits)
  show "r \<noteq> None \<Longrightarrow> map_of (mc_pool m') i \<noteq> Some (Subvol live) \<Longrightarrow> map_of (mc_pool m') i = None \<and> map_of (mc_pool m') ?o = Some (Subvol live)"
    using out assms(2) by (auto simp: subvol_delete_other mv3 split: if_splits)
  show "mc_snaps m' = mc_snaps m" "mc_db m' = mc_db m" "mc_accounts m' = mc_accounts m" "mc_units m' = mc_units m" "mc_containers m' = mc_containers m"
    using out by (auto split: if_splits)
qed

lemma LoadAppConfig_frame:
  "mc_db m' = mc_db m \<Longrightarrow> map_of (mc_pool m') (AppID m name) = map_of (mc_pool m) (AppID m name) \<Longrightarrow> LoadAppConfig ev m' name = LoadAppConfig ev m name"
  by (simp add: LoadAppConfig_def AppID_def pool_subvol_def)

lemma Machine_apply_frame:
  assumes "Machine_apply ok ev a conf r m = (m', x)" and "map_of (mc_pool m) (a_ID a) \<noteq> None"
  shows "mc_pool m' = mc_pool m" "mc_snaps m' = mc_snaps m"
proof -
  have rc: "mc_pool (fst (recreate ok ev a d m)) = mc_pool m" "mc_snaps (fst (recreate ok ev a d m)) = mc_snaps m" for d
    by (simp_all add: recreate_def Let_def unit_stop_def ctr_remove_def split: sum.splits)
  have st: "mc_pool (fst (apply_start ok a conf r b n)) = mc_pool n" "mc_snaps (fst (apply_start ok a conf r b n)) = mc_snaps n" for b n
    by (auto simp: apply_start_def Let_def unit_restart_def unit_enable_def split: prod.splits bool.splits)
  have "EnsureAppSubvolume ok ev (a_ID a) (a_ImageTag a) (budgetGroup (UIDFor (a_Port a))) m = (m, None)"
    using assms(2) by (simp add: EnsureAppSubvolume_def)
  then have "m' = m \<or> (\<exists>b. m' = fst (apply_start ok a conf r b m)) \<or> (\<exists>d. m' = fst (recreate ok ev a d m)) \<or>
      (\<exists>b d. m' = fst (apply_start ok a conf r b (fst (recreate ok ev a d m))))"
    using assms(1) by (auto simp: Machine_apply_def Let_def split: option.splits if_splits prod.splits) (metis fst_conv)+
  then show "mc_pool m' = mc_pool m" "mc_snaps m' = mc_snaps m"
    using rc st by auto
qed

lemma Machine_apply_active:
  assumes "Machine_apply ok ev a conf r m = (m', Inr msg)" and "Store_App (mc_db m) (a_Name a) = Inr a"
  shows "un_active (unit_of m' (a_ID a))"
proof -
  obtain m1 where e: "EnsureAppSubvolume ok ev (a_ID a) (a_ImageTag a) (budgetGroup (UIDFor (a_Port a))) m = (m1, None)"
    using assms(1) by (auto simp: Machine_apply_def split: prod.splits option.splits)
  obtain uid where u: "LookupIDs m (a_Name a) = Some uid"
    using assms(1) by (auto simp: Machine_apply_def split: option.splits)
  obtain m3 r3 where r: "recreate ok ev a (desired_args ev m1 a conf uid) m1 = (m3, r3)"
    by (cases "recreate ok ev a (desired_args ev m1 a conf uid) m1")
  then have "mc_db m3 = mc_db m1"
    using recreate_db[of ok ev a "desired_args ev m1 a conf uid" m1] by simp
  then obtain m2 b where m2: "apply_start ok a conf r b m2 = (m', Inr msg)" "mc_db m2 = mc_db m1"
    using assms(1) e u r by (cases r3) (auto simp: Machine_apply_def Let_def split: if_splits)
  have "mc_db m1 = mc_db m"
    using same_inputs_tree[OF e] by (simp add: same_inputs_def)
  then show ?thesis
    using apply_start_effect(4)[OF m2(1)] m2(2) assms(2) by (simp add: AppID_def)
qed

lemma Machine_up_frame:
  assumes "Machine_up ok ev run now rid name False m = (m', x)" and "map_of (mc_pool m) (AppID m name) \<noteq> None"
  shows "mc_pool m' = mc_pool m" "mc_snaps m' = mc_snaps m" "mc_db m' = mc_db m"
    "x = Inr msg \<Longrightarrow> un_active (unit_of m' (AppID m name))"
proof -
  consider "m' = m" "\<exists>e. x = Inl e" | a c where "Store_App (mc_db m) name = Inr a" "Machine_apply ok ev a (Some c) True m = (m', x)"
    using assms(1) by (auto simp: Machine_up_def split: sum.splits option.splits)
  then have "mc_pool m' = mc_pool m \<and> mc_snaps m' = mc_snaps m \<and> mc_db m' = mc_db m \<and> (x = Inr msg \<longrightarrow> un_active (unit_of m' (AppID m name)))"
  proof cases
    case 2
    then have i: "AppID m name = a_ID a" "a_Name a = name"
      by (simp_all add: AppID_here Store_App_name)
    show ?thesis
      using Machine_apply_frame[OF 2(2)] Machine_apply_db[of ok ev a "Some c" True m] Machine_apply_active[of ok ev a "Some c" True m] 2 i assms(2) by auto
  qed auto
  then show "mc_pool m' = mc_pool m" "mc_snaps m' = mc_snaps m" "mc_db m' = mc_db m" "x = Inr msg \<Longrightarrow> un_active (unit_of m' (AppID m name))"
    by auto
qed

lemma BudgetGroup_frame: "mc_accounts m' = mc_accounts m \<Longrightarrow> BudgetGroup m' name = BudgetGroup m name"
  by (simp add: BudgetGroup_def LookupIDs_def)

lemma power_down_frame [simp]:
  "mc_pool (fst (ctr_remove ok i (fst (unit_disable ok i m)))) = mc_pool m" "mc_snaps (fst (ctr_remove ok i (fst (unit_disable ok i m)))) = mc_snaps m"
  by (simp_all add: ctr_remove_def unit_disable_def)

text \<open>The stages of a rollback that gets as far as the swap; otherwise the tree of the app is what it was.\<close>

lemma Rollback_stages:
  assumes "Rollback ok ev run now rid name sid m = (m', r)" and "Store_App (mc_db m) name = Inr a" and "pool_subvol m (a_ID a) = Some live"
    and "map_of (mc_snaps m) (a_ID a, sid) = Some t" and "SnapshotHooks_of ev m name = ([], [])"
    and "map_of (mc_pool m) (a_ID a @ rollbackStagedSuffix) = None"
  obtains (early) "r \<noteq> None" "pool_subvol m' (a_ID a) = Some live" "map_of (mc_snaps m') (a_ID a, sid) = Some t"
  | (swap) m1 m2 m3 snap x where
      "m1 = pool_set (a_ID a @ rollbackStagedSuffix) (Subvol (t\<lparr>sb_group := BudgetGroup m name\<rparr>)) m"
      "takeSnapshot ok ev run now rid name (''Before rolling back to snapshot '' @ sid) True m1 = (m2, Inr snap)" "SnapshotHooks_of ev m1 name = ([], [])"
      "rollback_swap ok (a_ID a) (fst (ctr_remove ok (a_ID a) (fst (unit_disable ok (a_ID a) m2)))) = (m3, x)"
      "x = None \<and> (\<exists>y. Machine_up ok ev run now rid name False m3 = (m', y) \<and> (r = None) = (\<not> isl y)) \<or> x \<noteq> None \<and> r = x \<and> m' = m3"
proof -
  let ?i = "a_ID a" and ?st = "a_ID a @ rollbackStagedSuffix"
  let ?m1 = "pool_set ?st (Subvol (t\<lparr>sb_group := BudgetGroup m name\<rparr>)) m"
  have i: "AppID m name = ?i"
    using assms(2) by (rule AppID_here)
  have h1: "SnapshotHooks_of ev ?m1 name = ([], [])"
    using assms(5) LoadAppConfig_frame[of ?m1 m name ev] i by (simp add: SnapshotHooks_of_def)
  consider "m' = m" "r \<noteq> None" | s where "Store_Snapshot (mc_db m) sid = Inr s" "s_AppName s = name" "ok (SubvolSnapshot ?st)"
    using assms(1,2,4,6) i
    by (auto simp: Rollback_def Let_def subvol_delete_absent subvol_snapshot_def split: sum.splits if_splits)
  then show thesis
  proof cases
    case 1
    then show thesis
      using early assms(3,4) by simp
  next
    case 2
    obtain m2 y where take: "takeSnapshot ok ev run now rid name (''Before rolling back to snapshot '' @ sid) True ?m1 = (m2, y)"
      by (cases "takeSnapshot ok ev run now rid name (''Before rolling back to snapshot '' @ sid) True ?m1")
    obtain m3 x where sw: "rollback_swap ok ?i (fst (ctr_remove ok ?i (fst (unit_disable ok ?i m2)))) = (m3, x)"
      by (cases "rollback_swap ok ?i (fst (ctr_remove ok ?i (fst (unit_disable ok ?i m2))))")
    have run: "(m', r) = (case y of Inl e \<Rightarrow> (fst (subvol_delete ok 1 ?st m2), Some (ErrText ''cannot take a safety snapshot before rolling back''))
        | Inr _ \<Rightarrow> (case x of Some e \<Rightarrow> (m3, Some e)
            | None \<Rightarrow> (case Machine_up ok ev run now rid name False m3 of (m4, Inl e) \<Rightarrow> (m4, Some e) | (m4, Inr _) \<Rightarrow> (m4, None))))"
      using assms(1,2,4,6) i 2 take sw
      by (auto simp: Rollback_def Let_def subvol_delete_absent subvol_snapshot_def split: sum.splits option.splits)
    show thesis
    proof (cases y)
      case (Inl e)
      then show thesis
        using run early take_keeps(1)[OF take h1] take_snaps[OF take h1, of "(?i, sid)" t] assms(3,4) by (auto simp: subvol_delete_other)
    next
      case (Inr snap)
      then show thesis
        using run swap[OF refl take[unfolded Inr] h1 sw] by (auto split: option.splits prod.splits sum.splits)
    qed
  qed
qed

text \<open>C11: a rollback never loses a tree, whatever command fails, for an app without snapshot hooks and with no tree of an earlier rollback left beside it.
  Either it reports an error and the app has exactly the tree it had; or exactly the tree it had is in a new snapshot that is on record, so
  that the rollback can be undone, and the app has the tree of the snapshot in the app's disk budget - unless the command that moves the old tree back after a failed swap
  failed too, which is reported as an error: then nothing is at the app's place and the old tree is still whole beside it. The
  snapshot rolled back to is kept in every case, and when no error is reported the app is running.\<close>

theorem Rollback_keeps_a_tree:
  assumes "Rollback ok ev run now rid name sid m = (m', r)" and "Store_App (mc_db m) name = Inr a" and "pool_subvol m (a_ID a) = Some live"
    and "map_of (mc_snaps m) (a_ID a, sid) = Some t" and "SnapshotHooks_of ev m name = ([], [])"
    and "map_of (mc_pool m) (a_ID a @ rollbackStagedSuffix) = None" and "map_of (mc_pool m) (a_ID a @ rollbackOldSuffix) = None"
  shows "map_of (mc_snaps m') (a_ID a, sid) = Some t \<and> (r = None \<longrightarrow> un_active (unit_of m' (a_ID a))) \<and>
     (r \<noteq> None \<and> pool_subvol m' (a_ID a) = Some live \<or>
      (pool_subvol m' (a_ID a) = Some (t\<lparr>sb_group := BudgetGroup m name\<rparr>) \<or>
       r \<noteq> None \<and> \<not> ok (SubvolMove (a_ID a @ rollbackOldSuffix) (a_ID a)) \<and> map_of (mc_pool m') (a_ID a) = None \<and>
         pool_subvol m' (a_ID a @ rollbackOldSuffix) = Some live) \<and>
      (\<exists>sid'. map_of (mc_snaps m) (a_ID a, sid') = None \<and> map_of (mc_snaps m') (a_ID a, sid') = Some (live\<lparr>sb_group := BudgetGroup m name\<rparr>) \<and>
         (\<exists>row \<in> set (snapshot_tbl (mc_db m')). s_ID row = sid' \<and> s_app_id row = app_id_or_empty (mc_db m) name)))"
  using assms(1-6)
proof (cases rule: Rollback_stages)
  case early
  then show ?thesis
    by auto
next
  case (swap m1 m2 m3 snap x)
  let ?i = "a_ID a" and ?t = "t\<lparr>sb_group := BudgetGroup m name\<rparr>"
  have m1: "Store_App (mc_db m1) name = Inr a" "pool_subvol m1 ?i = Some live" "mc_snaps m1 = mc_snaps m" "BudgetGroup m1 name = BudgetGroup m name"
    "mc_db m1 = mc_db m" "map_of (mc_pool m1) (?i @ rollbackStagedSuffix) = Some (Subvol ?t)" "map_of (mc_pool m1) (?i @ rollbackOldSuffix) = None"
    using swap(1) assms(2,3,7) BudgetGroup_frame[of m1 m] by simp_all
  note keep = take_keeps[OF swap(2,3)] and cap = take_captures[OF swap(2,3) m1(1), unfolded m1(3,4,5)]
  have sw: "x = None \<Longrightarrow> map_of (mc_pool m3) ?i = Some (Subvol ?t)" "mc_snaps m3 = mc_snaps m2" "mc_db m3 = mc_db m2"
    using rollback_swap_effect(1,4,5)[OF swap(4), of live ?t] m1(2,6,7) keep(1) by simp_all
  have undone: "x \<noteq> None \<Longrightarrow> map_of (mc_pool m3) ?i = Some (Subvol live) \<or>
      \<not> ok (SubvolMove (?i @ rollbackOldSuffix) ?i) \<and> map_of (mc_pool m3) ?i = None \<and> map_of (mc_pool m3) (?i @ rollbackOldSuffix) = Some (Subvol live)"
    using rollback_swap_effect(2,3)[OF swap(4), of live ?t] m1(2,6,7) keep(1) by auto
  have kept: "map_of (mc_snaps m2) (?i, sid) = Some t"
    using take_snaps[OF swap(2,3)] assms(4) m1(3) by simp
  show ?thesis
  proof (cases "x = None")
    case False
    then have "m' = m3" "r \<noteq> None"
      using swap(5) by auto
    then show ?thesis
      using undone[OF False] cap sw(2,3) kept m1(2) by (auto simp: pool_subvol_def)
  next
    case True
    then obtain y where y: "Machine_up ok ev run now rid name False m3 = (m', y)" "(r = None) = (\<not> isl y)"
      using swap(5) by auto
    have "AppID m3 name = ?i"
      using sw(3) keep(5) m1(1) by (simp add: AppID_def Store_App_def)
    then have up: "mc_pool m' = mc_pool m3" "mc_snaps m' = mc_snaps m3" "mc_db m' = mc_db m3" "\<not> isl y \<Longrightarrow> un_active (unit_of m' ?i)"
      using Machine_up_frame[OF y(1)] sw(1)[OF True] by (auto simp: isl_def) (metis obj_sumE)
    then show ?thesis
      using cap sw True kept m1(2) y(2) by auto
  qed
qed

text \<open>The move back is not optional. When it fails too the app has no tree at its place, and the one it had is under a name that the next sweep of the node takes for the
  subvolume of an app that is gone.\<close>

lemma rollback_swap_double_failure:
  assumes "map_of (mc_pool m) i = Some (Subvol live)" "map_of (mc_pool m) (i @ rollbackStagedSuffix) = Some (Subvol st)" "map_of (mc_pool m) (i @ rollbackOldSuffix) = None"
    and "ok (SubvolMove i (i @ rollbackOldSuffix))" "\<not> ok (SubvolMove (i @ rollbackStagedSuffix) i)" "\<not> ok (SubvolMove (i @ rollbackOldSuffix) i)"
  shows "map_of (mc_pool (fst (rollback_swap ok i m))) i = None" "map_of (mc_pool (fst (rollback_swap ok i m))) (i @ rollbackOldSuffix) = Some (Subvol live)"
  using assms by (simp_all add: rollback_swap_def Let_def subvol_delete_absent subvol_move_def)

text \<open>A snapshot's record is dropped only when its tree is gone.\<close>

lemma DeleteSnapshot_all_or_nothing:
  assumes "Machine_DeleteSnapshot ok name sid m = (m', r)"
  shows "r \<noteq> None \<Longrightarrow> m' = m" "r = None \<Longrightarrow> map_of (mc_snaps m') (AppID m name, sid) = None \<and> Store_Snapshot (mc_db m') sid = Inl ErrSnapshotNotFound"
proof -
  have gone: "Store_Snapshot (DeleteSnapshot d sid) sid = Inl ErrSnapshotNotFound" for d
  proof -
    have "tbl_find (\<lambda>r. s_ID r = sid) (filter (\<lambda>r. s_ID r \<noteq> sid) l) = None" for l :: "snapshot_row list"
      by (induction l) auto
    then show ?thesis
      by (simp add: DeleteSnapshot_def Store_Snapshot_def tbl_delete_def)
  qed
  show "r \<noteq> None \<Longrightarrow> m' = m"
    using assms by (simp add: Machine_DeleteSnapshot_def snap_delete_def split: sum.splits if_splits)
  show "r = None \<Longrightarrow> map_of (mc_snaps m') (AppID m name, sid) = None \<and> Store_Snapshot (mc_db m') sid = Inl ErrSnapshotNotFound"
    using assms by (clarsimp simp: Machine_DeleteSnapshot_def snap_delete_def delete_conv' gone split: sum.splits if_splits)
qed

section \<open>Deploying an app that is off\<close>

lemma off_refuses:
  assumes "Store_App (mc_db m) name = Inr a" and "a_PoweredOff a"
  shows "Machine_Ensure ok ev name m = (m, Inl ErrPoweredOff)" "Machine_Exec ok ev run name c t m = (m, Inl ErrPoweredOff)"
    "RunHook ok ev run name c m = (m, Inl ErrPoweredOff)"
  using assms by (simp_all add: Machine_Ensure_def Machine_Exec_def RunHook_def)

lemma off_hooks:
  assumes "Store_App (mc_db m) name = Inr a" and "a_PoweredOff a"
  shows "run_post ok ev run name c m = m" "fst (run_pre ok ev run name c m) = m"
  using off_refuses(3)[OF assms] by (simp_all add: run_post_def run_pre_def)

lemma off_take:
  assumes "Store_App (mc_db m) name = Inr a" and "a_PoweredOff a"
  shows "app_tbl (mc_db (fst (takeSnapshot ok ev run now rid name l b m))) = app_tbl (mc_db m)"
proof -
  obtain pre post where h: "SnapshotHooks_of ev m name = (pre, post)"
    by (cases "SnapshotHooks_of ev m name")
  obtain r where pre: "run_pre ok ev run name pre m = (m, r)"
    using off_hooks(2)[OF assms] by (metis prod.collapse)
  have post: "app_tbl (mc_db (run_post ok ev run name post m2)) = app_tbl (mc_db m2)" if "app_tbl (mc_db m2) = app_tbl (mc_db m)" for m2
    using off_hooks(1)[of m2 name a] that assms by (simp add: Store_App_def)
  show ?thesis
    using assms(1) h pre post
    by (auto simp: takeSnapshot_def snap_create_def snap_delete_def AddSnapshot_def Let_def split: sum.splits prod.splits option.splits if_splits bool.splits)
qed

text \<open>Deploying does not ask whether an app was powered off. A deploy of such an app, and so a rollback, which ends with one, starts it and leaves the record that it
  is off: the app serves while every login and every command is refused because it is off, until the next reconcile stops it again.\<close>

lemma deploy_ignores_poweroff:
  assumes "Machine_up ok ev run now rid name b m = (m', Inr msg)" and "Store_App (mc_db m) name = Inr a" and "a_PoweredOff a"
  shows "un_active (unit_of m' (a_ID a)) \<and> Store_App (mc_db m') name = Inr a \<and>
     Machine_Ensure ok' ev' name m' = (m', Inl ErrPoweredOff) \<and> Machine_Exec ok' ev' run' name c t m' = (m', Inl ErrPoweredOff)"
proof -
  obtain conf m1 where ap: "Machine_apply ok ev a conf True m1 = (m', Inr msg)" and tbl: "app_tbl (mc_db m1) = app_tbl (mc_db m)"
    using assms off_take[OF assms(2,3)] by (auto simp: Machine_up_def PreDeploySnapshot_def split: option.splits if_splits)
  have nm: "a_Name a = name"
    using assms(2) by (rule Store_App_name)
  have a1: "Store_App (mc_db m1) name = Inr a"
    using assms(2) tbl by (simp add: Store_App_def)
  have "mc_db m' = mc_db m1"
    using Machine_apply_db[of ok ev a conf True m1] ap by simp
  moreover have "un_active (unit_of m' (a_ID a))"
    using Machine_apply_active[OF ap] a1 nm by simp
  ultimately show ?thesis
    using a1 off_refuses(1,2)[of m' name a] assms(3) by simp
qed

subsection \<open>Samples\<close>

definition static_conf :: Config where
  "static_conf = \<lparr>hc_Description = [], hc_Prepare = [], hc_Mode = ModeStatic, hc_Run = [], hc_Env = [], hc_Snapshot = \<lparr>sh_Pre = [], sh_Post = [], sh_Interval = []\<rparr>\<rparr>"

definition site_env :: node_env where
  "site_env = hash_env\<lparr>ne_yaml := (\<lambda>_ _. Some static_conf)\<rparr>"

definition site_tree :: subvol where
  "site_tree = \<lparr>sb_os = ''image'', sb_files = Some [[''hostit.yml''] \<mapsto> FFile ''mode: static'' 0x1A4], sb_group = ''1/1065536''\<rparr>"

text \<open>The wiki as a static site with one snapshot on record, and the same node with the wiki powered off.\<close>

definition site_machine :: machine where
  "site_machine = wiki_machine\<lparr>mc_db := small_db\<lparr>snapshot_tbl := [\<lparr>s_ID = ''s1'', s_AppName = ''wiki'', s_Label = [], s_CreatedAt = Some 0, s_Auto = False, s_app_id = ''app_2''\<rparr>]\<rparr>,
     mc_pool := [(''app_2'', Subvol site_tree)], mc_snaps := [((''app_2'', ''s1''), site_tree\<lparr>sb_os := ''older image''\<rparr>)]\<rparr>"

definition off_machine :: machine where
  "off_machine = site_machine\<lparr>mc_db := SetAppPoweredOff (mc_db site_machine) ''wiki'' True\<rparr>"

definition quiet :: runner where
  "quiet i secs c fs = \<lparr>eo_files = fs, eo_err = NoErr, eo_out = [], eo_slow = False\<rparr>"

lemma site_apps:
  "Store_App (mc_db site_machine) ''wiki'' = Inr wiki_app" "Store_App (mc_db off_machine) ''wiki'' = Inr (wiki_app\<lparr>a_PoweredOff := True\<rparr>)"
  "a_Name wiki_app = ''wiki''" "a_ID wiki_app = ''app_2''"
  by (simp_all add: wiki_app_def Store_App_def site_machine_def off_machine_def SetAppPoweredOff_def upd_app_def tbl_update_def small_db_def sample_defs)

lemma site_config:
  assumes "AppID m name = ''app_2''" and "map_of (mc_pool m) ''app_2'' = Some (Subvol s)" and "sb_files s = sb_files site_tree"
  shows "LoadAppConfig site_env m name = Some static_conf"
  using assms
  by (simp add: LoadAppConfig_def pool_subvol_def home_files_def site_tree_def ReadCapped_def read_node_def fs_Stat_def LoadConfig_def ParseConfigStrict_def site_env_def
      Validate_def static_conf_def ModeStatic_def ModeApp_def SnapshotInterval_def TrimSpace_def Let_def)

lemma site_applies:
  assumes "mc_accounts m = mc_accounts wiki_machine" "map_of (mc_pool m) ''app_2'' \<noteq> None" "mc_containers m = []" "Store_App (mc_db m) ''wiki'' = Inr a"
    and "a_Name a = ''wiki''" "a_ID a = ''app_2''"
  shows "\<exists>msg. snd (Machine_apply (\<lambda>_. True) ev a conf r m) = Inr msg"
  using assms
  by (simp add: Machine_apply_def LookupIDs_def wiki_machine_def EnsureAppSubvolume_def Let_def container_matches_def AppID_def
        recreate_def unit_stop_def ctr_remove_def unit_set_def apply_start_def isActive_app_def unit_of_def unit_enable_def unit_restart_def)

lemma deploy_ignores_poweroff_witness:
  "\<exists>m' msg. Machine_up (\<lambda>_. True) site_env quiet 0 ''a1'' ''wiki'' False off_machine = (m', Inr msg) \<and>
     un_active (unit_of m' ''app_2'') \<and> Machine_Ensure (\<lambda>_. True) site_env ''wiki'' m' = (m', Inl ErrPoweredOff)"
proof -
  let ?r = "Machine_up (\<lambda>_. True) site_env quiet 0 ''a1'' ''wiki'' False off_machine"
  have c: "LoadAppConfig site_env off_machine ''wiki'' = Some static_conf"
    by (rule site_config[of _ _ site_tree]) (use site_apps in \<open>simp_all add: AppID_def off_machine_def site_machine_def\<close>)
  have "\<exists>msg. snd ?r = Inr msg"
    using c site_apps site_applies[of off_machine "wiki_app\<lparr>a_PoweredOff := True\<rparr>"]
    by (simp add: Machine_up_def off_machine_def site_machine_def wiki_machine_def bare_machine_def)
  then obtain m' msg where r: "?r = (m', Inr msg)"
    by (metis prod.collapse)
  then show ?thesis
    using deploy_ignores_poweroff[OF r site_apps(2)] site_apps by simp
qed

theorem Rollback_keeps_a_tree_witness:
  "\<exists>m' r. Rollback (\<lambda>c. c \<noteq> SubvolMove ''app_2.rollback-staged'' ''app_2'') site_env quiet 0 ''a1'' ''wiki'' ''s1'' site_machine = (m', r) \<and>
     map_of (mc_snaps m') (''app_2'', ''s1'') = Some (site_tree\<lparr>sb_os := ''older image''\<rparr>)"
proof -
  let ?ok = "\<lambda>c. c \<noteq> SubvolMove ''app_2.rollback-staged'' ''app_2''"
  obtain m' r where p: "Rollback ?ok site_env quiet 0 ''a1'' ''wiki'' ''s1'' site_machine = (m', r)"
    by (cases "Rollback ?ok site_env quiet 0 ''a1'' ''wiki'' ''s1'' site_machine")
  have "LoadAppConfig site_env site_machine ''wiki'' = Some static_conf"
    by (rule site_config[of _ _ site_tree]) (use site_apps in \<open>simp_all add: AppID_def site_machine_def\<close>)
  then have "SnapshotHooks_of site_env site_machine ''wiki'' = ([], [])"
    by (simp add: SnapshotHooks_of_def static_conf_def)
  then show ?thesis
    using Rollback_keeps_a_tree[OF p site_apps(1), of site_tree "site_tree\<lparr>sb_os := ''older image''\<rparr>"] p site_apps(4)
    by (simp add: site_machine_def rollbackStagedSuffix_def rollbackOldSuffix_def)
qed

end
