(* ===== verification/Node_Reconcile.thy ===== *)
theory Node_Reconcile
  imports Node_Snapshots
begin

text \<open>
  How a node converges to what control asserts (\<open>node/machine_reconcile.go\<close>, \<open>DesiredState\<close> of \<open>control/sync.go\<close>): building what is missing, correcting keys,
  limits and power, and sweeping the units, containers, subvolumes, accounts and budget groups of apps that are gone. \<open>can\<close> says which listings of
  the host can be read.

  The four sweeps share one loop, \<open>sweep\<close>, and one contract, the locale \<open>confirmed_sweep\<close>: what a sweep changes was not on the list of known apps and was
  seen as an orphan in the pass before. The lemmas show that of the whole reconcile, that leftovers do go, and where the sweep of
  containers and that of budget groups do not keep to it.
\<close>

section \<open>The desired state\<close>

record AppDesired =
  ad_Spec :: ProvisionSpec
  ad_MemoryMB :: int
  ad_CPUMilli :: int
  ad_PoweredOff :: bool

text \<open>\<open>policy\<close> gives the keys and the memory and disk limits of an app, \<open>cpu\<close> the recorded CPU limits of control.\<close>

definition DesiredState ::
  "create_env \<Rightarrow> (App \<Rightarrow> string list \<times> int \<times> int) \<Rightarrow> (string \<rightharpoonup> int) \<Rightarrow> db \<Rightarrow> string \<Rightarrow> AppDesired list" where
  "DesiredState env policy cpu d nodeID =
     map (\<lambda>a. case policy a of (keys, memoryMB, diskMB) \<Rightarrow>
            \<lparr>ad_Spec = \<lparr>ps_Host = hostOrLocal (a_Host a), ps_ID = a_ID a, ps_Name = a_Name a, ps_Port = a_Port a,
                ps_SSHKeys = appendRelayKey (ce_relayLine env) (hostOrLocal (a_Host a)) keys, ps_SeedAppID = [], ps_SeedSnapshotID = [],
                ps_URL = ce_url env (a_Name a), ps_DiskMB = diskMB\<rparr>,
             ad_MemoryMB = memoryMB, ad_CPUMilli = limit_of cpu (a_Name a), ad_PoweredOff = a_PoweredOff a\<rparr>)
       (filter (\<lambda>a. nodeID = [] \<or> hostOrLocal (a_Host a) = nodeID) (Apps d))"

section \<open>Building and correcting\<close>

datatype listing = ListUnits | ListContainers | ListPool | ListAccounts | ListBudgets

definition healAppHome :: "(hcall \<Rightarrow> bool) \<Rightarrow> node_env \<Rightarrow> string \<Rightarrow> string \<Rightarrow> string \<Rightarrow> machine \<Rightarrow> machine" where
  "healAppHome ok ev name i currentHome m =
     (let want = appFilesByID ev i
      in if currentHome = [] \<or> currentHome = want \<or> \<not> ok (UserSetHome name) then m
         else case map_of (mc_accounts m) name of None \<Rightarrow> m
              | Some ac \<Rightarrow> m\<lparr>mc_accounts := AList.update name (ac\<lparr>ac_Home := want\<rparr>) (mc_accounts m)\<rparr>)"

text \<open>What follows once the account is there.\<close>

definition apply_settings :: "(hcall \<Rightarrow> bool) \<Rightarrow> node_env \<Rightarrow> AppDesired \<Rightarrow> bool \<Rightarrow> machine \<Rightarrow> machine" where
  "apply_settings ok ev ad rebuilt m =
     (let name = ps_Name (ad_Spec ad);
          m1 = fst (Machine_SetKeys ok ev name (ps_SSHKeys (ad_Spec ad)) [] m);
          m2 = Machine_SetDiskLimit ok name (ps_DiskMB (ad_Spec ad)) (Machine_SetCPULimit name (ad_CPUMilli ad) (Machine_SetMemoryLimit name (ad_MemoryMB ad) m1))
      in if ad_PoweredOff ad \<and> (rebuilt \<or> isActive_app m2 name) then fst (Machine_Down ok name m2) else m2)"

definition apply_app :: "(hcall \<Rightarrow> bool) \<Rightarrow> node_env \<Rightarrow> (string \<rightharpoonup> string) \<Rightarrow> AppDesired \<Rightarrow> machine \<Rightarrow> machine" where
  "apply_app ok ev homes ad m =
     (let name = ps_Name (ad_Spec ad)
      in if map_of (mc_accounts m) name = None
         then (case Provision ok ev (ad_Spec ad) m of (m1, Some e) \<Rightarrow> m1 | (m1, None) \<Rightarrow> apply_settings ok ev ad True m1)
         else apply_settings ok ev ad False
                (healAppHome ok ev name (ps_ID (ad_Spec ad)) (case homes name of None \<Rightarrow> [] | Some h \<Rightarrow> h) m))"

definition applyDesired :: "(hcall \<Rightarrow> bool) \<Rightarrow> (listing \<Rightarrow> bool) \<Rightarrow> node_env \<Rightarrow> AppDesired list \<Rightarrow> machine \<Rightarrow> machine" where
  "applyDesired ok can ev desired m =
     (let homes = (if can ListAccounts then (\<lambda>name. map_option ac_Home (map_of (mc_accounts m) name)) else Map.empty)
      in fold (apply_app ok ev homes) desired m)"

definition desiredIDs :: "AppDesired list option \<Rightarrow> string set option" where
  "desiredIDs desired = map_option (\<lambda>l. set (map (ps_ID \<circ> ad_Spec) l)) desired"

section \<open>Sweeping\<close>

definition confirmOrphan :: "string \<Rightarrow> machine \<Rightarrow> machine \<times> bool" where
  "confirmOrphan key m = (m\<lparr>mc_orphansThis := insert key (mc_orphansThis m)\<rparr>, key \<in> mc_orphansLast m)"

text \<open>The key of a resource in the two sets, its kind first.\<close>

definition orphan_key :: "string \<Rightarrow> string \<Rightarrow> string" where
  "orphan_key kind x = kind @ '':'' @ x"

definition startOrphanPass :: "machine \<Rightarrow> machine" where
  "startOrphanPass m = m\<lparr>mc_orphansThis := {}\<rparr>"

definition endOrphanPass :: "machine \<Rightarrow> machine" where
  "endOrphanPass m = m\<lparr>mc_orphansLast := mc_orphansThis m\<rparr>"

text \<open>The loop of the four sweeps: what is skipped, under which key it is remembered, and what removing it does.\<close>

fun sweep :: "(string \<Rightarrow> machine \<Rightarrow> bool) \<Rightarrow> (string \<Rightarrow> string) \<Rightarrow> (string \<Rightarrow> machine \<Rightarrow> machine \<times> bool) \<Rightarrow> string list \<Rightarrow> machine \<Rightarrow> machine \<times> string list" where
  "sweep skip key act [] m = (m, [])"
| "sweep skip key act (x # xs) m =
     (if skip x m then sweep skip key act xs m
      else case confirmOrphan (key x) m of
        (m1, False) \<Rightarrow> sweep skip key act xs m1
      | (m1, True) \<Rightarrow> (case act x m1 of (m2, gone) \<Rightarrow> (case sweep skip key act xs m2 of (m3, removed) \<Rightarrow> (m3, if gone then x # removed else removed))))"

text \<open>A field of a line has no blank in it, so the bullet of a failed unit, which the code would strip together with a blank, cannot be at its front.\<close>

definition idFromUnit :: "string list \<Rightarrow> string option" where
  "idFromUnit fs =
     (case fs of [] \<Rightarrow> None
      | f # _ \<Rightarrow>
          let u = TrimSuffix f ''.service''
          in if \<not> HasPrefix u UnitTemplate then None
             else let i = drop (length UnitTemplate) u in if i = [] \<or> CHR ''@'' \<in> set i then None else Some i)"

text \<open>The sources of a container's mounts, as its volumes name them.\<close>

fun mount_sources :: "string list \<Rightarrow> string list" where
  "mount_sources (x # y # rest) = (if x = ''--volume'' then takeWhile (\<lambda>c. c \<noteq> CHR '':'') y # mount_sources rest else mount_sources (y # rest))"
| "mount_sources _ = []"

definition containerForeign :: "node_env \<Rightarrow> machine \<Rightarrow> string \<Rightarrow> bool" where
  "containerForeign ev m i =
     (case map_of (mc_containers m) i of None \<Rightarrow> False
      | Some c \<Rightarrow>
          let srcs = concat (map (Fields_aux []) (mount_sources (ct_args c)))
          in srcs \<noteq> [] \<and> \<not> list_ex (\<lambda>src. HasPrefix src (ne_AppsDir ev @ ''/'')) srcs)"

text \<open>\<open>systemctl list-units\<close> prints the full name of a unit first on its line.\<close>

definition unit_ids :: "machine \<Rightarrow> string list" where
  "unit_ids m = concat (map (\<lambda>i. case idFromUnit [UnitName i @ ''.service''] of None \<Rightarrow> [] | Some j \<Rightarrow> [j]) (map fst (mc_units m)))"

definition reconcileUnits :: "(hcall \<Rightarrow> bool) \<Rightarrow> node_env \<Rightarrow> string set \<Rightarrow> machine \<Rightarrow> machine \<times> string list" where
  "reconcileUnits ok ev known m =
     sweep (\<lambda>i m. i \<in> known \<or> containerForeign ev m i) (orphan_key ''unit'') (\<lambda>i m. (fst (unit_disable ok i m), True)) (unit_ids m) m"

definition reconcileContainers :: "(hcall \<Rightarrow> bool) \<Rightarrow> (listing \<Rightarrow> bool) \<Rightarrow> node_env \<Rightarrow> string set \<Rightarrow> machine \<Rightarrow> machine \<times> string list" where
  "reconcileContainers ok can ev known m =
     (if \<not> can ListContainers then (m, [])
      else sweep (\<lambda>i m. i = [] \<or> i \<in> known \<or> containerForeign ev m i) (orphan_key ''container'') (\<lambda>i m. ctr_remove ok i m) (map fst (mc_containers m)) m)"

definition is_dir :: "entry \<Rightarrow> bool" where
  "is_dir e = (case e of Plain \<Rightarrow> False | _ \<Rightarrow> True)"

text \<open>Removing a leftover of the apps directory: a subvolume, or a tree of directories without a file in it.\<close>

definition remove_entry :: "(hcall \<Rightarrow> bool) \<Rightarrow> string \<Rightarrow> machine \<Rightarrow> machine \<times> bool" where
  "remove_entry ok i m =
     (let m1 = fst (subvol_delete ok 5 i m);
          m2 = (case map_of (mc_pool m1) i of Some (Dir d False) \<Rightarrow> if ok (RemoveTree i) then pool_drop i m1 else m1 | _ \<Rightarrow> m1)
      in (m2, map_of (mc_pool m2) i = None))"

definition reconcileSubvolumes :: "(hcall \<Rightarrow> bool) \<Rightarrow> (listing \<Rightarrow> bool) \<Rightarrow> string set \<Rightarrow> machine \<Rightarrow> machine \<times> string list" where
  "reconcileSubvolumes ok can known m =
     (if \<not> can ListPool then (m, [])
      else let entries = map_of (mc_pool m)
           in sweep (\<lambda>i _. (case entries i of None \<Rightarrow> True | Some e \<Rightarrow> \<not> is_dir e) \<or> HasPrefix i ''.'' \<or> i \<in> known) (orphan_key ''subvol'') (remove_entry ok)
                (map fst (mc_pool m)) m)"

definition IDFromHomeDir :: "string \<Rightarrow> string" where
  "IDFromHomeDir home =
     (let clean = filepath_Clean home
      in path_Base (if HasSuffix clean ''/home/app'' then TrimSuffix clean ''/home/app'' else clean))"

definition idFromPoolHome :: "node_env \<Rightarrow> string \<Rightarrow> string option" where
  "idFromPoolHome ev home =
     (let clean = filepath_Clean home
      in if list_ex (\<lambda>base. base \<noteq> [] \<and> HasPrefix clean (filepath_Clean base @ ''/'') \<and> drop (length (filepath_Clean base @ ''/'')) clean \<noteq> [])
            [ne_AppsDir ev, ne_rawAppsDir ev]
         then Some (IDFromHomeDir clean) else None)"

definition reconcileUsers :: "(hcall \<Rightarrow> bool) \<Rightarrow> (listing \<Rightarrow> bool) \<Rightarrow> node_env \<Rightarrow> string set \<Rightarrow> machine \<Rightarrow> machine \<times> string list" where
  "reconcileUsers ok can ev known m =
     (if \<not> can ListAccounts then (m, [])
      else let accounts = map_of (mc_accounts m)
           in sweep (\<lambda>n _. case accounts n of None \<Rightarrow> True
                       | Some ac \<Rightarrow> (case idFromPoolHome ev (ac_Home ac) of None \<Rightarrow> True | Some i \<Rightarrow> i \<in> known))
                (orphan_key ''user'') (\<lambda>n m. user_delete ok n m) (map fst (mc_accounts m)) m)"

definition reconcileBudgets :: "(hcall \<Rightarrow> bool) \<Rightarrow> (listing \<Rightarrow> bool) \<Rightarrow> App list \<Rightarrow> machine \<Rightarrow> machine" where
  "reconcileBudgets ok can apps m =
     (if \<not> can ListBudgets then m
      else let live = set (map (\<lambda>a. budgetGroup (UIDFor (a_Port a))) apps)
           in m\<lparr>mc_budgets := filter (\<lambda>(g, n). \<not> (HasPrefix g ''1/'' \<and> g \<notin> live \<and> ok (QgroupDestroy g))) (mc_budgets m)\<rparr>)"

definition known_ids :: "string set option \<Rightarrow> machine \<Rightarrow> string set" where
  "known_ids known m = (case known of Some k \<Rightarrow> k | None \<Rightarrow> set (map a_ID (Apps (mc_db m))))"

definition reconcileOrphans :: "(hcall \<Rightarrow> bool) \<Rightarrow> (listing \<Rightarrow> bool) \<Rightarrow> node_env \<Rightarrow> string set option \<Rightarrow> machine \<Rightarrow> machine \<times> string list" where
  "reconcileOrphans ok can ev known m0 =
     (let m = startOrphanPass m0
      in if \<not> can ListUnits then (endOrphanPass m, [])
         else let k = known_ids known m
              in (case reconcileUnits ok ev k m of (m1, r1) \<Rightarrow>
                 (case reconcileContainers ok can ev k m1 of (m2, r2) \<Rightarrow>
                 (case reconcileSubvolumes ok can k m2 of (m3, r3) \<Rightarrow>
                 (case reconcileUsers ok can ev k m3 of (m4, r4) \<Rightarrow>
                    (endOrphanPass (reconcileBudgets ok can (Apps (mc_db m)) m4), r1 @ r2 @ r3 @ r4))))))"

definition Reconcile :: "(hcall \<Rightarrow> bool) \<Rightarrow> (listing \<Rightarrow> bool) \<Rightarrow> node_env \<Rightarrow> AppDesired list option \<Rightarrow> machine \<Rightarrow> machine \<times> string list" where
  "Reconcile ok can ev desired m =
     (let m1 = (case desired of None \<Rightarrow> m | Some l \<Rightarrow> applyDesired ok can ev l m)
      in case reconcileOrphans ok can ev (desiredIDs desired) m1 of (m2, removed) \<Rightarrow> (ReconcilePortRules ok m2, removed))"

section \<open>The contract of a sweep\<close>

definition sighted :: "string \<Rightarrow> machine \<Rightarrow> machine" where
  "sighted k m = m\<lparr>mc_orphansThis := insert k (mc_orphansThis m)\<rparr>"

lemma sighted_marks [simp]: "mc_orphansLast (sighted k m) = mc_orphansLast m" "mc_orphansThis (sighted k m) = insert k (mc_orphansThis m)"
  by (simp_all add: sighted_def)

lemma fst_sweep:
  "fst (sweep skip key act [] m) = m"
  "fst (sweep skip key act (x # xs) m) = fst (sweep skip key act xs
     (if skip x m then m else if key x \<in> mc_orphansLast m then fst (act x (sighted (key x) m)) else sighted (key x) m))"
  by (simp_all add: confirmOrphan_def sighted_def split: prod.splits bool.splits)

declare sweep.simps [simp del]

text \<open>Everything that the removals of a sweep and the bookkeeping leave alone is left alone by the sweep.\<close>

lemma sweep_frame:
  assumes "\<And>x m. f (fst (act x m)) = f m" and "\<And>k m. f (sighted k m) = f m"
  shows "f (fst (sweep skip key act xs m)) = f m"
  by (induction xs arbitrary: m) (simp_all add: fst_sweep assms)

text \<open>One sweep over one kind of resource: \<open>view m x\<close> is the resource named \<open>x\<close>. Removing a resource concerns that one only and leaves
  the marks alone; a resource of a known app is skipped.\<close>

locale confirmed_sweep =
  fixes skip :: "string \<Rightarrow> machine \<Rightarrow> bool" and key :: "string \<Rightarrow> string" and act :: "string \<Rightarrow> machine \<Rightarrow> machine \<times> bool"
    and view :: "machine \<Rightarrow> string \<Rightarrow> 'v" and protected :: "string \<Rightarrow> bool"
  assumes act_local: "y \<noteq> x \<Longrightarrow> view (fst (act x m)) y = view m y"
    and act_last: "mc_orphansLast (fst (act x m)) = mc_orphansLast m"
    and act_this: "mc_orphansThis (fst (act x m)) = mc_orphansThis m"
    and view_sighted: "view (sighted k m) = view m"
    and skip_protected: "protected x \<Longrightarrow> skip x m"
begin

lemma marks_kept: "mc_orphansLast (fst (sweep skip key act xs m)) = mc_orphansLast m"
  by (rule sweep_frame) (simp_all add: act_last)

lemma only_confirmed: "view (fst (sweep skip key act xs m)) y \<noteq> view m y \<Longrightarrow> \<not> protected y \<and> key y \<in> mc_orphansLast m"
proof (induction xs arbitrary: m)
  case (Cons x xs)
  show ?case
  proof (cases "skip x m \<or> key x \<notin> mc_orphansLast m \<or> y \<noteq> x")
    case True
    then show ?thesis
      using Cons.IH[of m] Cons.IH[of "sighted (key x) m"] Cons.IH[of "fst (act x (sighted (key x) m))"] Cons.prems
      by (auto simp: fst_sweep view_sighted act_last act_local split: if_splits)
  qed (use skip_protected[of x m] in auto)
qed (simp add: fst_sweep)

lemma stays: "y \<notin> set xs \<Longrightarrow> view (fst (sweep skip key act xs m)) y = view m y"
  by (induction xs arbitrary: m) (simp_all add: fst_sweep view_sighted act_local)

text \<open>What is not skipped is remembered, and what was remembered is removed.\<close>

lemma marks_grow: "k \<in> mc_orphansThis m \<Longrightarrow> k \<in> mc_orphansThis (fst (sweep skip key act xs m))"
  by (induction xs arbitrary: m) (simp_all add: fst_sweep act_this)

lemma kept_or_gone:
  assumes "\<And>m. view (fst (act y m)) y \<in> {view m y, gone}"
  shows "view (fst (sweep skip key act xs m)) y \<in> {view m y, gone}"
proof (induction xs arbitrary: m)
  case (Cons x xs)
  let ?n = "if skip x m then m else if key x \<in> mc_orphansLast m then fst (act x (sighted (key x) m)) else sighted (key x) m"
  have "view ?n y \<in> {view m y, gone}"
    using assms[of "sighted (key x) m"] act_local[of y x "sighted (key x) m"] by (cases "x = y") (auto simp: view_sighted)
  then show ?case
    using Cons.IH[of ?n] by (auto simp only: fst_sweep insert_iff empty_iff)
qed (simp add: fst_sweep)

lemma marks_only: "k \<in> mc_orphansThis (fst (sweep skip key act xs m)) \<Longrightarrow> k \<in> mc_orphansThis m \<or> (\<exists>y. k = key y \<and> \<not> protected y)"
proof (induction xs arbitrary: m)
  case (Cons x xs)
  then show ?case
    using Cons.IH[of m] Cons.IH[of "sighted (key x) m"] Cons.IH[of "fst (act x (sighted (key x) m))"] skip_protected[of x m]
    by (auto simp: fst_sweep act_this split: if_splits)
qed (simp add: fst_sweep)

lemma marks_orphans: "y \<in> set xs \<Longrightarrow> (\<And>m. \<not> skip y m) \<Longrightarrow> key y \<in> mc_orphansThis (fst (sweep skip key act xs m))"
  by (induction xs arbitrary: m) (auto simp: fst_sweep act_this intro: marks_grow)

lemma removes_confirmed:
  assumes "\<And>m. view m y \<in> {v, gone} \<Longrightarrow> view (fst (act y m)) y = gone" and "\<And>m. \<not> skip y m"
  shows "key y \<in> mc_orphansLast m \<Longrightarrow> view m y \<in> {v, gone} \<Longrightarrow> y \<in> set xs \<Longrightarrow> view (fst (sweep skip key act xs m)) y = gone"
proof (induction xs arbitrary: m)
  case (Cons x xs)
  let ?n = "if skip x m then m else if key x \<in> mc_orphansLast m then fst (act x (sighted (key x) m)) else sighted (key x) m"
  have n: "key y \<in> mc_orphansLast ?n" "view ?n y \<in> {v, gone}" "x = y \<Longrightarrow> view ?n y = gone"
    using Cons.prems(1,2) assms(1)[of "sighted (key x) m"] assms(2)[of m] act_local[of y x "sighted (key x) m"]
    by (cases "x = y"; simp add: act_last view_sighted)+
  then show ?case
    using Cons.IH[of ?n] Cons.prems(3) stays[of y xs ?n] by (cases "y \<in> set xs") (auto simp only: fst_sweep set_simps)
qed simp

end

section \<open>The four sweeps\<close>

lemma sighted_views [simp]:
  "unit_of (sighted k m) = unit_of m" "mc_containers (sighted k m) = mc_containers m" "mc_pool (sighted k m) = mc_pool m"
  "mc_accounts (sighted k m) = mc_accounts m" "mc_db (sighted k m) = mc_db m"
  by (simp_all add: sighted_def unit_of_def fun_eq_iff)

lemma unit_disable_effect:
  "j \<noteq> i \<Longrightarrow> unit_of (fst (unit_disable ok i m)) j = unit_of m j"
  "mc_orphansLast (fst (unit_disable ok i m)) = mc_orphansLast m" "mc_orphansThis (fst (unit_disable ok i m)) = mc_orphansThis m"
  "mc_containers (fst (unit_disable ok i m)) = mc_containers m" "mc_pool (fst (unit_disable ok i m)) = mc_pool m" "mc_accounts (fst (unit_disable ok i m)) = mc_accounts m"
  by (simp_all add: unit_disable_def, simp_all add: unit_set_def)

lemma ctr_remove_effect:
  "j \<noteq> i \<Longrightarrow> map_of (mc_containers (fst (ctr_remove ok i m))) j = map_of (mc_containers m) j"
  "mc_orphansLast (fst (ctr_remove ok i m)) = mc_orphansLast m" "mc_orphansThis (fst (ctr_remove ok i m)) = mc_orphansThis m"
  "unit_of (fst (ctr_remove ok i m)) = unit_of m" "mc_pool (fst (ctr_remove ok i m)) = mc_pool m" "mc_accounts (fst (ctr_remove ok i m)) = mc_accounts m"
  by (simp_all add: ctr_remove_def delete_conv' unit_of_def fun_eq_iff)

lemma user_delete_accounts:
  "j \<noteq> i \<Longrightarrow> map_of (mc_accounts (fst (user_delete ok i m))) j = map_of (mc_accounts m) j"
  "mc_orphansLast (fst (user_delete ok i m)) = mc_orphansLast m" "mc_orphansThis (fst (user_delete ok i m)) = mc_orphansThis m"
  "unit_of (fst (user_delete ok i m)) = unit_of m" "mc_pool (fst (user_delete ok i m)) = mc_pool m" "mc_containers (fst (user_delete ok i m)) = mc_containers m"
  by (simp_all add: user_delete_def delete_conv' unit_of_def fun_eq_iff)

lemma pool_marks [simp]:
  "mc_orphansLast (pool_drop i m) = mc_orphansLast m" "mc_orphansThis (pool_drop i m) = mc_orphansThis m" "unit_of (pool_drop i m) = unit_of m"
  "mc_orphansLast (fst (subvol_delete ok n i m)) = mc_orphansLast m" "mc_orphansThis (fst (subvol_delete ok n i m)) = mc_orphansThis m"
  "unit_of (fst (subvol_delete ok n i m)) = unit_of m"
  by (simp_all add: subvol_delete_def pool_drop_def unit_of_def fun_eq_iff split: option.splits entry.splits)

lemma remove_entry_effect:
  "j \<noteq> i \<Longrightarrow> map_of (mc_pool (fst (remove_entry ok i m))) j = map_of (mc_pool m) j"
  "mc_orphansLast (fst (remove_entry ok i m)) = mc_orphansLast m" "mc_orphansThis (fst (remove_entry ok i m)) = mc_orphansThis m"
  "unit_of (fst (remove_entry ok i m)) = unit_of m" "mc_containers (fst (remove_entry ok i m)) = mc_containers m" "mc_accounts (fst (remove_entry ok i m)) = mc_accounts m"
  by (auto simp: remove_entry_def Let_def subvol_delete_other split: option.splits entry.splits bool.splits)

lemma remove_entry_gone:
  assumes "ok (SubvolDelete 5 i)" "ok (RemoveTree i)" and "\<And>e. map_of (mc_pool m) i = Some e \<Longrightarrow> \<exists>s d. e = Subvol s \<or> e = Dir d False"
  shows "map_of (mc_pool (fst (remove_entry ok i m))) i = None"
  using assms by (auto simp: remove_entry_def subvol_delete_def Let_def split: option.splits entry.splits bool.splits)

interpretation units: confirmed_sweep "\<lambda>i m. i \<in> known \<or> containerForeign ev m i" "orphan_key ''unit''" "\<lambda>i m. (fst (unit_disable ok i m), True)"
    unit_of "\<lambda>i. i \<in> known" for ok ev known
  by unfold_locales (simp_all add: unit_disable_effect)

interpretation containers: confirmed_sweep "\<lambda>i m. i = [] \<or> i \<in> known \<or> containerForeign ev m i" "orphan_key ''container''" "\<lambda>i m. ctr_remove ok i m"
    "\<lambda>m. map_of (mc_containers m)" "\<lambda>i. i \<in> known" for ok ev known
  by unfold_locales (simp_all add: ctr_remove_effect)

interpretation subvolumes: confirmed_sweep "\<lambda>i _. (case entries i of None \<Rightarrow> True | Some e \<Rightarrow> \<not> is_dir e) \<or> HasPrefix i ''.'' \<or> i \<in> known" "orphan_key ''subvol''"
    "remove_entry ok" "\<lambda>m. map_of (mc_pool m)" "\<lambda>i. i \<in> known \<or> HasPrefix i ''.''" for ok entries known
  by unfold_locales (auto simp: remove_entry_effect)

interpretation accounts: confirmed_sweep "\<lambda>n _. case accounts n of None \<Rightarrow> True | Some ac \<Rightarrow> (case idFromPoolHome ev (ac_Home ac) of None \<Rightarrow> True | Some i \<Rightarrow> i \<in> known)"
    "orphan_key ''user''" "\<lambda>n m. user_delete ok n m" "\<lambda>m. map_of (mc_accounts m)"
    "\<lambda>n. case accounts n of None \<Rightarrow> True | Some ac \<Rightarrow> (case idFromPoolHome ev (ac_Home ac) of None \<Rightarrow> True | Some i \<Rightarrow> i \<in> known)"
    for ok ev known accounts
  by unfold_locales (simp_all add: user_delete_accounts)

section \<open>A pass\<close>

text \<open>Each sweep leaves the resources of the others alone.\<close>

lemma sweeps_apart:
  "mc_containers (fst (reconcileUnits ok ev k m)) = mc_containers m" "mc_pool (fst (reconcileUnits ok ev k m)) = mc_pool m"
  "mc_accounts (fst (reconcileUnits ok ev k m)) = mc_accounts m" "mc_orphansLast (fst (reconcileUnits ok ev k m)) = mc_orphansLast m"
  "unit_of (fst (reconcileContainers ok can ev k m)) = unit_of m" "mc_pool (fst (reconcileContainers ok can ev k m)) = mc_pool m"
  "mc_accounts (fst (reconcileContainers ok can ev k m)) = mc_accounts m" "mc_orphansLast (fst (reconcileContainers ok can ev k m)) = mc_orphansLast m"
  "unit_of (fst (reconcileSubvolumes ok can k m)) = unit_of m" "mc_containers (fst (reconcileSubvolumes ok can k m)) = mc_containers m"
  "mc_accounts (fst (reconcileSubvolumes ok can k m)) = mc_accounts m" "mc_orphansLast (fst (reconcileSubvolumes ok can k m)) = mc_orphansLast m"
  "unit_of (fst (reconcileUsers ok can ev k m)) = unit_of m" "mc_containers (fst (reconcileUsers ok can ev k m)) = mc_containers m"
  "mc_pool (fst (reconcileUsers ok can ev k m)) = mc_pool m" "mc_orphansLast (fst (reconcileUsers ok can ev k m)) = mc_orphansLast m"
  unfolding reconcileUnits_def reconcileContainers_def reconcileSubvolumes_def reconcileUsers_def Let_def
  by (simp_all add: sweep_frame unit_disable_effect ctr_remove_effect remove_entry_effect user_delete_accounts)

lemma budgets_frame [simp]:
  "unit_of (endOrphanPass (reconcileBudgets ok can apps m)) = unit_of m" "mc_containers (endOrphanPass (reconcileBudgets ok can apps m)) = mc_containers m"
  "mc_pool (endOrphanPass (reconcileBudgets ok can apps m)) = mc_pool m" "mc_accounts (endOrphanPass (reconcileBudgets ok can apps m)) = mc_accounts m"
  "mc_orphansLast (endOrphanPass (reconcileBudgets ok can apps m)) = mc_orphansThis m"
  by (simp_all add: endOrphanPass_def reconcileBudgets_def unit_of_def fun_eq_iff Let_def)

text \<open>The stages of a pass that can list the units.\<close>

lemma pass_stages:
  assumes "can ListUnits"
  obtains m1 m2 m3 m4 where "m1 = fst (reconcileUnits ok ev (known_ids known m) (startOrphanPass m))" "m2 = fst (reconcileContainers ok can ev (known_ids known m) m1)"
    "m3 = fst (reconcileSubvolumes ok can (known_ids known m) m2)" "m4 = fst (reconcileUsers ok can ev (known_ids known m) m3)"
    "fst (reconcileOrphans ok can ev known m) = endOrphanPass (reconcileBudgets ok can (Apps (mc_db m)) m4)"
proof -
  have "known_ids known (startOrphanPass m) = known_ids known m" "Apps (mc_db (startOrphanPass m)) = Apps (mc_db m)"
    by (simp_all add: known_ids_def startOrphanPass_def split: option.splits)
  then show thesis
    using that[OF refl refl refl refl] assms by (simp add: reconcileOrphans_def Let_def split: prod.splits)
qed

lemma start_frame [simp]:
  "unit_of (startOrphanPass m) = unit_of m" "mc_containers (startOrphanPass m) = mc_containers m" "mc_pool (startOrphanPass m) = mc_pool m"
  "mc_accounts (startOrphanPass m) = mc_accounts m" "mc_orphansLast (startOrphanPass m) = mc_orphansLast m" "mc_orphansThis (startOrphanPass m) = {}"
  by (simp_all add: startOrphanPass_def unit_of_def fun_eq_iff)

text \<open>What one sweep changes, and what it marks.\<close>

lemma units_confirmed: "unit_of (fst (reconcileUnits ok ev k m)) i \<noteq> unit_of m i \<Longrightarrow> i \<notin> k \<and> orphan_key ''unit'' i \<in> mc_orphansLast m"
  unfolding reconcileUnits_def by (drule units.only_confirmed) simp

lemma containers_confirmed:
  "map_of (mc_containers (fst (reconcileContainers ok can ev k m))) i \<noteq> map_of (mc_containers m) i \<Longrightarrow> i \<notin> k \<and> orphan_key ''container'' i \<in> mc_orphansLast m"
  unfolding reconcileContainers_def by (cases "can ListContainers") (simp_all, drule containers.only_confirmed, simp)

lemma subvolumes_confirmed:
  "map_of (mc_pool (fst (reconcileSubvolumes ok can k m))) i \<noteq> map_of (mc_pool m) i \<Longrightarrow> i \<notin> k \<and> \<not> HasPrefix i ''.'' \<and> orphan_key ''subvol'' i \<in> mc_orphansLast m"
  unfolding reconcileSubvolumes_def Let_def by (cases "can ListPool") (simp_all, drule subvolumes.only_confirmed, simp)

lemma accounts_confirmed:
  "map_of (mc_accounts (fst (reconcileUsers ok can ev k m))) n \<noteq> map_of (mc_accounts m) n \<Longrightarrow>
   (\<exists>ac j. map_of (mc_accounts m) n = Some ac \<and> idFromPoolHome ev (ac_Home ac) = Some j \<and> j \<notin> k) \<and> orphan_key ''user'' n \<in> mc_orphansLast m"
  unfolding reconcileUsers_def Let_def
  by (cases "can ListAccounts") (simp_all, drule accounts.only_confirmed, auto split: option.splits)

lemma sweep_marks:
  "x \<in> mc_orphansThis (fst (reconcileUnits ok ev k m)) \<Longrightarrow> x \<in> mc_orphansThis m \<or> (\<exists>i. x = orphan_key ''unit'' i \<and> i \<notin> k)"
  "x \<in> mc_orphansThis (fst (reconcileContainers ok can ev k m)) \<Longrightarrow> x \<in> mc_orphansThis m \<or> (\<exists>i. x = orphan_key ''container'' i \<and> i \<notin> k)"
  "x \<in> mc_orphansThis (fst (reconcileSubvolumes ok can k m)) \<Longrightarrow> x \<in> mc_orphansThis m \<or> (\<exists>i. x = orphan_key ''subvol'' i \<and> i \<notin> k)"
  "x \<in> mc_orphansThis (fst (reconcileUsers ok can ev k m)) \<Longrightarrow> x \<in> mc_orphansThis m \<or> (\<exists>n. x = orphan_key ''user'' n)"
proof -
  show "x \<in> mc_orphansThis (fst (reconcileUnits ok ev k m)) \<Longrightarrow> x \<in> mc_orphansThis m \<or> (\<exists>i. x = orphan_key ''unit'' i \<and> i \<notin> k)"
    unfolding reconcileUnits_def by (drule units.marks_only)
  show "x \<in> mc_orphansThis (fst (reconcileContainers ok can ev k m)) \<Longrightarrow> x \<in> mc_orphansThis m \<or> (\<exists>i. x = orphan_key ''container'' i \<and> i \<notin> k)"
    unfolding reconcileContainers_def by (cases "can ListContainers") (simp_all only: if_False if_True simp_thms fst_conv, drule containers.marks_only)
  show "x \<in> mc_orphansThis (fst (reconcileSubvolumes ok can k m)) \<Longrightarrow> x \<in> mc_orphansThis m \<or> (\<exists>i. x = orphan_key ''subvol'' i \<and> i \<notin> k)"
    unfolding reconcileSubvolumes_def Let_def
    by (cases "can ListPool") (simp_all only: if_False if_True simp_thms fst_conv, drule subvolumes.marks_only, blast)
  show "x \<in> mc_orphansThis (fst (reconcileUsers ok can ev k m)) \<Longrightarrow> x \<in> mc_orphansThis m \<or> (\<exists>n. x = orphan_key ''user'' n)"
    unfolding reconcileUsers_def Let_def
    by (cases "can ListAccounts") (simp_all only: if_False if_True simp_thms fst_conv, drule accounts.marks_only, blast)
qed

text \<open>C17: nothing is swept that is wanted, and nothing on first sight. Whatever a pass changes of a unit, a container, an entry of the apps directory or an account belongs
  to no app control lists, and was seen as an orphan by the pass before as well; hidden entries and accounts of other hosts are never touched. And
  a pass marks nothing of an app that is listed, so what one pass finds on the list the next one cannot sweep either.\<close>

theorem sweep_needs_two_sightings:
  assumes "reconcileOrphans ok can ev known m = (m', removed)"
  shows "(unit_of m' i \<noteq> unit_of m i \<longrightarrow> i \<notin> known_ids known m \<and> orphan_key ''unit'' i \<in> mc_orphansLast m) \<and>
     (map_of (mc_containers m') i \<noteq> map_of (mc_containers m) i \<longrightarrow> i \<notin> known_ids known m \<and> orphan_key ''container'' i \<in> mc_orphansLast m) \<and>
     (map_of (mc_pool m') i \<noteq> map_of (mc_pool m) i \<longrightarrow> i \<notin> known_ids known m \<and> \<not> HasPrefix i ''.'' \<and> orphan_key ''subvol'' i \<in> mc_orphansLast m) \<and>
     (map_of (mc_accounts m') n \<noteq> map_of (mc_accounts m) n \<longrightarrow>
        (\<exists>ac j. map_of (mc_accounts m) n = Some ac \<and> idFromPoolHome ev (ac_Home ac) = Some j \<and> j \<notin> known_ids known m) \<and> orphan_key ''user'' n \<in> mc_orphansLast m) \<and>
     (i \<in> known_ids known m \<longrightarrow> {orphan_key ''unit'' i, orphan_key ''container'' i, orphan_key ''subvol'' i} \<inter> mc_orphansLast m' = {})"
proof (cases "can ListUnits")
  case False
  then have "m' = endOrphanPass (startOrphanPass m)"
    using assms by (simp add: reconcileOrphans_def Let_def)
  then show ?thesis
    by (simp add: endOrphanPass_def startOrphanPass_def unit_of_def)
next
  case True
  let ?k = "known_ids known m"
  obtain m1 m2 m3 m4 where
    m1: "m1 = fst (reconcileUnits ok ev ?k (startOrphanPass m))" and m2: "m2 = fst (reconcileContainers ok can ev ?k m1)" and
    m3: "m3 = fst (reconcileSubvolumes ok can ?k m2)" and m4: "m4 = fst (reconcileUsers ok can ev ?k m3)" and
    m': "m' = endOrphanPass (reconcileBudgets ok can (Apps (mc_db m)) m4)"
    using pass_stages[of can ok ev known m] True assms by (metis fst_conv)
  note apart = sweeps_apart
  have frame: "unit_of m' = unit_of m1" "mc_containers m' = mc_containers m2" "mc_pool m' = mc_pool m3" "mc_accounts m' = mc_accounts m4"
    "mc_containers m1 = mc_containers m" "mc_pool m2 = mc_pool m" "mc_accounts m3 = mc_accounts m"
    "mc_orphansLast m1 = mc_orphansLast m" "mc_orphansLast m2 = mc_orphansLast m" "mc_orphansLast m3 = mc_orphansLast m"
    by (simp_all add: m' m1 m2 m3 m4 apart)
  have marks: "x \<in> mc_orphansLast m' \<Longrightarrow> (\<exists>i. (x = orphan_key ''unit'' i \<or> x = orphan_key ''container'' i \<or> x = orphan_key ''subvol'' i) \<and> i \<notin> ?k) \<or> (\<exists>n. x = orphan_key ''user'' n)" for x
    using sweep_marks(1)[of x ok ev ?k "startOrphanPass m"] sweep_marks(2)[of x ok can ev ?k m1] sweep_marks(3)[of x ok can ?k m2] sweep_marks(4)[of x ok can ev ?k m3]
    by (auto simp: m' m1 m2 m3 m4)
  have "i \<in> ?k \<longrightarrow> {orphan_key ''unit'' i, orphan_key ''container'' i, orphan_key ''subvol'' i} \<inter> mc_orphansLast m' = {}"
    using marks[of "orphan_key ''unit'' i"] marks[of "orphan_key ''container'' i"] marks[of "orphan_key ''subvol'' i"] by (auto simp: orphan_key_def)
  then show ?thesis
    using units_confirmed[of ok ev ?k "startOrphanPass m" i] containers_confirmed[of ok can ev ?k m1 i] subvolumes_confirmed[of ok can ?k m2 i]
      accounts_confirmed[of ok can ev ?k m3 n] by (simp add: frame m1[symmetric] m2[symmetric] m3[symmetric] m4[symmetric])
qed

lemma subvolumes_marked:
  assumes "can ListPool" "map_of (mc_pool m) i = Some e" "is_dir e" "\<not> HasPrefix i ''.''" "i \<notin> k"
  shows "orphan_key ''subvol'' i \<in> mc_orphansThis (fst (reconcileSubvolumes ok can k m))"
proof -
  have "i \<in> set (map fst (mc_pool m))"
    using assms(2) by (force dest: map_of_SomeD)
  then show ?thesis
    using subvolumes.marks_orphans[of i "map fst (mc_pool m)" "map_of (mc_pool m)" k ok m] assms by (simp add: reconcileSubvolumes_def)
qed

lemma users_keep_marks: "x \<in> mc_orphansThis m \<Longrightarrow> x \<in> mc_orphansThis (fst (reconcileUsers ok can ev k m))"
  unfolding reconcileUsers_def Let_def by (cases "can ListAccounts") (simp_all only: if_False if_True simp_thms fst_conv accounts.marks_grow)

lemma remove_entry_view: "map_of (mc_pool (fst (remove_entry ok i m))) i \<in> {map_of (mc_pool m) i, None}"
  by (auto simp: remove_entry_def Let_def subvol_delete_def split: option.splits entry.splits bool.splits)

lemma subvolumes_kept_or_gone: "map_of (mc_pool (fst (reconcileSubvolumes ok can k m))) i \<in> {map_of (mc_pool m) i, None}"
  using subvolumes.kept_or_gone[OF remove_entry_view] by (simp add: reconcileSubvolumes_def)

lemma subvolumes_gone:
  assumes "can ListPool" "ok (SubvolDelete 5 i)" "ok (RemoveTree i)" "\<not> HasPrefix i ''.''" "i \<notin> k" "orphan_key ''subvol'' i \<in> mc_orphansLast m"
    and "map_of (mc_pool m) i \<in> {Some e, None}" "e = Subvol s \<or> e = Dir d False"
  shows "map_of (mc_pool (fst (reconcileSubvolumes ok can k m))) i = None"
proof (cases "map_of (mc_pool m) i")
  case None
  then show ?thesis
    using subvolumes_kept_or_gone[of ok can k m i] by simp
next
  case (Some f)
  then have i: "i \<in> set (map fst (mc_pool m))" and f: "f = e" "is_dir e"
    using assms(7,8) by (force dest: map_of_SomeD simp: is_dir_def)+
  have "map_of (mc_pool (fst (remove_entry ok i n))) i = None" if "map_of (mc_pool n) i \<in> {Some e, None}" for n
    using remove_entry_gone[of ok i n] assms(2,3,8) that by auto
  then show ?thesis
    using subvolumes.removes_confirmed[of i "Some e" None ok "map_of (mc_pool m)" k m "map fst (mc_pool m)"] i f Some assms(1,4-6)
    by (simp add: reconcileSubvolumes_def)
qed

lemma pass_pool:
  assumes "reconcileOrphans ok can ev known m = (m', r)" and "can ListUnits"
  obtains b where "mc_pool b = mc_pool m" "mc_orphansLast b = mc_orphansLast m" "mc_pool m' = mc_pool (fst (reconcileSubvolumes ok can (known_ids known m) b))"
    "mc_orphansThis (fst (reconcileSubvolumes ok can (known_ids known m) b)) \<subseteq> mc_orphansLast m'"
proof (rule pass_stages[of can ok ev known m], goal_cases)
  case 1
  show ?case by (rule assms(2))
next
  case (2 m1 m2 m3 m4)
  then show thesis
    using that[of m2] assms(1) users_keep_marks[of _ m3 ok can ev "known_ids known m"] by (auto simp: sweeps_apart)
qed

text \<open>C18: leftovers go. A subvolume, or a tree of directories without a file, that belongs to no listed app in two passes in a row is gone after the second one, whatever
  the first could do, if in that one the host carries the removal out.\<close>

theorem leftover_gone_after_two_passes:
  assumes "reconcileOrphans ok1 can1 ev known1 m = (m1, r1)" and "reconcileOrphans ok can ev known2 m1 = (m2, r2)"
    and "can1 ListUnits" "can1 ListPool" "can ListUnits" "can ListPool" and "ok (SubvolDelete 5 i)" "ok (RemoveTree i)"
    and "map_of (mc_pool m) i = Some e" and "e = Subvol s \<or> e = Dir d False" and "\<not> HasPrefix i ''.''" and "i \<notin> known_ids known1 m" "i \<notin> known_ids known2 m1"
  shows "map_of (mc_pool m2) i = None"
proof -
  have dir: "is_dir e"
    using assms(10) by (auto simp: is_dir_def)
  obtain b where b: "mc_pool b = mc_pool m" "mc_pool m1 = mc_pool (fst (reconcileSubvolumes ok1 can1 (known_ids known1 m) b))"
      "mc_orphansThis (fst (reconcileSubvolumes ok1 can1 (known_ids known1 m) b)) \<subseteq> mc_orphansLast m1"
    by (rule pass_pool[OF assms(1,3)]) blast
  have "orphan_key ''subvol'' i \<in> mc_orphansLast m1"
    using subvolumes_marked[of can1 b i e "known_ids known1 m" ok1] b assms(4,9,11,12) dir by auto
  moreover have "map_of (mc_pool m1) i \<in> {Some e, None}"
    using subvolumes_kept_or_gone[of ok1 can1 "known_ids known1 m" b i] b(1,2) assms(9) by simp
  moreover obtain c where "mc_pool c = mc_pool m1" "mc_orphansLast c = mc_orphansLast m1" "mc_pool m2 = mc_pool (fst (reconcileSubvolumes ok can (known_ids known2 m1) c))"
    by (rule pass_pool[OF assms(2,5)]) blast
  ultimately show ?thesis
    using subvolumes_gone[of can ok i "known_ids known2 m1" c e s d] assms(6-8,10,11,13) by simp
qed

section \<open>Containers and budget groups\<close>

lemma mount_sources_skip: "''--volume'' \<notin> set xs \<Longrightarrow> mount_sources (xs @ ys) = mount_sources ys"
proof (induction xs)
  case (Cons x xs)
  then show ?case
    by (cases "xs @ ys") auto
qed simp

lemma not_volume: "CHR '':'' \<in> set s \<or> CHR ''='' \<in> set s \<Longrightarrow> s \<noteq> ''--volume''"
  by auto

lemma env_args_no_volume: "''--volume'' \<notin> set (env_args conf)"
proof -
  have "''--volume'' \<noteq> k @ ''='' @ v" for k v
    by (rule not_volume[THEN not_sym]) simp
  then show ?thesis
    by (simp add: env_args_def split: option.splits)
qed

lemma CreateArgs_mounts:
  assumes "a_Name a \<noteq> ''--volume''" and "ne_cpus ev milli \<noteq> ''--volume''" and "CHR '':'' \<notin> set (filepath_Dir (ne_SocketFile ev))"
  shows "mount_sources (WithConfigLabel (CreateArgs ev conf a mb milli uid) h) = [HostBinFile, filepath_Dir (ne_SocketFile ev)]"
proof -
  obtain pre where c: "CreateArgs ev conf a mb milli uid = pre @ env_args conf @ appendCommonMounts ev @ [''--rootfs'', ne_AppsDir ev @ ''/'' @ a_ID a @ '':idmap'', ContainerBinFile, ''agent'']"
    and pre: "''--volume'' \<notin> set pre"
  proof
    show "CreateArgs ev conf a mb milli uid =
        ([''create'', ''--name'', ContainerName (a_ID a), ''--hostname'', a_Name a,
      ''--sdnotify'', ''conmon'', ''--label'', ''hostit.version='' @ ne_Version ev,
      ''--uidmap'', id_map uid, ''--gidmap'', id_map uid, ''--network'', ''slirp4netns''] @
     limit_args ev mb milli @
     [''--pids-limit'', ''512'', ''--security-opt'', ''no-new-privileges'', ''--security-opt'', ''apparmor=unconfined'',
      ''--env'', ''PORT=80'', ''--env'', ''HOME='' @ ContainerHome, ''--workdir'', ContainerHome,
      ''--publish'', (if ne_BindAddress ev = [] then ''127.0.0.1'' else ne_BindAddress ev) @ '':'' @ itoa (a_Port a) @ '':80'']) @
        env_args conf @ appendCommonMounts ev @ [''--rootfs'', ne_AppsDir ev @ ''/'' @ a_ID a @ '':idmap'', ContainerBinFile, ''agent'']"
      by (simp only: CreateArgs_def append_assoc append_Cons append_Nil)
  next
    have "''--volume'' \<noteq> (if ne_BindAddress ev = [] then ''127.0.0.1'' else ne_BindAddress ev) @ '':'' @ itoa (a_Port a) @ '':80''"
      by (rule not_volume[THEN not_sym]) simp
    moreover have "''--volume'' \<noteq> itoa mb @ ''m''"
    proof
      assume "''--volume'' = itoa mb @ ''m''"
      from arg_cong[OF this, of last] show False
        by simp
    qed
    ultimately show "''--volume'' \<notin> set ([''create'', ''--name'', ContainerName (a_ID a), ''--hostname'', a_Name a,
      ''--sdnotify'', ''conmon'', ''--label'', ''hostit.version='' @ ne_Version ev,
      ''--uidmap'', id_map uid, ''--gidmap'', id_map uid, ''--network'', ''slirp4netns''] @
     limit_args ev mb milli @
     [''--pids-limit'', ''512'', ''--security-opt'', ''no-new-privileges'', ''--security-opt'', ''apparmor=unconfined'',
      ''--env'', ''PORT=80'', ''--env'', ''HOME='' @ ContainerHome, ''--workdir'', ContainerHome,
      ''--publish'', (if ne_BindAddress ev = [] then ''127.0.0.1'' else ne_BindAddress ev) @ '':'' @ itoa (a_Port a) @ '':80''])"
      using assms(1,2) by (simp add: ContainerName_def ContainerPrefix_def id_map_def limit_args_def ContainerHome_def)
  qed
  have "WithConfigLabel (CreateArgs ev conf a mb milli uid) h = (pre @ env_args conf) @ appendCommonMounts ev @ [''--label'', ''hostit.config='' @ h, ''--rootfs'', ne_AppsDir ev @ ''/'' @ a_ID a @ '':idmap'', ContainerBinFile, ''agent'']"
    by (simp add: WithConfigLabel_def c containerArgsTrailer_def Let_def)
  then show ?thesis
    using pre env_args_no_volume[of conf] assms(3)
    by (simp add: mount_sources_skip appendCommonMounts_def HostBinFile_def takeWhile_append ContainerBinFile_def)
qed

text \<open>The check for containers of another node takes every container of this node for one. What is mounted into a container is the binary and the socket
  directory; the app's tree is its root, which is no mount. So no source of a mount is below the apps directory, and the sweeps pass over
  the container, and over the unit that runs it, as long as the container exists.\<close>

lemma containers_foreign_kept:
  assumes "map_of (mc_containers m) i = Some c" and "containerForeign ev m i"
  shows "map_of (mc_containers (fst (sweep (\<lambda>i m. i = [] \<or> i \<in> k \<or> containerForeign ev m i) (orphan_key ''container'') (\<lambda>i m. ctr_remove ok i m) xs m))) i = Some c"
  using assms
proof (induction xs arbitrary: m)
  case (Cons x xs)
  let ?n = "if x = [] \<or> x \<in> k \<or> containerForeign ev m x then m
    else if orphan_key ''container'' x \<in> mc_orphansLast m then fst (ctr_remove ok x (sighted (orphan_key ''container'' x) m)) else sighted (orphan_key ''container'' x) m"
  have "map_of (mc_containers ?n) i = Some c"
    using Cons.prems ctr_remove_effect(1)[of i x ok "sighted (orphan_key ''container'' x) m"] by (cases "x = i") simp_all
  moreover from this have "containerForeign ev ?n i"
    using Cons.prems by (simp add: containerForeign_def)
  ultimately show ?case
    using Cons.IH[of ?n] by (simp only: fst_sweep)
qed (simp add: fst_sweep)

lemma units_foreign_kept:
  assumes "containerForeign ev m i"
  shows "unit_of (fst (sweep (\<lambda>i m. i \<in> k \<or> containerForeign ev m i) (orphan_key ''unit'') (\<lambda>i m. (fst (unit_disable ok i m), True)) xs m)) i = unit_of m i"
  using assms
proof (induction xs arbitrary: m)
  case (Cons x xs)
  let ?n = "if x \<in> k \<or> containerForeign ev m x then m
    else if orphan_key ''unit'' x \<in> mc_orphansLast m then fst (unit_disable ok x (sighted (orphan_key ''unit'' x) m)) else sighted (orphan_key ''unit'' x) m"
  have "containerForeign ev ?n i"
    using Cons.prems by (simp add: containerForeign_def unit_disable_effect)
  moreover have "unit_of ?n i = unit_of m i"
    using Cons.prems unit_disable_effect(1)[of i x ok "sighted (orphan_key ''unit'' x) m"] by (cases "x = i") simp_all
  ultimately show ?case
    using Cons.IH[of ?n] by (simp only: fst_sweep fst_conv)
qed (simp add: fst_sweep)

text \<open>The container of a deleted app is never swept. A container that this node made, for an app that is in no list and has been seen as an orphan as often as one
  likes, is still there after a pass, and so is its unit: the check for containers of other nodes on the host holds for it.\<close>

lemma own_container_never_swept:
  assumes "map_of (mc_containers m) i = Some c" and "ct_args c = WithConfigLabel (CreateArgs ev conf a mb milli uid) h"
    and "a_Name a \<noteq> ''--volume''" "ne_cpus ev milli \<noteq> ''--volume''" "CHR '':'' \<notin> set (filepath_Dir (ne_SocketFile ev))"
    and "Fields_aux [] (filepath_Dir (ne_SocketFile ev)) = [filepath_Dir (ne_SocketFile ev)]"
    and "\<not> HasPrefix HostBinFile (ne_AppsDir ev @ ''/'')" "\<not> HasPrefix (filepath_Dir (ne_SocketFile ev)) (ne_AppsDir ev @ ''/'')"
  shows "map_of (mc_containers (fst (reconcileOrphans ok can ev known m))) i = Some c \<and> unit_of (fst (reconcileOrphans ok can ev known m)) i = unit_of m i"
proof (cases "can ListUnits")
  case False
  then show ?thesis
    using assms(1) by (simp add: reconcileOrphans_def Let_def endOrphanPass_def startOrphanPass_def unit_of_def)
next
  case True
  have "Fields_aux [] HostBinFile = [HostBinFile]"
    by (simp add: HostBinFile_def is_space_def)
  then have foreign: "containerForeign ev n i" if "map_of (mc_containers n) i = Some c" for n
    using that assms by (simp add: containerForeign_def CreateArgs_mounts)
  obtain m1 m2 m3 m4 where st: "m1 = fst (reconcileUnits ok ev (known_ids known m) (startOrphanPass m))" "m2 = fst (reconcileContainers ok can ev (known_ids known m) m1)"
    "m3 = fst (reconcileSubvolumes ok can (known_ids known m) m2)" "m4 = fst (reconcileUsers ok can ev (known_ids known m) m3)"
    "fst (reconcileOrphans ok can ev known m) = endOrphanPass (reconcileBudgets ok can (Apps (mc_db m)) m4)"
    using pass_stages[of can ok ev known m] True by metis
  have "mc_containers m1 = mc_containers m" "mc_containers m4 = mc_containers m2" "unit_of m4 = unit_of m1"
    by (simp_all add: st sweeps_apart)
  moreover have "map_of (mc_containers m2) i = Some c"
    unfolding st(2) reconcileContainers_def using containers_foreign_kept[of m1 i c ev] foreign[of m1] calculation(1) assms(1) by simp
  moreover have "unit_of m1 i = unit_of m i"
    unfolding st(1) reconcileUnits_def using units_foreign_kept[of ev "startOrphanPass m" i] foreign[of "startOrphanPass m"] assms(1) by simp
  ultimately show ?thesis
    by (simp add: st(5))
qed

lemma map_of_filter_out: "(\<And>n. \<not> P (g, n)) \<Longrightarrow> map_of (filter P l) g = None"
  by (induction l) auto

text \<open>Budget groups are the exception. A group is destroyed the first time no app of the node's mirror has it, whatever the desired state that started the pass says: the
  disk cap of an app that control lists, and that was just built, is lost when the mirror is the older of the two.\<close>

lemma budget_swept_on_first_sighting:
  assumes "can ListUnits" "can ListBudgets" and "ok (QgroupDestroy (budgetGroup uid))"
    and "budgetGroup uid \<notin> set (map (\<lambda>a. budgetGroup (UIDFor (a_Port a))) (Apps (mc_db m)))"
  shows "map_of (mc_budgets (fst (reconcileOrphans ok can ev known m))) (budgetGroup uid) = None"
proof -
  obtain m1 m2 m3 m4 where st: "m1 = fst (reconcileUnits ok ev (known_ids known m) (startOrphanPass m))" "m2 = fst (reconcileContainers ok can ev (known_ids known m) m1)"
    "m3 = fst (reconcileSubvolumes ok can (known_ids known m) m2)" "m4 = fst (reconcileUsers ok can ev (known_ids known m) m3)"
    "fst (reconcileOrphans ok can ev known m) = endOrphanPass (reconcileBudgets ok can (Apps (mc_db m)) m4)"
    using pass_stages[of can ok ev known m] assms(1) by metis
  have "HasPrefix (budgetGroup uid) ''1/''"
    by (simp add: budgetGroup_def HasPrefix_def)
  then show ?thesis
    using assms(2-4) by (simp add: st(5) endOrphanPass_def reconcileBudgets_def Let_def map_of_filter_out)
qed

subsection \<open>Samples\<close>

text \<open>A node that holds the subvolume and the container of an app that is in no list any more, and has seen both before.\<close>

definition stale_machine :: machine where
  "stale_machine = bare_machine\<lparr>mc_pool := [(''app_2'', Subvol wiki_tree)],
     mc_containers := [(''app_2'', \<lparr>ct_args = WithConfigLabel (CreateArgs sample_env None wiki_app 0 0 1065536) ''h'', ct_label = ''h''\<rparr>)],
     mc_orphansLast := {orphan_key ''subvol'' ''app_2'', orphan_key ''container'' ''app_2''}\<rparr>"

theorem sweep_needs_two_sightings_witness:
  "map_of (mc_pool (fst (reconcileOrphans (\<lambda>_. True) (\<lambda>_. True) sample_env (Some {''app_2''}) stale_machine))) ''app_2'' = Some (Subvol wiki_tree)"
proof -
  have "known_ids (Some {''app_2''}) stale_machine = {''app_2''}" "map_of (mc_pool stale_machine) ''app_2'' = Some (Subvol wiki_tree)"
    by (simp_all add: known_ids_def stale_machine_def)
  then show ?thesis
    using sweep_needs_two_sightings[OF prod.collapse[symmetric], of "\<lambda>_. True" "\<lambda>_. True" sample_env "Some {''app_2''}" stale_machine "''app_2''"] by auto
qed

theorem leftover_gone_after_two_passes_witness:
  "map_of (mc_pool (fst (reconcileOrphans (\<lambda>_. True) (\<lambda>_. True) sample_env (Some {}) (fst (reconcileOrphans (\<lambda>_. False) (\<lambda>_. True) sample_env (Some {}) lost_account))))) ''app_2'' = None"
  by (rule leftover_gone_after_two_passes[OF prod.collapse[symmetric] prod.collapse[symmetric], where e = "Subvol wiki_tree"])
    (simp_all add: lost_account_def known_ids_def HasPrefix_def)

lemma own_container_never_swept_witness:
  "map_of (mc_containers (fst (reconcileOrphans (\<lambda>_. True) (\<lambda>_. True) sample_env (Some {}) stale_machine))) ''app_2'' \<noteq> None"
proof -
  have dir: "filepath_Dir (ne_SocketFile sample_env) = ''/run/hostit/app''"
    by (simp add: filepath_Dir_def sample_env_def)
  have "map_of (mc_containers stale_machine) ''app_2'' = Some \<lparr>ct_args = WithConfigLabel (CreateArgs sample_env None wiki_app 0 0 1065536) ''h'', ct_label = ''h''\<rparr>"
    by (simp add: stale_machine_def)
  moreover have "ne_AppsDir sample_env = ''/srv/apps''" "ne_cpus sample_env 0 \<noteq> ''--volume''"
    by (simp_all add: sample_env_def itoa_def show_nat.simps)
  ultimately show ?thesis
    using own_container_never_swept[of stale_machine "''app_2''", OF _ container.select_convs(1), where ok = "\<lambda>_. True" and can = "\<lambda>_. True" and known = "Some {}"]
    by (simp add: dir is_space_def HasPrefix_def HostBinFile_def site_apps)
qed

lemma budget_swept_on_first_sighting_witness:
  "map_of (mc_budgets (fst (reconcileOrphans (\<lambda>_. True) (\<lambda>_. True) sample_env (Some {''app_2''})
     (lost_account\<lparr>mc_budgets := [(budgetGroup (UIDFor 10001), 1024)]\<rparr>)))) (budgetGroup (UIDFor 10001)) = None"
  by (rule budget_swept_on_first_sighting) (simp_all add: lost_account_def bare_machine_def Apps_def empty_db_def)

end
