(* ===== verification/App_Socket.thy ===== *)
theory App_Socket
  imports Node_Link
begin

text \<open>
  The socket an app talks to hostit through, and what a node may tell control (\<open>node/appsocket.go\<close>, \<open>control/apprelay.go\<close>, \<open>control/socket.go\<close>,
  \<open>control/server_handler_self.go\<close>, \<open>node/link/link.go\<close>). A request of an app goes from the node's handler over the relay to control's, and there to a
  handler with the app it is about; \<open>served\<close> is where it ends up. Paths are unescaped paths. The lemmas show that the app is the one of the
  peer's uid, that a node speaks only for the apps it hosts, and where its snapshot reports reach further.
\<close>

section \<open>Requests\<close>

type_synonym http_header = "(string \<times> string list) list"

record sock_req =
  sr_Method :: string
  sr_Path :: string
  sr_Header :: http_header

definition header_Get :: "http_header \<Rightarrow> string \<Rightarrow> string" where
  "header_Get h k = (case map_of h k of Some (v # vs) \<Rightarrow> v | _ \<Rightarrow> [])"

definition header_Set :: "http_header \<Rightarrow> string \<Rightarrow> string \<Rightarrow> http_header" where
  "header_Set h k v = AList.update k [v] h"

definition AppRelayPrefix :: string where "AppRelayPrefix = ''/apprelay''"
definition AppRelayHeader :: string where "AppRelayHeader = ''X-Hostit-App''"
definition containerAliasPrefix :: string where "containerAliasPrefix = ''/api/container''"

text \<open>The calls an app can make; those with a wildcard in their path carry its value.\<close>

datatype self_call =
    Self | SelfConnectionsList | SelfConnectionToken string | SelfMCPTools string | SelfMCPCall string | SelfAssistantModels | SelfAssistantAsk
  | SelfEnsure | SelfDeploy | SelfStart | SelfStop | SelfRestart | SelfPowerOn | SelfPowerOff | SelfReboot | SelfStatus | SelfLogs | SelfTool string

datatype served = Refused nat | Handled App self_call | Operator

section \<open>Control's mux\<close>

text \<open>\<open>http.ServeMux\<close>: a path that is not clean is redirected; a literal matches itself and a wildcard one segment that is not empty; \<open>GET\<close> matches
  \<open>HEAD\<close>. No two of the patterns below match the same request.\<close>

datatype pseg = Lit string | Wild

fun path_matches :: "pseg list \<Rightarrow> string list \<Rightarrow> string option" where
  "path_matches [] [] = Some []"
| "path_matches (Lit l # ps) (s # ss) = (if s = l then path_matches ps ss else None)"
| "path_matches (Wild # ps) (s # ss) = (if s = [] then None else case path_matches ps ss of None \<Rightarrow> None | Some _ \<Rightarrow> Some s)"
| "path_matches _ _ = None"

definition clean_path :: "string \<Rightarrow> bool" where
  "clean_path p =
     (case split_on CHR ''/'' p of
        [] # ss \<Rightarrow> ss \<noteq> [] \<and> list_all (\<lambda>s. s \<noteq> []) (butlast ss) \<and> list_all (\<lambda>s. s \<noteq> ''.'' \<and> s \<noteq> ''..'') ss
      | _ \<Rightarrow> False)"

definition method_matches :: "string \<Rightarrow> string \<Rightarrow> bool" where
  "method_matches m method = (method = m \<or> m = ''GET'' \<and> method = ''HEAD'')"

type_synonym mux_entry = "string \<times> pseg list \<times> (string \<Rightarrow> self_call)"

definition mux_route :: "mux_entry list \<Rightarrow> string \<Rightarrow> string \<Rightarrow> nat + self_call" where
  "mux_route entries method path =
     (if \<not> clean_path path then Inl 301
      else let segs = tl (split_on CHR ''/'' path);
               hits = filter (\<lambda>(m, pat, f). path_matches pat segs \<noteq> None) entries
           in if hits = [] then Inl 404
              else case find (\<lambda>(m, pat, f). method_matches m method) hits of
                None \<Rightarrow> Inl 405
              | Some (m, pat, f) \<Rightarrow> Inr (f (case path_matches pat segs of Some v \<Rightarrow> v | None \<Rightarrow> [])))"

text \<open>The two roots, and the routes below them.\<close>

definition containerPrefixes :: "pseg list list" where
  "containerPrefixes = [[Lit ''v1''], [Lit ''api'', Lit ''container'']]"

definition self_routes :: "mux_entry list" where
  "self_routes =
     [(''GET'', [Lit ''self''], \<lambda>_. Self),
      (''GET'', [Lit ''connections''], \<lambda>_. SelfConnectionsList),
      (''GET'', [Lit ''connections'', Wild, Lit ''token''], SelfConnectionToken),
      (''GET'', [Lit ''mcp'', Wild, Lit ''tools''], SelfMCPTools),
      (''POST'', [Lit ''mcp'', Wild, Lit ''call''], SelfMCPCall),
      (''GET'', [Lit ''assistant'', Lit ''models''], \<lambda>_. SelfAssistantModels),
      (''POST'', [Lit ''assistant''], \<lambda>_. SelfAssistantAsk),
      (''POST'', [Lit ''self'', Lit ''ensure''], \<lambda>_. SelfEnsure),
      (''POST'', [Lit ''self'', Lit ''deploy''], \<lambda>_. SelfDeploy),
      (''POST'', [Lit ''self'', Lit ''start''], \<lambda>_. SelfStart),
      (''POST'', [Lit ''self'', Lit ''stop''], \<lambda>_. SelfStop),
      (''POST'', [Lit ''self'', Lit ''restart''], \<lambda>_. SelfRestart),
      (''POST'', [Lit ''self'', Lit ''poweron''], \<lambda>_. SelfPowerOn),
      (''POST'', [Lit ''self'', Lit ''poweroff''], \<lambda>_. SelfPowerOff),
      (''POST'', [Lit ''self'', Lit ''reboot''], \<lambda>_. SelfReboot),
      (''GET'', [Lit ''self'', Lit ''status''], \<lambda>_. SelfStatus),
      (''GET'', [Lit ''self'', Lit ''logs''], \<lambda>_. SelfLogs),
      (''POST'', [Lit ''self'', Lit ''tool'', Wild], SelfTool)]"

definition self_entries :: "mux_entry list" where
  "self_entries = concat (map (\<lambda>(m, pat, f). map (\<lambda>prefix. (m, prefix @ pat, f)) containerPrefixes) self_routes)"

definition selfMux :: "(sock_req \<Rightarrow> nat + App) \<Rightarrow> sock_req \<Rightarrow> served" where
  "selfMux wrap r =
     (case mux_route self_entries (sr_Method r) (sr_Path r) of
        Inl status \<Rightarrow> Refused status
      | Inr call \<Rightarrow> (case wrap r of Inl status \<Rightarrow> Refused status | Inr a \<Rightarrow> Handled a call))"

text \<open>Control's own socket resolves the app by the uid of the peer; \<open>username\<close> is the passwd lookup.\<close>

definition selfApp :: "db \<Rightarrow> (int \<Rightarrow> string option) \<Rightarrow> int option \<Rightarrow> sock_req \<Rightarrow> nat + App" where
  "selfApp d username peer r =
     (case peer of None \<Rightarrow> Inl 403
      | Some uid \<Rightarrow> (case AppByUID d uid of Inr a \<Rightarrow> Inr a
          | Inl _ \<Rightarrow> (case username uid of None \<Rightarrow> Inl 403
              | Some name \<Rightarrow> (case Store_App d name of Inl e \<Rightarrow> Inl (writeAppError e) | Inr a \<Rightarrow> Inr a))))"

definition newSocketHandler :: "db \<Rightarrow> (int \<Rightarrow> string option) \<Rightarrow> int option \<Rightarrow> sock_req \<Rightarrow> served" where
  "newSocketHandler d username peer r =
     (case mux_route self_entries (sr_Method r) (sr_Path r) of
        Inl status \<Rightarrow>
          if clean_path (sr_Path r) \<and> HasPrefix (sr_Path r) ''/api/'' then Operator
          else if sr_Path r = ''/api'' then Refused 301 else Refused status
      | Inr call \<Rightarrow> selfMux (selfApp d username peer) r)"

text \<open>The relay of one node: the app is the one the header names, if that node hosts it.\<close>

definition relayApp :: "db \<Rightarrow> string \<Rightarrow> sock_req \<Rightarrow> nat + App" where
  "relayApp d nodeID r =
     (let name = header_Get (sr_Header r) AppRelayHeader
      in if name = [] then Inl 400
         else case Store_App d name of Inl e \<Rightarrow> Inl (writeAppError e)
              | Inr a \<Rightarrow> if (if a_Host a = [] then HostLocal else a_Host a) \<noteq> nodeID then Inl 403 else Inr a)"

definition AppRelayHandler :: "db \<Rightarrow> string \<Rightarrow> sock_req \<Rightarrow> served" where
  "AppRelayHandler d nodeID r =
     (let p = TrimPrefix (sr_Path r) AppRelayPrefix
      in if length p < length (sr_Path r) then selfMux (relayApp d nodeID) (r\<lparr>sr_Path := p\<rparr>) else Refused 404)"

section \<open>The node's side\<close>

definition isOperatorPath :: "string \<Rightarrow> bool" where
  "isOperatorPath path =
     (if path = containerAliasPrefix \<or> HasPrefix path (containerAliasPrefix @ ''/'') then False
      else path = ''/api'' \<or> HasPrefix path ''/api/'')"

text \<open>\<open>urlPath\<close> is the path that \<open>url.Parse\<close> finds behind the scheme and host, or nothing when it does not parse; \<open>client\<close> is the session to control, which may be
  missing and may fail.\<close>

definition relay :: "(string \<Rightarrow> string option) \<Rightarrow> (sock_req \<Rightarrow> served option) option \<Rightarrow> sock_req \<Rightarrow> string \<Rightarrow> served" where
  "relay urlPath client r appName =
     (case client of None \<Rightarrow> Refused 502
      | Some send \<Rightarrow> (case urlPath (AppRelayPrefix @ sr_Path r) of None \<Rightarrow> Refused 500
          | Some p \<Rightarrow>
              (case send \<lparr>sr_Method = sr_Method r, sr_Path = p, sr_Header = header_Set (sr_Header r) AppRelayHeader appName\<rparr> of
                 None \<Rightarrow> Refused 502 | Some answer \<Rightarrow> answer)))"

definition appSocketHandler :: "(string \<Rightarrow> string option) \<Rightarrow> db \<Rightarrow> (sock_req \<Rightarrow> served option) option \<Rightarrow> int option \<Rightarrow> sock_req \<Rightarrow> served" where
  "appSocketHandler urlPath mirror client peer r =
     (if isOperatorPath (sr_Path r) then Refused 501
      else case peer of None \<Rightarrow> Refused 403
           | Some uid \<Rightarrow> (case AppByUID mirror uid of Inl e \<Rightarrow> Refused 403 | Inr a \<Rightarrow> relay urlPath client r (a_Name a)))"

section \<open>The lifecycle calls\<close>

definition self_verb :: "self_call \<Rightarrow> verb option" where
  "self_verb call =
     (case call of SelfEnsure \<Rightarrow> Some Ensure | SelfPowerOn \<Rightarrow> Some PowerOn | SelfDeploy \<Rightarrow> Some Up | SelfStart \<Rightarrow> Some StartApp | SelfStop \<Rightarrow> Some StopApp
      | SelfRestart \<Rightarrow> Some RestartApp | SelfPowerOff \<Rightarrow> Some Down | SelfReboot \<Rightarrow> Some Restart | SelfStatus \<Rightarrow> Some Status | SelfLogs \<Rightarrow> Some Logs
      | _ \<Rightarrow> None)"

text \<open>What a node is asked and the status of the answer; \<open>node\<close> is what the node says.\<close>

definition selfAction :: "agents \<Rightarrow> (conn \<Rightarrow> verb \<Rightarrow> string \<Rightarrow> err option) \<Rightarrow> db \<Rightarrow> App \<Rightarrow> verb \<Rightarrow> (conn \<times> verb \<times> string) option \<times> nat" where
  "selfAction reg node d a v =
     (case dispatch reg d v (a_Name a) of Inl e \<Rightarrow> (None, writeAppError e)
      | Inr c \<Rightarrow> (Some (c, v, a_Name a), case node c v (a_Name a) of None \<Rightarrow> 200 | Some e \<Rightarrow> writeAppError e))"

text \<open>How many lines of the log are asked for.\<close>

definition log_lines :: "string \<Rightarrow> int" where
  "log_lines v = (if v = [] then 100 else case parse_int v of Some n \<Rightarrow> if n > 0 \<and> n < 2 ^ 63 then n else 100 | None \<Rightarrow> 100)"

section \<open>Callbacks of a node\<close>

text \<open>A body is the decoded value; nothing when it does not decode or is too long.\<close>

datatype callback = PowerCallback string bool | UsageCallback string int | SnapshotsCallback string "Snapshot list"

fun callback_name :: "callback \<Rightarrow> string" where
  "callback_name (PowerCallback n _) = n"
| "callback_name (UsageCallback n _) = n"
| "callback_name (SnapshotsCallback n _) = n"

fun apply_callback :: "db \<Rightarrow> callback \<Rightarrow> db res" where
  "apply_callback d (PowerCallback n off) = Inr (SetAppPoweredOff d n off)"
| "apply_callback d (UsageCallback n mb) = UpdateAppUsage d n mb"
| "apply_callback d (SnapshotsCallback n snaps) = ReplaceAppSnapshots d n snaps"

definition CallbackHandler :: "string \<Rightarrow> callback option \<Rightarrow> db \<Rightarrow> db \<times> nat" where
  "CallbackHandler nodeID body d =
     (case body of None \<Rightarrow> (d, 400)
      | Some cb \<Rightarrow>
          (case AppHost d (callback_name cb) of Inl e \<Rightarrow> (d, 403)
           | Inr h \<Rightarrow>
               if (if h = [] then HostLocal else h) \<noteq> nodeID then (d, 403)
               else case apply_callback d cb of Inl e \<Rightarrow> (d, 400) | Inr d' \<Rightarrow> (d', 200)))"

section \<open>Whom a request is about\<close>

lemma selfMux_Handled: "selfMux wrap r = Handled a call \<longleftrightarrow> mux_route self_entries (sr_Method r) (sr_Path r) = Inr call \<and> wrap r = Inr a"
  by (auto simp: selfMux_def split: sum.splits)

text \<open>A node speaks for its own apps, whatever it sends.\<close>

lemma AppRelayHandler_Handled:
  assumes "AppRelayHandler d nodeID r = Handled a call"
  shows "Store_App d (header_Get (sr_Header r) AppRelayHeader) = Inr a" "hostOrLocal (a_Host a) = nodeID"
  using assms by (auto simp: AppRelayHandler_def Let_def selfMux_Handled relayApp_def hostOrLocal_def split: if_splits sum.splits)

lemma AppByUID_row: "AppByUID d uid = Inr a \<Longrightarrow> a \<in> set (app_tbl d) \<and> a_UID a = uid"
  by (auto simp: AppByUID_def dest: tbl_find_Some split: option.splits)

lemma header_Get_Set [simp]: "header_Get (header_Set h k v) k = v"
  by (simp add: header_Get_def header_Set_def update_conv')

text \<open>The node names the app of the peer, whatever header the request came with.\<close>

lemma appSocketHandler_Handled:
  assumes "appSocketHandler urlPath mirror (Some (\<lambda>q. if up q then Some (AppRelayHandler d nodeID q) else None)) peer r = Handled a call"
  obtains uid b where "peer = Some uid" "\<not> isOperatorPath (sr_Path r)" "b \<in> set (app_tbl mirror)" "a_UID b = uid" "Store_App d (a_Name b) = Inr a" "hostOrLocal (a_Host a) = nodeID"
proof -
  obtain uid b where b: "peer = Some uid" "\<not> isOperatorPath (sr_Path r)" "AppByUID mirror uid = Inr b"
      "relay urlPath (Some (\<lambda>q. if up q then Some (AppRelayHandler d nodeID q) else None)) r (a_Name b) = Handled a call"
    using assms by (auto simp: appSocketHandler_def split: if_splits option.splits sum.splits)
  then obtain p where "AppRelayHandler d nodeID \<lparr>sr_Method = sr_Method r, sr_Path = p, sr_Header = header_Set (sr_Header r) AppRelayHeader (a_Name b)\<rparr> = Handled a call"
    by (auto simp: relay_def split: option.splits if_splits)
  from AppRelayHandler_Handled[OF this] show ?thesis
    using that[of uid b] b(1,2) AppByUID_row[OF b(3)] by simp
qed

text \<open>The rows of a mirror after a fresh push.\<close>

lemma pushed_mirror:
  assumes "db_unique d" "0 \<le> seq" "nd_syncSeq n \<le> seq"
  shows "app_tbl (nd_db (fst (Sync n (snd (syncState d seq host))))) = map mirror_row (filter (on_host host) (Apps d))"
proof -
  have "insert_mirror_apps (map (\<lambda>a. a\<lparr>a_OwnerID := ''''\<rparr>) (filter (on_host host) (Apps d))) [] = Inr (map mirror_row (filter (on_host host) (Apps d)))"
    using insert_mirror_apps_ok[of "[]"] mirror_rows_unique[OF assms(1)] by simp
  then show ?thesis
    using assms(2,3) by (simp add: Sync_def syncState_def sync_check_def sync_apply_def ReplaceNodeMirror_def Let_def)
qed

lemma selfAction_asks:
  assumes "selfAction reg node d a v = (Some (c, w, name), status)" and "Store_App d (a_Name a) = Inr a"
  shows "w = v" "name = a_Name a" "Agent reg (hostOrLocal (a_Host a)) = Some c" "a_Archived a \<Longrightarrow> \<not> needs_runnable v"
  using assms by (auto simp: selfAction_def dispatch_def route_def routeRunnable_def agentFor_def split: sum.splits option.splits if_splits)

text \<open>
  C20: an app only reaches itself. Through the socket of a node whose mirror was pushed by control, a request is handled only for the registered app whose uid the
  peer of the connection has and which that node hosts, whatever path and headers the request comes with; it is never an operator request. And
  when it is a lifecycle call, the verb goes to that node and for that app, and makes no archived app run.
\<close>

theorem app_socket_reaches_self:
  assumes "db_unique d" "0 \<le> seq" "nd_syncSeq n \<le> seq"
    and "appSocketHandler urlPath (nd_db (fst (Sync n (snd (syncState d seq nodeID))))) (Some (\<lambda>q. if up q then Some (AppRelayHandler d nodeID q) else None)) peer r =
           Handled a call"
  shows "peer = Some (a_UID a) \<and> a \<in> set (app_tbl d) \<and> hostOrLocal (a_Host a) = nodeID \<and> \<not> isOperatorPath (sr_Path r) \<and>
    (\<forall>v c w name status. self_verb call = Some v \<and> selfAction reg node d a v = (Some (c, w, name), status) \<longrightarrow>
       w = v \<and> name = a_Name a \<and> Agent reg nodeID = Some c \<and> (a_Archived a \<longrightarrow> \<not> needs_runnable v))"
proof -
  obtain uid b where b: "peer = Some uid" "\<not> isOperatorPath (sr_Path r)" "b \<in> set (app_tbl (nd_db (fst (Sync n (snd (syncState d seq nodeID))))))" "a_UID b = uid"
      "Store_App d (a_Name b) = Inr a" and host: "hostOrLocal (a_Host a) = nodeID"
    using appSocketHandler_Handled[OF assms(4)] by metis
  from b(3) obtain b' where "b = mirror_row b'" "b' \<in> set (app_tbl d)"
    unfolding pushed_mirror[OF assms(1-3)] by (auto simp: Apps_def)
  moreover have a: "a \<in> set (app_tbl d)" "a_Name a = a_Name b"
    using b(5) Store_App_Inr[OF assms(1)] by auto
  ultimately have "a = b'"
    using name_eq_iff[OF assms(1)] by (simp add: mirror_row_def)
  then have "a_UID a = uid" "Store_App d (a_Name a) = Inr a"
    using \<open>b = mirror_row b'\<close> b(4,5) by (simp_all add: mirror_row_def)
  then show ?thesis
    using a(1) b(1,2) host selfAction_asks[of reg node d a] by blast
qed

section \<open>What a node may report\<close>

text \<open>The part of a registry that a callback may touch, taken out.\<close>

definition beside_reports :: "db \<Rightarrow> db" where
  "beside_reports d = d\<lparr>app_tbl := map (\<lambda>a. a\<lparr>a_PoweredOff := False, a_DiskMB := 0\<rparr>) (app_tbl d), snapshot_tbl := []\<rparr>"

lemma upd_app_beside:
  assumes "\<And>a. (f a)\<lparr>a_PoweredOff := False, a_DiskMB := 0\<rparr> = a\<lparr>a_PoweredOff := False, a_DiskMB := 0\<rparr>"
  shows "beside_reports (upd_app d n f) = beside_reports d"
  by (simp add: beside_reports_def upd_app_def tbl_update_def assms)

lemma apply_callback_beside:
  assumes "apply_callback d cb = Inr d'"
  shows "beside_reports d' = beside_reports d"
proof (cases cb)
  case (SnapshotsCallback n snaps)
  then show ?thesis
    using assms by (auto simp: ReplaceAppSnapshots_def Let_def beside_reports_def split: option.splits)
qed (use assms in \<open>auto simp: SetAppPoweredOff_def UpdateAppUsage_def upd_app_checked_def checkAffected_def upd_app_beside split: if_splits\<close>)

lemma apply_callback_apps:
  assumes "apply_callback d cb = Inr d'" and "a \<in> set (app_tbl d)" "a_Name a \<noteq> callback_name cb"
  shows "a \<in> set (app_tbl d')"
  using assms
  by (cases cb)
    (auto simp: SetAppPoweredOff_def UpdateAppUsage_def upd_app_checked_def checkAffected_def upd_app_def tbl_update_def ReplaceAppSnapshots_def Let_def image_iff
      split: option.splits if_splits)

lemma fold_merge_frame:
  assumes "r \<in> set t" "s_ID r \<notin> s_ID ` set snaps"
  shows "r \<in> set (fold (merge_snapshot d n) snaps t)"
  using assms
proof (induction snaps arbitrary: t)
  case (Cons x xs)
  then have "r \<in> set (merge_snapshot d n x t)"
    by (auto simp: merge_snapshot_def tbl_insert_or_replace_def tbl_delete_def snapshot_conflict_def snapshot_row_of_def)
  then show ?case
    using Cons by simp
qed simp

lemma fold_merge_new:
  "r \<in> set (fold (merge_snapshot d n) snaps t) \<Longrightarrow> r \<in> set t \<or> s_AppName r = n"
proof (induction snaps arbitrary: t)
  case (Cons x xs)
  then have "r \<in> set (merge_snapshot d n x t) \<or> s_AppName r = n"
    by simp
  then show ?case
    by (auto simp: merge_snapshot_def tbl_insert_or_replace_def tbl_delete_def snapshot_row_of_def)
qed simp

text \<open>
  C21: a node reports on its own apps. Whatever a node sends, a refused report changes nothing; an accepted one names an app the node hosts, changes
  of the app table only the power state and the disk usage of that app's row, adds snapshot records only to that app, and takes away none of another app
  whose id it does not repeat. Nothing else of the registry changes.
\<close>

theorem node_reports_confined:
  assumes "db_unique d" and "CallbackHandler nodeID body d = (d', status)"
  shows "(status \<noteq> 200 \<longrightarrow> d' = d) \<and> beside_reports d' = beside_reports d \<and>
    (\<forall>a \<in> set (app_tbl d). hostOrLocal (a_Host a) \<noteq> nodeID \<longrightarrow> a \<in> set (app_tbl d')) \<and>
    (\<forall>r \<in> set (snapshot_tbl d') - set (snapshot_tbl d). \<exists>a \<in> set (app_tbl d). a_Name a = s_AppName r \<and> hostOrLocal (a_Host a) = nodeID) \<and>
    (\<forall>r \<in> set (snapshot_tbl d) - set (snapshot_tbl d').
       (\<exists>a \<in> set (app_tbl d). hostOrLocal (a_Host a) = nodeID \<and> app_row_sel (a_ID a) (a_Name a) (s_app_id r) (s_AppName r)) \<or>
       (\<exists>n snaps. body = Some (SnapshotsCallback n snaps) \<and> s_ID r \<in> s_ID ` set snaps))"
proof (cases "d' = d")
  case False
  then obtain cb h where cb: "body = Some cb" "AppHost d (callback_name cb) = Inr h" "hostOrLocal h = nodeID" "apply_callback d cb = Inr d'" "status = 200"
    using assms(2) by (auto simp: CallbackHandler_def hostOrLocal_def split: option.splits sum.splits if_splits)
  then obtain b where b: "b \<in> set (app_tbl d)" "a_Name b = callback_name cb" "hostOrLocal (a_Host b) = nodeID"
    by (auto simp: AppHost_def dest: tbl_find_Some split: option.splits)
  have apps: "a \<in> set (app_tbl d')" if "a \<in> set (app_tbl d)" "hostOrLocal (a_Host a) \<noteq> nodeID" for a
  proof -
    have "a_Name a \<noteq> callback_name cb"
      using that b name_eq_iff[OF assms(1) b(1) that(1)] by auto
    then show ?thesis
      using apply_callback_apps[OF cb(4) that(1)] by simp
  qed
  show ?thesis
  proof (cases cb)
    case (SnapshotsCallback n snaps)
    obtain x where x: "tbl_find (\<lambda>a. a_Name a = n) (app_tbl d) = Some x"
        "d' = d\<lparr>snapshot_tbl := fold (merge_snapshot d n) snaps (tbl_delete (\<lambda>r. app_row_sel (a_ID x) n (s_app_id r) (s_AppName r)) (snapshot_tbl d))\<rparr>"
      using cb(4) SnapshotsCallback by (auto simp: ReplaceAppSnapshots_def Let_def split: option.splits)
    have "x = b"
      using tbl_find_Some[OF x(1)] b SnapshotsCallback name_eq_iff[OF assms(1) b(1), of x] by simp
    have added: "s_AppName r = n" if "r \<in> set (snapshot_tbl d')" "r \<notin> set (snapshot_tbl d)" for r
      using that fold_merge_new[of r d n snaps "tbl_delete (\<lambda>r. app_row_sel (a_ID x) n (s_app_id r) (s_AppName r)) (snapshot_tbl d)"] unfolding x(2) by (auto simp: tbl_delete_def)
    have gone: "app_row_sel (a_ID b) (a_Name b) (s_app_id r) (s_AppName r) \<or> s_ID r \<in> s_ID ` set snaps"
      if "r \<in> set (snapshot_tbl d)" "r \<notin> set (snapshot_tbl d')" for r
      using that fold_merge_frame[of r "tbl_delete (\<lambda>r. app_row_sel (a_ID x) n (s_app_id r) (s_AppName r)) (snapshot_tbl d)" snaps d n] b(2) SnapshotsCallback
      unfolding x(2) \<open>x = b\<close> by (auto simp: tbl_delete_def)
    show ?thesis
      using cb(1,5) apps b SnapshotsCallback apply_callback_beside[OF cb(4)] by (auto dest!: added gone)
  next
    case (PowerCallback n off)
    then show ?thesis
      using cb apps apply_callback_beside[OF cb(4)] by (auto simp: SetAppPoweredOff_def upd_app_def)
  next
    case (UsageCallback n mb)
    then show ?thesis
      using cb apps apply_callback_beside[OF cb(4)] by (auto simp: UpdateAppUsage_def upd_app_checked_def checkAffected_def upd_app_def split: if_splits)
  qed
qed simp

text \<open>A snapshot id that another app uses is the exception: the report of a node takes the record over, whoever hosts the other app.\<close>

lemma report_takes_over_record:
  assumes "db_unique d" "a \<in> set (app_tbl d)" "hostOrLocal (a_Host a) = nodeID" and "r \<in> set (snapshot_tbl d)" and "s_AppName r \<noteq> a_Name a"
  shows "r \<notin> set (snapshot_tbl (fst (CallbackHandler nodeID (Some (SnapshotsCallback (a_Name a) [Snapshot.truncate r])) d)))"
proof -
  have "AppHost d (a_Name a) = Inr (a_Host a)" "tbl_find (\<lambda>x. a_Name x = a_Name a) (app_tbl d) = Some a"
    using find_by_name[OF assms(1), of "a_Name a" a] assms(2) by (simp_all add: AppHost_def)
  moreover have "r \<noteq> snapshot_row_of d (a_Name a) x" for x
    using assms(5) by (auto simp: snapshot_row_of_def dest: arg_cong[where f = s_AppName])
  moreover have "s_ID (snapshot_row_of d n x) = s_ID x" for n x
    by (simp add: snapshot_row_of_def)
  ultimately show ?thesis
    using assms(3) by (auto simp: CallbackHandler_def ReplaceAppSnapshots_def Let_def merge_snapshot_def tbl_insert_or_replace_def tbl_delete_def snapshot_conflict_def
        hostOrLocal_def Snapshot.defs split: if_splits)
qed

subsection \<open>Samples\<close>

definition deploy_req :: sock_req where
  "deploy_req = \<lparr>sr_Method = ''POST'', sr_Path = ''/v1/self/deploy'', sr_Header = [(AppRelayHeader, [''victim''])]\<rparr>"

lemma deploy_routed: "mux_route self_entries ''POST'' ''/v1/self/deploy'' = Inr SelfDeploy"
  by (simp add: mux_route_def clean_path_def self_entries_def self_routes_def containerPrefixes_def method_matches_def)

theorem app_socket_reaches_self_witness:
  "appSocketHandler Some (nd_db (fst (Sync node0 (snd (syncState one_snapshot_db 0 ''local''))))) (Some (\<lambda>q. if True then Some (AppRelayHandler one_snapshot_db ''local'' q) else None))
     (Some 1000000) deploy_req = Handled plain_app SelfDeploy \<and> plain_app \<in> set (app_tbl one_snapshot_db)"
proof
  have m: "app_tbl (nd_db (fst (Sync node0 (snd (syncState one_snapshot_db 0 ''local''))))) = [mirror_row plain_app]"
    using pushed_mirror[OF one_snapshot_db_unique, of 0 node0 "''local''"] by (simp add: node0_def one_snapshot_db_def Apps_def on_host_def hostOrLocal_def plain_app_def)
  then have u: "AppByUID (nd_db (fst (Sync node0 (snd (syncState one_snapshot_db 0 ''local''))))) 1000000 = Inr (mirror_row plain_app)"
    by (simp add: AppByUID_def) (simp add: mirror_row_def plain_app_def)
  have a: "Store_App one_snapshot_db ''blog'' = Inr plain_app" "a_Name (mirror_row plain_app) = ''blog''" "a_Host plain_app = ''local''"
    by (simp_all add: Store_App_def one_snapshot_db_def plain_app_def mirror_row_def)
  show run: "appSocketHandler Some (nd_db (fst (Sync node0 (snd (syncState one_snapshot_db 0 ''local''))))) (Some (\<lambda>q. if True then Some (AppRelayHandler one_snapshot_db ''local'' q) else None))
     (Some 1000000) deploy_req = Handled plain_app SelfDeploy"
    by (simp add: appSocketHandler_def u a relay_def AppRelayHandler_def Let_def selfMux_def relayApp_def deploy_req_def deploy_routed isOperatorPath_def
        containerAliasPrefix_def AppRelayPrefix_def HasPrefix_def TrimPrefix_def)
  show "plain_app \<in> set (app_tbl one_snapshot_db)"
    using app_socket_reaches_self[OF one_snapshot_db_unique, of 0 node0, OF _ _ run, of "[]" "\<lambda>_ _ _. None"] by (simp add: node0_def)
qed

theorem node_reports_confined_witness:
  "beside_reports (fst (CallbackHandler ''local'' (Some (SnapshotsCallback ''blog'' [])) one_snapshot_db)) = beside_reports one_snapshot_db \<and>
   snapshot_tbl (fst (CallbackHandler ''local'' (Some (SnapshotsCallback ''blog'' [])) one_snapshot_db)) = []"
  using node_reports_confined[OF one_snapshot_db_unique prod.collapse[symmetric], of "''local''" "Some (SnapshotsCallback ''blog'' [])"]
  by (simp add: CallbackHandler_def AppHost_def ReplaceAppSnapshots_def one_snapshot_db_def plain_app_def tbl_delete_def app_row_sel_def)

end
