(* ===== verification/Node_Rpc.thy ===== *)
theory Node_Rpc
  imports Node_Reconcile App_Socket "HOL-Library.Word"
begin

text \<open>
  How control's calls cross the wire to a node (\<open>node/link/remote.go\<close>, \<open>node/link/rpc.go\<close>): the verbs with their argument envelope, errors, the
  desired state, and the frames of a browser terminal (\<open>control/server_handler_terminal.go\<close>). JSON keeps every field, a zero value included, and replaces the
  bytes of a string that are not UTF-8. The lemmas show that what one side sends is what the other side acts on, and where it is not.
\<close>

section \<open>The verbs\<close>

record rpcReq =
  rq_Name :: string
  rq_Path :: string
  rq_To :: string
  rq_Command :: string
  rq_Label :: string
  rq_ID :: string
  rq_Lines :: int
  rq_TimeoutSec :: int
  rq_MemoryMB :: int
  rq_CPUMilli :: int
  rq_DiskMB :: int
  rq_Auto :: bool
  rq_AppKeys :: "string list"
  rq_ProfileKeys :: "string list"
  rq_Names :: "string list"

definition rpcReq_zero :: rpcReq where
  "rpcReq_zero = \<lparr>rq_Name = [], rq_Path = [], rq_To = [], rq_Command = [], rq_Label = [], rq_ID = [], rq_Lines = 0, rq_TimeoutSec = 0, rq_MemoryMB = 0,
     rq_CPUMilli = 0, rq_DiskMB = 0, rq_Auto = False, rq_AppKeys = [], rq_ProfileKeys = [], rq_Names = []\<rparr>"

text \<open>The calls of the node interface that go as an envelope, with their arguments: about an app, about its files, and the rest. A timeout is in nanoseconds.\<close>

datatype life_call =
    CallEnsure string | CallUp string | CallPowerOn string | CallStatus string | CallDown string | CallRestart string | CallStartApp string | CallStopApp string
  | CallRestartApp string | CallLogs string int | CallSystemLogs int | CallExec string string int

datatype file_call =
    CallListFiles string string | CallDeleteFile string string | CallMoveFile string string string | CallMakeDir string string | CallStatFile string string
  | CallFileExists string string

datatype ctl_call =
    CallSetKeys string "string list" "string list" | CallRename string string string | CallSetMemoryLimit string int | CallSetCPULimit string int
  | CallSetDiskLimit string int | CallSnapshots | CallTakeSnapshot string string bool | CallDeleteSnapshot string string | CallRollback string string
  | CallStates "string list" | CallHeartbeat

datatype agent_call = Life life_call | Files file_call | Ctl ctl_call

text \<open>Go's division truncates towards zero.\<close>

definition whole_seconds :: "int \<Rightarrow> int" where
  "whole_seconds t = (if t \<ge> 0 then t div 1000000000 else - ((- t) div 1000000000))"

text \<open>The client: the path behind \<open>/v1/\<close> and the envelope.\<close>

fun remote_life :: "life_call \<Rightarrow> string \<times> rpcReq" where
  "remote_life (CallEnsure n) = (''ensure'', rpcReq_zero\<lparr>rq_Name := n\<rparr>)"
| "remote_life (CallUp n) = (''up'', rpcReq_zero\<lparr>rq_Name := n\<rparr>)"
| "remote_life (CallPowerOn n) = (''poweron'', rpcReq_zero\<lparr>rq_Name := n\<rparr>)"
| "remote_life (CallStatus n) = (''status'', rpcReq_zero\<lparr>rq_Name := n\<rparr>)"
| "remote_life (CallDown n) = (''down'', rpcReq_zero\<lparr>rq_Name := n\<rparr>)"
| "remote_life (CallRestart n) = (''restart'', rpcReq_zero\<lparr>rq_Name := n\<rparr>)"
| "remote_life (CallStartApp n) = (''startapp'', rpcReq_zero\<lparr>rq_Name := n\<rparr>)"
| "remote_life (CallStopApp n) = (''stopapp'', rpcReq_zero\<lparr>rq_Name := n\<rparr>)"
| "remote_life (CallRestartApp n) = (''restartapp'', rpcReq_zero\<lparr>rq_Name := n\<rparr>)"
| "remote_life (CallLogs n lines) = (''logs'', rpcReq_zero\<lparr>rq_Name := n, rq_Lines := lines\<rparr>)"
| "remote_life (CallSystemLogs lines) = (''system-logs'', rpcReq_zero\<lparr>rq_Lines := lines\<rparr>)"
| "remote_life (CallExec n command timeout) = (''exec'', rpcReq_zero\<lparr>rq_Name := n, rq_Command := command, rq_TimeoutSec := whole_seconds timeout\<rparr>)"

fun remote_file :: "file_call \<Rightarrow> string \<times> rpcReq" where
  "remote_file (CallListFiles n dir) = (''listfiles'', rpcReq_zero\<lparr>rq_Name := n, rq_Path := dir\<rparr>)"
| "remote_file (CallDeleteFile n p) = (''deletefile'', rpcReq_zero\<lparr>rq_Name := n, rq_Path := p\<rparr>)"
| "remote_file (CallMoveFile n p q) = (''movefile'', rpcReq_zero\<lparr>rq_Name := n, rq_Path := p, rq_To := q\<rparr>)"
| "remote_file (CallMakeDir n p) = (''makedir'', rpcReq_zero\<lparr>rq_Name := n, rq_Path := p\<rparr>)"
| "remote_file (CallStatFile n p) = (''statfile'', rpcReq_zero\<lparr>rq_Name := n, rq_Path := p\<rparr>)"
| "remote_file (CallFileExists n p) = (''fileexists'', rpcReq_zero\<lparr>rq_Name := n, rq_Path := p\<rparr>)"

fun remote_ctl :: "ctl_call \<Rightarrow> string \<times> rpcReq" where
  "remote_ctl (CallSetKeys n as ps) = (''setkeys'', rpcReq_zero\<lparr>rq_Name := n, rq_AppKeys := as, rq_ProfileKeys := ps\<rparr>)"
| "remote_ctl (CallRename n m i) = (''rename'', rpcReq_zero\<lparr>rq_Name := n, rq_To := m, rq_ID := i\<rparr>)"
| "remote_ctl (CallSetMemoryLimit n mb) = (''setmemorylimit'', rpcReq_zero\<lparr>rq_Name := n, rq_MemoryMB := mb\<rparr>)"
| "remote_ctl (CallSetCPULimit n milli) = (''setcpulimit'', rpcReq_zero\<lparr>rq_Name := n, rq_CPUMilli := milli\<rparr>)"
| "remote_ctl (CallSetDiskLimit n mb) = (''setdisklimit'', rpcReq_zero\<lparr>rq_Name := n, rq_DiskMB := mb\<rparr>)"
| "remote_ctl CallSnapshots = (''snapshots'', rpcReq_zero)"
| "remote_ctl (CallTakeSnapshot n label auto) = (''snapshot'', rpcReq_zero\<lparr>rq_Name := n, rq_Label := label, rq_Auto := auto\<rparr>)"
| "remote_ctl (CallDeleteSnapshot n i) = (''deletesnapshot'', rpcReq_zero\<lparr>rq_Name := n, rq_ID := i\<rparr>)"
| "remote_ctl (CallRollback n i) = (''rollback'', rpcReq_zero\<lparr>rq_Name := n, rq_ID := i\<rparr>)"
| "remote_ctl (CallStates ns) = (''states'', rpcReq_zero\<lparr>rq_Names := ns\<rparr>)"
| "remote_ctl CallHeartbeat = (''heartbeat'', rpcReq_zero)"

fun remote_call :: "agent_call \<Rightarrow> string \<times> rpcReq" where
  "remote_call (Life c) = remote_life c"
| "remote_call (Files c) = remote_file c"
| "remote_call (Ctl c) = remote_ctl c"

text \<open>What a string becomes on its way through \<open>json.Marshal\<close>: a byte that starts no well-formed UTF-8 sequence is replaced by U+FFFD. The tail of a sequence is
  given by the ranges of its bytes; surrogates, overlong forms and code points over U+10FFFF are not well-formed.\<close>

definition utf8_tail :: "nat \<Rightarrow> (nat \<times> nat) list option" where
  "utf8_tail b =
     (if b < 0x80 then Some []
      else if 0xC2 \<le> b \<and> b \<le> 0xDF then Some [(0x80, 0xBF)]
      else if b = 0xE0 then Some [(0xA0, 0xBF), (0x80, 0xBF)]
      else if b = 0xED then Some [(0x80, 0x9F), (0x80, 0xBF)]
      else if 0xE1 \<le> b \<and> b \<le> 0xEF then Some [(0x80, 0xBF), (0x80, 0xBF)]
      else if b = 0xF0 then Some [(0x90, 0xBF), (0x80, 0xBF), (0x80, 0xBF)]
      else if 0xF1 \<le> b \<and> b \<le> 0xF3 then Some [(0x80, 0xBF), (0x80, 0xBF), (0x80, 0xBF)]
      else if b = 0xF4 then Some [(0x80, 0x8F), (0x80, 0xBF), (0x80, 0xBF)]
      else None)"

fun in_ranges :: "(nat \<times> nat) list \<Rightarrow> string \<Rightarrow> bool" where
  "in_ranges [] s = True"
| "in_ranges ((lo, hi) # rs) [] = False"
| "in_ranges ((lo, hi) # rs) (c # s) = (lo \<le> of_char c \<and> of_char c \<le> hi \<and> in_ranges rs s)"

definition rune_tail :: "string \<Rightarrow> nat option" where
  "rune_tail s = (case s of [] \<Rightarrow> None
     | c # s' \<Rightarrow> (case utf8_tail (of_char c) of None \<Rightarrow> None | Some rs \<Rightarrow> if in_ranges rs s' then Some (length rs) else None))"

definition replacementChar :: string where "replacementChar = [CHR 0xEF, CHR 0xBF, CHR 0xBD]"

function json_string :: "string \<Rightarrow> string" where
  "json_string [] = []"
| "json_string (c # s) = (case rune_tail (c # s) of None \<Rightarrow> replacementChar @ json_string s | Some n \<Rightarrow> c # take n s @ json_string (drop n s))"
  by pat_completeness auto
termination
  by (relation "measure length") auto

function valid_utf8 :: "string \<Rightarrow> bool" where
  "valid_utf8 [] = True"
| "valid_utf8 (c # s) = (case rune_tail (c # s) of None \<Rightarrow> False | Some n \<Rightarrow> valid_utf8 (drop n s))"
  by pat_completeness auto
termination
  by (relation "measure length") auto

text \<open>The envelope that arrives.\<close>

definition rpc_wire :: "rpcReq \<Rightarrow> rpcReq" where
  "rpc_wire q = q\<lparr>rq_Name := json_string (rq_Name q), rq_Path := json_string (rq_Path q), rq_To := json_string (rq_To q), rq_Command := json_string (rq_Command q),
     rq_Label := json_string (rq_Label q), rq_ID := json_string (rq_ID q), rq_AppKeys := map json_string (rq_AppKeys q),
     rq_ProfileKeys := map json_string (rq_ProfileKeys q), rq_Names := map json_string (rq_Names q)\<rparr>"

text \<open>The node: the call each registered verb makes of its envelope.\<close>

definition rpc_verbs :: "(string \<times> (rpcReq \<Rightarrow> agent_call)) list" where
  "rpc_verbs =
     [(''ensure'', \<lambda>q. Life (CallEnsure (rq_Name q))), (''up'', \<lambda>q. Life (CallUp (rq_Name q))), (''poweron'', \<lambda>q. Life (CallPowerOn (rq_Name q))), (''status'', \<lambda>q. Life (CallStatus (rq_Name q))),
      (''down'', \<lambda>q. Life (CallDown (rq_Name q))), (''restart'', \<lambda>q. Life (CallRestart (rq_Name q))), (''startapp'', \<lambda>q. Life (CallStartApp (rq_Name q))),
      (''stopapp'', \<lambda>q. Life (CallStopApp (rq_Name q))), (''restartapp'', \<lambda>q. Life (CallRestartApp (rq_Name q))), (''logs'', \<lambda>q. Life (CallLogs (rq_Name q) (rq_Lines q))),
      (''system-logs'', \<lambda>q. Life (CallSystemLogs (rq_Lines q))), (''exec'', \<lambda>q. Life (CallExec (rq_Name q) (rq_Command q) (rq_TimeoutSec q * 1000000000))),
      (''listfiles'', \<lambda>q. Files (CallListFiles (rq_Name q) (rq_Path q))), (''deletefile'', \<lambda>q. Files (CallDeleteFile (rq_Name q) (rq_Path q))),
      (''movefile'', \<lambda>q. Files (CallMoveFile (rq_Name q) (rq_Path q) (rq_To q))), (''makedir'', \<lambda>q. Files (CallMakeDir (rq_Name q) (rq_Path q))),
      (''statfile'', \<lambda>q. Files (CallStatFile (rq_Name q) (rq_Path q))), (''fileexists'', \<lambda>q. Files (CallFileExists (rq_Name q) (rq_Path q))),
      (''setkeys'', \<lambda>q. Ctl (CallSetKeys (rq_Name q) (rq_AppKeys q) (rq_ProfileKeys q))), (''rename'', \<lambda>q. Ctl (CallRename (rq_Name q) (rq_To q) (rq_ID q))),
      (''setmemorylimit'', \<lambda>q. Ctl (CallSetMemoryLimit (rq_Name q) (rq_MemoryMB q))), (''setdisklimit'', \<lambda>q. Ctl (CallSetDiskLimit (rq_Name q) (rq_DiskMB q))),
      (''setcpulimit'', \<lambda>q. Ctl (CallSetCPULimit (rq_Name q) (rq_CPUMilli q))), (''snapshot'', \<lambda>q. Ctl (CallTakeSnapshot (rq_Name q) (rq_Label q) (rq_Auto q))),
      (''snapshots'', \<lambda>_. Ctl CallSnapshots), (''deletesnapshot'', \<lambda>q. Ctl (CallDeleteSnapshot (rq_Name q) (rq_ID q))), (''rollback'', \<lambda>q. Ctl (CallRollback (rq_Name q) (rq_ID q))),
      (''states'', \<lambda>q. Ctl (CallStates (rq_Names q))), (''heartbeat'', \<lambda>_. Ctl CallHeartbeat)]"

definition rpc_serve :: "string \<Rightarrow> rpcReq \<Rightarrow> agent_call option" where
  "rpc_serve v q = map_option (\<lambda>f. f q) (map_of rpc_verbs v)"

section \<open>Errors\<close>

text \<open>A Go error as its callers see it: the sentinels it wraps and its text.\<close>

record gerr =
  ge_is :: "err list"
  ge_text :: string

definition wireErrs :: "(string \<times> err) list" where
  "wireErrs = [(''powered_off'', ErrPoweredOff), (''app_notfound'', ErrAppNotFound), (''snap_notfound'', ErrSnapshotNotFound), (''app_exists'', ErrAppExists),
     (''file_notfound'', ErrNotExist), (''invalid'', ErrInvalid), (''limit'', ErrLimitReached)]"

text \<open>\<open>order\<close> is the order in which Go ranges over that map.\<close>

definition errCode :: "(string \<times> err) list \<Rightarrow> gerr \<Rightarrow> string" where
  "errCode order e = (case find (\<lambda>(c, s). s \<in> set (ge_is e)) order of Some (c, s) \<Rightarrow> c | None \<Rightarrow> [])"

definition rpc_fail :: "(string \<times> err) list \<Rightarrow> gerr option \<Rightarrow> string \<times> string" where
  "rpc_fail order e = (case e of None \<Rightarrow> ([], []) | Some e \<Rightarrow> (ge_text e, errCode order e))"

text \<open>\<open>sentinel_text\<close> is the message of a sentinel.\<close>

definition decodeErr :: "(err \<Rightarrow> string) \<Rightarrow> string \<times> string \<Rightarrow> gerr option" where
  "decodeErr sentinel_text resp =
     (if fst resp = [] \<and> snd resp = [] then None
      else case map_of wireErrs (snd resp) of
        Some s \<Rightarrow> if fst resp \<noteq> [] \<and> fst resp \<noteq> sentinel_text s then Some \<lparr>ge_is = [s], ge_text = sentinel_text s @ '': '' @ fst resp\<rparr>
                  else Some \<lparr>ge_is = [s], ge_text = sentinel_text s\<rparr>
      | None \<Rightarrow> Some \<lparr>ge_is = [], ge_text = fst resp\<rparr>)"

text \<open>A raw stream reports its failure in two headers.\<close>

definition streamError :: "(err \<Rightarrow> string) \<Rightarrow> string \<Rightarrow> string \<times> string \<Rightarrow> gerr" where
  "streamError sentinel_text status hdr =
     (case map_of wireErrs (snd hdr) of Some s \<Rightarrow> \<lparr>ge_is = [s], ge_text = sentinel_text s\<rparr>
      | None \<Rightarrow> if fst hdr \<noteq> [] then \<lparr>ge_is = [], ge_text = fst hdr\<rparr> else \<lparr>ge_is = [], ge_text = ''node request failed: '' @ status\<rparr>)"

section \<open>The desired state\<close>

text \<open>A missing desired state goes out as an empty one; a body that does not decode arrives as a missing one.\<close>

definition remote_Reconcile :: "AppDesired list option \<Rightarrow> AppDesired list" where
  "remote_Reconcile desired = (case desired of None \<Rightarrow> [] | Some l \<Rightarrow> l)"

definition rpc_reconcile :: "(hcall \<Rightarrow> bool) \<Rightarrow> (listing \<Rightarrow> bool) \<Rightarrow> node_env \<Rightarrow> AppDesired list option \<Rightarrow> machine \<Rightarrow> machine" where
  "rpc_reconcile ok can ev body m = fst (Reconcile ok can ev body m)"

definition sliceDesired :: "AppDesired list option \<Rightarrow> string \<Rightarrow> AppDesired list option" where
  "sliceDesired desired nodeID = map_option (filter (\<lambda>ad. hostOrLocal (ps_Host (ad_Spec ad)) = nodeID)) desired"

text \<open>What each connected node is handed when the whole fleet is reconciled.\<close>

definition fleet_Reconcile :: "agents \<Rightarrow> AppDesired list option \<Rightarrow> (conn \<times> AppDesired list) list" where
  "fleet_Reconcile reg desired =
     concat (map (\<lambda>i. case Agent reg i of None \<Rightarrow> [] | Some c \<Rightarrow> [(c, remote_Reconcile (sliceDesired desired i))]) (IDs reg))"

section \<open>The terminal\<close>

type_synonym bytes = "8 word list"

definition terminalFrameData :: "8 word" where "terminalFrameData = of_char CHR ''d''"
definition terminalFrameResize :: "8 word" where "terminalFrameResize = of_char CHR ''r''"
definition terminalReadLimit :: nat where "terminalReadLimit = 64 * 1024"

text \<open>Both length bytes are conversions, which keep the low byte.\<close>

definition writeFrame :: "8 word \<Rightarrow> bytes \<Rightarrow> bytes" where
  "writeFrame kind payload = [kind, of_nat (length payload div 256), of_nat (length payload)] @ payload"

definition remote_Resize :: "16 word \<Rightarrow> 16 word \<Rightarrow> bytes" where
  "remote_Resize cols rows = writeFrame terminalFrameResize [ucast (drop_bit 8 cols), ucast cols, ucast (drop_bit 8 rows), ucast rows]"

text \<open>A message of the browser: input, or the resize a text decodes to. One over the limit ends the session.\<close>

datatype ws_msg = Binary bytes | Text "(16 word \<times> 16 word) option"

fun terminal_stream :: "ws_msg list \<Rightarrow> bytes" where
  "terminal_stream [] = []"
| "terminal_stream (Binary p # ms) = (if length p > terminalReadLimit then [] else writeFrame terminalFrameData p @ terminal_stream ms)"
| "terminal_stream (Text None # ms) = terminal_stream ms"
| "terminal_stream (Text (Some (cols, rows)) # ms) = (if cols > 0 \<and> rows > 0 then remote_Resize cols rows @ terminal_stream ms else terminal_stream ms)"

datatype pty_event = Input bytes | Resized "16 word" "16 word"

definition frame_event :: "8 word \<Rightarrow> bytes \<Rightarrow> pty_event list" where
  "frame_event kind payload =
     (if kind = terminalFrameData then [Input payload]
      else if kind = terminalFrameResize
        then (case payload of [a, b, c, d] \<Rightarrow> [Resized (push_bit 8 (ucast a) OR ucast b) (push_bit 8 (ucast c) OR ucast d)] | _ \<Rightarrow> [])
      else [])"

fun serveTerminal :: "bytes \<Rightarrow> pty_event list" where
  "serveTerminal (kind # hi # lo # rest) =
     (let n = unat hi * 256 + unat lo
      in if length rest < n then [] else frame_event kind (take n rest) @ serveTerminal (drop n rest))"
| "serveTerminal _ = []"

section \<open>What is sent is what is done\<close>

lemma rpc_verbs_distinct: "distinct (map fst rpc_verbs)"
  by (simp add: rpc_verbs_def)

text \<open>JSON keeps exactly the strings that are well-formed UTF-8.\<close>

lemma rune_tail_length: "rune_tail (c # s) = Some n \<Longrightarrow> n \<le> length s"
proof -
  have "in_ranges rs t \<Longrightarrow> length rs \<le> length t" for rs t
    by (induction rs t rule: in_ranges.induct) auto
  then show "rune_tail (c # s) = Some n \<Longrightarrow> n \<le> length s"
    by (auto simp: rune_tail_def split: option.splits if_splits)
qed

lemma rune_tail_replacement: "rune_tail (replacementChar @ s) = Some 2"
  by (simp add: rune_tail_def replacementChar_def utf8_tail_def)

lemma json_string_id_iff [simp]: "json_string s = s \<longleftrightarrow> valid_utf8 s"
proof (induction s rule: json_string.induct)
  case (2 c s)
  show ?case
  proof (cases "rune_tail (c # s)")
    case None
    have "replacementChar @ json_string s \<noteq> c # s"
      using rune_tail_replacement[of "json_string s"] None by (metis option.distinct(1))
    then show ?thesis
      using None by simp
  next
    case (Some n)
    have "take n s @ json_string (drop n s) = s \<longleftrightarrow> json_string (drop n s) = drop n s"
      by (metis append_take_drop_id same_append_eq)
    then show ?thesis
      using Some 2(2)[OF Some] by simp
  qed
qed simp

lemma map_json_id_iff [simp]: "map json_string ss = ss \<longleftrightarrow> list_all valid_utf8 ss"
  by (induction ss) auto

definition req_strings :: "rpcReq \<Rightarrow> string list" where
  "req_strings q = [rq_Name q, rq_Path q, rq_To q, rq_Command q, rq_Label q, rq_ID q] @ rq_AppKeys q @ rq_ProfileKeys q @ rq_Names q"

text \<open>C23: the two ends of the link agree on every verb that goes as an argument envelope (the twenty-nine of \<open>rpc_verbs\<close>; provisioning, the mirror, the desired state and
  the streams have documents of their own). The node makes of the envelope that arrives the call control made, with the same arguments, the timeout of a command cut to whole
  seconds, exactly when every string of the call is well-formed UTF-8: any other byte of a string is replaced on the way, and the node then acts on a different argument.\<close>

theorem rpc_call_roundtrip:
  "rpc_serve (fst (remote_call c)) (rpc_wire (snd (remote_call c))) =
     Some (case c of Life (CallExec n command timeout) \<Rightarrow> Life (CallExec n command (whole_seconds timeout * 1000000000)) | _ \<Rightarrow> c)
   \<longleftrightarrow> list_all valid_utf8 (req_strings (snd (remote_call c)))"
proof (cases c)
  case (Life l)
  then show ?thesis
    by (cases l) (auto simp: rpc_serve_def rpc_verbs_def rpcReq_zero_def rpc_wire_def req_strings_def)
next
  case (Files f)
  then show ?thesis
    by (cases f) (auto simp: rpc_serve_def rpc_verbs_def rpcReq_zero_def rpc_wire_def req_strings_def)
next
  case (Ctl k)
  then show ?thesis
    by (cases k) (auto simp: rpc_serve_def rpc_verbs_def rpcReq_zero_def rpc_wire_def req_strings_def)
qed

text \<open>A file whose name is the single byte \<open>FF\<close> is not the file the node is asked about.\<close>

theorem rpc_call_roundtrip_witness:
  "rpc_serve ''exec'' (rpc_wire (snd (remote_call (Life (CallExec ''blog'' ''ls'' 2500000000))))) = Some (Life (CallExec ''blog'' ''ls'' 2000000000)) \<and>
   rpc_serve ''deletefile'' (rpc_wire (snd (remote_call (Files (CallDeleteFile ''blog'' [CHR 0xFF]))))) \<noteq> Some (Files (CallDeleteFile ''blog'' [CHR 0xFF]))"
proof -
  have "list_all valid_utf8 (req_strings (snd (remote_call (Life (CallExec ''blog'' ''ls'' 2500000000)))))"
    by (simp add: req_strings_def rpcReq_zero_def rune_tail_def utf8_tail_def)
  moreover have "\<not> list_all valid_utf8 (req_strings (snd (remote_call (Files (CallDeleteFile ''blog'' [CHR 0xFF])))))"
    by (simp add: req_strings_def rpcReq_zero_def rune_tail_def utf8_tail_def)
  ultimately show ?thesis
    using rpc_call_roundtrip[of "Life (CallExec ''blog'' ''ls'' 2500000000)"] rpc_call_roundtrip[of "Files (CallDeleteFile ''blog'' [CHR 0xFF])"]
    by (simp add: whole_seconds_def)
qed

lemma find_sentinel:
  assumes "set order = set wireErrs" "ge_is e = [s]" "s \<in> snd ` set wireErrs"
  shows "map_of wireErrs (errCode order e) = Some s" "errCode order e \<noteq> []"
proof -
  obtain c where "find (\<lambda>(c, s). s \<in> set (ge_is e)) order = Some (c, s)" "(c, s) \<in> set wireErrs"
  proof (cases "find (\<lambda>(c, s). s \<in> set (ge_is e)) order")
    case None
    then show ?thesis
      using assms by (auto simp: find_None_iff)
  next
    case (Some x)
    then have "x \<in> set order" "snd x \<in> set (ge_is e)"
      by (auto simp: find_Some_iff split_beta)
    then have "x = (fst x, s)" "x \<in> set wireErrs"
      using assms by (auto simp: prod_eq_iff)
    then show ?thesis
      using that[of "fst x"] Some by simp
  qed
  then have "errCode order e = c" "map_of wireErrs c = Some s" "c \<noteq> []"
    by (auto simp: errCode_def wireErrs_def)
  then show "map_of wireErrs (errCode order e) = Some s" "errCode order e \<noteq> []"
    by simp_all
qed

text \<open>C24: an error survives the wire. An error of the node that wraps one of the sentinels control looks for arrives wrapping exactly that one, in whatever order
  Go ranges over the table, through an envelope and through the headers of a stream, so control answers with the same status; any other error with a text
  arrives with that text.\<close>

theorem rpc_errors_survive:
  assumes "set order = set wireErrs"
    and "ge_is e = [s] \<and> s \<in> snd ` set wireErrs \<or> set (ge_is e) \<inter> snd ` set wireErrs = {} \<and> ge_text e \<noteq> []"
  shows "\<exists>e'. decodeErr txt (rpc_fail order (Some e)) = Some e' \<and> ge_is (streamError txt status (rpc_fail order (Some e))) = ge_is e' \<and>
    (if ge_is e = [s] \<and> s \<in> snd ` set wireErrs then ge_is e' = [s] \<and> HasSuffix (ge_text e') (if ge_text e = [] then txt s else ge_text e)
     else e' = \<lparr>ge_is = [], ge_text = ge_text e\<rparr>)"
proof (cases "ge_is e = [s] \<and> s \<in> snd ` set wireErrs")
  case True
  then show ?thesis
    using find_sentinel[OF assms(1), of e s] HasSuffix_append[of "txt s @ '': ''" "ge_text e"] HasSuffix_append[of "[]" "txt s"]
    by (auto simp: decodeErr_def rpc_fail_def streamError_def)
next
  case False
  then have "find (\<lambda>(c, s). s \<in> set (ge_is e)) order = None"
    using assms by (force simp: find_None_iff)
  then have "errCode order e = []"
    by (simp add: errCode_def)
  moreover have "map_of wireErrs [] = None"
    by (simp add: wireErrs_def)
  ultimately show ?thesis
    using False assms(2) by (auto simp: decodeErr_def rpc_fail_def streamError_def)
qed

text \<open>The text that arrives has the sentinel's message twice, since the text that was sent began with it.\<close>

lemma decoded_text_doubled:
  assumes "set order = set wireErrs"
  shows "decodeErr (\<lambda>_. ''limit reached'') (rpc_fail order (Some \<lparr>ge_is = [ErrLimitReached], ge_text = ''limit reached: disk''\<rparr>)) =
    Some \<lparr>ge_is = [ErrLimitReached], ge_text = ''limit reached: limit reached: disk''\<rparr>"
  using find_sentinel[OF assms, of "\<lparr>ge_is = [ErrLimitReached], ge_text = ''limit reached: disk''\<rparr>" ErrLimitReached]
  by (simp add: decodeErr_def rpc_fail_def wireErrs_def[THEN arg_cong[where f = set]])

section \<open>The fleet's desired state\<close>

text \<open>The slice of a node is the document built for it.\<close>

lemma slice_is_desired:
  assumes "i \<noteq> []"
  shows "sliceDesired (Some (DesiredState env policy cpu d [])) i = Some (DesiredState env policy cpu d i)"
proof -
  have "hostOrLocal (hostOrLocal h) = hostOrLocal h" for h
    by (simp add: hostOrLocal_def)
  then show ?thesis
    using assms by (simp add: sliceDesired_def DesiredState_def filter_map comp_def split_beta)
qed

lemma desired_ids: "i \<noteq> [] \<Longrightarrow> desiredIDs (Some (DesiredState env policy cpu d i)) = Some (a_ID ` {a \<in> set (app_tbl d). hostOrLocal (a_Host a) = i})"
  by (auto simp: desiredIDs_def DesiredState_def Apps_def image_iff split_beta)

lemma sweep_keeps_known:
  assumes "reconcileOrphans ok can ev known m = (m', r)" "x \<in> known_ids known m"
  shows "map_of (mc_pool m') x = map_of (mc_pool m) x"
proof (cases "can ListUnits")
  case False
  then show ?thesis
    using assms(1) by (auto simp: reconcileOrphans_def Let_def endOrphanPass_def startOrphanPass_def)
next
  case True
  obtain b where "mc_pool b = mc_pool m" "mc_pool m' = mc_pool (fst (reconcileSubvolumes ok can (known_ids known m) b))"
    by (rule pass_pool[OF assms(1) True]) blast
  then show ?thesis
    using subvolumes_confirmed[of ok can "known_ids known m" b x] assms(2) by metis
qed

lemma fleet_handed:
  assumes "[] \<notin> set (map fst reg)"
  shows "(c, doc) \<in> set (fleet_Reconcile reg (Some (DesiredState env policy cpu d []))) \<longleftrightarrow>
    (\<exists>i. Agent reg i = Some c \<and> doc = DesiredState env policy cpu d i)"
proof -
  have ids: "i \<in> set (IDs reg)" "i \<noteq> []" if "Agent reg i = Some c" for i c
    using that assms by (auto simp: IDs_def Agent_def dest!: map_of_SomeD intro: rev_image_eqI)
  have slice: "remote_Reconcile (sliceDesired (Some (DesiredState env policy cpu d [])) i) = DesiredState env policy cpu d i" if "Agent reg i = Some c" for i
    using slice_is_desired[OF ids(2)[OF that]] by (simp add: remote_Reconcile_def)
  have "(c, doc) \<in> set (fleet_Reconcile reg (Some (DesiredState env policy cpu d []))) \<longleftrightarrow>
      (\<exists>i \<in> set (IDs reg). Agent reg i = Some c \<and> doc = remote_Reconcile (sliceDesired (Some (DesiredState env policy cpu d [])) i))"
    unfolding fleet_Reconcile_def by (auto split: option.splits intro!: bexI)
  then show ?thesis
    using ids(1) slice by metis
qed

text \<open>C22: reconciling the fleet harms no registered app. Exactly the connected nodes are handed a document, each the desired state control builds for it, which lists
  exactly the apps the registry places on that node; and the sweep a node runs with it leaves the subvolume of every one of those apps alone, whatever
  the node's mirror says and however often the app was missing before. (Every node has a name.)\<close>

theorem fleet_sweep_keeps_registered:
  assumes "[] \<notin> set (map fst reg)"
  shows "(\<forall>c doc. (c, doc) \<in> set (fleet_Reconcile reg (Some (DesiredState env policy cpu d []))) \<longleftrightarrow>
      (\<exists>i. Agent reg i = Some c \<and> doc = DesiredState env policy cpu d i))
    \<and> (\<forall>i c. Agent reg i = Some c \<longrightarrow>
        desiredIDs (Some (DesiredState env policy cpu d i)) = Some (a_ID ` {a \<in> set (app_tbl d). hostOrLocal (a_Host a) = i})
        \<and> (\<forall>a \<in> set (app_tbl d). hostOrLocal (a_Host a) = i \<longrightarrow>
             map_of (mc_pool (fst (reconcileOrphans ok can ev (desiredIDs (Some (DesiredState env policy cpu d i))) m))) (a_ID a) = map_of (mc_pool m) (a_ID a)))"
proof (intro conjI allI impI ballI)
  fix c doc
  show "(c, doc) \<in> set (fleet_Reconcile reg (Some (DesiredState env policy cpu d []))) \<longleftrightarrow> (\<exists>i. Agent reg i = Some c \<and> doc = DesiredState env policy cpu d i)"
    by (rule fleet_handed[OF assms])
next
  fix i c
  assume "Agent reg i = Some c"
  then have i: "i \<noteq> []"
    using assms by (auto simp: Agent_def dest!: map_of_SomeD intro: rev_image_eqI)
  then show ids: "desiredIDs (Some (DesiredState env policy cpu d i)) = Some (a_ID ` {a \<in> set (app_tbl d). hostOrLocal (a_Host a) = i})"
    by (rule desired_ids)
  fix a
  assume "a \<in> set (app_tbl d)" "hostOrLocal (a_Host a) = i"
  then have "a_ID a \<in> known_ids (desiredIDs (Some (DesiredState env policy cpu d i))) m"
    unfolding ids by (auto simp: known_ids_def)
  then show "map_of (mc_pool (fst (reconcileOrphans ok can ev (desiredIDs (Some (DesiredState env policy cpu d i))) m))) (a_ID a) = map_of (mc_pool m) (a_ID a)"
    using sweep_keeps_known[OF prod.collapse[symmetric]] by blast
qed

text \<open>A missing desired state means the mirror to a machine, but over the wire it becomes the statement that there is no app at all: to the node every subvolume is an orphan.\<close>

lemma nil_desired_orphans_all:
  "known_ids (desiredIDs None) m = set (map a_ID (Apps (mc_db m)))"
  "known_ids (desiredIDs (Some (remote_Reconcile None))) m = {}"
  by (simp_all add: known_ids_def desiredIDs_def remote_Reconcile_def)

section \<open>Terminal frames\<close>

text \<open>What the shell should see of the messages of the browser.\<close>

fun pty_events :: "ws_msg list \<Rightarrow> pty_event list" where
  "pty_events [] = []"
| "pty_events (Binary p # ms) = Input p # pty_events ms"
| "pty_events (Text None # ms) = pty_events ms"
| "pty_events (Text (Some (cols, rows)) # ms) = (if cols > 0 \<and> rows > 0 then Resized cols rows # pty_events ms else pty_events ms)"

lemma length_bytes: "unat (of_nat (n div 256) :: 8 word) * 256 + unat (of_nat n :: 8 word) = n mod 65536"
proof -
  have "unat (of_nat (n div 256) :: 8 word) = n div 256 mod 256" "unat (of_nat n :: 8 word) = n mod 256"
    by (simp_all add: unat_of_nat)
  moreover have "n mod (256 * 256) = 256 * (n div 256 mod 256) + n mod 256"
    by (rule mod_mult2_eq)
  ultimately show ?thesis
    by simp
qed

text \<open>A frame as the node reads it: as many bytes of it as its length modulo 65536 says.\<close>

lemma serve_frame:
  "serveTerminal (writeFrame kind p @ rest) =
     (let n = length p mod 65536 in frame_event kind (take n p) @ serveTerminal (drop n p @ rest))"
proof -
  have "\<not> length p + length rest < length p mod 65536"
    using mod_less_eq_dividend[of "length p" 65536] by linarith
  then show ?thesis
    by (simp add: writeFrame_def length_bytes Let_def)
qed

lemma word16_bytes: "push_bit 8 (ucast (ucast (drop_bit 8 w) :: 8 word)) OR ucast (ucast w :: 8 word) = (w :: 16 word)"
  by (rule bit_word_eqI) (auto simp: bit_simps)

lemma serve_resize: "serveTerminal (remote_Resize cols rows @ rest) = Resized cols rows # serveTerminal rest"
  by (simp add: remote_Resize_def serve_frame frame_event_def terminalFrameData_def terminalFrameResize_def word16_bytes)

text \<open>C25: the shell sees what the browser sends. As long as every message is shorter than the limit, the node reads from the stream exactly the input and the sizes of
  the messages, in their order, whatever bytes they hold.\<close>

theorem terminal_input_delivered:
  assumes "list_all (\<lambda>msg. case msg of Binary p \<Rightarrow> length p < terminalReadLimit | Text _ \<Rightarrow> True) ms"
  shows "serveTerminal (terminal_stream ms) = pty_events ms"
  using assms
proof (induction ms rule: pty_events.induct)
  case (2 p ms)
  then show ?case
    by (simp add: serve_frame frame_event_def terminalReadLimit_def)
qed (simp_all add: serve_resize)

text \<open>A message of exactly the limit is let through, but its length does not fit the two bytes of the header: the node takes it for an empty frame, and its bytes for frames.\<close>

lemma message_at_limit_desyncs:
  assumes "length p = terminalReadLimit"
  shows "serveTerminal (terminal_stream (Binary p # ms)) = Input [] # serveTerminal (p @ terminal_stream ms)"
  using assms by (simp add: serve_frame frame_event_def terminalReadLimit_def)

subsection \<open>Samples\<close>

theorem rpc_errors_survive_witness:
  "decodeErr (\<lambda>_. ''limit reached'') (rpc_fail wireErrs (Some \<lparr>ge_is = [ErrLimitReached], ge_text = ''disk''\<rparr>)) =
     Some \<lparr>ge_is = [ErrLimitReached], ge_text = ''limit reached: disk''\<rparr>"
proof -
  have "ErrLimitReached \<in> snd ` set wireErrs"
    by (simp add: wireErrs_def)
  then obtain e' where "decodeErr (\<lambda>_. ''limit reached'') (rpc_fail wireErrs (Some \<lparr>ge_is = [ErrLimitReached], ge_text = ''disk''\<rparr>)) = Some e'" "ge_is e' = [ErrLimitReached]"
    using rpc_errors_survive[OF refl, of "\<lparr>ge_is = [ErrLimitReached], ge_text = ''disk''\<rparr>" ErrLimitReached "\<lambda>_. ''limit reached''"] by auto
  then show ?thesis
    by (auto simp: decodeErr_def rpc_fail_def errCode_def wireErrs_def)
qed

text \<open>The node holds the subvolume of the registered \<open>app_1\<close> and has counted it an orphan once, with an empty mirror.\<close>

definition doubted_machine :: machine where
  "doubted_machine = stale_machine\<lparr>mc_pool := [(''app_1'', Subvol wiki_tree), (''app_2'', Subvol wiki_tree)],
     mc_orphansLast := {orphan_key ''subvol'' ''app_1'', orphan_key ''subvol'' ''app_2''}\<rparr>"

theorem fleet_sweep_keeps_registered_witness:
  "(1, DesiredState env0 (\<lambda>_. ([], 0, 0)) Map.empty one_snapshot_db ''local'') \<in>
     set (fleet_Reconcile [(''local'', 1)] (Some (DesiredState env0 (\<lambda>_. ([], 0, 0)) Map.empty one_snapshot_db []))) \<and>
   map_of (mc_pool (fst (reconcileOrphans (\<lambda>_. True) (\<lambda>_. True) sample_env
     (desiredIDs (Some (DesiredState env0 (\<lambda>_. ([], 0, 0)) Map.empty one_snapshot_db ''local''))) doubted_machine))) ''app_1'' = Some (Subvol wiki_tree)"
proof -
  have a: "plain_app \<in> set (app_tbl one_snapshot_db)" "hostOrLocal (a_Host plain_app) = ''local''" "a_ID plain_app = ''app_1''"
    by (simp_all add: one_snapshot_db_def hostOrLocal_def plain_app_def)
  have g: "Agent [(''local'', 1 :: nat)] ''local'' = Some 1" "map_of (mc_pool doubted_machine) ''app_1'' = Some (Subvol wiki_tree)" "[] \<notin> set (map fst [(''local'', 1 :: nat)])"
    by (simp_all add: Agent_def doubted_machine_def)
  note all = fleet_sweep_keeps_registered[OF g(3), of env0 "\<lambda>_. ([], 0, 0)" Map.empty one_snapshot_db "\<lambda>_. True" "\<lambda>_. True" sample_env doubted_machine]
  show ?thesis
    using all[THEN conjunct1] all[THEN conjunct2, rule_format, OF g(1), THEN conjunct2, rule_format, OF a(1,2)] a(3) g(1,2) by metis
qed

theorem terminal_input_delivered_witness:
  "serveTerminal (terminal_stream [Binary [108, 115, 10], Text (Some (120, 40)), Text None, Binary []]) = [Input [108, 115, 10], Resized 120 40, Input []]"
  by (subst terminal_input_delivered) (simp_all add: terminalReadLimit_def)

end
