(* ===== verification/Outbound_Guard.thy ===== *)
theory Outbound_Guard
  imports Prelude "HOL-Library.Word"
begin

unbundle bit_operations_syntax

text \<open>
  The guard on URLs a user supplied (\<open>http/outbound/outbound.go\<close>): an address is a list of bytes as in Go's \<open>net.IP\<close>, of length 4 or 16, and the tests of
  the \<open>net\<close> package are those of its source. Parsing an address, a CIDR and a URL are arguments. The lemmas compare the byte tests with
  a table of networks read as numbers.
\<close>

type_synonym byte = "8 word"
type_synonym ip = "byte list"

section \<open>Addresses\<close>

definition To4 :: "ip \<Rightarrow> ip option" where
  "To4 p = (if length p = 4 then Some p
     else if length p = 16 \<and> take 10 p = replicate 10 0 \<and> p ! 10 = 0xFF \<and> p ! 11 = 0xFF then Some (drop 12 p) else None)"

definition IsLoopback :: "ip \<Rightarrow> bool" where
  "IsLoopback p = (case To4 p of Some v \<Rightarrow> v ! 0 = 127 | None \<Rightarrow> p = replicate 15 0 @ [1])"

definition IsPrivate :: "ip \<Rightarrow> bool" where
  "IsPrivate p =
     (case To4 p of
        Some v \<Rightarrow> v ! 0 = 10 \<or> v ! 0 = 172 \<and> v ! 1 AND 0xF0 = 16 \<or> v ! 0 = 192 \<and> v ! 1 = 168
      | None \<Rightarrow> length p = 16 \<and> p ! 0 AND 0xFE = 0xFC)"

definition IsUnspecified :: "ip \<Rightarrow> bool" where
  "IsUnspecified p = (To4 p = Some [0, 0, 0, 0] \<or> p = replicate 16 0)"

definition IsLinkLocalUnicast :: "ip \<Rightarrow> bool" where
  "IsLinkLocalUnicast p =
     (case To4 p of Some v \<Rightarrow> v ! 0 = 169 \<and> v ! 1 = 254 | None \<Rightarrow> length p = 16 \<and> p ! 0 = 0xFE \<and> p ! 1 AND 0xC0 = 0x80)"

definition IsLinkLocalMulticast :: "ip \<Rightarrow> bool" where
  "IsLinkLocalMulticast p =
     (case To4 p of Some v \<Rightarrow> v ! 0 = 224 \<and> v ! 1 = 0 \<and> v ! 2 = 0 | None \<Rightarrow> length p = 16 \<and> p ! 0 = 0xFF \<and> p ! 1 AND 0x0F = 2)"

definition IsInterfaceLocalMulticast :: "ip \<Rightarrow> bool" where
  "IsInterfaceLocalMulticast p = (length p = 16 \<and> p ! 0 = 0xFF \<and> p ! 1 AND 0x0F = 1)"

definition IsMulticast :: "ip \<Rightarrow> bool" where
  "IsMulticast p = (case To4 p of Some v \<Rightarrow> v ! 0 AND 0xF0 = 0xE0 | None \<Rightarrow> length p = 16 \<and> p ! 0 = 0xFF)"

section \<open>The guard\<close>

text \<open>The address embedded in a 6to4 or a NAT64 address.\<close>

definition embedded :: "ip \<Rightarrow> ip option" where
  "embedded p =
     (if length p \<noteq> 16 \<or> To4 p \<noteq> None then None
      else if p ! 0 = 0x20 \<and> p ! 1 = 0x02 then Some (take 4 (drop 2 p))
      else if p ! 0 = 0 \<and> p ! 1 = 0x64 \<and> p ! 2 = 0xFF \<and> p ! 3 = 0x9B then Some (drop 12 p)
      else None)"

lemma embedded_length: "embedded p = Some e \<Longrightarrow> length e = 4 \<and> length p = 16"
  by (auto simp: embedded_def split: if_splits)

function publiclyRoutable :: "ip \<Rightarrow> bool" where
  "publiclyRoutable p =
     (if IsLoopback p \<or> IsPrivate p \<or> IsUnspecified p \<or> IsLinkLocalUnicast p \<or> IsLinkLocalMulticast p \<or> IsInterfaceLocalMulticast p \<or> IsMulticast p
      then False
      else (case embedded p of Some e \<Rightarrow> publiclyRoutable e | None \<Rightarrow> True) \<and>
        (case To4 p of
           Some v \<Rightarrow> \<not> (v ! 0 = 100 \<and> v ! 1 \<ge> 64 \<and> v ! 1 \<le> 127) \<and> \<not> (v ! 0 = 0 \<or> v ! 0 \<ge> 240)
         | None \<Rightarrow> True))"
  by pat_completeness auto
termination
  by (relation "measure length") (auto dest: embedded_length)

record IPNet =
  nt_IP :: ip
  nt_Mask :: ip

definition networkNumberAndMask :: "IPNet \<Rightarrow> (ip \<times> ip) option" where
  "networkNumberAndMask n =
     (let a = (case To4 (nt_IP n) of Some v \<Rightarrow> v | None \<Rightarrow> nt_IP n); k = nt_Mask n
      in if length a \<noteq> 4 \<and> length a \<noteq> 16 then None
         else if length k = length a then Some (a, k)
         else if length k = 16 \<and> length a = 4 then Some (a, drop 12 k)
         else None)"

definition Contains :: "IPNet \<Rightarrow> ip \<Rightarrow> bool" where
  "Contains n p0 =
     (let p = (case To4 p0 of Some v \<Rightarrow> v | None \<Rightarrow> p0)
      in case networkNumberAndMask n of None \<Rightarrow> p = []
         | Some (a, k) \<Rightarrow> length p = length a \<and> list_all (\<lambda>i. a ! i AND k ! i = p ! i AND k ! i) [0..<length p])"

datatype guard_err = ErrBlockedAddress | ErrBadScheme | ErrBadCIDR

text \<open>\<open>split\<close> is \<open>net.SplitHostPort\<close>: the host, or an error.\<close>

definition checkDialAddress :: "(string \<Rightarrow> string option) \<Rightarrow> (string \<Rightarrow> ip option) \<Rightarrow> string \<Rightarrow> IPNet list \<Rightarrow> guard_err option" where
  "checkDialAddress split parseIP address allowPrivateNets =
     (let host = (case split address of Some h \<Rightarrow> h | None \<Rightarrow> address)
      in case parseIP host of None \<Rightarrow> Some ErrBlockedAddress
         | Some p \<Rightarrow>
             if publiclyRoutable p then None
             else if list_ex (\<lambda>n. Contains n p) allowPrivateNets then None else Some ErrBlockedAddress)"

fun ParseCIDRs :: "(string \<Rightarrow> IPNet option) \<Rightarrow> string list \<Rightarrow> guard_err + IPNet list" where
  "ParseCIDRs parse [] = Inr []"
| "ParseCIDRs parse (c # cs) =
     (if TrimSpace c = [] then ParseCIDRs parse cs
      else case parse (TrimSpace c) of None \<Rightarrow> Inl ErrBadCIDR
           | Some n \<Rightarrow> (case ParseCIDRs parse cs of Inl e \<Rightarrow> Inl e | Inr ns \<Rightarrow> Inr (n # ns)))"

text \<open>\<open>parse\<close> gives the scheme and the host of a URL.\<close>

definition CheckURL :: "(string \<Rightarrow> (string \<times> string) option) \<Rightarrow> string \<Rightarrow> guard_err option" where
  "CheckURL parse raw =
     (case parse (TrimSpace raw) of None \<Rightarrow> Some ErrBadScheme
      | Some (scheme, host) \<Rightarrow> if scheme \<noteq> ''http'' \<and> scheme \<noteq> ''https'' then Some ErrBadScheme else if host = [] then Some ErrBadScheme else None)"

section \<open>Networks as numbers\<close>

definition num :: "ip \<Rightarrow> int" where
  "num p = foldl (\<lambda>n b. n * 256 + uint b) 0 p"

text \<open>The address lies in the network: the leading bits agree.\<close>

definition in_net :: "ip \<Rightarrow> ip \<times> nat \<Rightarrow> bool" where
  "in_net p n = (length p = length (fst n) \<and> num p div 2 ^ (8 * length p - snd n) = num (fst n) div 2 ^ (8 * length p - snd n))"

definition special4 :: "(ip \<times> nat) list" where
  "special4 = [([0, 0, 0, 0], 8), ([10, 0, 0, 0], 8), ([100, 64, 0, 0], 10), ([127, 0, 0, 0], 8), ([169, 254, 0, 0], 16), ([172, 16, 0, 0], 12),
     ([192, 168, 0, 0], 16), ([224, 0, 0, 0], 4), ([240, 0, 0, 0], 4)]"

definition special6 :: "(ip \<times> nat) list" where
  "special6 = [(replicate 16 0, 128), (replicate 15 0 @ [1], 128), (0xFC # replicate 15 0, 7), ([0xFE, 0x80] @ replicate 14 0, 10), (0xFF # replicate 15 0, 8)]"

text \<open>The IPv4 address a connection to this address ends up at, by the assigned networks that the comment of \<open>publiclyRoutable\<close> names: the
  address itself, an IPv4-mapped (\<open>::ffff:0:0/96\<close>), 6to4 (\<open>2002::/16\<close>), NAT64 (\<open>64:ff9b::/96\<close>) or IPv4-compatible (\<open>::/96\<close>) address.\<close>

abbreviation mapped_net :: "ip \<times> nat" where "mapped_net \<equiv> (replicate 10 0 @ [0xFF, 0xFF] @ replicate 4 0, 96)"
abbreviation six_to_four_net :: "ip \<times> nat" where "six_to_four_net \<equiv> ([0x20, 0x02] @ replicate 14 0, 16)"
abbreviation nat64_net :: "ip \<times> nat" where "nat64_net \<equiv> (([0, 0x64, 0xFF, 0x9B] @ replicate 8 0) @ replicate 4 0, 96)"
abbreviation nat64_wide_net :: "ip \<times> nat" where "nat64_wide_net \<equiv> ([0, 0x64, 0xFF, 0x9B] @ replicate 12 0, 32)"
abbreviation compatible_net :: "ip \<times> nat" where "compatible_net \<equiv> (replicate 12 0 @ replicate 4 0, 96)"

definition v4_of :: "ip \<Rightarrow> ip option" where
  "v4_of p =
     (if length p = 4 then Some p
      else if in_net p mapped_net then Some (drop 12 p)
      else if in_net p six_to_four_net then Some (take 4 (drop 2 p))
      else if in_net p nat64_net then Some (drop 12 p)
      else if in_net p compatible_net then Some (drop 12 p)
      else None)"

definition public_address :: "ip \<Rightarrow> bool" where
  "public_address p = (\<not> list_ex (in_net p) special6 \<and> (case v4_of p of Some v \<Rightarrow> \<not> list_ex (in_net v) special4 | None \<Rightarrow> True))"

text \<open>The IPv4 address the code judges an address by.\<close>

definition judged_v4 :: "ip \<Rightarrow> ip option" where
  "judged_v4 p =
     (if length p = 4 then Some p
      else if in_net p mapped_net then Some (drop 12 p)
      else if in_net p six_to_four_net then Some (take 4 (drop 2 p))
      else if in_net p nat64_wide_net then Some (drop 12 p)
      else None)"

lemma num_append: "num (xs @ ys) = num xs * 256 ^ length ys + num ys"
proof (induction ys rule: rev_induct)
  case (snoc y ys)
  have "num (zs @ [y]) = num zs * 256 + uint y" for zs
    by (simp add: num_def)
  then show ?case
    using snoc by (simp flip: append_assoc add: algebra_simps)
qed (simp add: num_def)

lemma byte_range: "0 \<le> uint (b :: byte)" "uint (b :: byte) < 256"
  using uint_range_size[of b] by (simp_all add: word_size)

lemma byte_div: "0 \<le> uint (b :: byte) div 64" "uint b div 64 < 4" "0 \<le> uint b div 16" "uint b div 16 < 16"
  using byte_range[of b] by linarith+

lemma num_range: "0 \<le> num p \<and> num p < 256 ^ length p"
proof (induction p rule: rev_induct)
  case (snoc y ys)
  then show ?case
    using byte_range[of y] by (simp add: num_def)
qed (simp add: num_def)

text \<open>Masks of a byte are divisions.\<close>

lemma mask_high:
  fixes x :: int
  assumes "0 \<le> x" "x < 256"
  shows "x AND 240 = 16 * (x div 16)" "x AND 254 = 2 * (x div 2)" "x AND 192 = 64 * (x div 64)"
proof -
  have r: "0 \<le> x div 16" "x div 16 < 16" "0 \<le> x div 2" "x div 2 < 128" "0 \<le> x div 64" "x div 64 < 4"
    using assms by linarith+
  have t: "take_bit 4 (x div 16) = x div 16" "take_bit 7 (x div 2) = x div 2" "take_bit 2 (x div 64) = x div 64"
    using r by (simp_all add: take_bit_int_eq_self)
  have "x AND (mask 8 AND NOT (mask 4)) = 16 * (x div 16)" "x AND (mask 8 AND NOT (mask 1)) = 2 * (x div 2)" "x AND (mask 8 AND NOT (mask 6)) = 64 * (x div 64)"
    using slice_eq_mask[of 4 4 x] slice_eq_mask[of 1 7 x] slice_eq_mask[of 6 2 x] t
    by (simp_all add: and.assoc push_bit_eq_mult drop_bit_eq_div mult.commute)
  then show "x AND 240 = 16 * (x div 16)" "x AND 254 = 2 * (x div 2)" "x AND 192 = 64 * (x div 64)"
    by (simp_all add: mask_eq_exp_minus_1)
qed

lemma byte_tests:
  fixes b :: byte
  shows "(b AND 0xF0 = 16) = (uint b div 16 = 1)" "(b AND 0xF0 = 0xE0) = (uint b div 16 = 14)" "(b AND 0xFE = 0xFC) = (uint b div 2 = 126)"
    "(b AND 0xC0 = 0x80) = (uint b div 64 = 2)"
  using mask_high[OF byte_range[of b]] by (simp_all add: word_eq_iff_unsigned[where 'a = int] unsigned_and_eq)

lemma byte_eq: "(b :: byte) = c \<longleftrightarrow> uint b = uint c"
  by (rule word_eq_iff_unsigned)

section \<open>The byte tests are the table\<close>

declare publiclyRoutable.simps [simp del]

definition routable_v4 :: "byte \<Rightarrow> byte \<Rightarrow> bool" where
  "routable_v4 a b = (\<not> (a = 127 \<or> a = 10 \<or> a = 172 \<and> b AND 0xF0 = 16 \<or> a = 192 \<and> b = 168 \<or> a = 169 \<and> b = 254 \<or> a AND 0xF0 = 0xE0 \<or>
     a = 100 \<and> b \<ge> 64 \<and> b \<le> 127 \<or> a = 0 \<or> a \<ge> 240))"

lemma To4_plain: "To4 [a, b, c, d] = Some [a, b, c, d]"
  by (simp add: To4_def)

lemma To4_length: "To4 p = Some v \<Longrightarrow> length v = 4"
  by (auto simp: To4_def split: if_splits)

lemma routable_To4:
  assumes "To4 p = Some v"
  shows "publiclyRoutable p = routable_v4 (v ! 0) (v ! 1)"
proof -
  have e: "embedded p = None"
    using assms by (simp add: embedded_def)
  have z: "p \<noteq> replicate 16 0" "\<not> IsInterfaceLocalMulticast p"
    using assms by (auto simp: To4_def IsInterfaceLocalMulticast_def nth_append dest: arg_cong[where f = "\<lambda>x. x ! 0"] split: if_splits)
  obtain a b c d where v: "v = [a, b, c, d]"
    using To4_length[OF assms] by (auto simp: numeral_eq_Suc length_Suc_conv)
  have "(224 :: byte) AND 0xF0 = 0xE0"
    by simp
  then show ?thesis
    using assms e z v
    by (auto simp: publiclyRoutable.simps[of p] IsLoopback_def IsPrivate_def IsUnspecified_def IsLinkLocalUnicast_def IsLinkLocalMulticast_def IsMulticast_def routable_v4_def)
qed

lemma num4: "num [a, b, c, d] = ((uint a * 256 + uint b) * 256 + uint c) * 256 + uint d"
  by (simp add: num_def)

lemma div_shift: "0 \<le> r \<Longrightarrow> r < k \<Longrightarrow> (x * k + r) div k = x" for x r k :: int
  by simp

lemma digit_eq:
  fixes x :: int
  assumes "0 \<le> r" "r < k" "0 \<le> s" "s < k"
  shows "x * k + r = y * k + s \<longleftrightarrow> x = y \<and> r = s"
  using div_shift[OF assms(1,2), of x] div_shift[OF assms(3,4), of y] by auto

lemma num4_div:
  "num [a, b, c, d] div 16777216 = uint a" "num [a, b, c, d] div 4194304 = uint a * 4 + uint b div 64" "num [a, b, c, d] div 1048576 = uint a * 16 + uint b div 16"
  "num [a, b, c, d] div 65536 = uint a * 256 + uint b" "num [a, b, c, d] div 268435456 = uint a div 16"
proof -
  note r = byte_range[of a] byte_range[of b] byte_range[of c] byte_range[of d]
  have split: "num [a, b, c, d] = uint a * 16777216 + uint b * 65536 + (uint c * 256 + uint d)" "0 \<le> uint c * 256 + uint d" "uint c * 256 + uint d < 65536"
    using r by (simp_all add: num4)
  show "num [a, b, c, d] div 16777216 = uint a"
    using split r by linarith
  show "num [a, b, c, d] div 65536 = uint a * 256 + uint b"
    using split r by linarith
  show "num [a, b, c, d] div 4194304 = uint a * 4 + uint b div 64"
    using split r by linarith
  show "num [a, b, c, d] div 1048576 = uint a * 16 + uint b div 16"
    using split r by linarith
  show "num [a, b, c, d] div 268435456 = uint a div 16"
    using split r by linarith
qed

lemma routable_v4_table: "routable_v4 a b = (\<not> list_ex (in_net [a, b, c, d]) special4)"
proof -
  have "list_ex (in_net [a, b, c, d]) special4 \<longleftrightarrow>
      uint a = 0 \<or> uint a = 10 \<or> uint a * 4 + uint b div 64 = 401 \<or> uint a = 127 \<or> uint a * 256 + uint b = 43518 \<or> uint a * 16 + uint b div 16 = 2753 \<or>
      uint a * 256 + uint b = 49320 \<or> uint a div 16 = 14 \<or> uint a div 16 = 15"
    by (simp add: special4_def in_net_def num4_div)
  moreover have "routable_v4 a b \<longleftrightarrow> \<not> (uint a = 127 \<or> uint a = 10 \<or> uint a = 172 \<and> uint b div 16 = 1 \<or> uint a = 192 \<and> uint b = 168 \<or> uint a = 169 \<and> uint b = 254 \<or>
      uint a div 16 = 14 \<or> uint a = 100 \<and> uint b \<ge> 64 \<and> uint b \<le> 127 \<or> uint a = 0 \<or> uint a \<ge> 240)"
    unfolding routable_v4_def byte_tests by (simp add: byte_eq word_le_def)
  moreover have "uint a * 256 + uint b = 43518 \<longleftrightarrow> uint a = 169 \<and> uint b = 254" "uint a * 256 + uint b = 49320 \<longleftrightarrow> uint a = 192 \<and> uint b = 168"
    using byte_range[of b] digit_eq[of "uint b" 256 254 "uint a" 169] digit_eq[of "uint b" 256 168 "uint a" 192] by simp_all
  moreover have "uint a * 4 + uint b div 64 = 401 \<longleftrightarrow> uint a = 100 \<and> uint b div 64 = 1" "uint a * 16 + uint b div 16 = 2753 \<longleftrightarrow> uint a = 172 \<and> uint b div 16 = 1"
    using byte_div[of b] digit_eq[of "uint b div 64" 4 1 "uint a" 100] digit_eq[of "uint b div 16" 16 1 "uint a" 172] by simp_all
  moreover have "uint b div 64 = 1 \<longleftrightarrow> uint b \<ge> 64 \<and> uint b \<le> 127"
    using byte_range[of b] by auto
  moreover have "uint a div 16 = 15 \<longleftrightarrow> uint a \<ge> 240"
    using byte_range[of a] by auto
  ultimately show ?thesis
    by blast
qed

lemma routable_To4_table: "To4 p = Some v \<Longrightarrow> publiclyRoutable p = (\<not> list_ex (in_net v) special4)"
proof -
  assume t: "To4 p = Some v"
  obtain a b c d where "v = [a, b, c, d]"
    using To4_length[OF t] by (auto simp: numeral_eq_Suc length_Suc_conv)
  then show ?thesis
    using routable_To4[OF t] routable_v4_table[of a b c d] by simp
qed

lemma num_inj: "length p = length q \<Longrightarrow> num p = num q \<longleftrightarrow> p = q"
proof (induction p q rule: rev_induct2)
  case (4 x xs y ys)
  have "num xs * 256 + uint x = num ys * 256 + uint y \<longleftrightarrow> num xs = num ys \<and> uint x = uint y"
    by (rule digit_eq) (rule byte_range)+
  then show ?case
    using 4 by (simp add: num_append byte_eq num_def[of "[x]"] num_def[of "[y]"])
qed simp_all

lemma num_head: "length r = 14 \<Longrightarrow> num (a # b # r) div 2 ^ (112 + k) = (uint a * 256 + uint b) div 2 ^ k"
proof -
  assume l: "length r = 14"
  have h: "num (a # b # r) = (uint a * 256 + uint b) * 2 ^ 112 + num r"
    using num_append[of "[a, b]" r] l by (simp add: num_def[of "[a, b]"])
  have "num (a # b # r) div 2 ^ 112 = uint a * 256 + uint b"
    unfolding h by (rule div_shift) (use num_range[of r] l in simp_all)
  then show ?thesis
    by (simp add: power_add zdiv_zmult2_eq)
qed

lemma in_net_head:
  assumes "length r = 14" "length s = 14" "n \<le> 16"
  shows "in_net (a # b # r) (c # d # s, n) \<longleftrightarrow> (uint a * 256 + uint b) div 2 ^ (16 - n) = (uint c * 256 + uint d) div 2 ^ (16 - n)"
proof -
  have "8 * length (a # b # r) - n = 112 + (16 - n)"
    using assms by simp
  then show ?thesis
    unfolding in_net_def fst_conv snd_conv using assms by (simp only: num_head list.size add_0_left) simp
qed

lemma in_special6:
  assumes "length r = 14"
  shows "list_ex (in_net (a # b # r)) special6 \<longleftrightarrow>
    a # b # r = replicate 16 0 \<or> a # b # r = replicate 15 0 @ [1] \<or> a AND 0xFE = 0xFC \<or> a = 0xFE \<and> b AND 0xC0 = 0x80 \<or> a = 0xFF"
proof -
  have heads: "in_net (a # b # r) (0xFC # replicate 15 0, 7) \<longleftrightarrow> (uint a * 256 + uint b) div 512 = 126"
    "in_net (a # b # r) ([0xFE, 0x80] @ replicate 14 0, 10) \<longleftrightarrow> (uint a * 256 + uint b) div 64 = 1018"
    "in_net (a # b # r) (0xFF # replicate 15 0, 8) \<longleftrightarrow> (uint a * 256 + uint b) div 256 = 255"
    using assms in_net_head[of r "replicate 14 0" 7 a b "0xFC" 0] in_net_head[of r "replicate 14 0" 10 a b "0xFE" "0x80"] in_net_head[of r "replicate 14 0" 8 a b "0xFF" 0]
      replicate_Suc[of 14 "0 :: byte"]
    by simp_all
  have "(uint a * 256 + uint b) div 512 = uint a div 2" "(uint a * 256 + uint b) div 64 = uint a * 4 + uint b div 64" "(uint a * 256 + uint b) div 256 = uint a"
    using byte_range[of b] by linarith+
  moreover have "uint a * 4 + uint b div 64 = 1018 \<longleftrightarrow> uint a = 254 \<and> uint b div 64 = 2"
    using byte_div[of b] digit_eq[of "uint b div 64" 4 2 "uint a" 254] by simp
  ultimately have bytes: "(uint a * 256 + uint b) div 512 = 126 \<longleftrightarrow> uint a div 2 = 126"
    "(uint a * 256 + uint b) div 64 = 1018 \<longleftrightarrow> uint a = 254 \<and> uint b div 64 = 2"
    "(uint a * 256 + uint b) div 256 = 255 \<longleftrightarrow> uint a = 255"
    by simp_all
  have whole: "in_net (a # b # r) (q, 128) \<longleftrightarrow> a # b # r = q" if "length q = 16" for q
    using assms that num_inj[of "a # b # r" q] by (auto simp: in_net_def)
  have "(a = 0xFE) = (uint a = 254)" "(a = 0xFF) = (uint a = 255)"
    by (simp_all add: byte_eq)
  then show ?thesis
    using whole[of "replicate 16 0"] whole[of "replicate 15 0 @ [1]"] heads bytes byte_tests(3)[of a] byte_tests(4)[of b]
    by (auto simp: special6_def)
qed

lemma To4_not_special6:
  assumes "To4 p = Some v"
  shows "\<not> list_ex (in_net p) special6"
proof (cases "length p = 4")
  case True
  then show ?thesis
    by (simp add: special6_def in_net_def)
next
  case False
  then have "length p = 16" "p ! 10 = 0xFF" and z: "take 10 p = replicate 10 0"
    using assms by (auto simp: To4_def split: if_splits)
  moreover obtain a b r where p: "p = a # b # r"
    using \<open>length p = 16\<close> by (auto simp: numeral_eq_Suc length_Suc_conv)
  moreover have "a = 0"
    using z p by (simp add: numeral_eq_Suc)
  moreover have "p \<noteq> replicate 16 0" "p \<noteq> replicate 15 0 @ [1]"
    using \<open>p ! 10 = 0xFF\<close> by (auto simp: nth_append)
  ultimately show ?thesis
    using in_special6[of r a b] by simp
qed

lemma routable_v6:
  assumes "length p = 16" "To4 p = None"
  shows "publiclyRoutable p \<longleftrightarrow> \<not> list_ex (in_net p) special6 \<and> (case embedded p of Some e \<Rightarrow> \<not> list_ex (in_net e) special4 | None \<Rightarrow> True)"
proof -
  obtain a b r where p: "p = a # b # r" and r: "length r = 14"
    using assms(1) by (auto simp: numeral_eq_Suc length_Suc_conv)
  have "(if IsLoopback p \<or> IsPrivate p \<or> IsUnspecified p \<or> IsLinkLocalUnicast p \<or> IsLinkLocalMulticast p \<or> IsInterfaceLocalMulticast p \<or> IsMulticast p then False else True) \<longleftrightarrow>
      \<not> list_ex (in_net p) special6"
    using assms unfolding p in_special6[OF r]
    by (auto simp: IsLoopback_def IsPrivate_def IsUnspecified_def IsLinkLocalUnicast_def IsLinkLocalMulticast_def IsInterfaceLocalMulticast_def IsMulticast_def)
  moreover have "publiclyRoutable e = (\<not> list_ex (in_net e) special4)" if "embedded p = Some e" for e
    using routable_To4_table[of e e] embedded_length[OF that] by (simp add: To4_def)
  ultimately show ?thesis
    using assms(2) unfolding publiclyRoutable.simps[of p] by (auto split: option.splits)
qed

text \<open>A network whose prefix is whole bytes.\<close>

lemma in_net_bytes:
  assumes "length p = length q + k"
  shows "in_net p (q @ replicate k 0, 8 * length q) \<longleftrightarrow> take (length q) p = q"
proof -
  have b: "(256 :: int) ^ k = 2 ^ (8 * k)"
    by (simp add: power_mult)
  have high: "num (x @ r) div 2 ^ (8 * k) = num x" if "length r = k" for x r
    unfolding num_append that b using num_range[of r] that b by (intro div_shift) auto
  have "num p div 2 ^ (8 * k) = num (take (length q) p)"
    using high[of "drop (length q) p" "take (length q) p"] assms by simp
  moreover have "num (q @ replicate k 0) div 2 ^ (8 * k) = num q"
    using high[of "replicate k 0" q] by simp
  moreover have "8 * length p - 8 * length q = 8 * k"
    using assms by simp
  ultimately show ?thesis
    using assms num_inj[of "take (length q) p" q] by (simp add: in_net_def)
qed

lemma judged_v4_eq:
  assumes "length p = 4 \<or> length p = 16"
  shows "judged_v4 p = (case To4 p of Some v \<Rightarrow> Some v | None \<Rightarrow> embedded p)"
proof (cases "length p = 16")
  case True
  have mapped: "in_net p (replicate 10 0 @ [0xFF, 0xFF] @ replicate 4 0, 96) \<longleftrightarrow> take 12 p = replicate 10 0 @ [0xFF, 0xFF]"
    using in_net_bytes[of p "replicate 10 0 @ [0xFF, 0xFF]" 4] True by simp
  have tunnel: "in_net p ([0x20, 0x02] @ replicate 14 0, 16) \<longleftrightarrow> take 2 p = [0x20, 0x02]"
    using in_net_bytes[of p "[0x20, 0x02]" 14] True by (simp add: numeral_2_eq_2)
  have nat64: "in_net p ([0, 0x64, 0xFF, 0x9B] @ replicate 12 0, 32) \<longleftrightarrow> take 4 p = [0, 0x64, 0xFF, 0x9B]"
    using in_net_bytes[of p "[0, 0x64, 0xFF, 0x9B]" 12] True by (simp add: eval_nat_numeral(2,3))
  have bytes: "take 2 p = [p ! 0, p ! 1]" "take 4 p = [p ! 0, p ! 1, p ! 2, p ! 3]" "take 12 p = take 10 p @ [p ! 10, p ! 11]"
    using True by (simp_all add: take_Suc_conv_app_nth numeral_eq_Suc)
  show ?thesis
    unfolding judged_v4_def mapped tunnel nat64 using True by (simp add: bytes To4_def embedded_def)
next
  case False
  then show ?thesis
    using assms by (simp add: judged_v4_def To4_def)
qed

lemma publiclyRoutable_judged:
  assumes "length p = 4 \<or> length p = 16"
  shows "publiclyRoutable p \<longleftrightarrow>
    \<not> list_ex (in_net p) special6 \<and> (case judged_v4 p of Some v \<Rightarrow> \<not> list_ex (in_net v) special4 | None \<Rightarrow> True)"
proof (cases "To4 p")
  case None
  then have "length p = 16"
    using assms by (auto simp: To4_def)
  then show ?thesis
    using routable_v6[of p] None by (simp add: judged_v4_eq)
next
  case (Some v)
  then show ?thesis
    using routable_To4_table[of p v] To4_not_special6[of p v] assms by (simp add: judged_v4_eq)
qed

lemma net_bytes16:
  assumes "length p = 16"
  shows "in_net p mapped_net \<longleftrightarrow> take 12 p = replicate 10 0 @ [0xFF, 0xFF]" "in_net p six_to_four_net \<longleftrightarrow> take 2 p = [0x20, 0x02]"
    "in_net p nat64_net \<longleftrightarrow> take 12 p = [0, 0x64, 0xFF, 0x9B] @ replicate 8 0" "in_net p nat64_wide_net \<longleftrightarrow> take 4 p = [0, 0x64, 0xFF, 0x9B]"
    "in_net p compatible_net \<longleftrightarrow> take 12 p = replicate 12 0"
  using in_net_bytes[of p "replicate 10 0 @ [0xFF, 0xFF]" 4] in_net_bytes[of p "[0x20, 0x02]" 14] in_net_bytes[of p "[0, 0x64, 0xFF, 0x9B] @ replicate 8 0" 4]
    in_net_bytes[of p "[0, 0x64, 0xFF, 0x9B]" 12] in_net_bytes[of p "replicate 12 0" 4] assms
  by (simp_all add: numeral_2_eq_2 eval_nat_numeral(2,3))

lemma take12_bytes: "take 12 p = q \<Longrightarrow> take 2 p = take 2 q \<and> take 4 p = take 4 q"
  by auto

lemma in_nets_16: "in_net p compatible_net \<or> in_net p nat64_net \<or> in_net p nat64_wide_net \<Longrightarrow> length p = 16"
  by (auto simp: in_net_def)

lemma judged_compatible:
  assumes "in_net p compatible_net"
  shows "judged_v4 p = None"
proof -
  have l: "length p = 16" using assms in_nets_16 by blast
  then have t: "take 12 p = replicate 12 0" using assms net_bytes16(5) by blast
  have "take 2 (replicate 12 (0 :: byte)) \<noteq> [0x20, 0x02]" "take 4 (replicate 12 (0 :: byte)) \<noteq> [0, 0x64, 0xFF, 0x9B]"
      "replicate 12 (0 :: byte) \<noteq> replicate 10 0 @ [0xFF, 0xFF]"
    by code_simp+
  then have "take 2 p \<noteq> [0x20, 0x02]" "take 4 p \<noteq> [0, 0x64, 0xFF, 0x9B]" "take 12 p \<noteq> replicate 10 0 @ [0xFF, 0xFF]"
    using take12_bytes[OF t] t by metis+
  then show ?thesis using l net_bytes16(1,2,4)[OF l] by (simp add: judged_v4_def)
qed

lemma judged_wide:
  assumes "in_net p nat64_wide_net"
  shows "judged_v4 p = Some (drop 12 p)" "\<not> list_ex (in_net p) special6"
proof -
  have l: "length p = 16" using assms in_nets_16 by blast
  then have t: "take 4 p = [0, 0x64, 0xFF, 0x9B]" using assms net_bytes16(4) by blast
  obtain a b r where p: "p = a # b # r" "length r = 14"
    using l by (auto simp: numeral_eq_Suc length_Suc_conv)
  then have ab: "a = 0" "b = 0x64"
    using t by (simp_all add: take_Cons')
  have n: "take 2 p \<noteq> [0x20, 0x02]" "take 12 p \<noteq> replicate 10 0 @ [0xFF, 0xFF]"
    using p ab by (auto simp: take_Cons' nth_append dest!: arg_cong[where f = "\<lambda>x. x ! 1"])
  then show "judged_v4 p = Some (drop 12 p)"
    using assms l net_bytes16(1,2)[OF l] by (simp add: judged_v4_def)
  show "\<not> list_ex (in_net p) special6"
  proof -
    have "a # b # r \<noteq> replicate 16 0" "a # b # r \<noteq> replicate 15 0 @ [1]"
      using ab by (auto simp: nth_append dest!: arg_cong[where f = "\<lambda>x. x ! 1"])
    then show ?thesis
      using in_special6[OF p(2), of a b] p(1) ab by simp
  qed
qed

lemma judged_is_v4:
  assumes "length p = 4 \<or> length p = 16" "\<not> in_net p compatible_net" "\<not> (in_net p nat64_wide_net \<and> \<not> in_net p nat64_net)"
  shows "judged_v4 p = v4_of p"
proof (cases "length p = 16")
  case True
  have "in_net p nat64_net \<Longrightarrow> in_net p nat64_wide_net"
    using net_bytes16(3,4)[OF True] take12_bytes[of p "[0, 0x64, 0xFF, 0x9B] @ replicate 8 0"] by (simp add: take_Cons')
  then show ?thesis
    using True assms(2,3) by (auto simp: judged_v4_def v4_of_def)
next
  case False
  then show ?thesis
    using assms(1) by (simp add: judged_v4_def v4_of_def)
qed

text \<open>
  C19: What the guard's byte tests decide, against the table of networks read as numbers, without masks and byte comparisons. Everywhere but in two
  networks it is the specification of its comment: an address is taken to be public just when it lies in none of the listed IPv6 networks and the IPv4
  address it stands for (\<open>v4_of\<close>: itself, or the target of its mapped, 6to4 or NAT64 form) lies in none of the listed IPv4 networks. In the part of
  \<open>64:ff9b::/32\<close> outside \<open>64:ff9b::/96\<close>, where nothing is embedded, the code judges by the last four bytes all the same. And an
  IPv4-compatible address (\<open>::/96\<close>) is public unless it is \<open>::\<close> or \<open>::1\<close>, also when the IPv4 address it stands for is not: there the code departs from its comment.
\<close>

theorem publiclyRoutable_iff:
  assumes "length p = 4 \<or> length p = 16"
  shows "publiclyRoutable p =
    (if in_net p compatible_net then p \<noteq> replicate 16 0 \<and> p \<noteq> replicate 15 0 @ [1]
     else if in_net p nat64_wide_net \<and> \<not> in_net p nat64_net then \<not> list_ex (in_net (drop 12 p)) special4
     else public_address p)"
proof -
  have "publiclyRoutable p \<longleftrightarrow> p \<noteq> replicate 16 0 \<and> p \<noteq> replicate 15 0 @ [1]" if c: "in_net p compatible_net"
  proof -
    have l: "length p = 16" using c in_nets_16 by blast
    then obtain a b r where p: "p = a # b # r" "length r = 14"
      by (auto simp: numeral_eq_Suc length_Suc_conv)
    then have "a = 0"
      using net_bytes16(5)[OF l] c by (auto dest!: arg_cong[where f = "\<lambda>x. x ! 0"])
    then show ?thesis
      using publiclyRoutable_judged[OF assms] judged_compatible[OF c] in_special6[OF p(2), of a b] p by simp
  qed
  moreover have "publiclyRoutable p \<longleftrightarrow> \<not> list_ex (in_net (drop 12 p)) special4" if "in_net p nat64_wide_net"
    using publiclyRoutable_judged[OF assms] judged_wide[OF that] by simp
  moreover have "publiclyRoutable p \<longleftrightarrow> public_address p"
    if "\<not> in_net p compatible_net" "\<not> (in_net p nat64_wide_net \<and> \<not> in_net p nat64_net)"
    using publiclyRoutable_judged[OF assms] judged_is_v4[OF assms that] by (simp add: public_address_def)
  ultimately show ?thesis by simp
qed

theorem publiclyRoutable_iff_witness:
  "\<not> publiclyRoutable [0x20, 0x02, 169, 254, 169, 254, 0, 0, 0, 0, 0, 0, 0, 0, 0, 0] \<and> \<not> publiclyRoutable ([0, 0x64, 0xFF, 0x9B] @ replicate 8 0 @ [127, 0, 0, 1]) \<and>
   publiclyRoutable [192, 0, 2, 1] \<and>
   publiclyRoutable (replicate 12 0 @ [127, 0, 0, 1]) \<and> \<not> public_address (replicate 12 0 @ [127, 0, 0, 1])"
proof (intro conjI)
  show "\<not> publiclyRoutable [0x20, 0x02, 169, 254, 169, 254, 0, 0, 0, 0, 0, 0, 0, 0, 0, 0]"
    by (subst publiclyRoutable_iff) code_simp+
  show "\<not> publiclyRoutable ([0, 0x64, 0xFF, 0x9B] @ replicate 8 0 @ [127, 0, 0, 1])"
    by (subst publiclyRoutable_iff) code_simp+
  show "publiclyRoutable [192, 0, 2, 1]"
    by (subst publiclyRoutable_iff) code_simp+
  show "publiclyRoutable (replicate 12 0 @ [127, 0, 0, 1])"
    by (subst publiclyRoutable_iff) code_simp+
  show "\<not> public_address (replicate 12 0 @ [127, 0, 0, 1])"
    by code_simp
qed


text \<open>Nothing but an address is dialled, and an address that is not public only inside a network the operator listed.\<close>

lemma checkDialAddress_None:
  "checkDialAddress split parseIP address nets = None \<longleftrightarrow>
   (\<exists>p. parseIP (case split address of Some h \<Rightarrow> h | None \<Rightarrow> address) = Some p \<and> (publiclyRoutable p \<or> list_ex (\<lambda>n. Contains n p) nets))"
  by (auto simp: checkDialAddress_def split: option.splits)

text \<open>With no listed network an IPv4 target is never in a private, loopback, link-local, multicast or reserved range.\<close>

lemma dialled_v4_public:
  assumes "checkDialAddress split parseIP address [] = None"
    and "\<And>h q. parseIP h = Some q \<Longrightarrow> length q = 4 \<or> length q = 16"
  shows "\<exists>p. parseIP (case split address of Some h \<Rightarrow> h | None \<Rightarrow> address) = Some p \<and> \<not> list_ex (in_net p) special6 \<and>
    (case judged_v4 p of Some v \<Rightarrow> \<not> list_ex (in_net v) special4 | None \<Rightarrow> True)"
proof -
  obtain p where p: "parseIP (case split address of Some h \<Rightarrow> h | None \<Rightarrow> address) = Some p" "publiclyRoutable p"
    using assms(1) by (auto simp: checkDialAddress_None)
  then show ?thesis
    using assms(2)[OF p(1)] routable_v6[of p] routable_To4_table[of p] To4_not_special6[of p]
    by (cases "To4 p") (auto simp: judged_v4_eq To4_def[of p])
qed

text \<open>The list of allowed networks parses as a whole or not at all, and blank entries are skipped.\<close>

lemma ParseCIDRs_all: "ParseCIDRs parse cs = Inr ns \<Longrightarrow> map Some ns = map parse (filter (\<lambda>c. c \<noteq> []) (map TrimSpace cs))"
  by (induction cs arbitrary: ns) (auto split: if_splits option.splits sum.splits)

end
