(* ===== verification/Spec2Isabelle.thy ===== *)
theory Spec2Isabelle
  imports Lifecycle_Races Custom_Domains Agent_Output File_Handlers Credential_Custody Node_Rpc Outbound_Guard
begin

text \<open>
  A verification development of hostit, a self-hosted app platform. One control plane keeps a registry in SQLite (apps, users,
  tokens, grants, domains, snapshots, connections, nodes, proxies), decides who may do what, places apps on nodes, pushes each node a
  mirror of its part of the registry and each proxy a routing table. Nodes run the apps, proxies serve their traffic.

  The parts and the theories that model them (paths under \<open>src/\<close>):

  \<^item> \<open>Prelude\<close>: Go strings as byte lists, numbers and their decimal form, the generic table operations and their lemmas; \<open>err\<close> is the
    type of errors, \<open>'a res\<close> a result (\<open>Inl\<close> an error). A Go time is \<open>None\<close> for the zero time or its Unix seconds; clocks are nanoseconds.
  \<^item> \<open>Store_Schema\<close>, \<open>Store_Tokens\<close>, \<open>Store_Apps\<close>, \<open>Store_Users\<close>, \<open>Store_AppData\<close>, \<open>Store_Connections\<close>: the registry of \<open>store/\<close>. The database is
    the record \<open>db\<close>, a table a list of rows in rowid order, an SQL statement an operation on it, a violated constraint the error
    \<open>SqlUnique\<close>. Every method of \<open>store.Store\<close> on these tables is one definition of the same name (\<open>Store_\<close> in front where the name is a type's).
  \<^item> \<open>Grant_Table\<close>: the contract the collaborator, viewer and connection grants share, a locale with three interpretations.
  \<^item> \<open>Store_Invariant\<close>: the schema's uniqueness constraints and that every operation keeps them, as a step relation with reachability.
  \<^item> \<open>App_Attachments\<close>: the abstract registry, stable id to row and attached data, which deleting, renaming and re-owning refine.
  \<^item> \<open>Samples\<close>: the small registries the witnesses use.
  \<^item> \<open>User_Manager\<close>: \<open>control/user/\<close>, sign-in, invitations, limits, tokens, keys.
  \<^item> \<open>Signed_Token\<close>: \<open>control/session.go\<close> and \<open>proxy/grant/\<close>; a locale states what both formats promise about expiry.
  \<^item> \<open>Auth\<close>: \<open>control/auth.go\<close> and the lookups every handler starts with; a gate is a function from requests to callers or a status.
  \<^item> \<open>App_Handlers\<close>: the handlers for collaborators, viewers, transfer, visibility, gallery and limits; the answer is the HTTP status.
  \<^item> \<open>Routing\<close>: the routing table (\<open>control/proxies.go\<close>), the proxy's decision (\<open>proxy/\<close>) and control's own (\<open>control/appaccess.go\<close>).
  \<^item> \<open>Calendar\<close>, \<open>Retention\<close>: the proleptic Gregorian calendar and \<open>control/retention/\<close>; a locale describes a bucketing of time, interpreted for days,
    weeks and months.
  \<^item> \<open>Snapshot_Control\<close>: \<open>control/snapshotsched.go\<close> and \<open>control/snapshot.go\<close>.
  \<^item> \<open>Node_Link\<close>: \<open>control/registry.go\<close>, \<open>control/sync.go\<close>, \<open>node/machine_sync.go\<close>; a locale for connection tables, interpreted for nodes and proxies.
  \<^item> \<open>App_Lifecycle\<close>: \<open>control/manager.go\<close>, \<open>rename.go\<close>, \<open>archive.go\<close>, \<open>softdelete.go\<close>; the manager's memory is the record \<open>manager\<close>.
  \<^item> \<open>Lifecycle_Races\<close>: creates and deletes interleaved step by step, and renames that lose a race.
  \<^item> \<open>Custom_Domains\<close>: \<open>control/server_handler_domains.go\<close>, the front door \<open>control/proxy.go\<close> and the grant hand-over of \<open>control/appaccess.go\<close>; the
    record \<open>dserver\<close> adds the cache of active domains and the certificates in flight to the manager's state.
  \<^item> \<open>Account_Admin\<close>: \<open>control/server_handler_account.go\<close>, \<open>server_handler_admin.go\<close>, \<open>tabs.go\<close> and the create, fork, key and token handlers of
    \<open>server_handler_apps.go\<close>.
  \<^item> \<open>App_Config\<close>: \<open>app/config.go\<close> and \<open>app/snapshotwrite.go\<close>, the \<open>hostit.yml\<close> of an app: its rules, the snapshot interval with
    \<open>time.ParseDuration\<close>, and the line edits that write a description or a snapshot section into it.
  \<^item> \<open>Agent_Supervisor\<close>: \<open>agent/service.go\<close>, the loop inside an app's container. Its state is the record \<open>agent\<close> (flags, channels, crash count,
    state file, program point); \<open>agent_step\<close> takes one segment of \<open>Run\<close>, one receive, or one step of the signal handler.
  \<^item> \<open>Agent_Output\<close>: the rest of \<open>agent/service.go\<close>: the log file with its rotation, the time stamping writer, the reaper's channel; and
    \<open>agent/gobuildenv.go\<close>. A locale states what a sink must keep for the writer to keep it, interpreted for the rotating log.
  \<^item> \<open>Home_Files\<close>: \<open>homefs/service.go\<close>. A home is a map from paths to nodes, each system call may be refused; every operation of the service is one
    definition.
  \<^item> \<open>File_Handlers\<close>: \<open>control/files.go\<close> and \<open>control/server_handler_files.go\<close> over those homes.
  \<^item> \<open>Connection_Providers\<close>: \<open>control/connections/\<close> and \<open>control/providers.go\<close>: catalogue entries, scopes, the token endpoint's protocol, sealed secrets.
  \<^item> \<open>Credential_Custody\<close>: \<open>control/connections.go\<close> and \<open>control/server_handler_connections.go\<close>; the record \<open>conn_mgr\<close> has the registry, the key in
    memory, the key files and the token cache.
  \<^item> \<open>Authorized_Keys\<close>: \<open>system/ssh/keys.go\<close>, the managed block of an \<open>authorized_keys\<close> file.
  \<^item> \<open>Node_Machine\<close>: \<open>node/machine.go\<close>, \<open>machine_provision.go\<close>, \<open>machine_budget.go\<close>, \<open>machine_quota.go\<close> and \<open>workspace/\<close>: the record \<open>machine\<close> has the accounts, the pool of
    subvolumes and base trees, containers, units, budget groups, port rules and caches of a node; building and tearing down an app. A host command is a value of \<open>hcall\<close>,
    and \<open>ok\<close> says which of them succeed.
  \<^item> \<open>Node_Power\<close>: \<open>node/machine_deploy.go\<close>, \<open>machine_rename.go\<close>, \<open>machine_exec.go\<close>, \<open>machine_upgrade.go\<close> and the container arguments of \<open>workspace/spec.go\<close>: converging a container to its
    configuration, power, signals, commands, renaming a login.
  \<^item> \<open>Node_Snapshots\<close>: \<open>snapshot/service.go\<close> and \<open>node/machine_snapshot.go\<close>: taking, deleting and restoring snapshots.
  \<^item> \<open>Node_Reconcile\<close>: \<open>node/machine_reconcile.go\<close> and \<open>DesiredState\<close> of \<open>control/sync.go\<close>: converging a node and sweeping what deleted apps left. A locale states what the four
    sweeps share.
  \<^item> \<open>App_Socket\<close>: \<open>node/appsocket.go\<close>, \<open>control/apprelay.go\<close>, \<open>control/socket.go\<close>, \<open>control/server_handler_self.go\<close>, \<open>node/link/link.go\<close>: what an app may ask through its socket and
    a node may report.
  \<^item> \<open>Node_Rpc\<close>: \<open>node/link/remote.go\<close>, \<open>node/link/rpc.go\<close> and the stream of \<open>control/server_handler_terminal.go\<close>: verbs, errors, the desired state and terminal frames across the wire.
  \<^item> \<open>Outbound_Guard\<close>: \<open>http/outbound/outbound.go\<close>, which addresses a URL of a user may lead to; bytes are 8-bit words.

  What is shown. The registry keeps its constraints, and its per-app operations implement an abstract registry keyed by stable ids. No two registered
  apps share a port or uid block in any interleaving of creates and deletes, and a port is held by one of them at a time as long as none of the windows the code leaves open is hit;
  creating an app is all or nothing, reaping respects the grace period, limits stay within the
  owner's pool. Nobody passes a gate without the credential it asks for, an app token stays inside its app, and on a visitor's grant a proxy serves a private app
  exactly to those control would admit, from a table that converges whatever the order of pushes. Retention keeps exactly what the policy
  promises and never the last snapshot goes; with ticks that do not drift every due app comes up in bounded time. A verb reaches the node hosting the app
  and no other, and a pushed mirror agrees with the registry. A grant is only sent to a hostname the server holds for its app, and signing in to a private app
  completes. Creating an app keeps its owner within their limits, and deleting an account leaves nothing of it behind. A pause asked for by an owner
  takes effect in a bounded number of the agent's steps, without the command ending by itself, a command that keeps crashing is given up on, an app's log stays within its cap and is its
  output. A checked path stays inside the home and off hostit's own directories, uploads are all or nothing, an accepted archive is
  unpacked completely. An app is handed only credentials it was granted, and a key rotation keeps them all. On a node, an app that cannot be built leaves only what the
  commands that undo it failed to remove, building over a subvolume that is there keeps every file in it when it succeeds, a published base tree is complete and sealed, a rollback never loses the old tree,
  applying a configuration gives a container with the arguments it asks for, a key taken off an app is gone from its file and hand-added lines stay. The orphan sweep removes nothing that is wanted and nothing
  on first sight, and leftovers are gone after two passes. Through its socket an app reaches only itself, a node reports only on its own apps. Calls whose strings are UTF-8, errors and terminal input arrive at the other end of the link as they
  were sent, reconciling the fleet harms no registered app, and the byte tests of the outbound guard are the networks they stand for, but for two networks.

  Some theorems and lemmas show where the code departs from what it means to do: the window in which a dying app's port can be granted again, the
  misrouted compensation of a lost rename, two concurrent mirror pushes, the division by zero of a sub-second snapshot interval, the slot that drifting ticks jump, the
  transfer of an app to a viewer, the serving domain that a failed DNS lookup takes down, the domain of a deleted app that stays trusted, the
  public fork of a private app, the app token that outlives a collaborator's access, the description that replaces an unreadable
  configuration, the block scalar half of which stays behind, the failing build that looks running, the log that dies half-rotated, the rotation
  that orphans provider secrets or, interrupted, loses credentials, the consent that puts a refresh token where apps are handed it, the failed rebuild that deletes an app's files, the deploy that starts an app recorded as off, the rename
  that loses a CPU cap, the pruning of bases before the first sync, the marker without which hand-added keys are dropped, the container sweep that never finds anything of its own,
  the budget group destroyed on first sight, the snapshot record taken over by another node's report, the missing desired state that arrives as an empty one, the terminal message one byte too long for its header, and the IPv4-compatible address that passes the guard.

  Parameters. Code that is not in the repository is an argument: the SHA-256 of tokens, HMAC, Ed25519, base64, the SSH key parser, the digest of a
  table, the passwd lookup, the URL parser, random ids, the clock, the YAML decoder, the
  authenticated cipher, the token endpoint of a provider, the regular expressions of catalogue fields, the parsing of IP addresses and networks, the digest of a container's arguments, the command run in a container, which
  host commands succeed and which listings of a host can be read, and what a node or the operating system
  answers to a call. Hypotheses on them (base64 decodes what it
  encoded and has no bar in it, a signature verifies, a digest tells tables or argument lists apart, a sealed secret opens under its key and binding and no other) are stated in the theorems that need them.

  Bounds. All loops of the model are structural recursions or folds over lists that the code ranges over; the port scan takes as many steps as the range
  has ports. The duration parser and the line loop of the log consume their input and terminate by a measure; the supervision loop does not end, it is a step
  function. No fuel is used. Integers are unbounded where the code's values cannot reach 64 bits, and wrap or saturate where they can (\<open>Snapshot_Control\<close>).

  Not modelled: the command lines of podman, systemd, btrfs, nftables and useradd (their effect on the record \<open>machine\<close> is), the measurement of an app's state, terminals, the assistant's conversation loop, MCP, previews, certificate orders,
  the RPC transport, the command line programs and the web pages: these are I/O against systems outside
  the repository. Logging, metrics and notifications that change no state of the model are left out of the handlers that make them. Symbolic links in the homes of apps
  are not modelled. A method of the store is one step of the model and its statements fail only by a constraint: methods of several statements (\<open>RemoveApp\<close>, \<open>RemoveUser\<close>, \<open>TransferApps\<close>) run them one by one without a
  transaction in the code, and what a disk error between two of them leaves is not modelled, except for \<open>SetAppKeys\<close> inside \<open>create\<close>. Where the code is not atomic across methods
  and it matters, \<open>Lifecycle_Races\<close> and \<open>Node_Link\<close> split it into steps.
\<close>

section \<open>The registry\<close>

text \<open>What a unique table says of a key: rows that agree on it conflict, so its column has no duplicates.\<close>

lemma unique_distinct:
  assumes "tbl_unique c t" and "\<And>a b. k a = k b \<Longrightarrow> c a b"
  shows "distinct (map k t)"
  using assms by (induction t) (auto simp: tbl_unique_def image_iff)

lemma unique_distinct_some:
  assumes "tbl_unique c t" and "\<And>a b. P a \<Longrightarrow> P b \<Longrightarrow> k a = k b \<Longrightarrow> c a b"
  shows "distinct (map k (filter P t))"
  using assms by (induction t) (auto simp: tbl_unique_def image_iff)

text \<open>
  C1: The uniqueness constraints of the schema hold in every database the operations of the store can produce from the empty one, written out per
  column: no two apps share a name, a port or an id (other than the empty id of a legacy row), no two users an id or an email, no two
  tokens an id or a hash, no two SSH keys an id, no domain or hostname is listed twice, no two assistant sessions share an app
  name or app id, no two snapshots, events, connections or providers an id, no user has two connections of one slug and
  no owner two providers of one name, an app has one usage and one assistant row, nobody is listed twice as collaborator, viewer
  or pending viewer of an app, no connection is granted twice to an app, and nodes and proxies have distinct names. Every event id is
  at most the counter that the next one is drawn from.
\<close>

theorem store_reachable_unique:
  assumes "store_reachable d"
  shows "distinct (map a_Name (app_tbl d)) \<and> distinct (map a_Port (app_tbl d)) \<and> distinct (map a_ID (filter (\<lambda>a. a_ID a \<noteq> '''') (app_tbl d))) \<and>
    distinct (map u_ID (user_tbl d)) \<and> distinct (map u_Email (user_tbl d)) \<and>
    distinct (map tk_ID (token_tbl d)) \<and> distinct (map tk_Hash (token_tbl d)) \<and>
    distinct (map k_ID (user_key_tbl d)) \<and> distinct (map ad_Domain (allowed_domain_tbl d)) \<and>
    distinct (map as_app_name (assistant_session_tbl d)) \<and>
    distinct (map as_app_id (filter (\<lambda>r. as_app_id r \<noteq> '''') (assistant_session_tbl d))) \<and>
    distinct (map s_ID (snapshot_tbl d)) \<and> distinct (map d_Domain (app_domain_tbl d)) \<and>
    distinct (map e_ID (app_event_tbl d)) \<and> (\<forall>e \<in> set (app_event_tbl d). e_ID e \<le> app_event_seq d) \<and>
    distinct (map us_app_id (app_usage_tbl d)) \<and> distinct (map am_app_id (app_assistant_tbl d)) \<and>
    distinct (map (\<lambda>g. (g_app_id g, g_who g)) (app_collaborator_tbl d)) \<and> distinct (map (\<lambda>g. (g_app_id g, g_who g)) (app_viewer_tbl d)) \<and>
    distinct (map (\<lambda>g. (g_app_id g, g_who g)) (pending_viewer_tbl d)) \<and> distinct (map (\<lambda>g. (g_app_id g, g_who g)) (app_connection_tbl d)) \<and>
    distinct (map c_ID (connection_tbl d)) \<and> distinct (map (\<lambda>c. (c_UserID c, c_Slug c)) (connection_tbl d)) \<and>
    distinct (map pv_ID (provider_tbl d)) \<and> distinct (map (\<lambda>p. (pv_OwnerID p, pv_Name p)) (provider_tbl d)) \<and>
    distinct (map n_Name (node_tbl d)) \<and> distinct (map px_Name (proxy_tbl d))"
proof -
  note u = store_reachable_db_unique[OF assms, unfolded db_unique_def]
  show ?thesis
    by (intro conjI; (rule unique_distinct unique_distinct_some, use u in blast, simp add: conflict_defs)?) (use u in blast)
qed

text \<open>Two apps are registered; a third under the name of the first is refused.\<close>

definition two_added :: "db res" where
  "two_added = (case AddApp 0 ''r1'' empty_db plain_app of
     Inl e \<Rightarrow> Inl e
   | Inr (d, _) \<Rightarrow> (case AddApp 0 ''r2'' d (plain_app\<lparr>a_ID := ''app_2'', a_Name := ''wiki'', a_Port := 10001\<rparr>) of
       Inl e \<Rightarrow> Inl e | Inr (d', _) \<Rightarrow> Inr d'))"

theorem store_reachable_unique_witness:
  "\<exists>d. two_added = Inr d \<and> length (app_tbl d) = 2 \<and> distinct (map a_Port (app_tbl d)) \<and> AddApp 0 ''r3'' d (plain_app\<lparr>a_Port := 10002\<rparr>) = Inl SqlUnique"
proof -
  let ?wiki = "plain_app\<lparr>a_ID := ''app_2'', a_Name := ''wiki'', a_Port := 10001\<rparr>"
  obtain d1 a1 where 1: "AddApp 0 ''r1'' empty_db plain_app = Inr (d1, a1)"
    by (auto simp: AddApp_def tbl_insert_def conflicts_with_def empty_db_def Let_def)
  then have t1: "\<exists>b. app_tbl d1 = [b] \<and> a_Name b = ''blog'' \<and> a_Port b = 10000 \<and> a_ID b = ''app_1''"
    by (auto simp: AddApp_def tbl_insert_def conflicts_with_def empty_db_def plain_app_def Let_def)
  obtain d2 a2 where 2: "AddApp 0 ''r2'' d1 ?wiki = Inr (d2, a2)"
    using t1 by (auto simp: AddApp_def tbl_insert_def conflicts_with_def plain_app_def app_conflict_def Let_def)
  then have t2: "length (app_tbl d2) = 2" "\<exists>b \<in> set (app_tbl d2). a_Name b = ''blog''"
    using t1 by (auto simp: AddApp_def tbl_insert_def plain_app_def Let_def split: if_splits)
  have "store_reachable d2"
    using reach_step[OF reach_step[OF reach_init step_AddApp[OF 1]] step_AddApp[OF 2]] .
  from store_reachable_unique[OF this] have "distinct (map a_Port (app_tbl d2))" by blast
  moreover have "AddApp 0 ''r3'' d2 (plain_app\<lparr>a_Port := 10002\<rparr>) = Inl SqlUnique"
    using t2(2) by (auto simp: AddApp_def tbl_insert_def conflicts_with_iff app_conflict_def plain_app_def Let_def)
  ultimately show ?thesis using 1 2 t2 by (simp add: two_added_def)
qed

end
